(* ===== verification/Prelude.thy ===== *)
theory Prelude
  imports Main "HOL-Library.List_Lexorder" "HOL-Library.Char_ord"
begin

text \<open>
  Shared vocabulary of the development.

  \<^item> Fallible operations return \<open>'e + 'a\<close> (\<open>Inl\<close> is the thrown error).
  \<^item> A JavaScript \<open>Map\<close> is an association list in insertion order: \<open>mget\<close>, \<open>mset_kv\<close>
    and \<open>mdel\<close> are \<open>Map.get\<close>, \<open>Map.set\<close> (which keeps the position of a key that is
    already present) and \<open>Map.delete\<close>.
  \<^item> \<open>sort_by le\<close> is the stable \<open>Array.prototype.sort\<close> with a comparator; \<open>le x y\<close>
    says that the comparator does not put \<open>y\<close> strictly before \<open>x\<close>.
  \<^item> Strings are \<open>string\<close>, ordered lexicographically by code unit as JavaScript's \<open><\<close>
    orders them (code units below 256).
  \<^item> \<open>show_int\<close> is \<open>Number.prototype.toString\<close> on integers.
\<close>

subsection \<open>Results\<close>

named_theorems result_simps \<open>how the error monad computes\<close>
named_theorems map_simps \<open>how insertion-ordered maps look up and update\<close>

fun bindR :: "'e + 'a \<Rightarrow> ('a \<Rightarrow> 'e + 'b) \<Rightarrow> 'e + 'b" where
  "bindR (Inl e) f = Inl e"
| "bindR (Inr x) f = f x"

lemma bindR_Inr_iff [result_simps]:
  "bindR r f = Inr y \<longleftrightarrow> (\<exists>x. r = Inr x \<and> f x = Inr y)"
  by (cases r) auto

lemma bindR_Inl_iff [result_simps]:
  "bindR r f = Inl e \<longleftrightarrow> r = Inl e \<or> (\<exists>x. r = Inr x \<and> f x = Inl e)"
  by (cases r) auto

fun requireR :: "bool \<Rightarrow> 'e \<Rightarrow> 'e + unit" where
  "requireR True e = Inr ()"
| "requireR False e = Inl e"

lemma requireR_Inr_iff [result_simps]: "requireR b e = Inr u \<longleftrightarrow> b"
  by (cases b) auto

lemma requireR_Inl_iff [result_simps]: "requireR b e = Inl e' \<longleftrightarrow> \<not> b \<and> e' = e"
  by (cases b) auto

subsection \<open>Insertion-ordered maps\<close>

type_synonym ('k, 'v) jmap = "('k \<times> 'v) list"

abbreviation mget :: "('k, 'v) jmap \<Rightarrow> 'k \<Rightarrow> 'v option" where
  "mget m k \<equiv> map_of m k"

abbreviation mkeys :: "('k, 'v) jmap \<Rightarrow> 'k list" where
  "mkeys m \<equiv> map fst m"

abbreviation mvals :: "('k, 'v) jmap \<Rightarrow> 'v list" where
  "mvals m \<equiv> map snd m"

fun mset_kv :: "'k \<Rightarrow> 'v \<Rightarrow> ('k, 'v) jmap \<Rightarrow> ('k, 'v) jmap" where
  "mset_kv k v [] = [(k, v)]"
| "mset_kv k v ((k', v') # m) =
     (if k = k' then (k, v) # m else (k', v') # mset_kv k v m)"

definition mdel :: "'k \<Rightarrow> ('k, 'v) jmap \<Rightarrow> ('k, 'v) jmap" where
  "mdel k m = filter (\<lambda>(k', _). k' \<noteq> k) m"

lemma mget_mset_kv [simp, map_simps]:
  "mget (mset_kv k v m) k' = (if k' = k then Some v else mget m k')"
  by (induction m) auto

lemma mkeys_mset_kv [map_simps]:
  "mkeys (mset_kv k v m) = (if k \<in> set (mkeys m) then mkeys m else mkeys m @ [k])"
  by (induction k v m rule: mset_kv.induct) auto

lemma fst_set_mset_kv [simp, map_simps]:
  "fst ` set (mset_kv k v m) = insert k (fst ` set m)"
  by (simp only: set_map [symmetric] mkeys_mset_kv) auto

lemma distinct_mset_kv [intro]:
  "distinct (mkeys m) \<Longrightarrow> distinct (mkeys (mset_kv k v m))"
  by (simp add: mkeys_mset_kv)

lemma mset_kv_fresh [map_simps]: "k \<notin> set (mkeys m) \<Longrightarrow> mset_kv k v m = m @ [(k, v)]"
  by (induction m) auto

lemma mget_mdel [simp, map_simps]: "mget (mdel k m) k' = (if k' = k then None else mget m k')"
  by (induction m) (auto simp: mdel_def)

lemma fst_set_mdel [simp, map_simps]: "fst ` set (mdel k m) = fst ` set m - {k}"
  by (auto simp: mdel_def image_iff)

lemma distinct_mdel [intro]: "distinct (mkeys m) \<Longrightarrow> distinct (mkeys (mdel k m))"
  by (induction m) (auto simp: mdel_def)

lemma set_mdel: "set (mdel k m) = {p \<in> set m. fst p \<noteq> k}"
  by (auto simp: mdel_def)

lemma filter_other_keys: "k \<notin> set (mkeys m) \<Longrightarrow> {p \<in> set m. fst p \<noteq> k} = set m"
  by (auto simp: image_iff)

lemma set_mset_kv_distinct:
  "distinct (mkeys m) \<Longrightarrow>
     set (mset_kv k v m) = insert (k, v) {p \<in> set m. fst p \<noteq> k}"
proof (induction m)
  case (Cons p m)
  obtain k' v' where p: "p = (k', v')" by (cases p)
  show ?case
  proof (cases "k = k'")
    case True
    with Cons.prems p have "{q \<in> set m. fst q \<noteq> k} = set m"
      by (intro filter_other_keys) simp
    moreover have "{q \<in> set (p # m). fst q \<noteq> k} = {q \<in> set m. fst q \<noteq> k}"
      using True p by auto
    ultimately show ?thesis using True p by simp
  next
    case False
    then have "{q \<in> set (p # m). fst q \<noteq> k} = insert p {q \<in> set m. fst q \<noteq> k}"
      using p by auto
    moreover have "set (mset_kv k v (p # m)) = insert p (set (mset_kv k v m))"
      using False p by simp
    ultimately show ?thesis using Cons by (simp add: insert_commute)
  qed
qed simp

lemma mget_Some_in_keys [dest]: "mget m k = Some v \<Longrightarrow> k \<in> set (mkeys m)"
  by (auto dest: map_of_SomeD simp: image_iff intro: rev_bexI)

lemma some_and: "(case x of Some s \<Rightarrow> P s | None \<Rightarrow> False) \<longleftrightarrow> (\<exists>s. x = Some s \<and> P s)"
  by (cases x) auto

text \<open>A value in single quotes, as the messages print it.\<close>

definition quoted :: "string \<Rightarrow> string" where
  "quoted s = CHR 0x27 # s @ [CHR 0x27]"

lemma mget_None_iff: "mget m k = None \<longleftrightarrow> k \<notin> set (mkeys m)"
  by (simp add: map_of_eq_None_iff)

lemma find_Some_iff_split:
  "List.find P xs = Some x \<Longrightarrow> x \<in> set xs \<and> P x"
  by (induction xs) (auto split: if_splits)

lemma find_None_iff_all: "List.find P xs = None \<longleftrightarrow> (\<forall>x \<in> set xs. \<not> P x)"
  by (induction xs) auto

subsection \<open>Stable comparator sort\<close>

fun insort_by :: "('a \<Rightarrow> 'a \<Rightarrow> bool) \<Rightarrow> 'a \<Rightarrow> 'a list \<Rightarrow> 'a list" where
  "insort_by le x [] = [x]"
| "insort_by le x (y # ys) = (if le x y then x # y # ys else y # insort_by le x ys)"

definition sort_by :: "('a \<Rightarrow> 'a \<Rightarrow> bool) \<Rightarrow> 'a list \<Rightarrow> 'a list" where
  "sort_by le xs = foldr (insort_by le) xs []"

lemma set_insort_by [simp]: "set (insort_by le x ys) = insert x (set ys)"
  by (induction ys) auto

lemma set_sort_by [simp]: "set (sort_by le xs) = set xs"
  by (induction xs) (auto simp: sort_by_def)

lemma distinct_insort_by [simp]:
  "distinct (insort_by le x ys) \<longleftrightarrow> x \<notin> set ys \<and> distinct ys"
  by (induction ys) auto

lemma distinct_sort_by [simp]: "distinct (sort_by le xs) \<longleftrightarrow> distinct xs"
proof (induction xs)
  case Nil
  show ?case by (simp add: sort_by_def)
next
  case (Cons x xs)
  have "sort_by le (x # xs) = insort_by le x (sort_by le xs)"
    by (simp add: sort_by_def)
  with Cons show ?case by simp
qed

lemma length_insort_by [simp]: "length (insort_by le x ys) = Suc (length ys)"
  by (induction ys) auto

lemma length_sort_by [simp]: "length (sort_by le xs) = length xs"
  by (induction xs) (auto simp: sort_by_def)

text \<open>A comparator that is a total preorder sorts.\<close>

definition total_preorder_on :: "'a set \<Rightarrow> ('a \<Rightarrow> 'a \<Rightarrow> bool) \<Rightarrow> bool" where
  "total_preorder_on A le \<longleftrightarrow>
     (\<forall>x\<in>A. \<forall>y\<in>A. le x y \<or> le y x) \<and>
     (\<forall>x\<in>A. \<forall>y\<in>A. \<forall>z\<in>A. le x y \<longrightarrow> le y z \<longrightarrow> le x z)"

lemma total_preorder_on_subset:
  "total_preorder_on A le \<Longrightarrow> B \<subseteq> A \<Longrightarrow> total_preorder_on B le"
  unfolding total_preorder_on_def by blast

lemma sorted_wrt_insort_by:
  assumes "total_preorder_on (insert x (set ys)) le" and "sorted_wrt le ys"
  shows "sorted_wrt le (insort_by le x ys)"
  using assms
proof (induction ys)
  case Nil
  then show ?case by simp
next
  case (Cons y ys)
  show ?case
  proof (cases "le x y")
    case True
    have "le x z" if "z \<in> set ys" for z
    proof -
      have "le y z" using Cons.prems(2) that by simp
      moreover have "x \<in> insert x (set (y # ys))" "y \<in> insert x (set (y # ys))"
        "z \<in> insert x (set (y # ys))" using that by auto
      ultimately show ?thesis
        using Cons.prems(1) True unfolding total_preorder_on_def by blast
    qed
    with True Cons.prems(2) show ?thesis by simp
  next
    case False
    then have yx: "le y x" using Cons.prems(1) by (auto simp: total_preorder_on_def)
    have "total_preorder_on (insert x (set ys)) le"
      using Cons.prems(1) by (rule total_preorder_on_subset) auto
    then have "sorted_wrt le (insort_by le x ys)" using Cons.IH Cons.prems(2) by simp
    with False yx Cons.prems(2) show ?thesis by auto
  qed
qed

lemma sorted_wrt_sort_by:
  "total_preorder_on (set xs) le \<Longrightarrow> sorted_wrt le (sort_by le xs)"
proof (induction xs)
  case Nil
  show ?case by (simp add: sort_by_def)
next
  case (Cons x xs)
  then have "sorted_wrt le (sort_by le xs)"
    by (auto intro: Cons.IH total_preorder_on_subset)
  moreover have "total_preorder_on (insert x (set (sort_by le xs))) le"
    using Cons.prems by simp
  moreover have "sort_by le (x # xs) = insort_by le x (sort_by le xs)"
    by (simp add: sort_by_def)
  ultimately show ?case by (simp add: sorted_wrt_insort_by)
qed

subsection \<open>Decimal printing\<close>

definition digit_char :: "nat \<Rightarrow> char" where
  "digit_char d = char_of (48 + d)"

fun show_nat :: "nat \<Rightarrow> string" where
  "show_nat n = (if n < 10 then [digit_char n] else show_nat (n div 10) @ [digit_char (n mod 10)])"

declare show_nat.simps [simp del]

definition show_int :: "int \<Rightarrow> string" where
  "show_int i = (if i < 0 then CHR ''-'' # show_nat (nat (- i)) else show_nat (nat i))"

definition digit_val :: "char \<Rightarrow> nat" where
  "digit_val c = of_char c - 48"

definition read_nat :: "string \<Rightarrow> nat" where
  "read_nat s = foldl (\<lambda>a c. a * 10 + digit_val c) 0 s"

definition is_digit :: "char \<Rightarrow> bool" where
  "is_digit c \<longleftrightarrow> 48 \<le> (of_char c :: nat) \<and> (of_char c :: nat) \<le> 57"

lemma digit_val_digit_char [simp]: "d < 10 \<Longrightarrow> digit_val (digit_char d) = d"
  by (simp add: digit_val_def digit_char_def)

lemma is_digit_digit_char [simp]: "d < 10 \<Longrightarrow> is_digit (digit_char d)"
  by (simp add: is_digit_def digit_char_def)

lemma read_show_nat [simp]: "read_nat (show_nat n) = n"
proof (induction n rule: show_nat.induct)
  case (1 n)
  show ?case
  proof (cases "n < 10")
    case True
    then show ?thesis by (subst show_nat.simps) (simp add: read_nat_def)
  next
    case False
    with "1.IH" have "foldl (\<lambda>a c. a * 10 + digit_val c) 0 (show_nat (n div 10)) = n div 10"
      by (simp add: read_nat_def)
    with False show ?thesis by (subst show_nat.simps) (simp add: read_nat_def)
  qed
qed

lemma show_nat_digits: "c \<in> set (show_nat n) \<Longrightarrow> is_digit c"
proof (induction n rule: show_nat.induct)
  case (1 n)
  then show ?case
    by (cases "n < 10") (auto simp: show_nat.simps [of n])
qed

lemma show_nat_ne [simp]: "show_nat n \<noteq> []"
  by (subst show_nat.simps) simp

lemma show_nat_inj: "show_nat m = show_nat n \<longleftrightarrow> m = n"
  by (metis read_show_nat)

lemma not_digit_minus [simp]: "\<not> is_digit (CHR ''-'')"
  by (simp add: is_digit_def)

lemma show_nat_hd_digit: "show_nat n = c # r \<Longrightarrow> is_digit c"
  using show_nat_digits [of c n] by simp

lemma show_int_inj: "show_int i = show_int j \<longleftrightarrow> i = j"
proof
  assume eq: "show_int i = show_int j"
  show "i = j"
  proof (cases "i < 0"; cases "j < 0")
    assume "\<not> i < 0" "j < 0"
    then show ?thesis using eq show_nat_hd_digit by (fastforce simp: show_int_def)
  next
    assume "i < 0" "\<not> j < 0"
    then show ?thesis using eq show_nat_hd_digit [of "nat j"] by (auto simp: show_int_def dest: sym)
  qed (use eq in \<open>auto simp: show_int_def show_nat_inj\<close>)
qed simp

end
