(* ===== verification/Json.thy ===== *)
theory Json
  imports Prelude
begin

text \<open>
  JSON values as the services see them, \<open>JSON.stringify\<close>, and the canonical (key-sorted)
  serialisation by which the queue and the persistence layer compare payloads
  (\<open>canonicalJSON\<close> and \<open>deepEquals\<close> of services/ocr-persistence/src/replaySafe.ts and of
  services/ocr-worker/src/inMemoryQueue.ts). A number is an integer, a non-integral double
  identified by the text \<open>Number.prototype.toString\<close> gives it, or not finite
  (\<open>NaN\<close>, \<open>Infinity\<close>, \<open>-Infinity\<close>, again by that text).
  The main lemma is that two payloads serialise to the same text exactly when they are
  the same JSON value up to key order and undefined fields.
\<close>

subsection \<open>Values and property reads\<close>

datatype jval =
    JUndef
  | JNull
  | JBool bool
  | JInt int
  | JFrac string
  | JNonFin string
  | JStr string
  | JArr "jval list"
  | JObj "(string \<times> jval) list"

text \<open>\<open>v?.k\<close>: reading a property of anything but an object gives \<open>undefined\<close>.\<close>

fun jget :: "jval \<Rightarrow> string \<Rightarrow> jval" where
  "jget (JObj kvs) k = (case map_of kvs k of Some v \<Rightarrow> v | None \<Rightarrow> JUndef)"
| "jget _ _ = JUndef"

text \<open>\<open>v.k = x\<close> on an object.\<close>

fun jset :: "jval \<Rightarrow> string \<Rightarrow> jval \<Rightarrow> jval" where
  "jset (JObj kvs) k x = JObj (mset_kv k x kvs)"
| "jset v _ _ = v"

lemma jget_jset: "jget (jset (JObj kvs) k x) k' = (if k' = k then x else jget (JObj kvs) k')"
  by simp

fun jstr :: "jval \<Rightarrow> string option" where
  "jstr (JStr s) = Some s"
| "jstr _ = None"

fun jint :: "jval \<Rightarrow> int option" where
  "jint (JInt i) = Some i"
| "jint _ = None"

fun jelems :: "jval \<Rightarrow> jval list" where
  "jelems (JArr xs) = xs"
| "jelems _ = []"

text \<open>Truthiness, and \<open>String(v)\<close> as template literals apply it.\<close>

fun truthy :: "jval \<Rightarrow> bool" where
  "truthy JUndef = False"
| "truthy JNull = False"
| "truthy (JBool b) = b"
| "truthy (JInt i) = (i \<noteq> 0)"
| "truthy (JNonFin s) = (s \<noteq> ''NaN'')"
| "truthy (JStr s) = (s \<noteq> [])"
| "truthy _ = True"

fun join :: "string list \<Rightarrow> string" where
  "join [] = []"
| "join [x] = x"
| "join (x # y # ys) = x @ '','' @ join (y # ys)"

fun js_String :: "jval \<Rightarrow> string" where
  "js_String JUndef = ''undefined''"
| "js_String JNull = ''null''"
| "js_String (JBool b) = (if b then ''true'' else ''false'')"
| "js_String (JInt i) = show_int i"
| "js_String (JFrac s) = s"
| "js_String (JNonFin s) = s"
| "js_String (JStr s) = s"
| "js_String (JArr xs) = join (map (\<lambda>x. if x = JUndef \<or> x = JNull then [] else js_String x) xs)"
| "js_String (JObj _) = ''[object Object]''"

text \<open>\<open>a ?? b\<close>.\<close>

definition or_default :: "jval \<Rightarrow> jval \<Rightarrow> jval" where
  "or_default v d = (if v = JUndef \<or> v = JNull then d else v)"

subsection \<open>String literals\<close>

definition hex_digit :: "nat \<Rightarrow> char" where
  "hex_digit d = (if d < 10 then char_of (48 + d) else char_of (87 + d))"

definition esc_char :: "char \<Rightarrow> string" where
  "esc_char c =
    (let n = (of_char c :: nat) in
     if n = 34 then [CHR 0x5C, CHR 0x22]
     else if n = 92 then [CHR 0x5C, CHR 0x5C]
     else if n = 8 then [CHR 0x5C, CHR ''b'']
     else if n = 9 then [CHR 0x5C, CHR ''t'']
     else if n = 10 then [CHR 0x5C, CHR ''n'']
     else if n = 12 then [CHR 0x5C, CHR ''f'']
     else if n = 13 then [CHR 0x5C, CHR ''r'']
     else if n < 32 then [CHR 0x5C, CHR ''u'', CHR ''0'', CHR ''0'', hex_digit (n div 16), hex_digit (n mod 16)]
     else [c])"

definition quote :: "string \<Rightarrow> string" where
  "quote s = CHR 0x22 # concat (map esc_char s) @ [CHR 0x22]"

subsection \<open>Serialisation\<close>

text \<open>\<open>JSON.stringify\<close>: insertion order, \<open>undefined\<close> fields dropped, \<open>undefined\<close>
  elements and non-finite numbers printed as \<open>null\<close>.\<close>

fun stringify :: "jval \<Rightarrow> string" where
  "stringify JUndef = []"
| "stringify JNull = ''null''"
| "stringify (JBool b) = (if b then ''true'' else ''false'')"
| "stringify (JInt i) = show_int i"
| "stringify (JFrac s) = s"
| "stringify (JNonFin _) = ''null''"
| "stringify (JStr s) = quote s"
| "stringify (JArr xs) =
     ''['' @ join (map (\<lambda>x. if x = JUndef then ''null'' else stringify x) xs) @ '']''"
| "stringify (JObj kvs) =
     ''{'' @ join (map (\<lambda>(k, v). quote k @ '':'' @ stringify v)
                   (filter (\<lambda>(k, v). v \<noteq> JUndef) kvs)) @ ''}''"

text \<open>\<open>canonicalJSON(undefined)\<close> is the JavaScript value \<open>undefined\<close>, which no other value
  serialises to and which \<open>Array.prototype.join\<close> prints as the empty string; both uses are
  the empty string here.\<close>

fun canonicalJSON :: "jval \<Rightarrow> string" where
  "canonicalJSON (JArr xs) = ''['' @ join (map canonicalJSON xs) @ '']''"
| "canonicalJSON (JObj kvs) =
     ''{'' @ join (map (\<lambda>(k, s). quote k @ '':'' @ s)
       (sort_key fst (map (\<lambda>(k, v). (k, canonicalJSON v))
         (filter (\<lambda>(k, v). v \<noteq> JUndef) kvs)))) @ ''}''"
| "canonicalJSON v = stringify v"

definition deepEquals :: "jval \<Rightarrow> jval \<Rightarrow> bool" where
  "deepEquals a b \<longleftrightarrow> canonicalJSON a = canonicalJSON b"

lemma deepEquals_refl [simp]: "deepEquals a a"
  by (simp add: deepEquals_def)

lemma deepEquals_sym: "deepEquals a b \<longleftrightarrow> deepEquals b a"
  by (auto simp: deepEquals_def)

lemma deepEquals_trans: "deepEquals a b \<Longrightarrow> deepEquals b c \<Longrightarrow> deepEquals a c"
  by (simp add: deepEquals_def)

subsection \<open>Normal forms\<close>

fun jnorm :: "jval \<Rightarrow> jval" where
  "jnorm (JArr xs) = JArr (map jnorm xs)"
| "jnorm (JObj kvs) =
     JObj (sort_key fst (map (\<lambda>(k, v). (k, jnorm v)) (filter (\<lambda>(k, v). v \<noteq> JUndef) kvs)))"
| "jnorm v = v"

definition num_char :: "char \<Rightarrow> bool" where
  "num_char c \<longleftrightarrow> is_digit c \<or> c = CHR ''-'' \<or> c = CHR ''+'' \<or> c = CHR ''.'' \<or> c = CHR ''e''"

text \<open>What parsing a JSON text can give: no \<open>undefined\<close>, no \<open>NaN\<close>, distinct keys.
  An object under construction may also hold \<open>undefined\<close> fields.\<close>

fun wf_json :: "jval \<Rightarrow> bool" where
  "wf_json JUndef = False"
| "wf_json (JNonFin _) = False"
| "wf_json (JFrac s) = (s \<noteq> [] \<and> (\<forall>c\<in>set s. num_char c) \<and> (\<exists>c\<in>set s. c = CHR ''.'' \<or> c = CHR ''e''))"
| "wf_json (JArr xs) = (\<forall>x\<in>set xs. wf_json x)"
| "wf_json (JObj kvs) = (distinct (map fst kvs) \<and> (\<forall>(k, v)\<in>set kvs. v = JUndef \<or> wf_json v))"
| "wf_json _ = True"

fun defined_json :: "jval \<Rightarrow> bool" where
  "defined_json JUndef = False"
| "defined_json (JArr xs) = (\<forall>x\<in>set xs. defined_json x)"
| "defined_json (JObj kvs) = (\<forall>(k, v)\<in>set kvs. defined_json v)"
| "defined_json _ = True"

lemma wf_jnorm: "wf_json v \<Longrightarrow> wf_json (jnorm v) \<and> defined_json (jnorm v)"
proof (induction v rule: jnorm.induct)
  case (2 kvs)
  have d: "distinct (map fst (sort_key fst (map (\<lambda>(k, v). (k, jnorm v)) (filter (\<lambda>(k, v). v \<noteq> JUndef) kvs))))"
  proof -
    have "map (fst \<circ> (\<lambda>(k, v). (k, jnorm v))) (filter (\<lambda>(k, v). v \<noteq> JUndef) kvs)
        = map fst (filter (\<lambda>(k, v). v \<noteq> JUndef) kvs)" by (simp add: split_def comp_def)
    moreover have "distinct (map fst (filter (\<lambda>(k, v). v \<noteq> JUndef) kvs))"
      using 2(2) by (simp add: distinct_map_filter)
    ultimately have "distinct (map fst (map (\<lambda>(k, v). (k, jnorm v)) (filter (\<lambda>(k, v). v \<noteq> JUndef) kvs)))"
      by (metis map_map)
    then show ?thesis
      by (simp only: distinct_map distinct_sort set_sort simp_thms)
  qed
  then show ?case using 2 by fastforce
qed auto


lemma insort_key_map_snd:
  "insort_key fst (k, g v) (map (\<lambda>(k, v). (k, g v)) ps)
     = map (\<lambda>(k, v). (k, g v)) (insort_key fst (k, v) ps)"
  by (induction ps) auto

lemma sort_key_map_snd:
  "sort_key fst (map (\<lambda>(k, v). (k, g v)) ps) = map (\<lambda>(k, v). (k, g v)) (sort_key fst ps)"
proof (induction ps)
  case (Cons p ps)
  then show ?case by (cases p) (simp add: insort_key_map_snd)
qed simp

lemma filter_defined_id: "(\<And>k v. (k, v) \<in> set kvs \<Longrightarrow> v \<noteq> JUndef) \<Longrightarrow> filter (\<lambda>(k, v). v \<noteq> JUndef) kvs = kvs"
  by (rule filter_True) auto

lemma jnorm_eq_JUndef [simp]: "jnorm v = JUndef \<longleftrightarrow> v = JUndef"
  by (cases v) auto

text \<open>The canonical text is the plain serialisation of the normal form.\<close>

lemma canonicalJSON_jnorm: "wf_json v \<Longrightarrow> canonicalJSON v = stringify (jnorm v)"
proof (induction v rule: canonicalJSON.induct)
  case (1 xs)
  then have "map canonicalJSON xs = map (\<lambda>x. if x = JUndef then ''null'' else stringify x) (map jnorm xs)"
    by (auto simp: comp_def)
  then show ?case by (simp only: canonicalJSON.simps jnorm.simps stringify.simps)
next
  case (2 kvs)
  let ?kvs = "filter (\<lambda>(k, v). v \<noteq> JUndef) kvs"
  have "map (\<lambda>(k, v). (k, canonicalJSON v)) ?kvs
      = map (\<lambda>(k, v). (k, stringify (jnorm v))) ?kvs"
    using 2 by fastforce
  also have "\<dots> = map (\<lambda>(k, v). (k, stringify v)) (map (\<lambda>(k, v). (k, jnorm v)) ?kvs)"
    by (simp add: split_def)
  finally have eq: "sort_key fst (map (\<lambda>(k, v). (k, canonicalJSON v)) ?kvs)
      = map (\<lambda>(k, v). (k, stringify v)) (sort_key fst (map (\<lambda>(k, v). (k, jnorm v)) ?kvs))"
    by (simp add: sort_key_map_snd)
  have "filter (\<lambda>(k, v). v \<noteq> JUndef) (sort_key fst (map (\<lambda>(k, v). (k, jnorm v)) ?kvs))
      = sort_key fst (map (\<lambda>(k, v). (k, jnorm v)) ?kvs)"
    by (rule filter_defined_id) auto
  then show ?case
    by (simp only: canonicalJSON.simps jnorm.simps stringify.simps eq)
       (simp add: split_def comp_def)
qed auto

subsection \<open>Serialisation loses nothing\<close>

text \<open>A rest of the text that can follow a serialised value.\<close>

definition delim :: "string \<Rightarrow> bool" where
  "delim r \<longleftrightarrow> r = [] \<or> hd r = CHR '','' \<or> hd r = CHR '']'' \<or> hd r = CHR ''}''"



lemma of_char_hex_digit:
  "n < 16 \<Longrightarrow> (of_char (hex_digit n) :: nat) = (if n < 10 then 48 + n else 87 + n)"
  by (cases "n < 10") (simp_all add: hex_digit_def)

definition hex_val :: "char \<Rightarrow> nat" where
  "hex_val c = (let n = of_char c in if n < 58 then n - 48 else n - 87)"

lemma hex_val_hex_digit [simp]: "n < 16 \<Longrightarrow> hex_val (hex_digit n) = n"
  by (simp add: hex_val_def of_char_hex_digit)

fun unescape_one :: "string \<Rightarrow> char \<times> string" where
  "unescape_one (b # r) =
     (if b \<noteq> CHR 0x5C then (b, r)
      else if hd r = CHR ''b'' then (char_of (8::nat), tl r)
      else if hd r = CHR ''t'' then (char_of (9::nat), tl r)
      else if hd r = CHR ''n'' then (char_of (10::nat), tl r)
      else if hd r = CHR ''f'' then (char_of (12::nat), tl r)
      else if hd r = CHR ''r'' then (char_of (13::nat), tl r)
      else if hd r = CHR ''u''
        then (char_of (16 * hex_val (r ! 3) + hex_val (r ! 4)), drop 5 r)
      else (hd r, tl r))"
| "unescape_one [] = (CHR 0x22, [])"

lemma esc_char_plain_or_escaped:
  "(esc_char c = [c] \<and> c \<noteq> CHR 0x22 \<and> c \<noteq> CHR 0x5C) \<or>
   (\<exists>d t. esc_char c = CHR 0x5C # d # t)"
  by (auto simp: esc_char_def Let_def)

lemma of_char_34: "(of_char c :: nat) = 34 \<Longrightarrow> CHR 0x22 = c"
  by (rule of_char_eq_iff [where 'a = nat, THEN iffD1]) simp

lemma of_char_92: "(of_char c :: nat) = 92 \<Longrightarrow> CHR 0x5C = c"
  by (rule of_char_eq_iff [where 'a = nat, THEN iffD1]) simp

lemma char_of_eq_iff: "(of_char c :: nat) = n \<Longrightarrow> char_of n = c"
  by (metis char_of_char)

lemma unescape_one_esc: "unescape_one (esc_char c @ x) = (c, x)"
proof (cases "(of_char c :: nat) < 32 \<and> of_char c \<notin> {8, 9, 10, 12, 13 :: nat}")
  case True
  let ?n = "of_char c :: nat"
  from True have "esc_char c = [CHR 0x5C, CHR ''u'', CHR ''0'', CHR ''0'', hex_digit (?n div 16), hex_digit (?n mod 16)]"
    by (simp add: esc_char_def Let_def)
  moreover have "?n div 16 < 16" using True by linarith
  then have "16 * hex_val (hex_digit (?n div 16)) + hex_val (hex_digit (?n mod 16)) = ?n"
    by (simp only: hex_val_hex_digit) simp
  ultimately show ?thesis by (simp add: char_of_eq_iff)
next
  case False
  then show ?thesis
    by (auto simp: esc_char_def Let_def char_of_eq_iff split: if_splits dest: of_char_34 of_char_92)
qed

lemma esc_char_prefix: "esc_char c @ x = esc_char d @ y \<Longrightarrow> c = d \<and> x = y"
  by (drule arg_cong [where f = unescape_one]) (simp only: unescape_one_esc prod.inject)

lemma esc_char_hd: "esc_char c = h # t \<Longrightarrow> h \<noteq> CHR 0x22"
  using esc_char_plain_or_escaped [of c] by auto

lemma esc_char_ne [simp]: "esc_char c \<noteq> []"
  by (simp add: esc_char_def Let_def)

lemma esc_body_prefix:
  "concat (map esc_char s) @ CHR 0x22 # x = concat (map esc_char t) @ CHR 0x22 # y
     \<Longrightarrow> s = t \<and> x = y"
proof (induction s arbitrary: t)
  case Nil
  show ?case
  proof (cases t)
    case (Cons d t')
    obtain h r where "esc_char d = h # r" by (cases "esc_char d") auto
    with Nil Cons show ?thesis using esc_char_hd by fastforce
  qed (use Nil in simp)
next
  case (Cons c s)
  show ?case
  proof (cases t)
    case Nil
    obtain h r where "esc_char c = h # r" by (cases "esc_char c") auto
    with Cons.prems Nil show ?thesis using esc_char_hd by fastforce
  next
    case (Cons d t')
    have "esc_char c @ (concat (map esc_char s) @ CHR 0x22 # x)
        = esc_char d @ (concat (map esc_char t') @ CHR 0x22 # y)"
      using Cons.prems Cons by simp
    then have "c = d \<and> concat (map esc_char s) @ CHR 0x22 # x = concat (map esc_char t') @ CHR 0x22 # y"
      by (rule esc_char_prefix)
    with Cons.IH Cons show ?thesis by auto
  qed
qed

lemma quote_prefix: "quote s @ x = quote t @ y \<Longrightarrow> s = t \<and> x = y"
  using esc_body_prefix [of s x t y] by (simp add: quote_def)


text \<open>Lists of pieces joined by commas and closed by a bracket.\<close>

definition uniquely_read :: "('a \<Rightarrow> string) \<Rightarrow> 'a set \<Rightarrow> 'a \<Rightarrow> bool" where
  "uniquely_read f B x \<longleftrightarrow>
     (\<forall>y\<in>B. \<forall>r s. delim r \<longrightarrow> delim s \<longrightarrow> f x @ r = f y @ s \<longrightarrow> x = y \<and> r = s)"

lemma join_Cons: "join (x # xs) = (if xs = [] then x else x @ '','' @ join xs)"
  by (cases xs) auto

lemma join_closed_inj:
  assumes "\<forall>x\<in>set xs. uniquely_read f B x" and "set ys \<subseteq> B"
    and starts: "\<forall>x \<in> set xs \<union> set ys. \<exists>h t. f x = h # t \<and> \<not> delim (h # t)"
    and c: "c = CHR '']'' \<or> c = CHR ''}''"
    and eq: "join (map f xs) @ c # r = join (map f ys) @ c # s"
  shows "xs = ys \<and> r = s"
  using assms(1,2,3) eq
proof (induction xs arbitrary: ys)
  case Nil
  show ?case
  proof (cases ys)
    case (Cons y ys')
    then obtain h t where h: "f y = h # t" "\<not> delim (h # t)" using Nil.prems(3) by auto
    with Nil.prems Cons c show ?thesis by (auto simp: join_Cons delim_def split: if_splits)
  qed (use Nil in simp)
next
  case (Cons x xs)
  show ?case
  proof (cases ys)
    case Nil
    obtain h t where h: "f x = h # t" "\<not> delim (h # t)" using Cons.prems(3) by auto
    with Cons.prems(4) Nil c show ?thesis by (auto simp: join_Cons delim_def split: if_splits)
  next
    case (Cons y ys')
    define rx where "rx = (if xs = [] then c # r else CHR '','' # join (map f xs) @ c # r)"
    define ry where "ry = (if ys' = [] then c # s else CHR '','' # join (map f ys') @ c # s)"
    have d: "delim rx" "delim ry" using c by (auto simp: rx_def ry_def delim_def)
    have e: "f x @ rx = f y @ ry"
      using Cons.prems(4) Cons by (simp add: join_Cons rx_def ry_def split: if_splits)
    have "uniquely_read f B x" "y \<in> B" using Cons.prems Cons by auto
    with d e have xy: "x = y" and rr: "rx = ry" by (auto simp: uniquely_read_def)
    show ?thesis
    proof (cases "xs = [] \<or> ys' = []")
      case True
      with rr c have "xs = [] \<and> ys' = [] \<and> r = s"
        by (auto simp: rx_def ry_def split: if_splits)
      with xy Cons show ?thesis by simp
    next
      case False
      with rr have "join (map f xs) @ c # r = join (map f ys') @ c # s"
        by (simp add: rx_def ry_def)
      with Cons.IH [of ys'] Cons.prems Cons have "xs = ys' \<and> r = s" by simp
      with xy Cons show ?thesis by simp
    qed
  qed
qed


lemma num_prefix:
  assumes "\<forall>c\<in>set x. num_char c" "\<forall>c\<in>set y. num_char c" "delim r" "delim s" "x @ r = y @ s"
  shows "x = y \<and> r = s"
  using assms
proof (induction x arbitrary: y)
  case Nil
  then show ?case by (cases y) (auto simp: delim_def num_char_def is_digit_def)
next
  case (Cons c x)
  show ?case
  proof (cases y)
    case Nil
    with Cons.prems show ?thesis by (auto simp: delim_def num_char_def is_digit_def)
  next
    case (Cons d y')
    with Cons.prems Cons.IH [of y'] show ?thesis by auto
  qed
qed

lemma show_int_num: "c \<in> set (show_int i) \<Longrightarrow> is_digit c \<or> c = CHR ''-''"
  by (auto simp: show_int_def dest: show_nat_digits split: if_splits)

lemma show_int_num_char: "\<forall>c\<in>set (show_int i). num_char c"
  using show_int_num by (auto simp: num_char_def)

lemma show_int_no_point [simp]: "CHR ''.'' \<notin> set (show_int i)" "CHR ''e'' \<notin> set (show_int i)"
  using show_int_num [of "CHR ''.''" i] show_int_num [of "CHR ''e''" i] by (auto simp: is_digit_def)

lemma show_int_not_frac: "wf_json (JFrac s) \<Longrightarrow> s \<noteq> show_int i"
  by auto

text \<open>The first character tells the kinds of value apart.\<close>

definition kind_of :: "jval \<Rightarrow> nat" where
  "kind_of v = (case v of JUndef \<Rightarrow> 0 | JNull \<Rightarrow> 1 | JBool b \<Rightarrow> if b then 2 else 3 | JInt _ \<Rightarrow> 4
     | JFrac _ \<Rightarrow> 4 | JNonFin _ \<Rightarrow> 1 | JStr _ \<Rightarrow> 5 | JArr _ \<Rightarrow> 6 | JObj _ \<Rightarrow> 7)"

definition kind_of_char :: "char \<Rightarrow> nat" where
  "kind_of_char c = (if c = CHR ''n'' then 1 else if c = CHR ''t'' then 2 else if c = CHR ''f'' then 3
     else if num_char c then 4 else if c = CHR 0x22 then 5 else if c = CHR ''['' then 6 else 7)"

lemma kind_of_char_simps:
  "kind_of_char (CHR ''n'') = 1" "kind_of_char (CHR ''t'') = 2" "kind_of_char (CHR ''f'') = 3"
  "kind_of_char (CHR 0x22) = 5" "kind_of_char (CHR ''['') = 6" "kind_of_char (CHR ''{'') = 7"
  by (simp_all add: kind_of_char_def num_char_def is_digit_def)

lemma stringify_starts:
  assumes "wf_json v" and "stringify v = h # t"
  shows "kind_of_char h = kind_of v \<and> \<not> delim (h # t)"
proof -
  have num: "num_char h \<Longrightarrow> kind_of_char h = 4 \<and> \<not> delim (h # t)"
    by (auto simp: num_char_def is_digit_def kind_of_char_def delim_def)
  show ?thesis
  proof (cases v)
    case (JInt i)
    with assms show_int_num_char [of i] num show ?thesis by (simp add: kind_of_def)
  next
    case (JFrac s)
    with assms num show ?thesis by (simp add: kind_of_def)
  next
    case (JBool b)
    with assms show ?thesis
      by (cases b) (auto simp: kind_of_def delim_def kind_of_char_simps)
  next
    case (JStr x)
    with assms show ?thesis by (auto simp: kind_of_def delim_def kind_of_char_simps quote_def)
  qed (use assms in \<open>auto simp: kind_of_def delim_def kind_of_char_simps\<close>)
qed

lemma show_int_ne [simp]: "show_int i \<noteq> []"
  by (simp add: show_int_def)

lemma stringify_ne: "wf_json v \<Longrightarrow> \<exists>h t. stringify v = h # t"
  by (cases v) (auto simp: quote_def neq_Nil_conv [symmetric])

lemma stringify_same_kind:
  assumes "wf_json a" "wf_json b" "stringify a @ r = stringify b @ s"
  shows "kind_of a = kind_of b"
proof -
  obtain h t h' t' where "stringify a = h # t" "stringify b = h' # t'"
    using stringify_ne assms(1,2) by metis
  with assms stringify_starts [of a h t] stringify_starts [of b h' t'] show ?thesis by simp
qed


lemma delim_after_colon: "\<not> delim (CHR 0x22 # t)"
  by (simp add: delim_def)

lemma filter_defined:
  "defined_json (JObj kvs) \<Longrightarrow> filter (\<lambda>(k, v). v \<noteq> JUndef) kvs = kvs"
  by (rule filter_defined_id) auto

lemma stringify_arr:
  "defined_json (JArr xs) \<Longrightarrow> stringify (JArr xs) = ''['' @ join (map stringify xs) @ '']''"
proof -
  assume "defined_json (JArr xs)"
  then have "map (\<lambda>x. if x = JUndef then ''null'' else stringify x) xs = map stringify xs"
    by auto
  then show ?thesis by (simp only: stringify.simps)
qed

definition entry_text :: "string \<times> jval \<Rightarrow> string" where
  "entry_text kv = quote (fst kv) @ '':'' @ stringify (snd kv)"

lemma stringify_obj:
  "defined_json (JObj kvs) \<Longrightarrow> stringify (JObj kvs) = ''{'' @ join (map entry_text kvs) @ ''}''"
  by (simp only: stringify.simps filter_defined) (simp add: entry_text_def [abs_def] split_def)

abbreviation sound_json :: "jval \<Rightarrow> bool" where
  "sound_json v \<equiv> wf_json v \<and> defined_json v"

lemma num_texts_read:
  assumes "wf_json a" "wf_json b" "kind_of a = 4" "kind_of b = 4"
    and "delim r" "delim s" "stringify a @ r = stringify b @ s"
  shows "a = b \<and> r = s"
proof -
  have num: "\<forall>c\<in>set (stringify v). num_char c" if "wf_json v" "kind_of v = 4" for v
    using that show_int_num_char by (cases v) (auto simp: kind_of_def split: if_splits)
  have "stringify a = stringify b \<and> r = s"
    using num_prefix [OF num [OF assms(1,3)] num [OF assms(2,4)] assms(5-7)] .
  moreover have "a = b" if "stringify a = stringify b"
    using that assms(1-4)
    by (cases a; cases b) (auto simp: kind_of_def show_int_inj split: if_splits)
  ultimately show ?thesis by blast
qed

lemma atom_uniquely_read:
  assumes "sound_json a" "kind_of a \<notin> {6, 7}"
  shows "uniquely_read stringify {b. sound_json b} a"
  unfolding uniquely_read_def
proof (intro ballI allI impI)
  fix b r s
  assume b: "b \<in> {b. sound_json b}" and d: "delim r" "delim s"
    and eq: "stringify a @ r = stringify b @ s"
  have k: "kind_of a = kind_of b" using stringify_same_kind eq assms(1) b by simp
  show "a = b \<and> r = s"
  proof (cases "kind_of a = 4")
    case True
    with k b d eq assms(1) show ?thesis by (auto dest: num_texts_read)
  next
    case False
    with k assms b eq show ?thesis
      by (cases a; cases b) (auto simp: kind_of_def dest: quote_prefix split: if_splits)
  qed
qed

lemma sound_json_entry: "sound_json (JObj kvs) \<Longrightarrow> p \<in> set kvs \<Longrightarrow> sound_json (snd p)"
  by (cases p) fastforce

lemma stringify_uniquely_read:
  "sound_json a \<Longrightarrow> uniquely_read stringify {b. sound_json b} a"
proof (induction a)
  case (JArr xs)
  show ?case unfolding uniquely_read_def
  proof (intro ballI allI impI)
    fix b r s
    assume b: "b \<in> {b. sound_json b}" and d: "delim r" "delim s"
      and eq: "stringify (JArr xs) @ r = stringify b @ s"
    from b JArr.prems eq have "kind_of b = 6"
      using stringify_same_kind [of "JArr xs" b r s] by (simp add: kind_of_def)
    then obtain ys where ys: "b = JArr ys" by (auto simp: kind_of_def split: jval.splits if_splits)
    have "join (map stringify xs) @ CHR '']'' # r = join (map stringify ys) @ CHR '']'' # s"
      using eq JArr.prems b ys by (simp add: stringify_arr del: stringify.simps)
    moreover have "\<forall>x \<in> set xs \<union> set ys. \<exists>h t. stringify x = h # t \<and> \<not> delim (h # t)"
      using JArr.prems b ys stringify_ne stringify_starts by (metis Un_iff defined_json.simps(2)
          mem_Collect_eq wf_json.simps(4))
    moreover have "\<forall>x\<in>set xs. uniquely_read stringify {b. sound_json b} x"
      using JArr by auto
    moreover have "set ys \<subseteq> {b. sound_json b}" using b ys by auto
    ultimately have "xs = ys \<and> r = s" by (intro join_closed_inj) auto
    with ys show "JArr xs = b \<and> r = s" by simp
  qed
next
  case (JObj kvs)
  let ?B = "{kv. sound_json (snd kv)}"
  have kv: "uniquely_read entry_text ?B p" if "p \<in> set kvs" for p
    unfolding uniquely_read_def
  proof (intro ballI allI impI)
    fix q r s
    assume q: "q \<in> ?B" and d: "delim r" "delim s" and eq: "entry_text p @ r = entry_text q @ s"
    from eq have "fst p = fst q \<and> '':'' @ stringify (snd p) @ r = '':'' @ stringify (snd q) @ s"
      by (intro quote_prefix) (simp add: entry_text_def)
    moreover have "uniquely_read stringify {b. sound_json b} (snd p)"
    proof (rule JObj.IH [OF that])
      show "snd p \<in> Basic_BNFs.snds p" by (cases p) simp
      show "sound_json (snd p)" using JObj.prems that by (rule sound_json_entry)
    qed
    ultimately show "p = q \<and> r = s" using q d by (auto simp: uniquely_read_def prod_eq_iff)
  qed
  show ?case unfolding uniquely_read_def
  proof (intro ballI allI impI)
    fix b r s
    assume b: "b \<in> {b. sound_json b}" and d: "delim r" "delim s"
      and eq: "stringify (JObj kvs) @ r = stringify b @ s"
    from b JObj.prems eq have "kind_of b = 7"
      using stringify_same_kind [of "JObj kvs" b r s] by (simp add: kind_of_def)
    then obtain lvs where lvs: "b = JObj lvs" by (auto simp: kind_of_def split: jval.splits if_splits)
    have "join (map entry_text kvs) @ CHR ''}'' # r = join (map entry_text lvs) @ CHR ''}'' # s"
      using eq JObj.prems b lvs by (simp add: stringify_obj del: stringify.simps)
    moreover have "\<forall>x \<in> set kvs \<union> set lvs. \<exists>h t. entry_text x = h # t \<and> \<not> delim (h # t)"
      by (simp add: entry_text_def quote_def delim_def)
    moreover have "set lvs \<subseteq> ?B" using b lvs sound_json_entry [of lvs] by auto
    ultimately have "kvs = lvs \<and> r = s" using kv by (intro join_closed_inj) auto
    with lvs show "JObj kvs = b \<and> r = s" by simp
  qed
qed (rule atom_uniquely_read, simp, simp add: kind_of_def)+

lemma stringify_inj: "sound_json a \<Longrightarrow> sound_json b \<Longrightarrow> stringify a = stringify b \<longleftrightarrow> a = b"
  using stringify_uniquely_read [of a] by (auto simp: uniquely_read_def delim_def)

lemma deepEquals_iff_jnorm:
  "wf_json a \<Longrightarrow> wf_json b \<Longrightarrow> deepEquals a b \<longleftrightarrow> jnorm a = jnorm b"
  by (simp add: deepEquals_def canonicalJSON_jnorm stringify_inj wf_jnorm)

end
