(* ===== verification/OcrContract.thy ===== *)
theory OcrContract
  imports Json
begin

text \<open>
  The OCR contract's rules that the worker, the queue and the store share: the job state
  machine (docs/contracts/src/transitions.ts), the sequence validator, and the retry
  classifier (docs/contracts/src/retry-rules.ts and retryPolicy.ts). Payloads that the code
  types as \<open>unknown\<close> or reads through a cast are \<open>jval\<close>.
  Status names are spelled by \<open>state_str\<close> and \<open>actor_str\<close>.
\<close>

subsection \<open>States, actors and edges\<close>

datatype OcrJobState =
  Queued | Claimed | Processing | Succeeded | Failed | PartialSucceeded | Cancelled | DeadLettered

datatype OcrJobActor = ByQueue | ByWorker | ByWebApp

fun state_str :: "OcrJobState \<Rightarrow> string" where
  "state_str Queued = ''queued''"
| "state_str Claimed = ''claimed''"
| "state_str Processing = ''processing''"
| "state_str Succeeded = ''succeeded''"
| "state_str Failed = ''failed''"
| "state_str PartialSucceeded = ''partial_succeeded''"
| "state_str Cancelled = ''cancelled''"
| "state_str DeadLettered = ''dead_lettered''"

fun actor_str :: "OcrJobActor \<Rightarrow> string" where
  "actor_str ByQueue = ''queue''"
| "actor_str ByWorker = ''worker''"
| "actor_str ByWebApp = ''web_app''"

definition STATES :: "OcrJobState list" where
  "STATES = [Queued, Claimed, Processing, Succeeded, Failed, PartialSucceeded, Cancelled, DeadLettered]"

instantiation OcrJobState :: enum
begin

definition enum_OcrJobState :: "OcrJobState list" where
  "enum_OcrJobState = STATES"

definition enum_all_OcrJobState :: "(OcrJobState \<Rightarrow> bool) \<Rightarrow> bool" where
  "enum_all_OcrJobState P \<longleftrightarrow> (\<forall>s\<in>set STATES. P s)"

definition enum_ex_OcrJobState :: "(OcrJobState \<Rightarrow> bool) \<Rightarrow> bool" where
  "enum_ex_OcrJobState P \<longleftrightarrow> (\<exists>s\<in>set STATES. P s)"

instance
proof
  show all: "UNIV = set (enum_class.enum :: OcrJobState list)"
    by (auto simp: enum_OcrJobState_def STATES_def intro: OcrJobState.exhaust)
  show "distinct (enum_class.enum :: OcrJobState list)"
    by (simp add: enum_OcrJobState_def STATES_def)
  show "enum_class.enum_all P \<longleftrightarrow> Ball UNIV P" for P :: "OcrJobState \<Rightarrow> bool"
    using all by (auto simp: enum_all_OcrJobState_def enum_OcrJobState_def)
  show "enum_class.enum_ex P \<longleftrightarrow> Bex UNIV P" for P :: "OcrJobState \<Rightarrow> bool"
    using all by (auto simp: enum_ex_OcrJobState_def enum_OcrJobState_def)
qed

end

definition TERMINAL_STATES :: "OcrJobState list" where
  "TERMINAL_STATES = [Succeeded, PartialSucceeded, Cancelled, DeadLettered]"

definition isTerminalState :: "OcrJobState \<Rightarrow> bool" where
  "isTerminalState s \<longleftrightarrow> s \<in> set TERMINAL_STATES"

record AllowedEdge =
  edge_from :: OcrJobState
  edge_to :: OcrJobState
  edge_by :: "OcrJobActor list"
  edge_reason :: "string option"

abbreviation edge :: "OcrJobState \<Rightarrow> OcrJobState \<Rightarrow> OcrJobActor \<Rightarrow> string option \<Rightarrow> AllowedEdge" where
  "edge f t b r \<equiv> \<lparr>edge_from = f, edge_to = t, edge_by = [b], edge_reason = r\<rparr>"

definition ALLOWED_EDGES :: "AllowedEdge list" where
  "ALLOWED_EDGES =
    [ edge Queued Claimed ByQueue None,
      edge Claimed Processing ByWorker None,
      edge Claimed Queued ByQueue (Some ''lease expired / worker crash''),
      edge Processing Succeeded ByWorker None,
      edge Processing Failed ByWorker None,
      edge Processing PartialSucceeded ByWorker None,
      edge Failed Queued ByQueue (Some ''retry, attempt < max_attempts and is_transient''),
      edge Failed DeadLettered ByQueue (Some ''exhausted retries OR permanent failure'') ]
    @ map (\<lambda>s. edge s Cancelled ByWebApp None) (filter (\<lambda>s. \<not> isTerminalState s) STATES)"

definition isAllowedTransition :: "OcrJobState \<Rightarrow> OcrJobState \<Rightarrow> OcrJobActor \<Rightarrow> bool" where
  "isAllowedTransition f t b \<longleftrightarrow>
     (\<exists>e\<in>set ALLOWED_EDGES. edge_from e = f \<and> edge_to e = t \<and> b \<in> set (edge_by e))"

lemma isTerminalState_simps [simp]:
  "isTerminalState Queued = False" "isTerminalState Claimed = False"
  "isTerminalState Processing = False" "isTerminalState Failed = False"
  "isTerminalState Succeeded = True" "isTerminalState PartialSucceeded = True"
  "isTerminalState Cancelled = True" "isTerminalState DeadLettered = True"
  by (simp_all add: isTerminalState_def TERMINAL_STATES_def)

lemma isAllowedTransition_table:
  "isAllowedTransition f t b \<longleftrightarrow>
     (f, t, b) \<in> {(Queued, Claimed, ByQueue), (Claimed, Processing, ByWorker),
        (Claimed, Queued, ByQueue), (Processing, Succeeded, ByWorker),
        (Processing, Failed, ByWorker), (Processing, PartialSucceeded, ByWorker),
        (Failed, Queued, ByQueue), (Failed, DeadLettered, ByQueue)} \<or>
     (t = Cancelled \<and> b = ByWebApp \<and> \<not> isTerminalState f)"
  by (cases f) (auto simp: isAllowedTransition_def ALLOWED_EDGES_def STATES_def)

lemma allowed_not_from_terminal: "isAllowedTransition f t b \<Longrightarrow> \<not> isTerminalState f"
  by (auto simp: isAllowedTransition_table)

text \<open>\<open>assertValidOcrStatusTransition\<close>: without an actor any owner of the edge will do.\<close>

definition assertValidOcrStatusTransition ::
  "OcrJobState \<Rightarrow> OcrJobState \<Rightarrow> OcrJobActor option \<Rightarrow> string + unit" where
  "assertValidOcrStatusTransition f t b =
     (case b of
        Some a \<Rightarrow> requireR (isAllowedTransition f t a)
          (''illegal OCR status transition: '' @ quoted (state_str f) @ '' -> '' @ quoted (state_str t) @ '' by '' @ quoted (actor_str a))
      | None \<Rightarrow> requireR (\<exists>a\<in>set [ByQueue, ByWorker, ByWebApp]. isAllowedTransition f t a)
          (''illegal OCR status transition: '' @ quoted (state_str f) @ '' -> '' @ quoted (state_str t)))"

subsection \<open>Transition records and sequences\<close>

record TransitionRecord =
  tr_from :: OcrJobState
  tr_to :: OcrJobState
  tr_by :: OcrJobActor
  tr_at :: string
  tr_note :: "string option"

record SequenceError =
  seq_error :: string
  seq_index :: int

fun validateSequenceFrom ::
  "nat \<Rightarrow> OcrJobState option \<Rightarrow> TransitionRecord list \<Rightarrow> SequenceError + unit" where
  "validateSequenceFrom i priorTo [] = Inr ()"
| "validateSequenceFrom i priorTo (t # ts) =
     (if priorTo \<noteq> None \<and> priorTo \<noteq> Some (tr_from t)
      then Inl \<lparr>seq_error = ''transition['' @ show_nat i @ ''].from='' @ quoted (state_str (tr_from t))
                  @ '' does not chain from prior to='' @ quoted (state_str (the priorTo)), seq_index = int i\<rparr>
      else if isTerminalState (tr_from t)
      then Inl \<lparr>seq_error = ''transition['' @ show_nat i @ ''] starts from terminal state ''
                  @ quoted (state_str (tr_from t)), seq_index = int i\<rparr>
      else if \<not> isAllowedTransition (tr_from t) (tr_to t) (tr_by t)
      then Inl \<lparr>seq_error = ''transition['' @ show_nat i @ ''] '' @ quoted (state_str (tr_from t)) @ '' -> ''
                  @ quoted (state_str (tr_to t)) @ '' by '' @ quoted (actor_str (tr_by t)) @ '' is not allowed'',
                seq_index = int i\<rparr>
      else validateSequenceFrom (Suc i) (Some (tr_to t)) ts)"

definition validateTransitionSequence :: "TransitionRecord list \<Rightarrow> SequenceError + unit" where
  "validateTransitionSequence ts =
     (if ts = [] then Inl \<lparr>seq_error = ''empty transitions'', seq_index = - 1\<rparr>
      else validateSequenceFrom 0 None ts)"

text \<open>The specification: consecutive records chain, and every edge is in the table.\<close>

fun chained :: "OcrJobState option \<Rightarrow> TransitionRecord list \<Rightarrow> bool" where
  "chained p [] = True"
| "chained p (t # ts) = ((p = None \<or> p = Some (tr_from t)) \<and> chained (Some (tr_to t)) ts)"

lemma chained_nth:
  "chained p ts \<longleftrightarrow> (ts \<noteq> [] \<longrightarrow> p \<noteq> None \<longrightarrow> p = Some (tr_from (hd ts))) \<and>
     (\<forall>i<length ts - 1. tr_from (ts ! Suc i) = tr_to (ts ! i))"
proof (induction p ts rule: chained.induct)
  case (2 p t ts)
  show ?case
  proof (cases ts)
    case (Cons a us)
    have "chained (Some (tr_to t)) ts \<longleftrightarrow> tr_from a = tr_to t \<and> (\<forall>i<length us. tr_from (ts ! Suc i) = tr_to (ts ! i))"
      using 2 by (auto simp: Cons)
    then show ?thesis by (auto simp: Cons All_less_Suc2)
  qed auto
qed simp

definition legal_edge :: "TransitionRecord \<Rightarrow> bool" where
  "legal_edge t \<longleftrightarrow> isAllowedTransition (tr_from t) (tr_to t) (tr_by t)"

lemma validateSequenceFrom_iff:
  "validateSequenceFrom i p ts = Inr u \<longleftrightarrow> chained p ts \<and> (\<forall>t\<in>set ts. legal_edge t)"
  by (induction i p ts rule: validateSequenceFrom.induct)
     (auto simp: legal_edge_def dest: allowed_not_from_terminal)

lemma validateTransitionSequence_iff:
  "validateTransitionSequence ts = Inr u \<longleftrightarrow>
     ts \<noteq> [] \<and> chained None ts \<and> (\<forall>t\<in>set ts. legal_edge t)"
  by (simp add: validateTransitionSequence_def validateSequenceFrom_iff)

fun last_to :: "OcrJobState option \<Rightarrow> TransitionRecord list \<Rightarrow> OcrJobState option" where
  "last_to p [] = p"
| "last_to p (t # ts) = last_to (Some (tr_to t)) ts"

lemma last_to_append [simp]: "last_to p (ts @ us) = last_to (last_to p ts) us"
  by (induction p ts rule: last_to.induct) auto

lemma last_to_snoc: "ts \<noteq> [] \<Longrightarrow> last_to p ts = Some (tr_to (last ts))"
  by (induction p ts rule: last_to.induct) auto

lemma chained_append: "chained p (ts @ us) \<longleftrightarrow> chained p ts \<and> chained (last_to p ts) us"
  by (induction p ts rule: chained.induct) auto

lemma valid_sequence_snoc:
  "ts \<noteq> [] \<Longrightarrow> validateTransitionSequence (ts @ [t]) = Inr u \<longleftrightarrow>
     validateTransitionSequence ts = Inr u \<and> tr_from t = tr_to (last ts) \<and> legal_edge t"
  by (auto simp: validateTransitionSequence_iff chained_append last_to_snoc)

text \<open>Only the last record of a valid sequence can end in a terminal state.\<close>

lemma valid_terminal_last:
  assumes "validateTransitionSequence (xs @ t # ys) = Inr u" and "isTerminalState (tr_to t)"
  shows "ys = []"
proof (rule ccontr)
  assume "ys \<noteq> []"
  then obtain y ys' where ys: "ys = y # ys'" by (cases ys) auto
  from assms(1) have "tr_from y = tr_to t" "legal_edge y"
    by (auto simp: validateTransitionSequence_iff chained_append ys)
  with assms(2) show False by (auto simp: legal_edge_def dest: allowed_not_from_terminal)
qed

text \<open>Schema validation is done by a JSON Schema engine (Ajv) over the contract's schemas. The
  model takes the compiled validators as a parameter: each gives \<open>None\<close> for a valid payload
  and the error summary otherwise.\<close>

record Validators =
  v_submission :: "jval \<Rightarrow> string option"
  v_result :: "jval \<Rightarrow> string option"
  v_statusSequence :: "string \<Rightarrow> TransitionRecord list \<Rightarrow> string option"

definition validateOcrStatusTransitionSequence ::
  "Validators \<Rightarrow> string \<Rightarrow> TransitionRecord list \<Rightarrow> string + unit" where
  "validateOcrStatusTransitionSequence V jobId ts =
     (case v_statusSequence V jobId ts of
        Some summary \<Rightarrow> Inl summary
      | None \<Rightarrow> (case validateTransitionSequence ts of Inl e \<Rightarrow> Inl (seq_error e) | Inr _ \<Rightarrow> Inr ()))"

lemma validateOcrStatusTransitionSequence_Inr:
  "validateOcrStatusTransitionSequence V i ts = Inr u \<longleftrightarrow>
     v_statusSequence V i ts = None \<and> validateTransitionSequence ts = Inr ()"
  by (auto simp: validateOcrStatusTransitionSequence_def split: option.splits sum.splits)

subsection \<open>Retry classification\<close>

definition positive_integer :: "jval \<Rightarrow> bool" where
  "positive_integer v = (case v of JInt i \<Rightarrow> 1 \<le> i | _ \<Rightarrow> False)"

definition is_object :: "jval \<Rightarrow> bool" where
  "is_object v = (case v of JArr _ \<Rightarrow> True | JObj _ \<Rightarrow> True | _ \<Rightarrow> False)"

abbreviation int_of :: "jval \<Rightarrow> int" where
  "int_of v \<equiv> the (jint v)"

text \<open>\<open>None\<close> means the counters are sane.\<close>

definition validateRetryCounters :: "jval \<Rightarrow> string option" where
  "validateRetryCounters p =
     (if \<not> is_object p then Some ''retry_policy is required''
      else if \<not> positive_integer (jget p ''max_attempts'')
      then Some (''retry_policy.max_attempts must be a positive integer, got '' @ js_String (jget p ''max_attempts''))
      else if \<not> positive_integer (jget p ''attempt'')
      then Some (''retry_policy.attempt must be a positive integer, got '' @ js_String (jget p ''attempt''))
      else if int_of (jget p ''attempt'') > int_of (jget p ''max_attempts'')
      then Some (''retry_policy.attempt '' @ js_String (jget p ''attempt'') @ '' exceeds max_attempts ''
                 @ js_String (jget p ''max_attempts''))
      else None)"

lemma validateRetryCounters_None:
  "validateRetryCounters p = None \<longleftrightarrow>
     (\<exists>a m. jget p ''attempt'' = JInt a \<and> jget p ''max_attempts'' = JInt m \<and> 1 \<le> a \<and> a \<le> m)"
proof -
  have "is_object p" if "jget p ''attempt'' = JInt a" for a
    using that by (cases p) (auto simp: is_object_def)
  then show ?thesis
    by (cases "jget p ''attempt''"; cases "jget p ''max_attempts''")
       (auto simp: validateRetryCounters_def positive_integer_def)
qed

datatype RetryDecision =
    Retry int string
  | DeadLetter string
  | NotFailed string

text \<open>\<open>Inl\<close> is a thrown \<open>RetryPolicyError\<close>.\<close>

definition classifyOcrFailureForRetry :: "jval \<Rightarrow> jval \<Rightarrow> jval \<Rightarrow> string + RetryDecision" where
  "classifyOcrFailureForRetry failure retry status =
     (if status \<noteq> JStr ''failed''
      then Inr (NotFailed (''status='' @ quoted (js_String status) @ '' is not a failure''))
      else if \<not> truthy failure
      then Inr (DeadLetter ''failed result with no partial_failure cannot be classified; dead-letter for safety'')
      else case validateRetryCounters retry of
        Some numericErr \<Rightarrow> Inl numericErr
      | None \<Rightarrow>
          if jget failure ''is_transient'' = JBool False
          then Inr (DeadLetter (''permanent failure '' @ quoted (js_String (jget failure ''code'')) @ '': ''
                 @ js_String (jget failure ''message'')))
          else (let attemptsRemaining =
                  int_of (jget retry ''max_attempts'') - int_of (jget retry ''attempt'')
                in if attemptsRemaining \<le> 0
                   then Inr (DeadLetter (''transient failure '' @ quoted (js_String (jget failure ''code''))
                     @ '' but attempts exhausted ('' @ js_String (jget retry ''attempt'') @ ''/''
                     @ js_String (jget retry ''max_attempts'') @ '')''))
                   else Inr (Retry attemptsRemaining (''transient failure '' @ quoted (js_String (jget failure ''code''))
                     @ ''; '' @ show_int attemptsRemaining @ '' attempt(s) remaining''))))"

text \<open>The exact condition for a retry.\<close>

lemma classify_Retry_iff:
  "classifyOcrFailureForRetry failure retry status = Inr (Retry n r) \<longleftrightarrow>
     status = JStr ''failed'' \<and> truthy failure \<and> jget failure ''is_transient'' \<noteq> JBool False \<and>
     (\<exists>a m. jget retry ''attempt'' = JInt a \<and> jget retry ''max_attempts'' = JInt m \<and>
            1 \<le> a \<and> a < m \<and> n = m - a) \<and>
     r = ''transient failure '' @ quoted (js_String (jget failure ''code'')) @ ''; '' @ show_int n @ '' attempt(s) remaining''"
proof (cases "validateRetryCounters retry")
  case None
  then obtain a m where "jget retry ''attempt'' = JInt a" "jget retry ''max_attempts'' = JInt m" "1 \<le> a"
    by (auto simp: validateRetryCounters_None)
  with None show ?thesis by (auto simp: classifyOcrFailureForRetry_def Let_def)
next
  case (Some e)
  then have "\<not> (\<exists>a m. jget retry ''attempt'' = JInt a \<and> jget retry ''max_attempts'' = JInt m \<and> 1 \<le> a \<and> a \<le> m)"
    using validateRetryCounters_None [of retry] by simp
  with Some show ?thesis by (force simp: classifyOcrFailureForRetry_def)
qed

lemma classify_NotFailed_iff:
  "(\<exists>r. classifyOcrFailureForRetry failure retry status = Inr (NotFailed r)) \<longleftrightarrow> status \<noteq> JStr ''failed''"
  by (auto simp: classifyOcrFailureForRetry_def Let_def split: option.splits)

subsection \<open>Consistency of a result with the transitions that follow it\<close>

record ResultEmitted =
  re_status :: string
  re_partial_failure :: jval

definition validateRetryBehavior ::
  "ResultEmitted option \<Rightarrow> jval \<Rightarrow> TransitionRecord list \<Rightarrow> string + unit" where
  "validateRetryBehavior result retry_policy transitions =
     (case result of None \<Rightarrow> Inr () | Some re \<Rightarrow>
      if re_status re \<noteq> ''failed'' then Inr ()
      else case validateRetryCounters retry_policy of Some numericErr \<Rightarrow> Inl numericErr | None \<Rightarrow>
        (let pf = re_partial_failure re in
         if \<not> truthy pf then Inl ''failed result must include partial_failure''
         else case List.find (\<lambda>t. tr_from t = Failed) transitions of None \<Rightarrow> Inr () | Some failedEdge \<Rightarrow>
           if jget pf ''is_transient'' = JBool False
           then requireR (tr_to failedEdge = DeadLettered)
                  (''permanent failure (is_transient=false) must transition to dead_lettered, got ''
                   @ quoted (state_str (tr_to failedEdge)))
           else let attemptsRemaining =
                  int_of (jget retry_policy ''max_attempts'') - int_of (jget retry_policy ''attempt'')
                in if tr_to failedEdge = Queued
                   then requireR (attemptsRemaining > 0)
                     (''transient failure re-queued but attempts exhausted (attempt ''
                      @ js_String (jget retry_policy ''attempt'') @ '' of ''
                      @ js_String (jget retry_policy ''max_attempts'') @ '')'')
                   else requireR (tr_to failedEdge = DeadLettered)
                     (''failed -> '' @ quoted (state_str (tr_to failedEdge)) @ '' is not a valid edge for failed state'')))"

text \<open>The classifier never proposes what the behaviour validator rejects.\<close>

definition decision_state :: "RetryDecision \<Rightarrow> OcrJobState" where
  "decision_state d = (case d of Retry _ _ \<Rightarrow> Queued | _ \<Rightarrow> DeadLettered)"

lemma classify_consistent:
  assumes "classifyOcrFailureForRetry pf retry (JStr ''failed'') = Inr d" and "truthy pf"
    and "tr_from t = Failed" and "tr_to t = decision_state d"
  shows "validateRetryBehavior (Some \<lparr>re_status = ''failed'', re_partial_failure = pf\<rparr>) retry [t] = Inr ()"
  using assms
  by (auto simp: classifyOcrFailureForRetry_def validateRetryBehavior_def decision_state_def Let_def
      split: option.splits if_splits)

end
