(* ===== verification/OcrQueue.thy ===== *)
theory OcrQueue
  imports OcrContract "HOL-Library.Multiset"
begin

text \<open>
  The lease-aware OCR job queue: the transport types of docs/contracts/src/queue.ts and the
  in-memory backend of services/ocr-worker/src/inMemoryQueue.ts. Instants are milliseconds
  since the epoch; the ISO texts of \<open>claimed_at\<close> and \<open>lease_expires_at\<close> are the instants
  they denote. Each operation takes what it reads from the injected clock and from the
  receipt minter as arguments, one per call of \<open>this.now()\<close>.
  The invariant says that every active or waiting job has one logical id, that no id occurs
  twice, and that live receipts were issued; the abstract view \<open>pending\<close> maps each logical
  job id to its job.
\<close>

subsection \<open>Transport types\<close>

record OcrJob =
  job_tid :: string
  job_submission :: jval
  job_enqueued_at :: string
  job_scenario :: "string option"

record OcrQueueClaim =
  clm_job_id :: string
  clm_job :: OcrJob
  clm_worker_id :: string
  clm_claimed_at :: int
  clm_lease_expires_at :: int
  clm_receipt :: string

record EnqueueResult =
  er_job :: OcrJob
  er_deduped :: bool

datatype OcrQueueErrorCode =
  DedupeConflict | UnknownReceipt | StaleReceipt | LeaseExpired | InvalidClaim

fun qcode_str :: "OcrQueueErrorCode \<Rightarrow> string" where
  "qcode_str DedupeConflict = ''dedupe_conflict''"
| "qcode_str UnknownReceipt = ''unknown_receipt''"
| "qcode_str StaleReceipt = ''stale_receipt''"
| "qcode_str LeaseExpired = ''lease_expired''"
| "qcode_str InvalidClaim = ''invalid_claim''"

text \<open>A thrown value: an \<open>OcrQueueError\<close>, or any other error by its message.\<close>

datatype exn = OcrQueueError OcrQueueErrorCode string | OtherError string

fun errorMessage :: "exn \<Rightarrow> string" where
  "errorMessage (OcrQueueError _ m) = m"
| "errorMessage (OtherError m) = m"

subsection \<open>The in-memory backend\<close>

record ActiveClaim =
  ac_receipt :: string
  ac_job_id :: string
  ac_job :: OcrJob
  ac_worker_id :: string
  ac_claimed_at :: int
  ac_lease_expires_at :: int
  ac_lease_expires_ms :: int

record InMemoryOcrQueue =
  q_waiting :: "OcrJob list"
  q_active :: "(string, ActiveClaim) jmap"
  q_issuedReceipts :: "string set"
  q_leaseMs :: int

definition DEFAULT_LEASE_MS :: int where
  "DEFAULT_LEASE_MS = 30000"

definition newInMemoryOcrQueue :: "int option \<Rightarrow> InMemoryOcrQueue" where
  "newInMemoryOcrQueue leaseMs =
     \<lparr>q_waiting = [], q_active = [], q_issuedReceipts = {},
      q_leaseMs = (case leaseMs of Some l \<Rightarrow> l | None \<Rightarrow> DEFAULT_LEASE_MS)\<rparr>"

definition jobIdOf :: "OcrJob \<Rightarrow> exn + string" where
  "jobIdOf job =
     (case jget (job_submission job) ''job_id'' of
        JStr s \<Rightarrow> if s \<noteq> [] then Inr s
                  else Inl (OcrQueueError InvalidClaim ''job.submission.job_id must be a non-empty string'')
      | _ \<Rightarrow> Inl (OcrQueueError InvalidClaim ''job.submission.job_id must be a non-empty string''))"

definition assertClaimShape :: "OcrQueueClaim \<Rightarrow> exn + unit" where
  "assertClaimShape claim =
     requireR (clm_receipt claim \<noteq> [] \<and> clm_job_id claim \<noteq> [])
       (OcrQueueError InvalidClaim ''claim must carry a non-empty receipt and job_id'')"

definition snapshotClaim :: "ActiveClaim \<Rightarrow> OcrQueueClaim" where
  "snapshotClaim c =
     \<lparr>clm_job_id = ac_job_id c, clm_job = ac_job c, clm_worker_id = ac_worker_id c,
      clm_claimed_at = ac_claimed_at c, clm_lease_expires_at = ac_lease_expires_at c,
      clm_receipt = ac_receipt c\<rparr>"

definition findActiveBySubmissionJobId :: "string \<Rightarrow> InMemoryOcrQueue \<Rightarrow> OcrJob option" where
  "findActiveBySubmissionJobId jobId q =
     (case List.find (\<lambda>j. jget (job_submission j) ''job_id'' = JStr jobId) (q_waiting q) of
        Some j \<Rightarrow> Some j
      | None \<Rightarrow> map_option ac_job (List.find (\<lambda>rec. ac_job_id rec = jobId) (mvals (q_active q))))"

definition enqueue :: "OcrJob \<Rightarrow> InMemoryOcrQueue \<Rightarrow> (exn + EnqueueResult) \<times> InMemoryOcrQueue" where
  "enqueue job q =
     (case jobIdOf job of Inl e \<Rightarrow> (Inl e, q) | Inr incomingJobId \<Rightarrow>
      (case findActiveBySubmissionJobId incomingJobId q of
         Some existing \<Rightarrow>
           if deepEquals (job_submission existing) (job_submission job)
           then (Inr \<lparr>er_job = existing, er_deduped = True\<rparr>, q)
           else (Inl (OcrQueueError DedupeConflict
                  (''enqueue conflict for job_id='' @ incomingJobId
                   @ '': a different submission is already active'')), q)
       | None \<Rightarrow>
           (Inr \<lparr>er_job = job, er_deduped = False\<rparr>, q\<lparr>q_waiting := q_waiting q @ [job]\<rparr>)))"

definition sweepOne :: "int \<Rightarrow> InMemoryOcrQueue \<Rightarrow> string \<times> ActiveClaim \<Rightarrow> InMemoryOcrQueue" where
  "sweepOne nowMs q p =
     (if ac_lease_expires_ms (snd p) \<le> nowMs
      then q\<lparr>q_active := mdel (fst p) (q_active q), q_waiting := ac_job (snd p) # q_waiting q\<rparr>
      else q)"

definition sweepExpired :: "int \<Rightarrow> InMemoryOcrQueue \<Rightarrow> InMemoryOcrQueue" where
  "sweepExpired nowMs q = foldl (sweepOne nowMs) q (q_active q)"

definition claimNext ::
  "string \<Rightarrow> int \<Rightarrow> int \<Rightarrow> string \<Rightarrow> InMemoryOcrQueue \<Rightarrow> (exn + OcrQueueClaim option) \<times> InMemoryOcrQueue" where
  "claimNext workerId sweepMs nowMs receipt q0 =
     (if workerId = [] then (Inl (OcrQueueError InvalidClaim ''workerId must be non-empty''), q0)
      else let q = sweepExpired sweepMs q0 in
      case q_waiting q of
        [] \<Rightarrow> (Inr None, q)
      | job # rest \<Rightarrow>
          (let q1 = q\<lparr>q_waiting := rest, q_issuedReceipts := insert receipt (q_issuedReceipts q)\<rparr> in
           case jobIdOf job of Inl e \<Rightarrow> (Inl e, q1) | Inr jid \<Rightarrow>
             (let rec = \<lparr>ac_receipt = receipt, ac_job_id = jid, ac_job = job, ac_worker_id = workerId,
                         ac_claimed_at = nowMs, ac_lease_expires_at = nowMs + q_leaseMs q,
                         ac_lease_expires_ms = nowMs + q_leaseMs q\<rparr>
              in (Inr (Some (snapshotClaim rec)), q1\<lparr>q_active := mset_kv receipt rec (q_active q1)\<rparr>))))"

text \<open>The message of \<open>lease_expired\<close> prints the lease's end in milliseconds where the code prints its ISO text; no
  operation decides on a message.\<close>

definition lookupOrThrow :: "OcrQueueClaim \<Rightarrow> int \<Rightarrow> InMemoryOcrQueue \<Rightarrow> exn + ActiveClaim" where
  "lookupOrThrow claim nowMs q =
     (case mget (q_active q) (clm_receipt claim) of
        Some found \<Rightarrow>
          if ac_lease_expires_ms found \<le> nowMs
          then Inl (OcrQueueError LeaseExpired
                 (''receipt has expired (lease ended at '' @ show_int (ac_lease_expires_at found) @ '')''))
          else if clm_job_id claim \<noteq> ac_job_id found
          then Inl (OcrQueueError InvalidClaim
                 (''claim.job_id='' @ clm_job_id claim @ '' does not match the receipt's owner job_id=''
                  @ ac_job_id found))
          else Inr found
      | None \<Rightarrow>
          if clm_receipt claim \<notin> q_issuedReceipts q
          then Inl (OcrQueueError UnknownReceipt ''receipt was never issued by this backend'')
          else if \<exists>rec\<in>set (mvals (q_active q)). ac_job_id rec = clm_job_id claim
          then Inl (OcrQueueError StaleReceipt
                 (''receipt is no longer the owner of job_id='' @ clm_job_id claim))
          else Inl (OcrQueueError UnknownReceipt ''receipt is not active (already resolved)''))"

definition resolveClaim :: "OcrQueueClaim \<Rightarrow> int \<Rightarrow> InMemoryOcrQueue \<Rightarrow> exn + ActiveClaim" where
  "resolveClaim claim nowMs q = bindR (assertClaimShape claim) (\<lambda>_. lookupOrThrow claim nowMs q)"

definition renewClaim ::
  "OcrQueueClaim \<Rightarrow> int \<Rightarrow> int \<Rightarrow> InMemoryOcrQueue \<Rightarrow> (exn + OcrQueueClaim) \<times> InMemoryOcrQueue" where
  "renewClaim claim lookupMs nowMs q =
     (case resolveClaim claim lookupMs q of Inl e \<Rightarrow> (Inl e, q) | Inr rec \<Rightarrow>
      (let rec' = rec\<lparr>ac_lease_expires_ms := nowMs + q_leaseMs q,
                       ac_lease_expires_at := nowMs + q_leaseMs q\<rparr>
       in (Inr (snapshotClaim rec'), q\<lparr>q_active := mset_kv (clm_receipt claim) rec' (q_active q)\<rparr>)))"

definition completeClaim :: "OcrQueueClaim \<Rightarrow> int \<Rightarrow> InMemoryOcrQueue \<Rightarrow> (exn + unit) \<times> InMemoryOcrQueue" where
  "completeClaim claim nowMs q =
     (case resolveClaim claim nowMs q of Inl e \<Rightarrow> (Inl e, q) | Inr rec \<Rightarrow>
      (Inr (), q\<lparr>q_active := mdel (ac_receipt rec) (q_active q)\<rparr>))"

definition requeueClaim :: "OcrQueueClaim \<Rightarrow> int \<Rightarrow> InMemoryOcrQueue \<Rightarrow> (exn + unit) \<times> InMemoryOcrQueue" where
  "requeueClaim claim nowMs q =
     (case resolveClaim claim nowMs q of Inl e \<Rightarrow> (Inl e, q) | Inr rec \<Rightarrow>
      (Inr (), q\<lparr>q_active := mdel (ac_receipt rec) (q_active q),
                  q_waiting := ac_job rec # q_waiting q\<rparr>))"

definition closeQueue :: "InMemoryOcrQueue \<Rightarrow> InMemoryOcrQueue" where
  "closeQueue q = q\<lparr>q_waiting := [], q_active := []\<rparr>"

definition pendingCount :: "InMemoryOcrQueue \<Rightarrow> nat" where
  "pendingCount q = length (q_waiting q) + length (q_active q)"

definition waitingCount :: "InMemoryOcrQueue \<Rightarrow> nat" where
  "waitingCount q = length (q_waiting q)"

definition claimedCount :: "InMemoryOcrQueue \<Rightarrow> nat" where
  "claimedCount q = length (q_active q)"

subsection \<open>Invariant and abstract view\<close>

definition job_key :: "OcrJob \<Rightarrow> string" where
  "job_key job = (case jget (job_submission job) ''job_id'' of JStr s \<Rightarrow> s | _ \<Rightarrow> [])"

lemma jobIdOf_Inr_iff: "jobIdOf job = Inr s \<longleftrightarrow> s \<noteq> [] \<and> jget (job_submission job) ''job_id'' = JStr s"
  by (auto simp: jobIdOf_def split: jval.splits)

lemma jobIdOf_Inr_key: "jobIdOf job = Inr s \<Longrightarrow> job_key job = s"
  by (simp add: jobIdOf_Inr_iff job_key_def)

lemma jobIdOf_iff_key: "jobIdOf job = Inr s \<longleftrightarrow> s \<noteq> [] \<and> job_key job = s"
  by (auto simp: jobIdOf_Inr_iff job_key_def split: jval.splits)

definition queue_jobs :: "InMemoryOcrQueue \<Rightarrow> OcrJob list" where
  "queue_jobs q = q_waiting q @ map ac_job (mvals (q_active q))"

definition pending :: "InMemoryOcrQueue \<Rightarrow> string \<Rightarrow> OcrJob option" where
  "pending q = map_of (map (\<lambda>j. (job_key j, j)) (queue_jobs q))"

definition good_claim :: "string set \<Rightarrow> string \<times> ActiveClaim \<Rightarrow> bool" where
  "good_claim issued p \<longleftrightarrow>
     ac_receipt (snd p) = fst p \<and> fst p \<in> issued \<and> ac_job_id (snd p) = job_key (ac_job (snd p))"

definition queue_inv :: "InMemoryOcrQueue \<Rightarrow> bool" where
  "queue_inv q \<longleftrightarrow>
     distinct (mkeys (q_active q)) \<and> (\<forall>p\<in>set (q_active q). good_claim (q_issuedReceipts q) p) \<and>
     (\<forall>j\<in>set (queue_jobs q). job_key j \<noteq> []) \<and> distinct (map job_key (queue_jobs q))"

lemma queue_inv_new: "queue_inv (newInMemoryOcrQueue l)"
  by (simp add: queue_inv_def newInMemoryOcrQueue_def queue_jobs_def)


lemma pending_Some_iff:
  assumes "distinct (map job_key (queue_jobs q))"
  shows "pending q i = Some j \<longleftrightarrow> j \<in> set (queue_jobs q) \<and> job_key j = i"
proof -
  have "distinct (map fst (map (\<lambda>j. (job_key j, j)) (queue_jobs q)))"
    using assms by (simp add: comp_def)
  then show ?thesis unfolding pending_def by (auto simp: map_of_eq_Some_iff)
qed

lemma pending_None_iff: "pending q i = None \<longleftrightarrow> (\<forall>j\<in>set (queue_jobs q). job_key j \<noteq> i)"
  by (auto simp: pending_def map_of_eq_None_iff image_iff)

text \<open>The view does not depend on the order of the jobs.\<close>

definition jobs_ok :: "InMemoryOcrQueue \<Rightarrow> bool" where
  "jobs_ok q \<longleftrightarrow> (\<forall>j\<in>set (queue_jobs q). job_key j \<noteq> []) \<and> distinct (map job_key (queue_jobs q))"

definition claims_ok :: "InMemoryOcrQueue \<Rightarrow> bool" where
  "claims_ok q \<longleftrightarrow>
     distinct (mkeys (q_active q)) \<and> (\<forall>p\<in>set (q_active q). good_claim (q_issuedReceipts q) p)"

lemma queue_inv_iff: "queue_inv q \<longleftrightarrow> claims_ok q \<and> jobs_ok q"
  by (auto simp: queue_inv_def claims_ok_def jobs_ok_def)

lemma same_jobs_ok:
  assumes "mset (queue_jobs q') = mset (queue_jobs q)"
  shows "jobs_ok q' \<longleftrightarrow> jobs_ok q"
proof -
  have "mset (map job_key (queue_jobs q')) = mset (map job_key (queue_jobs q))"
    using assms by simp
  then have "distinct (map job_key (queue_jobs q')) \<longleftrightarrow> distinct (map job_key (queue_jobs q))"
    by (rule mset_eq_imp_distinct_iff)
  then show ?thesis using mset_eq_setD [OF assms] by (simp add: jobs_ok_def)
qed

lemma same_jobs_pending:
  assumes "mset (queue_jobs q') = mset (queue_jobs q)" and "jobs_ok q"
  shows "pending q' = pending q"
proof
  fix i
  have ok: "jobs_ok q'" using same_jobs_ok [OF assms(1)] assms(2) by simp
  show "pending q' i = pending q i"
  proof (cases "pending q i")
    case None
    then show ?thesis using mset_eq_setD [OF assms(1)] by (metis pending_None_iff)
  next
    case (Some j)
    then have "pending q' i = Some j"
      using assms ok mset_eq_setD [OF assms(1)] by (simp add: pending_Some_iff jobs_ok_def)
    with Some show ?thesis by simp
  qed
qed

subsection \<open>Sweeping\<close>

abbreviation expired :: "int \<Rightarrow> string \<times> ActiveClaim \<Rightarrow> bool" where
  "expired t p \<equiv> ac_lease_expires_ms (snd p) \<le> t"

lemma foldl_sweepOne:
  "foldl (sweepOne t) q ps =
     q\<lparr>q_active := filter (\<lambda>p. \<forall>p'\<in>set ps. expired t p' \<longrightarrow> fst p' \<noteq> fst p) (q_active q),
       q_waiting := rev (map (ac_job \<circ> snd) (filter (expired t) ps)) @ q_waiting q\<rparr>"
proof (induction ps arbitrary: q)
  case (Cons p ps)
  have "filter (\<lambda>p. \<forall>p'\<in>set ps. expired t p' \<longrightarrow> fst p' \<noteq> fst p) (mdel (fst p) (q_active q))
      = filter (\<lambda>x. fst p \<noteq> fst x \<and> (\<forall>p'\<in>set ps. expired t p' \<longrightarrow> fst p' \<noteq> fst x)) (q_active q)"
    by (auto simp: mdel_def split_def intro: filter_cong)
  with Cons show ?case by (simp add: sweepOne_def)
qed simp

lemma sweepExpired_eq:
  assumes "distinct (mkeys (q_active q))"
  shows "sweepExpired t q =
     q\<lparr>q_active := filter (\<lambda>p. \<not> expired t p) (q_active q),
       q_waiting := rev (map (ac_job \<circ> snd) (filter (expired t) (q_active q))) @ q_waiting q\<rparr>"
proof -
  have "(\<forall>p'\<in>set (q_active q). expired t p' \<longrightarrow> fst p' \<noteq> fst p) \<longleftrightarrow> \<not> expired t p"
    if "p \<in> set (q_active q)" for p
    using assms that by (metis distinct_map inj_on_def)
  then have "filter (\<lambda>p. \<forall>p'\<in>set (q_active q). expired t p' \<longrightarrow> fst p' \<noteq> fst p) (q_active q)
      = filter (\<lambda>p. \<not> expired t p) (q_active q)"
    by (intro filter_cong) auto
  then show ?thesis by (simp add: sweepExpired_def foldl_sweepOne)
qed

lemma mset_jobs_sweep:
  assumes "distinct (mkeys (q_active q))"
  shows "mset (queue_jobs (sweepExpired t q)) = mset (queue_jobs q)"
proof -
  have "image_mset (ac_job \<circ> snd) (mset (q_active q))
      = image_mset (ac_job \<circ> snd) (filter_mset (expired t) (mset (q_active q)))
        + image_mset (ac_job \<circ> snd) (filter_mset (\<lambda>p. \<not> expired t p) (mset (q_active q)))"
    by (metis image_mset_union multiset_partition)
  then show ?thesis
    by (simp add: sweepExpired_eq [OF assms] queue_jobs_def comp_def image_mset.compositionality)
qed

lemma sweep_inv: "queue_inv q \<Longrightarrow> queue_inv (sweepExpired t q) \<and> pending (sweepExpired t q) = pending q"
proof -
  assume inv: "queue_inv q"
  then have d: "distinct (mkeys (q_active q))" by (simp add: queue_inv_def)
  have "claims_ok (sweepExpired t q)"
    using inv by (auto simp: queue_inv_iff claims_ok_def sweepExpired_eq [OF d] distinct_map_filter)
  then show ?thesis
    using same_jobs_ok [OF mset_jobs_sweep [OF d]] same_jobs_pending [OF mset_jobs_sweep [OF d]] inv
    by (simp add: queue_inv_iff)
qed


subsection \<open>Adding and removing one job\<close>

lemma pending_added:
  assumes "mset (queue_jobs q') = add_mset j (mset (queue_jobs q))"
    and "jobs_ok q" and "pending q (job_key j) = None" and "job_key j \<noteq> []"
  shows "jobs_ok q' \<and> pending q' = (pending q)(job_key j \<mapsto> j)"
proof -
  have set: "set (queue_jobs q') = insert j (set (queue_jobs q))"
    using arg_cong [OF assms(1), of set_mset] by simp
  have "mset (map job_key (queue_jobs q')) = mset (map job_key (j # queue_jobs q))"
    using assms(1) by simp
  then have "distinct (map job_key (queue_jobs q')) \<longleftrightarrow> distinct (map job_key (j # queue_jobs q))"
    by (rule mset_eq_imp_distinct_iff)
  moreover have "job_key j \<notin> job_key ` set (queue_jobs q)"
    using assms(3) by (auto simp: pending_None_iff)
  ultimately have d: "distinct (map job_key (queue_jobs q'))" and ok: "jobs_ok q'"
    using assms(2,4) set by (auto simp: jobs_ok_def)
  moreover have "pending q' i = ((pending q)(job_key j \<mapsto> j)) i" for i
  proof (cases "pending q' i")
    case None
    then have "i \<noteq> job_key j" "pending q i = None" by (auto simp: pending_None_iff set)
    with None show ?thesis by simp
  next
    case (Some x)
    then have "x \<in> insert j (set (queue_jobs q))" "job_key x = i"
      using d set by (auto simp: pending_Some_iff)
    moreover have "pending q i = Some x" if "x \<in> set (queue_jobs q)"
      using that assms(2) \<open>job_key x = i\<close> by (simp add: pending_Some_iff jobs_ok_def)
    ultimately show ?thesis using Some assms(3) by auto
  qed
  ultimately show ?thesis by blast
qed

lemma pending_removed:
  assumes "mset (queue_jobs q) = add_mset j (mset (queue_jobs q'))" and "jobs_ok q"
  shows "jobs_ok q' \<and> pending q (job_key j) = Some j \<and> pending q' = (pending q)(job_key j := None)"
proof -
  have set: "set (queue_jobs q) = insert j (set (queue_jobs q'))"
    using arg_cong [OF assms(1), of set_mset] by simp
  have "mset (map job_key (queue_jobs q)) = mset (map job_key (j # queue_jobs q'))"
    using assms(1) by simp
  then have "distinct (map job_key (queue_jobs q)) \<longleftrightarrow> distinct (map job_key (j # queue_jobs q'))"
    by (rule mset_eq_imp_distinct_iff)
  then have d: "distinct (map job_key (queue_jobs q'))" "job_key j \<notin> job_key ` set (queue_jobs q')"
    using assms(2) by (auto simp: jobs_ok_def)
  then have ok: "jobs_ok q'" and none: "pending q' (job_key j) = None"
    using assms(2) set by (auto simp: jobs_ok_def pending_None_iff) (metis image_eqI)
  then have q: "pending q = (pending q')(job_key j \<mapsto> j)"
    using pending_added [OF assms(1)] assms(2) set by (auto simp: jobs_ok_def)
  have "pending q' = ((pending q')(job_key j \<mapsto> j))(job_key j := None)"
    using none by (auto simp: fun_eq_iff)
  then show ?thesis using ok q by auto
qed

lemma mset_mdel:
  assumes "distinct (mkeys m)" and "mget m k = Some v"
  shows "mset m = add_mset (k, v) (mset (mdel k m))"
  using assms
proof (induction m)
  case (Cons p m)
  show ?case
  proof (cases "fst p = k")
    case True
    with Cons.prems have "mdel k (p # m) = m"
      by (auto simp: mdel_def split_def intro!: filter_True) (metis fst_conv image_eqI)
    with True Cons.prems show ?thesis by (cases p) simp
  next
    case False
    with Cons show ?thesis by (cases p) (auto simp: mdel_def)
  qed
qed simp

lemma mset_jobs_mdel:
  assumes "claims_ok q" and "mget (q_active q) r = Some rec"
  shows "mset (queue_jobs q) =
    add_mset (ac_job rec) (mset (queue_jobs (q\<lparr>q_active := mdel r (q_active q)\<rparr>)))"
  using arg_cong [OF mset_mdel, of "q_active q" r rec "image_mset (ac_job \<circ> snd)"] assms
  by (simp add: queue_jobs_def claims_ok_def comp_def image_mset.compositionality)

lemma claims_ok_mdel: "claims_ok q \<Longrightarrow> claims_ok (q\<lparr>q_active := mdel r (q_active q), q_waiting := w\<rparr>)"
  by (auto simp: claims_ok_def set_mdel)

lemma claims_okD: "claims_ok q \<Longrightarrow> mget (q_active q) r = Some rec \<Longrightarrow> good_claim (q_issuedReceipts q) (r, rec)"
  by (auto simp: claims_ok_def dest: map_of_SomeD)

subsection \<open>Resolving a claim\<close>

lemma resolveClaim_Inr_iff:
  "resolveClaim c t q = Inr rec \<longleftrightarrow>
     clm_receipt c \<noteq> [] \<and> clm_job_id c \<noteq> [] \<and> mget (q_active q) (clm_receipt c) = Some rec \<and>
     t < ac_lease_expires_ms rec \<and> clm_job_id c = ac_job_id rec"
  by (auto simp: resolveClaim_def assertClaimShape_def lookupOrThrow_def result_simps
      split: option.splits if_splits)

lemma completeClaim_spec:
  assumes "queue_inv q" and "completeClaim c t q = (r, q')"
  shows "queue_inv q' \<and>
    (case r of Inl _ \<Rightarrow> q' = q
     | Inr _ \<Rightarrow> pending q (clm_job_id c) \<noteq> None \<and> pending q' = (pending q)(clm_job_id c := None))"
proof (cases "resolveClaim c t q")
  case (Inl e)
  with assms show ?thesis by (auto simp: completeClaim_def)
next
  case (Inr rec)
  then have get: "mget (q_active q) (clm_receipt c) = Some rec" and id: "clm_job_id c = ac_job_id rec"
    by (simp_all add: resolveClaim_Inr_iff)
  have good: "good_claim (q_issuedReceipts q) (clm_receipt c, rec)"
    using claims_okD get assms(1) by (auto simp: queue_inv_iff)
  then have q': "r = Inr ()" "q' = q\<lparr>q_active := mdel (clm_receipt c) (q_active q)\<rparr>"
    using assms(2) Inr by (simp_all add: completeClaim_def good_claim_def)
  have "mset (queue_jobs q) = add_mset (ac_job rec) (mset (queue_jobs q'))"
    using mset_jobs_mdel get assms(1) q' by (simp add: queue_inv_iff)
  then have "jobs_ok q' \<and> pending q (job_key (ac_job rec)) = Some (ac_job rec) \<and>
      pending q' = (pending q)(job_key (ac_job rec) := None)"
    using pending_removed assms(1) by (simp add: queue_inv_iff)
  moreover have "claims_ok q'"
    using claims_ok_mdel [where r = "clm_receipt c" and w = "q_waiting q" and q = q] assms(1) q' by (simp add: queue_inv_iff)
  ultimately show ?thesis using q' id good by (simp add: queue_inv_iff good_claim_def)
qed


lemma requeueClaim_spec:
  assumes "queue_inv q" and "requeueClaim c t q = (r, q')"
  shows "queue_inv q' \<and> pending q' = pending q \<and> (\<forall>e. r = Inl e \<longrightarrow> q' = q)"
proof (cases "resolveClaim c t q")
  case (Inl e)
  with assms show ?thesis by (auto simp: requeueClaim_def)
next
  case (Inr rec)
  then have get: "mget (q_active q) (clm_receipt c) = Some rec"
    by (simp add: resolveClaim_Inr_iff)
  then have good: "good_claim (q_issuedReceipts q) (clm_receipt c, rec)"
    using claims_okD assms(1) by (auto simp: queue_inv_iff)
  then have q': "r = Inr ()" "q' = q\<lparr>q_active := mdel (clm_receipt c) (q_active q), q_waiting := ac_job rec # q_waiting q\<rparr>"
    using assms(2) Inr by (simp_all add: requeueClaim_def good_claim_def)
  have "mset (queue_jobs q) = mset (queue_jobs q')"
    using mset_jobs_mdel [OF _ get] assms(1) q' by (simp add: queue_inv_iff queue_jobs_def)
  then have "jobs_ok q' \<and> pending q' = pending q"
    using same_jobs_ok [of q' q] same_jobs_pending [of q' q] assms(1) by (simp add: queue_inv_iff)
  moreover have "claims_ok q'"
    using claims_ok_mdel [where q = q] assms(1) q' by (simp add: queue_inv_iff)
  ultimately show ?thesis using q' by (simp add: queue_inv_iff)
qed

lemma mset_jobs_mset_kv:
  assumes "mget (q_active q) r = Some rec" and "ac_job rec' = ac_job rec"
  shows "queue_jobs (q\<lparr>q_active := mset_kv r rec' (q_active q)\<rparr>) = queue_jobs q"
proof -
  have "map ac_job (mvals (mset_kv r rec' m)) = map ac_job (mvals m)" if "mget m r = Some rec" for m
    using that assms(2) by (induction m) (auto split: if_splits)
  with assms(1) show ?thesis by (simp add: queue_jobs_def)
qed

lemma renewClaim_spec:
  assumes "queue_inv q" and "renewClaim c t1 t2 q = (r, q')"
  shows "queue_inv q' \<and> pending q' = pending q \<and> (\<forall>e. r = Inl e \<longrightarrow> q' = q) \<and>
    (\<forall>c'. r = Inr c' \<longrightarrow> clm_receipt c' = clm_receipt c \<and> clm_job_id c' = clm_job_id c \<and>
       clm_lease_expires_at c' = t2 + q_leaseMs q)"
proof (cases "resolveClaim c t1 q")
  case (Inl e)
  with assms show ?thesis by (auto simp: renewClaim_def)
next
  case (Inr rec)
  then have get: "mget (q_active q) (clm_receipt c) = Some rec" and id: "clm_job_id c = ac_job_id rec"
    by (simp_all add: resolveClaim_Inr_iff)
  then have good: "good_claim (q_issuedReceipts q) (clm_receipt c, rec)"
    using claims_okD assms(1) by (auto simp: queue_inv_iff)
  define rec' where "rec' = rec\<lparr>ac_lease_expires_ms := t2 + q_leaseMs q, ac_lease_expires_at := t2 + q_leaseMs q\<rparr>"
  have r: "r = Inr (snapshotClaim rec')" and q': "q' = q\<lparr>q_active := mset_kv (clm_receipt c) rec' (q_active q)\<rparr>"
    using assms(2) Inr by (auto simp: renewClaim_def rec'_def Let_def)
  have jobs: "queue_jobs q' = queue_jobs q"
    unfolding q' using get by (rule mset_jobs_mset_kv) (simp add: rec'_def)
  have "good_claim (q_issuedReceipts q) (clm_receipt c, rec')"
    using good by (simp add: good_claim_def rec'_def)
  then have "claims_ok q'"
    using assms(1) by (auto simp: q' queue_inv_iff claims_ok_def set_mset_kv_distinct)
  moreover have "jobs_ok q' \<and> pending q' = pending q"
    using jobs assms(1) by (simp add: queue_inv_iff jobs_ok_def pending_def)
  ultimately show ?thesis using r id good
    by (simp add: queue_inv_iff snapshotClaim_def rec'_def good_claim_def)
qed

subsection \<open>Claiming and enqueueing\<close>

lemma claimNext_spec:
  assumes inv: "queue_inv q" and fresh: "receipt \<notin> q_issuedReceipts q"
    and run: "claimNext w t1 t2 receipt q = (r, q')"
  shows "queue_inv q' \<and> pending q' = pending q \<and>
    (\<forall>c. r = Inr (Some c) \<longrightarrow> pending q (clm_job_id c) = Some (clm_job c) \<and> clm_receipt c = receipt \<and>
       q_waiting (sweepExpired t1 q) = clm_job c # q_waiting q' \<and>
       mget (q_active q') receipt \<noteq> None \<and> clm_lease_expires_at c = t2 + q_leaseMs q) \<and>
    (r = Inr None \<longrightarrow> q_waiting (sweepExpired t1 q) = []) \<and>
    (w \<noteq> [] \<longrightarrow> (\<forall>e. r \<noteq> Inl e))"
proof (cases "w = []")
  case True
  with assms show ?thesis by (auto simp: claimNext_def)
next
  case False
  let ?s = "sweepExpired t1 q"
  have d: "distinct (mkeys (q_active q))" using inv by (simp add: queue_inv_def)
  have sw: "queue_inv ?s" "pending ?s = pending q" using sweep_inv [OF inv] by auto
  have same: "q_issuedReceipts ?s = q_issuedReceipts q" "q_leaseMs ?s = q_leaseMs q"
    by (simp_all add: sweepExpired_eq [OF d])
  show ?thesis
  proof (cases "q_waiting ?s")
    case Nil
    with False run have "r = Inr None" "q' = ?s" by (auto simp: claimNext_def Let_def)
    with sw Nil show ?thesis by simp
  next
    case (Cons job rest)
    have "job \<in> set (queue_jobs ?s)" by (simp add: queue_jobs_def Cons)
    then have key: "jobIdOf job = Inr (job_key job)" and pend: "pending ?s (job_key job) = Some job"
      using sw(1) by (auto simp: jobIdOf_iff_key pending_Some_iff queue_inv_def)
    define rec where "rec = \<lparr>ac_receipt = receipt, ac_job_id = job_key job, ac_job = job, ac_worker_id = w,
        ac_claimed_at = t2, ac_lease_expires_at = t2 + q_leaseMs q, ac_lease_expires_ms = t2 + q_leaseMs q\<rparr>"
    have new: "receipt \<notin> set (mkeys (q_active ?s))"
      using sw(1) fresh by (auto simp: queue_inv_iff claims_ok_def good_claim_def same)
    have q': "q' = ?s\<lparr>q_waiting := rest, q_issuedReceipts := insert receipt (q_issuedReceipts q),
        q_active := q_active ?s @ [(receipt, rec)]\<rparr>"
      and r: "r = Inr (Some (snapshotClaim rec))"
      using run False key by (auto simp: claimNext_def Cons rec_def same mset_kv_fresh [OF new] Let_def)
    have "mset (queue_jobs q') = mset (queue_jobs ?s)"
      by (simp add: q' queue_jobs_def Cons rec_def)
    then have "jobs_ok q' \<and> pending q' = pending ?s"
      using same_jobs_ok [of q' ?s] same_jobs_pending [of q' ?s] sw(1) by (simp add: queue_inv_iff)
    moreover have "claims_ok q'"
      using sw(1) new by (auto simp: q' queue_inv_iff claims_ok_def good_claim_def rec_def same)
    ultimately show ?thesis
      using sw pend new Cons by (auto simp: r q' queue_inv_iff snapshotClaim_def rec_def same)
  qed
qed

lemma findActive_pending:
  assumes "queue_inv q" and "i \<noteq> []"
  shows "findActiveBySubmissionJobId i q = pending q i"
proof -
  have w: "jget (job_submission j) ''job_id'' = JStr i \<longleftrightarrow> job_key j = i" for j
    using assms(2) by (auto simp: job_key_def split: jval.splits)
  have a: "ac_job_id rec = job_key (ac_job rec)" if "rec \<in> set (mvals (q_active q))" for rec
    using that assms(1) by (auto simp: queue_inv_def good_claim_def)
  show ?thesis
  proof (cases "findActiveBySubmissionJobId i q")
    case None
    then have "\<forall>j\<in>set (queue_jobs q). job_key j \<noteq> i"
      using a by (auto simp: findActiveBySubmissionJobId_def queue_jobs_def w find_None_iff_all
          split: option.splits)
    with None show ?thesis using pending_None_iff by metis
  next
    case (Some j)
    then have "j \<in> set (queue_jobs q) \<and> job_key j = i"
      using a by (auto simp: findActiveBySubmissionJobId_def queue_jobs_def w
          split: option.splits dest!: find_Some_iff_split)
    then have "pending q i = Some j"
      using assms(1) by (simp add: pending_Some_iff queue_inv_def)
    with Some show ?thesis by simp
  qed
qed

lemma enqueue_spec:
  assumes inv: "queue_inv q" and run: "enqueue job q = (r, q')"
  shows "queue_inv q' \<and> (\<forall>e. r = Inl e \<longrightarrow> q' = q) \<and>
    (\<forall>er. r = Inr er \<longrightarrow>
       (if er_deduped er
        then q' = q \<and> pending q (job_key job) = Some (er_job er) \<and>
             deepEquals (job_submission (er_job er)) (job_submission job)
        else pending q (job_key job) = None \<and> er_job er = job \<and>
             pending q' = (pending q)(job_key job \<mapsto> job)))"
proof (cases "jobIdOf job")
  case (Inl e)
  with inv run show ?thesis by (auto simp: enqueue_def)
next
  case (Inr i)
  then have i: "i \<noteq> []" "job_key job = i" by (auto simp: jobIdOf_iff_key)
  have f: "findActiveBySubmissionJobId i q = pending q i" using findActive_pending [OF inv i(1)] .
  show ?thesis
  proof (cases "pending q i")
    case (Some x)
    with inv run Inr f i show ?thesis by (auto simp: enqueue_def split: if_splits)
  next
    case None
    then have q': "q' = q\<lparr>q_waiting := q_waiting q @ [job]\<rparr>" "r = Inr \<lparr>er_job = job, er_deduped = False\<rparr>"
      using run Inr f by (auto simp: enqueue_def)
    have "mset (queue_jobs q') = add_mset job (mset (queue_jobs q))"
      by (simp add: q' queue_jobs_def)
    then have "jobs_ok q' \<and> pending q' = (pending q)(job_key job \<mapsto> job)"
      using None i inv by (intro pending_added) (auto simp: queue_inv_iff)
    moreover have "claims_ok q'" using inv by (simp add: q' queue_inv_iff claims_ok_def)
    ultimately show ?thesis using q' None i by (simp add: queue_inv_iff)
  qed
qed


subsection \<open>Redelivery\<close>

text \<open>Successive claims by one worker at one clock reading, each under the next receipt, until one gives nothing.\<close>

fun claimAll :: "string \<Rightarrow> int \<Rightarrow> int \<Rightarrow> string list \<Rightarrow> InMemoryOcrQueue \<Rightarrow> OcrQueueClaim list" where
  "claimAll w t1 t2 [] q = []"
| "claimAll w t1 t2 (receipt # receipts) q =
     (case claimNext w t1 t2 receipt q of
        (Inr (Some c), q') \<Rightarrow> c # claimAll w t1 t2 receipts q'
      | _ \<Rightarrow> [])"

lemma sweep_idempotent:
  assumes "distinct (mkeys (q_active q))"
  shows "sweepExpired t (sweepExpired t q) = sweepExpired t q"
proof -
  have "distinct (mkeys (q_active (sweepExpired t q)))"
    using assms by (simp add: sweepExpired_eq [OF assms] distinct_map_filter)
  then show ?thesis by (simp add: sweepExpired_eq [OF assms] sweepExpired_eq)
qed

lemma claimAll_sweep:
  assumes "queue_inv q" and "length receipts = length (q_waiting (sweepExpired t1 q))"
  shows "claimAll w t1 t2 receipts q = claimAll w t1 t2 receipts (sweepExpired t1 q)"
proof (cases receipts)
  case (Cons r rs)
  have "sweepExpired t1 (sweepExpired t1 q) = sweepExpired t1 q" using sweep_idempotent assms(1) by (simp add: queue_inv_def)
  moreover from assms(2) Cons obtain job rest where "q_waiting (sweepExpired t1 q) = job # rest"
    by (cases "q_waiting (sweepExpired t1 q)") auto
  ultimately show ?thesis unfolding Cons by (cases "w = []") (simp_all add: claimNext_def Let_def)
qed simp

lemma claimAll_delivers:
  assumes "queue_inv q" and "sweepExpired t1 q = q" and "w \<noteq> []" and "t1 < t2 + q_leaseMs q"
    and "distinct receipts" and "set receipts \<inter> q_issuedReceipts q = {}" and "length receipts = length (q_waiting q)"
  shows "map clm_job (claimAll w t1 t2 receipts q) = q_waiting q"
  using assms
proof (induction receipts arbitrary: q)
  case (Cons receipt receipts)
  from Cons.prems(7) obtain job rest where q: "q_waiting q = job # rest" by (cases "q_waiting q") auto
  obtain r q' where run: "claimNext w t1 t2 receipt q = (r, q')" by fastforce
  have fresh: "receipt \<notin> q_issuedReceipts q" using Cons.prems(6) by simp
  note spec = claimNext_spec [OF Cons.prems(1) fresh run]
  then obtain c where c: "r = Inr (Some c)" using Cons.prems(2,3) q by (cases r; cases "projr r") fastforce+
  then have job: "clm_job c = job" "q_waiting q' = rest" and inv': "queue_inv q'" using spec Cons.prems(2) q by auto
  have "job \<in> set (queue_jobs q)" by (simp add: queue_jobs_def q)
  then have key: "jobIdOf job = Inr (job_key job)" using Cons.prems(1) by (simp add: jobIdOf_iff_key queue_inv_def)
  have new: "receipt \<notin> set (mkeys (q_active q))"
    using Cons.prems(1) fresh by (auto simp: queue_inv_iff claims_ok_def good_claim_def)
  have d: "distinct (mkeys (q_active q))" "distinct (mkeys (q_active q'))" using Cons.prems(1) inv' by (simp_all add: queue_inv_def)
  obtain rec where q': "q_active q' = q_active q @ [(receipt, rec)]" "ac_lease_expires_ms rec = t2 + q_leaseMs q"
      "q_issuedReceipts q' = insert receipt (q_issuedReceipts q)" "q_leaseMs q' = q_leaseMs q"
    using run Cons.prems(2,3) key by (auto simp: claimNext_def q mset_kv_fresh [OF new] Let_def)
  have "q_active (sweepExpired t1 q) = q_active q" using Cons.prems(2) by simp
  then have "\<forall>p\<in>set (q_active q). \<not> expired t1 p" unfolding sweepExpired_eq [OF d(1)] by (simp add: filter_eq_Cons_iff filter_id_conv)
  then have "\<forall>p\<in>set (q_active q'). \<not> expired t1 p" using q' Cons.prems(4) by auto
  then have "sweepExpired t1 q' = q'" by (simp add: sweepExpired_eq [OF d(2)] filter_id_conv)
  moreover have "set receipts \<inter> q_issuedReceipts q' = {}" using Cons.prems(5,6) q'(3) by auto
  ultimately have "map clm_job (claimAll w t1 t2 receipts q') = q_waiting q'"
    using Cons.IH [of q'] Cons.prems(3-5,7) inv' q' job q by simp
  then show ?case by (simp add: run c job q)
qed simp

lemma claimAll_redelivers:
  assumes "queue_inv q" and "w \<noteq> []" and "t1 < t2 + q_leaseMs q" and "distinct receipts"
    and "set receipts \<inter> q_issuedReceipts q = {}" and "length receipts = length (q_waiting (sweepExpired t1 q))"
  shows "map clm_job (claimAll w t1 t2 receipts q) = q_waiting (sweepExpired t1 q)"
proof -
  have d: "distinct (mkeys (q_active q))" using assms(1) by (simp add: queue_inv_def)
  have "q_leaseMs (sweepExpired t1 q) = q_leaseMs q" "q_issuedReceipts (sweepExpired t1 q) = q_issuedReceipts q"
    by (simp_all add: sweepExpired_eq [OF d])
  with claimAll_delivers [OF conjunct1 [OF sweep_inv [OF assms(1)]] sweep_idempotent [OF d] assms(2)] assms(3-6)
  show ?thesis unfolding claimAll_sweep [OF assms(1,6)] by metis
qed

subsection \<open>Every history of operations keeps the invariant\<close>

inductive queue_step :: "InMemoryOcrQueue \<Rightarrow> InMemoryOcrQueue \<Rightarrow> bool" where
  step_enqueue: "enqueue job q = (r, q') \<Longrightarrow> queue_step q q'"
| step_claim: "receipt \<notin> q_issuedReceipts q \<Longrightarrow> claimNext w t1 t2 receipt q = (r, q') \<Longrightarrow> queue_step q q'"
| step_renew: "renewClaim c t1 t2 q = (r, q') \<Longrightarrow> queue_step q q'"
| step_complete: "completeClaim c t q = (r, q') \<Longrightarrow> queue_step q q'"
| step_requeue: "requeueClaim c t q = (r, q') \<Longrightarrow> queue_step q q'"
| step_close: "queue_step q (closeQueue q)"

inductive queue_reachable :: "InMemoryOcrQueue \<Rightarrow> bool" where
  reach_new: "queue_reachable (newInMemoryOcrQueue l)"
| reach_step: "queue_reachable q \<Longrightarrow> queue_step q q' \<Longrightarrow> queue_reachable q'"

inductive_cases queue_stepE: "queue_step q q'"

lemma queue_inv_close: "queue_inv (closeQueue q)"
  by (simp add: queue_inv_def closeQueue_def queue_jobs_def)

lemma queue_step_inv: "queue_step q q' \<Longrightarrow> queue_inv q \<Longrightarrow> queue_inv q'"
  by (induction rule: queue_step.induct)
     (auto dest: enqueue_spec claimNext_spec renewClaim_spec completeClaim_spec requeueClaim_spec
       simp: queue_inv_close)

lemma queue_reachable_inv: "queue_reachable q \<Longrightarrow> queue_inv q"
  by (induction rule: queue_reachable.induct) (auto simp: queue_inv_new intro: queue_step_inv)

subsection \<open>The backend interface\<close>

record 'q QueueBackend =
  qb_enqueue :: "OcrJob \<Rightarrow> 'q \<Rightarrow> (exn + EnqueueResult) \<times> 'q"
  qb_claimNext :: "string \<Rightarrow> 'q \<Rightarrow> (exn + OcrQueueClaim option) \<times> 'q"
  qb_renewClaim :: "OcrQueueClaim \<Rightarrow> 'q \<Rightarrow> (exn + OcrQueueClaim) \<times> 'q"
  qb_completeClaim :: "OcrQueueClaim \<Rightarrow> 'q \<Rightarrow> (exn + unit) \<times> 'q"
  qb_requeueClaim :: "OcrQueueClaim \<Rightarrow> 'q \<Rightarrow> (exn + unit) \<times> 'q"

text \<open>What a client of \<open>OcrJobQueueBackend\<close> may rely on: a job leaves the active set only
  when a claim on it is completed.\<close>

locale ocr_queue_backend =
  fixes B :: "'q QueueBackend"
    and inv :: "'q \<Rightarrow> bool"
    and pend :: "'q \<Rightarrow> string \<Rightarrow> OcrJob option"
  assumes claim_law: "inv q \<Longrightarrow> qb_claimNext B w q = (r, q') \<Longrightarrow>
      inv q' \<and> pend q' = pend q \<and>
      (\<forall>c. r = Inr (Some c) \<longrightarrow> pend q (clm_job_id c) = Some (clm_job c))"
    and renew_law: "inv q \<Longrightarrow> qb_renewClaim B c q = (rr, q') \<Longrightarrow> inv q' \<and> pend q' = pend q"
    and complete_law: "inv q \<Longrightarrow> qb_completeClaim B c q = (rc, q') \<Longrightarrow>
      inv q' \<and> pend q' = (case rc of Inl _ \<Rightarrow> pend q | Inr _ \<Rightarrow> (pend q)(clm_job_id c := None))"
    and requeue_law: "inv q \<Longrightarrow> qb_requeueClaim B c q = (rq, q') \<Longrightarrow> inv q' \<and> pend q' = pend q"
    and enqueue_law: "inv q \<Longrightarrow> qb_enqueue B job q = (re, q') \<Longrightarrow>
      inv q' \<and> (case re of Inl _ \<Rightarrow> pend q' = pend q
        | Inr er \<Rightarrow> if er_deduped er then pend q' = pend q \<and> pend q (job_key job) = Some (er_job er)
                  else pend q (job_key job) = None \<and> pend q' = (pend q)(job_key job \<mapsto> job))"
    and key_law: "inv q \<Longrightarrow> pend q i = Some j \<Longrightarrow> job_key j = i"
begin

lemma enqueue_keeps_others:
  assumes "inv q" "qb_enqueue B job q = (re, q')" "i \<noteq> job_key job"
  shows "pend q' i = pend q i"
  using enqueue_law [OF assms(1,2)] assms(3) by (auto split: sum.splits if_splits)

lemma enqueue_present:
  assumes "inv q" "qb_enqueue B job q = (Inr er, q')"
  shows "pend q' (job_key job) = Some (er_job er) \<or> (\<not> er_deduped er \<and> pend q' (job_key job) = Some job)"
  using enqueue_law [OF assms] by (auto split: if_splits)

lemma complete_keeps_others:
  assumes "inv q" "qb_completeClaim B c q = (rc, q')" "i \<noteq> clm_job_id c"
  shows "pend q' i = pend q i"
  using complete_law [OF assms(1,2)] assms(3) by (auto split: sum.splits)

end

text \<open>The in-memory queue with its injected clock and receipt minter, read in sequence.\<close>

record MemoryBackend =
  mb_queue :: InMemoryOcrQueue
  mb_now :: "nat \<Rightarrow> int"
  mb_ticks :: nat
  mb_generateReceipt :: "nat \<Rightarrow> string"
  mb_minted :: nat

definition on_queue ::
  "(InMemoryOcrQueue \<Rightarrow> 'r \<times> InMemoryOcrQueue) \<Rightarrow> nat \<Rightarrow> nat \<Rightarrow> MemoryBackend \<Rightarrow> 'r \<times> MemoryBackend" where
  "on_queue f ticks minted m =
     (let (r, q) = f (mb_queue m)
      in (r, m\<lparr>mb_queue := q, mb_ticks := mb_ticks m + ticks, mb_minted := mb_minted m + minted\<rparr>))"

abbreviation mb_time :: "MemoryBackend \<Rightarrow> nat \<Rightarrow> int" where
  "mb_time m k \<equiv> mb_now m (mb_ticks m + k)"

definition memoryBackend :: "MemoryBackend QueueBackend" where
  "memoryBackend =
     \<lparr>qb_enqueue = (\<lambda>job. on_queue (enqueue job) 0 0),
      qb_claimNext = (\<lambda>w m.
        on_queue (claimNext w (mb_time m 0) (mb_time m 1) (mb_generateReceipt m (mb_minted m))) 2 1 m),
      qb_renewClaim = (\<lambda>c m. on_queue (renewClaim c (mb_time m 0) (mb_time m 1)) 2 0 m),
      qb_completeClaim = (\<lambda>c m. on_queue (completeClaim c (mb_time m 0)) 1 0 m),
      qb_requeueClaim = (\<lambda>c m. on_queue (requeueClaim c (mb_time m 0)) 1 0 m)\<rparr>"

definition mb_inv :: "MemoryBackend \<Rightarrow> bool" where
  "mb_inv m \<longleftrightarrow> queue_inv (mb_queue m) \<and> inj (mb_generateReceipt m) \<and>
     q_issuedReceipts (mb_queue m) \<subseteq> mb_generateReceipt m ` {..<mb_minted m}"

definition mb_pending :: "MemoryBackend \<Rightarrow> string \<Rightarrow> OcrJob option" where
  "mb_pending m = pending (mb_queue m)"

lemma issued_unless_claim:
  "snd (enqueue job q) = q' \<Longrightarrow> q_issuedReceipts q' = q_issuedReceipts q"
  "snd (renewClaim c t1 t2 q) = q' \<Longrightarrow> q_issuedReceipts q' = q_issuedReceipts q"
  "snd (completeClaim c t q) = q' \<Longrightarrow> q_issuedReceipts q' = q_issuedReceipts q"
  "snd (requeueClaim c t q) = q' \<Longrightarrow> q_issuedReceipts q' = q_issuedReceipts q"
  by (auto simp: enqueue_def renewClaim_def completeClaim_def requeueClaim_def Let_def
      split: sum.splits option.splits if_splits)

lemma issued_foldl_sweep: "q_issuedReceipts (sweepExpired t q) = q_issuedReceipts q"
  by (simp add: sweepExpired_def foldl_sweepOne)

lemma issued_claim:
  "snd (claimNext w t1 t2 receipt q) = q' \<Longrightarrow> q_issuedReceipts q' \<subseteq> insert receipt (q_issuedReceipts q)"
  by (auto simp: claimNext_def Let_def issued_foldl_sweep split: sum.splits list.splits if_splits)

lemma mb_fresh: "mb_inv m \<Longrightarrow> mb_generateReceipt m (mb_minted m) \<notin> q_issuedReceipts (mb_queue m)"
  unfolding mb_inv_def by (auto dest!: subsetD dest: injD)

lemma mb_inv_on_queue:
  assumes "mb_inv m" and "on_queue f t k m = (r, m')"
    and "queue_inv (snd (f (mb_queue m)))"
    and "q_issuedReceipts (snd (f (mb_queue m))) \<subseteq>
         q_issuedReceipts (mb_queue m) \<union> mb_generateReceipt m ` {..<mb_minted m + k}"
  shows "mb_inv m' \<and> f (mb_queue m) = (r, mb_queue m')"
proof -
  have "mb_generateReceipt m ` {..<mb_minted m} \<subseteq> mb_generateReceipt m ` {..<mb_minted m + k}" by auto
  then have "q_issuedReceipts (snd (f (mb_queue m))) \<subseteq> mb_generateReceipt m ` {..<mb_minted m + k}"
    using assms(1,4) by (auto simp: mb_inv_def)
  moreover have "f (mb_queue m) = (r, mb_queue m')" "m' = m\<lparr>mb_queue := mb_queue m',
      mb_ticks := mb_ticks m + t, mb_minted := mb_minted m + k\<rparr>"
    using assms(2) by (auto simp: on_queue_def split: prod.splits)
  ultimately show ?thesis using assms(1,3) by (cases m') (simp add: mb_inv_def)
qed

interpretation mem: ocr_queue_backend memoryBackend mb_inv mb_pending
proof (unfold_locales, goal_cases)
  case (1 m w r m')
  let ?f = "claimNext w (mb_time m 0) (mb_time m 1) (mb_generateReceipt m (mb_minted m))"
  have inv: "queue_inv (mb_queue m)" using 1 by (simp add: mb_inv_def)
  obtain r0 q0 where run: "?f (mb_queue m) = (r0, q0)" by fastforce
  have run': "on_queue ?f 2 1 m = (r, m')" using 1(2) by (simp add: memoryBackend_def)
  have snd: "snd (?f (mb_queue m)) = q0" by (simp only: run snd_conv)
  have "q_issuedReceipts q0 \<subseteq> insert (mb_generateReceipt m (mb_minted m)) (q_issuedReceipts (mb_queue m))"
    using snd by (rule issued_claim)
  then have "q_issuedReceipts (snd (?f (mb_queue m))) \<subseteq>
      q_issuedReceipts (mb_queue m) \<union> mb_generateReceipt m ` {..<mb_minted m + 1}"
    unfolding snd by (auto simp: lessThan_Suc)
  moreover have "queue_inv (snd (?f (mb_queue m)))"
    unfolding snd using claimNext_spec [OF inv mb_fresh [OF 1(1)] run] by blast
  ultimately have "mb_inv m' \<and> ?f (mb_queue m) = (r, mb_queue m')"
    using mb_inv_on_queue [OF 1(1) run'] by blast
  then show ?case
    using claimNext_spec [OF inv mb_fresh [OF 1(1)], of w "mb_time m 0" "mb_time m 1" r "mb_queue m'"]
    by (auto simp: mb_pending_def)
next
  case (2 m c r m')
  have inv: "queue_inv (mb_queue m)" using 2 by (simp add: mb_inv_def)
  have "mb_inv m' \<and> renewClaim c (mb_time m 0) (mb_time m 1) (mb_queue m) = (r, mb_queue m')"
    using 2 renewClaim_spec [OF inv prod.collapse [symmetric]] issued_unless_claim(2)
    by (intro mb_inv_on_queue) (auto simp: memoryBackend_def)
  then show ?case using renewClaim_spec [OF inv] by (auto simp: mb_pending_def)
next
  case (3 m c r m')
  have inv: "queue_inv (mb_queue m)" using 3 by (simp add: mb_inv_def)
  have run: "mb_inv m' \<and> completeClaim c (mb_time m 0) (mb_queue m) = (r, mb_queue m')"
    using 3 completeClaim_spec [OF inv prod.collapse [symmetric]] issued_unless_claim(3)
    by (intro mb_inv_on_queue) (auto simp: memoryBackend_def)
  show ?case using completeClaim_spec [OF inv conjunct2 [OF run]] run
    by (cases r) (simp_all add: mb_pending_def)
next
  case (4 m c r m')
  have inv: "queue_inv (mb_queue m)" using 4 by (simp add: mb_inv_def)
  have "mb_inv m' \<and> requeueClaim c (mb_time m 0) (mb_queue m) = (r, mb_queue m')"
    using 4 requeueClaim_spec [OF inv prod.collapse [symmetric]] issued_unless_claim(4)
    by (intro mb_inv_on_queue) (auto simp: memoryBackend_def)
  then show ?case using requeueClaim_spec [OF inv] by (auto simp: mb_pending_def)
next
  case (5 m job r m')
  have inv: "queue_inv (mb_queue m)" using 5 by (simp add: mb_inv_def)
  have run: "mb_inv m' \<and> enqueue job (mb_queue m) = (r, mb_queue m')"
    using 5 enqueue_spec [OF inv prod.collapse [symmetric]] issued_unless_claim(1)
    by (intro mb_inv_on_queue) (auto simp: memoryBackend_def)
  show ?case
    using enqueue_spec [OF inv conjunct2 [OF run]] run
    by (cases r) (auto simp: mb_pending_def split: if_splits)
next
  case (6 m i j)
  then show ?case by (simp add: mb_inv_def mb_pending_def pending_Some_iff queue_inv_def)
qed

text \<open>A claim just handed out is accepted by \<open>completeClaim\<close> exactly when its receipt is not empty and its lease
  has not ended at the clock reading of the call.\<close>

lemma resolve_fresh_claim:
  assumes "queue_inv q" and "receipt \<notin> q_issuedReceipts q" and "claimNext w t1 t2 receipt q = (Inr (Some c), q1)"
  shows "(\<exists>rec. resolveClaim c t q1 = Inr rec) \<longleftrightarrow> clm_receipt c \<noteq> [] \<and> t < clm_lease_expires_at c"
proof -
  from assms(3) have "\<exists>rec. mget (q_active q1) (clm_receipt c) = Some rec \<and> c = snapshotClaim rec \<and>
      ac_lease_expires_ms rec = ac_lease_expires_at rec \<and> ac_job_id rec \<noteq> []"
    by (auto simp: claimNext_def Let_def jobIdOf_Inr_iff snapshotClaim_def split: list.splits sum.splits if_splits)
  then obtain rec where get: "mget (q_active q1) (clm_receipt c) = Some rec"
    and c: "c = snapshotClaim rec" "ac_lease_expires_ms rec = ac_lease_expires_at rec" "ac_job_id rec \<noteq> []" by blast
  show ?thesis unfolding resolveClaim_Inr_iff get using c by (auto simp: snapshotClaim_def)
qed

lemma resolveClaim_error:
  "resolveClaim c t q = Inl e \<Longrightarrow> \<exists>code m. e = OcrQueueError code m"
  by (auto simp: resolveClaim_def assertClaimShape_def lookupOrThrow_def result_simps split: option.splits if_splits)

lemma claim_then_complete:
  assumes "mb_inv q" and "qb_claimNext memoryBackend w q = (Inr (Some c), q1)"
    and "qb_completeClaim memoryBackend c q1 = (r, q')"
  shows "mb_inv q1 \<and> mb_pending q1 = mb_pending q \<and>
    (if clm_receipt c \<noteq> [] \<and> mb_time q1 0 < clm_lease_expires_at c
     then r = Inr () \<and> mb_pending q' = (mb_pending q)(clm_job_id c := None)
     else (\<exists>code m. r = Inl (OcrQueueError code m)) \<and> mb_pending q' = mb_pending q)"
proof -
  have q1: "mb_inv q1 \<and> mb_pending q1 = mb_pending q" using mem.claim_law [OF assms(1,2)] by blast
  then have pend: "mb_pending q' = (case r of Inl _ \<Rightarrow> mb_pending q | Inr _ \<Rightarrow> (mb_pending q)(clm_job_id c := None))"
    using mem.complete_law [OF conjunct1 [OF q1] assms(3)] by (simp only: q1)
  have "claimNext w (mb_time q 0) (mb_time q 1) (mb_generateReceipt q (mb_minted q)) (mb_queue q) = (Inr (Some c), mb_queue q1)"
    using assms(2) by (auto simp: memoryBackend_def on_queue_def split: prod.splits)
  note iff = resolve_fresh_claim [OF _ mb_fresh [OF assms(1)] this, of "mb_time q1 0"]
  have r: "r = (case resolveClaim c (mb_time q1 0) (mb_queue q1) of Inl e \<Rightarrow> Inl e | Inr rec \<Rightarrow> Inr ())"
    using assms(3) by (auto simp: memoryBackend_def on_queue_def completeClaim_def split: prod.splits sum.splits)
  show ?thesis
  proof (cases "resolveClaim c (mb_time q1 0) (mb_queue q1)")
    case (Inl e)
    then have "\<not> (clm_receipt c \<noteq> [] \<and> mb_time q1 0 < clm_lease_expires_at c)" using iff assms(1) by (simp add: mb_inv_def)
    with q1 pend r Inl resolveClaim_error [OF Inl] show ?thesis by (simp del: de_Morgan_conj)
  next
    case (Inr rec)
    then have "clm_receipt c \<noteq> [] \<and> mb_time q1 0 < clm_lease_expires_at c" using iff assms(1) by (simp add: mb_inv_def)
    with q1 pend r Inr show ?thesis by simp
  qed
qed

end
