(* ===== verification/OcrStore.thy ===== *)
theory OcrStore
  imports OcrContract
begin

text \<open>
  The OCR persistence boundary: the records of services/ocr-persistence/src/types.ts, the
  replay-safe comparison of replaySafe.ts, and the in-memory implementation of
  inMemoryRepo.ts (jobs, append-only status timelines, per-page results and the
  pending-retry outbox). Every operation takes the ISO text of \<open>this.now()\<close> as an argument
  and returns its result with the new store; \<open>Inl\<close> is the message of an
  \<open>OcrPersistenceError\<close>. \<open>structuredClone\<close> is the identity on values.
\<close>

subsection \<open>Records\<close>

record OcrJobRecord =
  jr_job_id :: string
  jr_tenant_id :: jval
  jr_case_id :: jval
  jr_document_id :: jval
  jr_document_revision :: jval
  jr_submission :: jval
  jr_created_at :: string
  jr_terminal_state :: "OcrJobState option"
  jr_pending_retry_submission :: "jval option"

record OcrStatusEvent = TransitionRecord +
  se_seq :: nat
  se_persisted_at :: string

record OcrResultRecord =
  rr_result :: jval
  rr_persisted_at :: string

record InMemoryOcrPersistence =
  p_jobs :: "(string, OcrJobRecord) jmap"
  p_statuses :: "(string, OcrStatusEvent list) jmap"
  p_results :: "(string, OcrResultRecord list) jmap"

definition newInMemoryOcrPersistence :: InMemoryOcrPersistence where
  "newInMemoryOcrPersistence = \<lparr>p_jobs = [], p_statuses = [], p_results = []\<rparr>"

definition js_key :: "jval \<Rightarrow> string" where
  "js_key v = (case v of JStr s \<Rightarrow> s | _ \<Rightarrow> [])"

definition buildJobRecord :: "jval \<Rightarrow> string \<Rightarrow> OcrJobRecord" where
  "buildJobRecord sub createdAt =
     \<lparr>jr_job_id = js_key (jget sub ''job_id''), jr_tenant_id = jget sub ''tenant_id'',
      jr_case_id = jget sub ''case_id'', jr_document_id = jget sub ''document_id'',
      jr_document_revision = jget sub ''document_revision'', jr_submission = sub,
      jr_created_at = createdAt, jr_terminal_state = None, jr_pending_retry_submission = None\<rparr>"

subsection \<open>Replay comparison\<close>

definition transition_json :: "TransitionRecord \<Rightarrow> jval" where
  "transition_json t = JObj
     [(''from'', JStr (state_str (tr_from t))), (''to'', JStr (state_str (tr_to t))),
      (''controlled_by'', JStr (actor_str (tr_by t))), (''at'', JStr (tr_at t)),
      (''note'', case tr_note t of Some n \<Rightarrow> JStr n | None \<Rightarrow> JUndef)]"

abbreviation stripStatusMeta :: "OcrStatusEvent \<Rightarrow> TransitionRecord" where
  "stripStatusMeta e \<equiv> TransitionRecord.truncate e"

definition transitionEquals :: "OcrStatusEvent \<Rightarrow> TransitionRecord \<Rightarrow> bool" where
  "transitionEquals stored incoming \<longleftrightarrow>
     deepEquals (transition_json (stripStatusMeta stored)) (transition_json incoming)"

subsection \<open>Operations\<close>

definition createOcrJob ::
  "Validators \<Rightarrow> jval \<Rightarrow> string \<Rightarrow> InMemoryOcrPersistence \<Rightarrow> (string + OcrJobRecord) \<times> InMemoryOcrPersistence" where
  "createOcrJob V submission nowIso p =
     (case v_submission V submission of
        Some summary \<Rightarrow> (Inl (''invalid submission: '' @ summary), p)
      | None \<Rightarrow>
          (let sub = submission; jid = js_key (jget sub ''job_id'') in
           if mget (p_jobs p) jid \<noteq> None then (Inl (''job already exists: '' @ jid), p)
           else let rec = buildJobRecord sub nowIso in
             (Inr rec, p\<lparr>p_jobs := mset_kv jid rec (p_jobs p),
                         p_statuses := mset_kv jid [] (p_statuses p),
                         p_results := mset_kv jid [] (p_results p)\<rparr>)))"

abbreviation events_of :: "InMemoryOcrPersistence \<Rightarrow> string \<Rightarrow> OcrStatusEvent list" where
  "events_of p jobId \<equiv> (case mget (p_statuses p) jobId of Some es \<Rightarrow> es | None \<Rightarrow> [])"

abbreviation results_of :: "InMemoryOcrPersistence \<Rightarrow> string \<Rightarrow> OcrResultRecord list" where
  "results_of p jobId \<equiv> (case mget (p_results p) jobId of Some rs \<Rightarrow> rs | None \<Rightarrow> [])"

definition appendOcrStatus ::
  "Validators \<Rightarrow> string \<Rightarrow> TransitionRecord \<Rightarrow> string \<Rightarrow> InMemoryOcrPersistence \<Rightarrow>
   (string + OcrStatusEvent) \<times> InMemoryOcrPersistence" where
  "appendOcrStatus V jobId transition nowIso p =
     (case mget (p_jobs p) jobId of
        None \<Rightarrow> (Inl (''unknown job: '' @ jobId), p)
      | Some job \<Rightarrow>
          (let existing = events_of p jobId;
               proposed = map stripStatusMeta existing @ [transition] in
           case validateOcrStatusTransitionSequence V jobId proposed of
             Inl summary \<Rightarrow> (Inl (''illegal status transition: '' @ summary), p)
           | Inr _ \<Rightarrow>
               (let event = TransitionRecord.extend transition
                      \<lparr>se_seq = length existing + 1, se_persisted_at = nowIso\<rparr> in
                (Inr event,
                 p\<lparr>p_statuses := mset_kv jobId (existing @ [event]) (p_statuses p),
                   p_jobs := mset_kv jobId (job\<lparr>jr_terminal_state := Some (tr_to transition)\<rparr>) (p_jobs p)\<rparr>))))"

definition appendOcrStatusOnce ::
  "Validators \<Rightarrow> string \<Rightarrow> TransitionRecord \<Rightarrow> string \<Rightarrow> InMemoryOcrPersistence \<Rightarrow>
   (string + OcrStatusEvent) \<times> InMemoryOcrPersistence" where
  "appendOcrStatusOnce V jobId transition nowIso p =
     (case mget (p_jobs p) jobId of
        None \<Rightarrow> (Inl (''unknown job: '' @ jobId), p)
      | Some job \<Rightarrow>
          (case List.find (\<lambda>stored. transitionEquals stored transition) (events_of p jobId) of
             Some stored \<Rightarrow> (Inr stored, p)
           | None \<Rightarrow> appendOcrStatus V jobId transition nowIso p))"

text \<open>The checks \<open>saveOcrResult\<close> and \<open>saveOcrResultOnce\<close> both run before they look for a
  duplicate: contract validity, linkage, page binding, document revision.\<close>

definition checkResult :: "Validators \<Rightarrow> string \<Rightarrow> OcrJobRecord \<Rightarrow> jval \<Rightarrow> string + unit" where
  "checkResult V jobId job r =
     (case v_result V r of Some summary \<Rightarrow> Inl (''invalid result: '' @ summary) | None \<Rightarrow>
      if jget r ''job_id'' \<noteq> JStr jobId
      then Inl (''result.job_id '' @ js_String (jget r ''job_id'') @ '' does not match jobId '' @ jobId)
      else if jget r ''tenant_id'' \<noteq> jr_tenant_id job
      then Inl (''result.tenant_id mismatch: '' @ js_String (jget r ''tenant_id'') @ '' vs '' @ js_String (jr_tenant_id job))
      else if jget r ''document_id'' \<noteq> jr_document_id job
      then Inl (''result.document_id mismatch: '' @ js_String (jget r ''document_id'') @ '' vs '' @ js_String (jr_document_id job))
      else (case List.find (\<lambda>pg. jget pg ''page_id'' = jget r ''page_id'') (jelems (jget (jr_submission job) ''pages'')) of
        None \<Rightarrow> Inl (''result.page_id '' @ js_String (jget r ''page_id'') @ '' is not present in submission.pages for job '' @ jobId)
      | Some submittedPage \<Rightarrow>
          if jget r ''page_number'' \<noteq> jget submittedPage ''page_number''
          then Inl (''result.page_number '' @ js_String (jget r ''page_number'') @ '' does not match submitted page_number ''
                    @ js_String (jget submittedPage ''page_number'') @ '' for page_id '' @ js_String (jget r ''page_id''))
          else if jr_document_revision job \<noteq> JUndef \<and> jget r ''document_revision'' \<noteq> jr_document_revision job
          then Inl (''result.document_revision '' @ js_String (jget r ''document_revision'')
                    @ '' does not match job.document_revision '' @ js_String (jr_document_revision job))
          else Inr ()))"

abbreviation same_page :: "jval \<Rightarrow> OcrResultRecord \<Rightarrow> bool" where
  "same_page r existing \<equiv> jget (rr_result existing) ''page_id'' = jget r ''page_id''"

definition saveOcrResult ::
  "Validators \<Rightarrow> string \<Rightarrow> jval \<Rightarrow> string \<Rightarrow> InMemoryOcrPersistence \<Rightarrow>
   (string + OcrResultRecord) \<times> InMemoryOcrPersistence" where
  "saveOcrResult V jobId r nowIso p =
     (case mget (p_jobs p) jobId of
        None \<Rightarrow> (Inl (''unknown job: '' @ jobId), p)
      | Some job \<Rightarrow>
          (case checkResult V jobId job r of Inl e \<Rightarrow> (Inl e, p) | Inr _ \<Rightarrow>
            (let list = results_of p jobId in
             if \<exists>existing\<in>set list. same_page r existing
             then (Inl (''duplicate result for (job_id='' @ jobId @ '', page_id='' @ js_String (jget r ''page_id'') @ '')''), p)
             else let record = \<lparr>rr_result = r, rr_persisted_at = nowIso\<rparr> in
               (Inr record, p\<lparr>p_results := mset_kv jobId (list @ [record]) (p_results p)\<rparr>))))"

definition saveOcrResultOnce ::
  "Validators \<Rightarrow> string \<Rightarrow> jval \<Rightarrow> string \<Rightarrow> InMemoryOcrPersistence \<Rightarrow>
   (string + OcrResultRecord) \<times> InMemoryOcrPersistence" where
  "saveOcrResultOnce V jobId r nowIso p =
     (case mget (p_jobs p) jobId of
        None \<Rightarrow> (Inl (''unknown job: '' @ jobId), p)
      | Some job \<Rightarrow>
          (case checkResult V jobId job r of Inl e \<Rightarrow> (Inl e, p) | Inr _ \<Rightarrow>
            (let list = results_of p jobId in
             case List.find (same_page r) list of
               Some existing \<Rightarrow>
                 if deepEquals (rr_result existing) r then (Inr existing, p)
                 else (Inl (''conflicting duplicate result for (job_id='' @ jobId @ '', page_id=''
                        @ js_String (jget r ''page_id'') @ '')''), p)
             | None \<Rightarrow>
                 (let record = \<lparr>rr_result = r, rr_persisted_at = nowIso\<rparr> in
                  (Inr record, p\<lparr>p_results := mset_kv jobId (list @ [record]) (p_results p)\<rparr>)))))"

definition getOcrJob :: "string \<Rightarrow> InMemoryOcrPersistence \<Rightarrow> OcrJobRecord option" where
  "getOcrJob jobId p = mget (p_jobs p) jobId"

definition setOcrPendingRetry ::
  "Validators \<Rightarrow> string \<Rightarrow> jval \<Rightarrow> InMemoryOcrPersistence \<Rightarrow> (string + unit) \<times> InMemoryOcrPersistence" where
  "setOcrPendingRetry V jobId submission p =
     (case mget (p_jobs p) jobId of
        None \<Rightarrow> (Inl (''unknown job for setOcrPendingRetry: '' @ jobId), p)
      | Some job \<Rightarrow>
          (case v_submission V submission of
             Some summary \<Rightarrow> (Inl (''invalid pending-retry submission for '' @ jobId @ '': '' @ summary), p)
           | None \<Rightarrow>
               if (case jr_pending_retry_submission job of Some old \<Rightarrow> deepEquals old submission | None \<Rightarrow> False)
               then (Inr (), p)
               else (Inr (), p\<lparr>p_jobs := mset_kv jobId
                       (job\<lparr>jr_pending_retry_submission := Some submission\<rparr>) (p_jobs p)\<rparr>)))"

lemmas setOcrPendingRetry_unfold = setOcrPendingRetry_def [unfolded some_and]

definition getOcrPendingRetry :: "string \<Rightarrow> InMemoryOcrPersistence \<Rightarrow> string + jval option" where
  "getOcrPendingRetry jobId p =
     (case mget (p_jobs p) jobId of
        None \<Rightarrow> Inl (''unknown job for getOcrPendingRetry: '' @ jobId)
      | Some job \<Rightarrow> Inr (jr_pending_retry_submission job))"

definition clearOcrPendingRetry ::
  "string \<Rightarrow> InMemoryOcrPersistence \<Rightarrow> (string + unit) \<times> InMemoryOcrPersistence" where
  "clearOcrPendingRetry jobId p =
     (case mget (p_jobs p) jobId of
        None \<Rightarrow> (Inl (''unknown job for clearOcrPendingRetry: '' @ jobId), p)
      | Some job \<Rightarrow> (Inr (), p\<lparr>p_jobs := mset_kv jobId (job\<lparr>jr_pending_retry_submission := None\<rparr>) (p_jobs p)\<rparr>))"

definition listOcrJobStatuses :: "string \<Rightarrow> InMemoryOcrPersistence \<Rightarrow> OcrStatusEvent list" where
  "listOcrJobStatuses jobId p = events_of p jobId"

definition page_key :: "OcrResultRecord \<Rightarrow> string" where
  "page_key r = js_key (jget (rr_result r) ''page_id'')"

definition result_le :: "OcrResultRecord \<Rightarrow> OcrResultRecord \<Rightarrow> bool" where
  "result_le a b \<longleftrightarrow> rr_persisted_at a < rr_persisted_at b \<or>
     (rr_persisted_at a = rr_persisted_at b \<and> page_key a \<le> page_key b)"

definition listOcrResults :: "string \<Rightarrow> InMemoryOcrPersistence \<Rightarrow> OcrResultRecord list" where
  "listOcrResults jobId p = sort_by result_le (results_of p jobId)"

subsection \<open>Replay comparison is equality of the payload\<close>

lemma state_str_inj: "state_str s = state_str t \<longleftrightarrow> s = t"
  by (cases s; cases t) simp_all

lemma actor_str_inj: "actor_str s = actor_str t \<longleftrightarrow> s = t"
  by (cases s; cases t) simp_all

lemma jnorm_transition_json:
  "jnorm (transition_json t) = jnorm (transition_json u) \<longleftrightarrow> t = u"
  by (cases t; cases u; cases "tr_note t"; cases "tr_note u")
     (auto simp: transition_json_def state_str_inj actor_str_inj less_char_def)

lemma wf_transition_json: "wf_json (transition_json t)"
  by (auto simp: transition_json_def split: option.splits)

lemma transitionEquals_iff: "transitionEquals e t \<longleftrightarrow> stripStatusMeta e = t"
  by (simp add: transitionEquals_def deepEquals_iff_jnorm wf_transition_json jnorm_transition_json)


subsection \<open>Invariant\<close>

abbreviation payloads :: "OcrStatusEvent list \<Rightarrow> TransitionRecord list" where
  "payloads es \<equiv> map stripStatusMeta es"

definition timeline_ok :: "OcrStatusEvent list \<Rightarrow> bool" where
  "timeline_ok es \<longleftrightarrow>
     (es = [] \<or> validateTransitionSequence (payloads es) = Inr ()) \<and>
     map se_seq es = map Suc [0..<length es]"

abbreviation page_ids :: "OcrResultRecord list \<Rightarrow> jval list" where
  "page_ids rs \<equiv> map (\<lambda>r. jget (rr_result r) ''page_id'') rs"

definition job_ok ::
  "Validators \<Rightarrow> string \<Rightarrow> OcrJobRecord \<Rightarrow> OcrStatusEvent list \<Rightarrow> OcrResultRecord list \<Rightarrow> bool" where
  "job_ok V i job es rs \<longleftrightarrow>
     jr_job_id job = i \<and> timeline_ok es \<and>
     jr_terminal_state job = last_to None (payloads es) \<and>
     distinct (page_ids rs) \<and> (\<forall>r\<in>set rs. checkResult V i job (rr_result r) = Inr ())"

definition store_inv :: "Validators \<Rightarrow> InMemoryOcrPersistence \<Rightarrow> bool" where
  "store_inv V p \<longleftrightarrow>
     distinct (mkeys (p_jobs p)) \<and>
     set (mkeys (p_statuses p)) = set (mkeys (p_jobs p)) \<and>
     set (mkeys (p_results p)) = set (mkeys (p_jobs p)) \<and>
     (\<forall>i job. mget (p_jobs p) i = Some job \<longrightarrow> job_ok V i job (events_of p i) (results_of p i))"

lemma store_inv_new: "store_inv V newInMemoryOcrPersistence"
  by (simp add: store_inv_def newInMemoryOcrPersistence_def)

lemma store_invD:
  "store_inv V p \<Longrightarrow> mget (p_jobs p) i = Some job \<Longrightarrow> job_ok V i job (events_of p i) (results_of p i)"
  by (simp add: store_inv_def)

text \<open>Replacing the entries of one known job.\<close>

definition with_job ::
  "string \<Rightarrow> OcrJobRecord \<Rightarrow> OcrStatusEvent list \<Rightarrow> OcrResultRecord list \<Rightarrow> InMemoryOcrPersistence \<Rightarrow> InMemoryOcrPersistence \<Rightarrow> bool" where
  "with_job i job es rs p p' \<longleftrightarrow>
     mget (p_jobs p') = (mget (p_jobs p))(i \<mapsto> job) \<and>
     mkeys (p_jobs p') = (if i \<in> set (mkeys (p_jobs p)) then mkeys (p_jobs p) else mkeys (p_jobs p) @ [i]) \<and>
     set (mkeys (p_statuses p')) = insert i (set (mkeys (p_statuses p))) \<and>
     set (mkeys (p_results p')) = insert i (set (mkeys (p_results p))) \<and>
     events_of p' = (events_of p)(i := es) \<and> results_of p' = (results_of p)(i := rs)"

lemma store_inv_with_job:
  "store_inv V p \<Longrightarrow> with_job i job es rs p p' \<Longrightarrow> job_ok V i job es rs \<Longrightarrow> store_inv V p'"
  unfolding store_inv_def with_job_def by (auto simp: fun_eq_iff split: if_splits)

lemma known_keys:
  "store_inv V p \<Longrightarrow> mget (p_jobs p) i = Some job \<Longrightarrow>
     i \<in> set (mkeys (p_jobs p)) \<and> i \<in> set (mkeys (p_statuses p)) \<and> i \<in> set (mkeys (p_results p))"
  using mget_Some_in_keys [of "p_jobs p" i job] by (simp add: store_inv_def)

lemma checkResult_cong:
  "jr_tenant_id job' = jr_tenant_id job \<Longrightarrow> jr_document_id job' = jr_document_id job \<Longrightarrow>
   jr_submission job' = jr_submission job \<Longrightarrow> jr_document_revision job' = jr_document_revision job \<Longrightarrow>
   checkResult V i job' r = checkResult V i job r"
  by (simp only: checkResult_def)

subsection \<open>What each write does\<close>

lemma createOcrJob_spec:
  assumes inv: "store_inv V p" and run: "createOcrJob V sub now p = (r, p')"
  shows "store_inv V p' \<and>
    (case r of Inl _ \<Rightarrow> p' = p
     | Inr rec \<Rightarrow> rec = buildJobRecord sub now \<and> mget (p_jobs p) (jr_job_id rec) = None \<and>
         with_job (jr_job_id rec) rec [] [] p p')"
proof (cases "v_submission V sub = None \<and> mget (p_jobs p) (js_key (jget sub ''job_id'')) = None")
  case True
  let ?i = "js_key (jget sub ''job_id'')" and ?rec = "buildJobRecord sub now"
  from True run have r: "r = Inr ?rec" and p': "p' = p\<lparr>p_jobs := mset_kv ?i ?rec (p_jobs p),
      p_statuses := mset_kv ?i [] (p_statuses p), p_results := mset_kv ?i [] (p_results p)\<rparr>"
    by (auto simp: createOcrJob_def Let_def)
  have w: "with_job ?i ?rec [] [] p p'"
    by (auto simp: with_job_def p' fun_eq_iff mkeys_mset_kv)
  have "job_ok V ?i ?rec [] []" by (simp add: job_ok_def timeline_ok_def buildJobRecord_def)
  with w inv show ?thesis using True
    by (simp add: r store_inv_with_job buildJobRecord_def)
next
  case False
  with assms show ?thesis by (auto simp: createOcrJob_def Let_def split: option.splits if_splits)
qed

lemma appendOcrStatus_spec:
  assumes inv: "store_inv V p" and run: "appendOcrStatus V i t now p = (r, p')"
  shows "store_inv V p' \<and>
    (case r of Inl _ \<Rightarrow> p' = p
     | Inr e \<Rightarrow> stripStatusMeta e = t \<and>
        (\<exists>job. mget (p_jobs p) i = Some job \<and>
           with_job i (job\<lparr>jr_terminal_state := Some (tr_to t)\<rparr>) (events_of p i @ [e]) (results_of p i) p p'))"
proof (cases "\<exists>job. mget (p_jobs p) i = Some job \<and>
    validateOcrStatusTransitionSequence V i (payloads (events_of p i) @ [t]) = Inr ()")
  case False
  with assms show ?thesis
    by (auto simp: appendOcrStatus_def Let_def split: option.splits sum.splits)
next
  case True
  then obtain job where job: "mget (p_jobs p) i = Some job"
    and v: "validateOcrStatusTransitionSequence V i (payloads (events_of p i) @ [t]) = Inr ()" by blast
  let ?es = "events_of p i" and ?job = "job\<lparr>jr_terminal_state := Some (tr_to t)\<rparr>"
  define e where "e = TransitionRecord.extend t \<lparr>se_seq = length ?es + 1, se_persisted_at = now\<rparr>"
  have strip: "stripStatusMeta e = t" and seq: "se_seq e = Suc (length ?es)"
    by (simp_all add: e_def TransitionRecord.defs)
  have r: "r = Inr e" and p': "p' = p\<lparr>p_statuses := mset_kv i (?es @ [e]) (p_statuses p),
      p_jobs := mset_kv i ?job (p_jobs p)\<rparr>"
    using run job v by (auto simp: appendOcrStatus_def Let_def e_def)
  note known = known_keys [OF inv job]
  have w: "with_job i ?job (?es @ [e]) (results_of p i) p p'"
    using known by (auto simp: with_job_def p' fun_eq_iff mkeys_mset_kv)
  have ok: "job_ok V i job ?es (results_of p i)" using store_invD [OF inv job] .
  have valid: "validateTransitionSequence (payloads (?es @ [e])) = Inr ()"
    using v strip by (simp add: validateOcrStatusTransitionSequence_Inr)
  have ok': "job_ok V i ?job (?es @ [e]) (results_of p i)"
    using ok valid strip seq
    by (simp add: job_ok_def timeline_ok_def checkResult_cong [of ?job job])
  show ?thesis using store_inv_with_job [OF inv w ok'] r strip job w by auto
qed

lemma appendOcrStatusOnce_cases:
  assumes "appendOcrStatusOnce V i t now p = (r, p')"
  shows "(\<exists>job e. mget (p_jobs p) i = Some job \<and> e \<in> set (events_of p i) \<and> stripStatusMeta e = t \<and> r = Inr e \<and> p' = p)
    \<or> (t \<notin> set (payloads (events_of p i)) \<or> mget (p_jobs p) i = None) \<and> appendOcrStatus V i t now p = (r, p')"
proof (cases "mget (p_jobs p) i")
  case None
  with assms show ?thesis by (simp add: appendOcrStatusOnce_def appendOcrStatus_def)
next
  case (Some job)
  show ?thesis
  proof (cases "List.find (\<lambda>stored. transitionEquals stored t) (events_of p i)")
    case None
    then have "t \<notin> set (payloads (events_of p i))"
      by (auto simp: find_None_iff_all transitionEquals_iff)
    with None Some assms show ?thesis by (simp add: appendOcrStatusOnce_def)
  next
    case (Some e)
    then have "e \<in> set (events_of p i) \<and> stripStatusMeta e = t"
      by (auto dest: find_Some_iff_split simp: transitionEquals_iff)
    with Some \<open>mget (p_jobs p) i = Some job\<close> assms show ?thesis
      by (auto simp: appendOcrStatusOnce_def)
  qed
qed


lemma appendOcrStatusOnce_spec:
  assumes inv: "store_inv V p" and run: "appendOcrStatusOnce V i t now p = (r, p')"
  shows "store_inv V p' \<and>
    (case r of Inl _ \<Rightarrow> p' = p
     | Inr e \<Rightarrow> stripStatusMeta e = t \<and> e \<in> set (events_of p' i) \<and>
        (p' = p \<or> (\<exists>job. mget (p_jobs p) i = Some job \<and> t \<notin> set (payloads (events_of p i)) \<and>
           with_job i (job\<lparr>jr_terminal_state := Some (tr_to t)\<rparr>) (events_of p i @ [e]) (results_of p i) p p')))"
  using appendOcrStatusOnce_cases [OF run]
proof (elim disjE exE conjE)
  fix job e
  assume "e \<in> set (events_of p i)" "stripStatusMeta e = t" "r = Inr e" "p' = p"
  with inv show ?thesis by simp
next
  assume new: "t \<notin> set (payloads (events_of p i))" and a: "appendOcrStatus V i t now p = (r, p')"
  have "e \<in> set (events_of p' i)"
    if "with_job i job' (events_of p i @ [e]) rs p p'" for e job' rs
    using that by (auto simp: with_job_def fun_eq_iff split: if_splits)
  then show ?thesis using appendOcrStatus_spec [OF inv a] new by (cases r) auto
next
  assume none: "mget (p_jobs p) i = None" and a: "appendOcrStatus V i t now p = (r, p')"
  then have "r = Inl (''unknown job: '' @ i)" "p' = p" by (auto simp: appendOcrStatus_def)
  with inv show ?thesis by simp
qed

lemma distinct_page_ids_find:
  assumes "distinct (page_ids rs)" and "x \<in> set rs" and "same_page r x"
  shows "List.find (same_page r) rs = Some x"
  using assms
proof (induction rs)
  case (Cons y rs)
  show ?case
  proof (cases "same_page r y")
    case True
    then have "x = y" using Cons.prems by (auto simp: image_iff)
    with True show ?thesis by simp
  next
    case False
    with Cons show ?thesis by auto
  qed
qed simp

lemma save_new_result:
  assumes inv: "store_inv V p" and job: "mget (p_jobs p) i = Some job"
    and chk: "checkResult V i job r = Inr ()" and new: "\<forall>x\<in>set (results_of p i). \<not> same_page r x"
    and p': "p' = p\<lparr>p_results := mset_kv i (results_of p i @ [\<lparr>rr_result = r, rr_persisted_at = now\<rparr>]) (p_results p)\<rparr>"
  shows "store_inv V p' \<and>
    with_job i job (events_of p i) (results_of p i @ [\<lparr>rr_result = r, rr_persisted_at = now\<rparr>]) p p'"
proof -
  let ?rec = "\<lparr>rr_result = r, rr_persisted_at = now\<rparr>"
  note known = known_keys [OF inv job]
  have w: "with_job i job (events_of p i) (results_of p i @ [?rec]) p p'"
    using known job by (auto simp: with_job_def p' fun_eq_iff)
  have "job_ok V i job (events_of p i) (results_of p i @ [?rec])"
    using store_invD [OF inv job] chk new by (auto simp: job_ok_def)
  with w show ?thesis using store_inv_with_job [OF inv w] by blast
qed

lemma saveOcrResult_spec:
  assumes inv: "store_inv V p" and run: "saveOcrResult V i r now p = (res, p')"
  shows "store_inv V p' \<and>
    (case res of Inl _ \<Rightarrow> p' = p
     | Inr rec \<Rightarrow> rr_result rec = r \<and> (\<exists>job. mget (p_jobs p) i = Some job \<and>
         with_job i job (events_of p i) (results_of p i @ [rec]) p p'))"
proof (cases "mget (p_jobs p) i")
  case None
  with assms show ?thesis by (auto simp: saveOcrResult_def)
next
  case (Some job)
  show ?thesis
  proof (cases "checkResult V i job r = Inr () \<and> (\<forall>x\<in>set (results_of p i). \<not> same_page r x)")
    case True
    with run Some have res: "res = Inr \<lparr>rr_result = r, rr_persisted_at = now\<rparr>"
      and p': "p' = p\<lparr>p_results := mset_kv i (results_of p i @ [\<lparr>rr_result = r, rr_persisted_at = now\<rparr>]) (p_results p)\<rparr>"
      by (simp_all add: saveOcrResult_def Let_def)
    from save_new_result [OF inv Some _ _ p'] True res Some show ?thesis by auto
  next
    case False
    with run Some have "p' = p \<and> (\<exists>e. res = Inl e)"
      by (auto simp: saveOcrResult_def Let_def split: sum.splits if_splits)
    with inv show ?thesis by auto
  qed
qed

lemma saveOcrResultOnce_spec:
  assumes inv: "store_inv V p" and run: "saveOcrResultOnce V i r now p = (res, p')"
  shows "store_inv V p' \<and>
    (case res of Inl _ \<Rightarrow> p' = p
     | Inr rec \<Rightarrow> deepEquals (rr_result rec) r \<and> rec \<in> set (results_of p' i) \<and>
         (p' = p \<or> (\<exists>job. mget (p_jobs p) i = Some job \<and> rr_result rec = r \<and>
            with_job i job (events_of p i) (results_of p i @ [rec]) p p')))"
proof (cases "mget (p_jobs p) i")
  case None
  with assms show ?thesis by (auto simp: saveOcrResultOnce_def)
next
  case (Some job)
  show ?thesis
  proof (cases "checkResult V i job r")
    case (Inl e)
    with assms Some show ?thesis by (auto simp: saveOcrResultOnce_def)
  next
    case (Inr u)
    show ?thesis
    proof (cases "List.find (same_page r) (results_of p i)")
      case None
      then have new: "\<forall>x\<in>set (results_of p i). \<not> same_page r x" by (auto simp: find_None_iff_all)
      from run Some Inr None have res: "res = Inr \<lparr>rr_result = r, rr_persisted_at = now\<rparr>"
        and p': "p' = p\<lparr>p_results := mset_kv i (results_of p i @ [\<lparr>rr_result = r, rr_persisted_at = now\<rparr>]) (p_results p)\<rparr>"
        by (simp_all add: saveOcrResultOnce_def Let_def)
      from save_new_result [OF inv Some _ new p'] Inr
      have s: "store_inv V p'" and w: "with_job i job (events_of p i) (results_of p i @ [\<lparr>rr_result = r, rr_persisted_at = now\<rparr>]) p p'"
        by auto
      then have "results_of p' i = results_of p i @ [\<lparr>rr_result = r, rr_persisted_at = now\<rparr>]"
        by (simp add: with_job_def fun_eq_iff)
      with s w Some show ?thesis by (auto simp: res)
    next
      case (Some x)
      then have "x \<in> set (results_of p i)" by (auto dest: find_Some_iff_split)
      with run \<open>mget (p_jobs p) i = Some job\<close> Inr Some inv show ?thesis
        by (auto simp: saveOcrResultOnce_def Let_def split: if_splits)
    qed
  qed
qed

lemma outbox_write:
  assumes inv: "store_inv V p" and job: "mget (p_jobs p) i = Some job"
    and p': "p' = p\<lparr>p_jobs := mset_kv i (job\<lparr>jr_pending_retry_submission := x\<rparr>) (p_jobs p)\<rparr>"
  shows "store_inv V p' \<and>
    with_job i (job\<lparr>jr_pending_retry_submission := x\<rparr>) (events_of p i) (results_of p i) p p'"
proof -
  let ?job = "job\<lparr>jr_pending_retry_submission := x\<rparr>"
  note known = known_keys [OF inv job]
  have w: "with_job i ?job (events_of p i) (results_of p i) p p'"
    using known by (auto simp: with_job_def p' fun_eq_iff mkeys_mset_kv)
  have "job_ok V i ?job (events_of p i) (results_of p i)"
    using store_invD [OF inv job] by (simp add: job_ok_def checkResult_cong [of ?job job])
  with w show ?thesis using store_inv_with_job [OF inv w] by blast
qed

lemma setOcrPendingRetry_spec:
  assumes inv: "store_inv V p" and run: "setOcrPendingRetry V i s p = (r, p')"
  shows "store_inv V p' \<and>
    (case r of Inl _ \<Rightarrow> p' = p
     | Inr _ \<Rightarrow> \<exists>job x. mget (p_jobs p) i = Some job \<and> deepEquals x s \<and>
         (x = s \<or> jr_pending_retry_submission job = Some x) \<and>
         with_job i (job\<lparr>jr_pending_retry_submission := Some x\<rparr>) (events_of p i) (results_of p i) p p')"
proof (cases "\<exists>job. mget (p_jobs p) i = Some job \<and> v_submission V s = None")
  case False
  with assms show ?thesis by (auto simp: setOcrPendingRetry_unfold split: option.splits)
next
  case True
  then obtain job where job: "mget (p_jobs p) i = Some job" and v: "v_submission V s = None" by blast
  show ?thesis
  proof (cases "\<exists>old. jr_pending_retry_submission job = Some old \<and> deepEquals old s")
    case True
    then obtain old where old: "jr_pending_retry_submission job = Some old" "deepEquals old s" by blast
    with run job v have r: "r = Inr ()" and p': "p' = p" by (auto simp: setOcrPendingRetry_unfold)
    have "job\<lparr>jr_pending_retry_submission := Some old\<rparr> = job" using old by simp
    then have "with_job i (job\<lparr>jr_pending_retry_submission := Some old\<rparr>) (events_of p i) (results_of p i) p p'"
      using job known_keys [OF inv job] by (auto simp: with_job_def p' fun_eq_iff)
    with inv r p' job old show ?thesis by auto
  next
    case False
    with run job v have r: "r = Inr ()"
      and p': "p' = p\<lparr>p_jobs := mset_kv i (job\<lparr>jr_pending_retry_submission := Some s\<rparr>) (p_jobs p)\<rparr>"
      by (auto simp: setOcrPendingRetry_unfold)
    from outbox_write [OF inv job p'] r job show ?thesis by (auto intro: exI [of _ s])
  qed
qed

lemma clearOcrPendingRetry_spec:
  assumes inv: "store_inv V p" and run: "clearOcrPendingRetry i p = (r, p')"
  shows "store_inv V p' \<and>
    (case r of Inl _ \<Rightarrow> p' = p
     | Inr _ \<Rightarrow> \<exists>job. mget (p_jobs p) i = Some job \<and>
         with_job i (job\<lparr>jr_pending_retry_submission := None\<rparr>) (events_of p i) (results_of p i) p p')"
proof (cases "mget (p_jobs p) i")
  case None
  with assms show ?thesis by (auto simp: clearOcrPendingRetry_def)
next
  case (Some job)
  with run have r: "r = Inr ()"
    and p': "p' = p\<lparr>p_jobs := mset_kv i (job\<lparr>jr_pending_retry_submission := None\<rparr>) (p_jobs p)\<rparr>"
    by (auto simp: clearOcrPendingRetry_def)
  from outbox_write [OF inv Some p'] r Some show ?thesis by auto
qed

end
