(* ===== verification/OcrCoordinator.thy ===== *)
theory OcrCoordinator
  imports OcrQueue OcrStore "HOL-Library.Sublist"
begin

text \<open>
  The OCR processing coordinator: the worker-outcome validator of
  services/ocr-worker/src/outcomeValidation.ts and \<open>processOneOcrQueueClaim\<close> of
  services/ocr-worker/src/coordinator.ts. The queue and the persistence layer are the
  interfaces the code injects: \<open>QueueBackend\<close> and \<open>PersistencePort\<close>, each operation
  returning its result or thrown error with the new state. The worker is the injected
  function (it may throw). \<open>TurnInputs\<close> holds what the turn reads from the clock, one field
  per call of \<open>now()\<close>, and from the transport-id generator. The arrows of the source's
  messages are spelled \<open>->\<close> and the dash \<open>--\<close>.
\<close>

subsection \<open>Worker outcomes\<close>

record OcrJobOutcome =
  oc_job_id :: string
  oc_statuses :: "TransitionRecord list"
  oc_results :: "jval list"
  oc_terminal_state :: OcrJobState

text \<open>The loop over \<open>sub.pages\<close> throws a \<open>TypeError\<close> when the pages are not iterable or one of them is \<open>null\<close>;
  the characters of a string are pages without an id. The texts of the two errors are the engine's.\<close>

definition pageNumberById :: "jval \<Rightarrow> exn + (jval, jval) jmap" where
  "pageNumberById sub =
     (case jget sub ''pages'' of
        JArr pages \<Rightarrow>
          (case List.find (\<lambda>pg. pg = JNull \<or> pg = JUndef) pages of
             Some pg \<Rightarrow> Inl (OtherError (''Cannot read properties of '' @ js_String pg @ '' (reading '' @ quoted ''page_id'' @ '')''))
           | None \<Rightarrow> Inr (foldl (\<lambda>m pg. mset_kv (jget pg ''page_id'') (jget pg ''page_number'') m) [] pages))
      | JStr _ \<Rightarrow> Inr []
      | _ \<Rightarrow> Inl (OtherError ''sub.pages is not iterable''))"

fun validateWorkerResults :: "Validators \<Rightarrow> jval \<Rightarrow> (jval, jval) jmap \<Rightarrow> jval list \<Rightarrow> string + unit" where
  "validateWorkerResults V sub pageByIdNumber [] = Inr ()"
| "validateWorkerResults V sub pageByIdNumber (r # rs) =
     (case v_result V r of Some summary \<Rightarrow> Inl (''worker returned invalid result: '' @ summary) | None \<Rightarrow>
      if jget r ''job_id'' \<noteq> jget sub ''job_id''
      then Inl (''result.job_id '' @ js_String (jget r ''job_id'') @ '' does not match submission.job_id ''
                @ js_String (jget sub ''job_id''))
      else if jget r ''tenant_id'' \<noteq> jget sub ''tenant_id''
      then Inl (''result.tenant_id '' @ js_String (jget r ''tenant_id'') @ '' does not match submission.tenant_id ''
                @ js_String (jget sub ''tenant_id''))
      else if jget r ''document_id'' \<noteq> jget sub ''document_id''
      then Inl (''result.document_id '' @ js_String (jget r ''document_id'') @ '' does not match submission.document_id ''
                @ js_String (jget sub ''document_id''))
      else (let expectedPageNumber = (case mget pageByIdNumber (jget r ''page_id'') of Some n \<Rightarrow> n | None \<Rightarrow> JUndef) in
        if expectedPageNumber = JUndef
        then Inl (''result.page_id '' @ js_String (jget r ''page_id'') @ '' is not present in submission.pages'')
        else if jget r ''page_number'' \<noteq> expectedPageNumber
        then Inl (''result.page_number '' @ js_String (jget r ''page_number'') @ '' does not match submitted page_number ''
                  @ js_String expectedPageNumber @ '' for page_id '' @ js_String (jget r ''page_id''))
        else if jget sub ''document_revision'' \<noteq> JUndef \<and> jget r ''document_revision'' \<noteq> jget sub ''document_revision''
        then Inl (''result.document_revision '' @ js_String (jget r ''document_revision'')
                  @ '' does not match submission.document_revision '' @ js_String (jget sub ''document_revision''))
        else validateWorkerResults V sub pageByIdNumber rs))"

text \<open>\<open>Inl\<close> is a thrown error, \<open>Inr (Inl reason)\<close> the result that is not \<open>ok\<close>.\<close>

definition validateWorkerOutcomeContract :: "Validators \<Rightarrow> OcrJobOutcome \<Rightarrow> OcrJob \<Rightarrow> exn + (string + unit)" where
  "validateWorkerOutcomeContract V out job =
     (let sub = job_submission job in
      case validateOcrStatusTransitionSequence V (oc_job_id out) (oc_statuses out) of
        Inl summary \<Rightarrow> Inr (Inl (''worker returned invalid status sequence: '' @ summary))
      | Inr _ \<Rightarrow>
        (case last_to None (oc_statuses out) of
           None \<Rightarrow> Inr (Inl ''worker returned an empty status sequence'')
         | Some lastTo \<Rightarrow>
           if oc_terminal_state out \<noteq> lastTo
           then Inr (Inl (''outcome.terminal_state '' @ quoted (state_str (oc_terminal_state out))
                     @ '' does not match final transition.to '' @ quoted (state_str lastTo)))
           else if JStr (oc_job_id out) \<noteq> jget sub ''job_id''
           then Inr (Inl (''outcome.job_id '' @ oc_job_id out @ '' does not match submission.job_id ''
                     @ js_String (jget sub ''job_id'')))
           else (case pageNumberById sub of
                   Inl e \<Rightarrow> Inl e
                 | Inr pageByIdNumber \<Rightarrow> Inr (validateWorkerResults V sub pageByIdNumber (oc_results out)))))"

definition normalizeForStep10C :: "TransitionRecord list \<Rightarrow> string + TransitionRecord list" where
  "normalizeForStep10C statuses =
     (let working = (case statuses of
            t # ts \<Rightarrow> if tr_from t = Queued \<and> tr_to t = Claimed \<and> tr_by t = ByQueue then ts else statuses
          | [] \<Rightarrow> []) in
      if working = []
      then Inl ''worker outcome has no worker-owned transitions after stripping the leading queued->claimed''
      else case List.find (\<lambda>t. tr_by t \<noteq> ByWorker) working of
        Some t \<Rightarrow> Inl (''worker outcome contains non-worker edge '' @ state_str (tr_from t) @ ''->''
          @ state_str (tr_to t) @ '' controlled_by='' @ actor_str (tr_by t)
          @ '' (Step 10C rejects bundled retry / lease-recovery / DLQ / cancellation outputs)'')
      | None \<Rightarrow>
          if tr_to (last working) \<notin> {Succeeded, PartialSucceeded, Failed}
          then Inl (''worker outcome ends at '' @ quoted (state_str (tr_to (last working)))
            @ ''; Step 10C/11F admits only '' @ quoted ''succeeded'' @ '', '' @ quoted ''partial_succeeded'' @ '', or ''
            @ quoted ''failed'' @ '' worker-terminal outcomes'')
          else Inr working)"

subsection \<open>Ports and results\<close>

record JobView =
  jv_terminal_state :: "OcrJobState option"
  jv_pending_retry_submission :: "jval option"

record 'p PersistencePort =
  pp_getOcrJob :: "string \<Rightarrow> 'p \<Rightarrow> (exn + JobView option) \<times> 'p"
  pp_appendOcrStatusOnce :: "string \<Rightarrow> TransitionRecord \<Rightarrow> 'p \<Rightarrow> (exn + unit) \<times> 'p"
  pp_saveOcrResultOnce :: "string \<Rightarrow> jval \<Rightarrow> 'p \<Rightarrow> (exn + unit) \<times> 'p"
  pp_setOcrPendingRetry :: "string \<Rightarrow> jval \<Rightarrow> 'p \<Rightarrow> (exn + unit) \<times> 'p"
  pp_clearOcrPendingRetry :: "string \<Rightarrow> 'p \<Rightarrow> (exn + unit) \<times> 'p"

datatype OcrCoordinatorOutcome =
    OutEmpty | OutCompleted | OutCompletedAlreadyTerminal | OutRequeued | OutRetried
  | OutDeadLettered | OutPersistenceFailed | OutAckFailed | OutLeaseLost

record OcrCoordinatorResult =
  cr_outcome :: OcrCoordinatorOutcome
  cr_job_id :: "string option"
  cr_statuses_persisted :: "nat option"
  cr_results_persisted :: "nat option"
  cr_error :: "(OcrQueueErrorCode option \<times> string) option"

record TurnInputs =
  ti_claimedAt :: string
  ti_failedAt :: string
  ti_enqueuedAt :: string
  ti_jobId :: string

type_synonym ('q, 'p) turn = "(exn + OcrCoordinatorResult) \<times> 'q \<times> 'p"

abbreviation turn_error ::
  "OcrCoordinatorOutcome \<Rightarrow> string \<Rightarrow> nat option \<Rightarrow> nat option \<Rightarrow> OcrQueueErrorCode option \<Rightarrow> string \<Rightarrow> OcrCoordinatorResult" where
  "turn_error oc jid s r code msg \<equiv>
     \<lparr>cr_outcome = oc, cr_job_id = Some jid, cr_statuses_persisted = s, cr_results_persisted = r,
      cr_error = Some (code, msg)\<rparr>"

abbreviation turn_ok :: "OcrCoordinatorOutcome \<Rightarrow> string \<Rightarrow> nat option \<Rightarrow> nat option \<Rightarrow> OcrCoordinatorResult" where
  "turn_ok oc jid s r \<equiv>
     \<lparr>cr_outcome = oc, cr_job_id = Some jid, cr_statuses_persisted = s, cr_results_persisted = r, cr_error = None\<rparr>"

definition mapQueueErrorToAckOutcome :: "OcrQueueErrorCode \<Rightarrow> OcrCoordinatorOutcome" where
  "mapQueueErrorToAckOutcome code = (if code = LeaseExpired then OutLeaseLost else OutAckFailed)"

definition tryRequeueAs ::
  "'q QueueBackend \<Rightarrow> OcrQueueClaim \<Rightarrow> OcrCoordinatorOutcome \<Rightarrow> string \<Rightarrow> 'q \<Rightarrow> 'p \<Rightarrow> ('q, 'p) turn" where
  "tryRequeueAs B claim successOutcome reasonMessage q p =
     (case qb_requeueClaim B claim q of
        (Inr _, q') \<Rightarrow> (Inr (turn_error successOutcome (clm_job_id claim) None None None reasonMessage), q', p)
      | (Inl (OcrQueueError code m), q') \<Rightarrow>
          (Inr (turn_error (mapQueueErrorToAckOutcome code) (clm_job_id claim) None None (Some code)
                  (reasonMessage @ ''; requeueClaim: '' @ m)), q', p)
      | (Inl (OtherError m), q') \<Rightarrow> (Inl (OtherError m), q', p))"

definition tryCompleteAlreadyTerminal ::
  "'q QueueBackend \<Rightarrow> OcrQueueClaim \<Rightarrow> 'q \<Rightarrow> 'p \<Rightarrow> ('q, 'p) turn" where
  "tryCompleteAlreadyTerminal B claim q p =
     (case qb_completeClaim B claim q of
        (Inr _, q') \<Rightarrow> (Inr (turn_ok OutCompletedAlreadyTerminal (clm_job_id claim) None None), q', p)
      | (Inl (OcrQueueError code m), q') \<Rightarrow>
          (Inr (turn_error (mapQueueErrorToAckOutcome code) (clm_job_id claim) None None (Some code) m), q', p)
      | (Inl (OtherError m), q') \<Rightarrow> (Inl (OtherError m), q', p))"

subsection \<open>Retry decision\<close>

datatype RetryChoice = ChooseRetry string | ChooseDeadLetter string

text \<open>\<open>x ?? null\<close>.\<close>

definition nullish :: "jval \<Rightarrow> jval" where
  "nullish v = (if v = JUndef then JNull else v)"

text \<open>The loop over the failed results: the first retry verdict wins and stops the loop,
  otherwise the first dead-letter verdict stands.\<close>

fun classifyResults :: "jval \<Rightarrow> jval list \<Rightarrow> RetryChoice option \<Rightarrow> string + RetryChoice option" where
  "classifyResults retry [] d = Inr d"
| "classifyResults retry (r # rs) d =
     (if jget r ''status'' \<noteq> JStr ''failed'' then classifyResults retry rs d
      else case classifyOcrFailureForRetry (nullish (jget r ''partial_failure'')) retry (jget r ''status'') of
        Inl e \<Rightarrow> Inl (''retry classifier rejected submission retry policy: '' @ e)
      | Inr (Retry _ reason) \<Rightarrow> Inr (Some (ChooseRetry reason))
      | Inr (DeadLetter reason) \<Rightarrow>
          classifyResults retry rs (if d = None then Some (ChooseDeadLetter reason) else d)
      | Inr (NotFailed _) \<Rightarrow>
          Inl (''retry classifier returned '' @ quoted ''not_failed'' @ '' for a result with status='' @ quoted ''failed''
            @ '' -- contract invariant broken''))"

definition decideRetry :: "Validators \<Rightarrow> jval \<Rightarrow> jval list \<Rightarrow> string + RetryChoice option" where
  "decideRetry V submission results =
     (case v_submission V submission of
        Some summary \<Rightarrow> Inl (''submission failed contract validation at retry seam: '' @ summary)
      | None \<Rightarrow> classifyResults (jget submission ''retry'') results None)"

text \<open>The bumped submission of the next attempt.\<close>

definition bumpAttempt :: "jval \<Rightarrow> jval" where
  "bumpAttempt submission =
     jset submission ''retry'' (jset (jget submission ''retry'') ''attempt''
       (JInt (int_of (jget (jget submission ''retry'') ''attempt'') + 1)))"


subsection \<open>Persistence phase\<close>

text \<open>Both loops stop at the first thrown error and report how many writes succeeded.\<close>

fun appendAll ::
  "'p PersistencePort \<Rightarrow> string \<Rightarrow> TransitionRecord list \<Rightarrow> nat \<Rightarrow> 'p \<Rightarrow> exn option \<times> nat \<times> 'p" where
  "appendAll P jid [] n p = (None, n, p)"
| "appendAll P jid (t # ts) n p =
     (case pp_appendOcrStatusOnce P jid t p of
        (Inl e, p') \<Rightarrow> (Some e, n, p')
      | (Inr _, p') \<Rightarrow> appendAll P jid ts (Suc n) p')"

fun saveAll ::
  "'p PersistencePort \<Rightarrow> string \<Rightarrow> jval list \<Rightarrow> nat \<Rightarrow> 'p \<Rightarrow> exn option \<times> nat \<times> 'p" where
  "saveAll P jid [] n p = (None, n, p)"
| "saveAll P jid (r # rs) n p =
     (case pp_saveOcrResultOnce P jid r p of
        (Inl e, p') \<Rightarrow> (Some e, n, p')
      | (Inr _, p') \<Rightarrow> saveAll P jid rs (Suc n) p')"

text \<open>Step 9: complete, then clear a stale outbox row.\<close>

definition finishCompleted ::
  "'q QueueBackend \<Rightarrow> 'p PersistencePort \<Rightarrow> OcrQueueClaim \<Rightarrow> bool \<Rightarrow> nat \<Rightarrow> nat \<Rightarrow> 'q \<Rightarrow> 'p \<Rightarrow> ('q, 'p) turn" where
  "finishCompleted B P claim hadPending s r q p =
     (case qb_completeClaim B claim q of
        (Inl (OcrQueueError code m), q') \<Rightarrow>
          (Inr (turn_error (mapQueueErrorToAckOutcome code) (clm_job_id claim) (Some s) (Some r) (Some code) m), q', p)
      | (Inl (OtherError m), q') \<Rightarrow> (Inl (OtherError m), q', p)
      | (Inr _, q') \<Rightarrow>
          (Inr (turn_ok OutCompleted (clm_job_id claim) (Some s) (Some r)), q',
           if hadPending then snd (pp_clearOcrPendingRetry P (clm_job_id claim) p) else p))"

text \<open>Step 8.5, dead letter: the edge off \<open>failed\<close>, completion, best-effort clear.\<close>

definition finishDeadLetter ::
  "'q QueueBackend \<Rightarrow> 'p PersistencePort \<Rightarrow> OcrQueueClaim \<Rightarrow> string \<Rightarrow> TurnInputs \<Rightarrow> nat \<Rightarrow> nat \<Rightarrow> 'q \<Rightarrow> 'p \<Rightarrow> ('q, 'p) turn" where
  "finishDeadLetter B P claim reason ti s r q p =
     (case pp_appendOcrStatusOnce P (clm_job_id claim)
             \<lparr>tr_from = Failed, tr_to = DeadLettered, tr_by = ByQueue, tr_at = ti_failedAt ti, tr_note = Some reason\<rparr> p of
        (Inl e, p1) \<Rightarrow>
          (Inr (turn_error OutPersistenceFailed (clm_job_id claim) (Some s) (Some r) None
                  (''appendOcrStatusOnce(failed->dead_lettered) failed: '' @ errorMessage e)), q, p1)
      | (Inr _, p1) \<Rightarrow>
          (case qb_completeClaim B claim q of
             (Inl (OcrQueueError code m), q') \<Rightarrow>
               (Inr (turn_error (mapQueueErrorToAckOutcome code) (clm_job_id claim) (Some (Suc s)) (Some r) (Some code) m), q', p1)
           | (Inl (OtherError m), q') \<Rightarrow> (Inl (OtherError m), q', p1)
           | (Inr _, q') \<Rightarrow>
               (Inr (turn_ok OutDeadLettered (clm_job_id claim) (Some (Suc s)) (Some r)), q',
                snd (pp_clearOcrPendingRetry P (clm_job_id claim) p1))))"

text \<open>Step 8.5, retry: the edge off \<open>failed\<close>, the outbox write, completion, the enqueue of the
  bumped submission, best-effort clear.\<close>

definition finishRetry ::
  "'q QueueBackend \<Rightarrow> 'p PersistencePort \<Rightarrow> OcrQueueClaim \<Rightarrow> string \<Rightarrow> jval \<Rightarrow> TurnInputs \<Rightarrow> nat \<Rightarrow> nat \<Rightarrow> 'q \<Rightarrow> 'p \<Rightarrow> ('q, 'p) turn" where
  "finishRetry B P claim reason submission ti s r q p =
     (case pp_appendOcrStatusOnce P (clm_job_id claim)
             \<lparr>tr_from = Failed, tr_to = Queued, tr_by = ByQueue, tr_at = ti_failedAt ti, tr_note = Some reason\<rparr> p of
        (Inl e, p1) \<Rightarrow>
          (Inr (turn_error OutPersistenceFailed (clm_job_id claim) (Some s) (Some r) None
                  (''appendOcrStatusOnce(failed->queued) failed: '' @ errorMessage e)), q, p1)
      | (Inr _, p1) \<Rightarrow>
          (let nextSubmission = bumpAttempt submission in
           case pp_setOcrPendingRetry P (clm_job_id claim) nextSubmission p1 of
             (Inl e, p2) \<Rightarrow>
               (Inr (turn_error OutPersistenceFailed (clm_job_id claim) (Some (Suc s)) (Some r) None
                       (''setOcrPendingRetry failed: '' @ errorMessage e)), q, p2)
           | (Inr _, p2) \<Rightarrow>
               (case qb_completeClaim B claim q of
                  (Inl (OcrQueueError code m), q1) \<Rightarrow>
                    (Inr (turn_error (mapQueueErrorToAckOutcome code) (clm_job_id claim) (Some (Suc s)) (Some r) (Some code) m), q1, p2)
                | (Inl (OtherError m), q1) \<Rightarrow> (Inl (OtherError m), q1, p2)
                | (Inr _, q1) \<Rightarrow>
                    (case qb_enqueue B \<lparr>job_tid = ti_jobId ti, job_submission = nextSubmission,
                                        job_enqueued_at = ti_enqueuedAt ti, job_scenario = None\<rparr> q1 of
                       (Inl e, q2) \<Rightarrow>
                         (Inr (turn_error OutPersistenceFailed (clm_job_id claim) (Some (Suc s)) (Some r)
                                 (case e of OcrQueueError code _ \<Rightarrow> Some code | OtherError _ \<Rightarrow> None)
                                 (''failed->queued persisted but queue.enqueue(retry) failed: '' @ errorMessage e)), q2, p2)
                     | (Inr _, q2) \<Rightarrow>
                         (Inr (turn_ok OutRetried (clm_job_id claim) (Some (Suc s)) (Some r)), q2,
                          snd (pp_clearOcrPendingRetry P (clm_job_id claim) p2))))))"

text \<open>Step 8: transitions always, results unless the attempt will be retried.\<close>

definition persistAndFinish ::
  "'q QueueBackend \<Rightarrow> 'p PersistencePort \<Rightarrow> OcrQueueClaim \<Rightarrow> bool \<Rightarrow> RetryChoice option \<Rightarrow> jval \<Rightarrow> TurnInputs \<Rightarrow>
   TransitionRecord list \<Rightarrow> jval list \<Rightarrow> nat \<Rightarrow> 'q \<Rightarrow> 'p \<Rightarrow> ('q, 'p) turn" where
  "persistAndFinish B P claim hadPending choice submission ti transitions results s0 q p =
     (case appendAll P (clm_job_id claim) transitions s0 p of
        (Some e, s, p1) \<Rightarrow>
          (Inr (turn_error OutPersistenceFailed (clm_job_id claim) (Some s) (Some 0) None
                  (''persistence write failed: '' @ errorMessage e)), q, p1)
      | (None, s, p1) \<Rightarrow>
          (case (case choice of Some (ChooseRetry _) \<Rightarrow> (None, 0, p1)
                 | _ \<Rightarrow> saveAll P (clm_job_id claim) results 0 p1) of
             (Some e, r, p2) \<Rightarrow>
               (Inr (turn_error OutPersistenceFailed (clm_job_id claim) (Some s) (Some r) None
                       (''persistence write failed: '' @ errorMessage e)), q, p2)
           | (None, r, p2) \<Rightarrow>
               (case choice of
                  None \<Rightarrow> finishCompleted B P claim hadPending s r q p2
                | Some (ChooseDeadLetter reason) \<Rightarrow> finishDeadLetter B P claim reason ti s r q p2
                | Some (ChooseRetry reason) \<Rightarrow> finishRetry B P claim reason submission ti s r q p2)))"

subsection \<open>One turn\<close>

text \<open>Steps 5 to 9, from the worker call on, with the effective submission.\<close>

definition runWorkerTurn ::
  "Validators \<Rightarrow> (OcrJob \<Rightarrow> exn + OcrJobOutcome) \<Rightarrow> 'q QueueBackend \<Rightarrow> 'p PersistencePort \<Rightarrow>
   OcrQueueClaim \<Rightarrow> jval option \<Rightarrow> TurnInputs \<Rightarrow> 'q \<Rightarrow> 'p \<Rightarrow> ('q, 'p) turn" where
  "runWorkerTurn V worker B P claim pendingSub ti q p =
     (let job = (case pendingSub of Some sub \<Rightarrow> (clm_job claim)\<lparr>job_submission := sub\<rparr> | None \<Rightarrow> clm_job claim) in
      case worker job of
        Inl e \<Rightarrow> tryRequeueAs B claim OutRequeued (''worker threw: '' @ errorMessage e) q p
      | Inr out \<Rightarrow>
        (case validateWorkerOutcomeContract V out job of
           Inl e \<Rightarrow> (Inl e, q, p)
         | Inr (Inl reason) \<Rightarrow> tryRequeueAs B claim OutRequeued reason q p
         | Inr (Inr _) \<Rightarrow>
           (case normalizeForStep10C (oc_statuses out) of
              Inl reason \<Rightarrow> tryRequeueAs B claim OutRequeued reason q p
            | Inr transitions \<Rightarrow>
              if tr_to (last transitions) = Failed
              then if \<not> (\<exists>r\<in>set (oc_results out). jget r ''status'' = JStr ''failed'')
                then tryRequeueAs B claim OutRequeued
                  (''worker emitted terminal_state='' @ quoted ''failed'' @ '' with no result carrying status='' @ quoted ''failed''
                   @ ''; cannot classify for retry'') q p
                else (case decideRetry V (job_submission job) (oc_results out) of
                  Inl m \<Rightarrow> (Inr (turn_error OutPersistenceFailed (clm_job_id claim) (Some 1) (Some 0) None m), q, p)
                | Inr choice \<Rightarrow>
                    persistAndFinish B P claim (pendingSub \<noteq> None) choice (job_submission job) ti
                      transitions (oc_results out) 1 q p)
              else persistAndFinish B P claim (pendingSub \<noteq> None) None (job_submission job) ti
                     transitions (oc_results out) 1 q p)))"

definition claimedEdge :: "string \<Rightarrow> TransitionRecord" where
  "claimedEdge at = \<lparr>tr_from = Queued, tr_to = Claimed, tr_by = ByQueue, tr_at = at, tr_note = None\<rparr>"

definition processOneOcrQueueClaim ::
  "Validators \<Rightarrow> (OcrJob \<Rightarrow> exn + OcrJobOutcome) \<Rightarrow> 'q QueueBackend \<Rightarrow> 'p PersistencePort \<Rightarrow> string \<Rightarrow>
   TurnInputs \<Rightarrow> 'q \<Rightarrow> 'p \<Rightarrow> ('q, 'p) turn" where
  "processOneOcrQueueClaim V worker B P worker_id ti q0 p0 =
     (case qb_claimNext B worker_id q0 of
        (Inl e, q) \<Rightarrow> (Inl e, q, p0)
      | (Inr None, q) \<Rightarrow>
          (Inr \<lparr>cr_outcome = OutEmpty, cr_job_id = None, cr_statuses_persisted = None,
                cr_results_persisted = None, cr_error = None\<rparr>, q, p0)
      | (Inr (Some claim), q) \<Rightarrow>
          (case pp_getOcrJob P (clm_job_id claim) p0 of
             (Inl e, p) \<Rightarrow> (Inl e, q, p)
           | (Inr None, p) \<Rightarrow>
               tryRequeueAs B claim OutPersistenceFailed
                 (''no persisted job record for job_id='' @ clm_job_id claim) q p
           | (Inr (Some record), p) \<Rightarrow>
               if (case jv_terminal_state record of Some s \<Rightarrow> isTerminalState s | None \<Rightarrow> False)
               then tryCompleteAlreadyTerminal B claim q
                      (if jv_pending_retry_submission record \<noteq> None
                       then snd (pp_clearOcrPendingRetry P (clm_job_id claim) p) else p)
               else (case pp_appendOcrStatusOnce P (clm_job_id claim) (claimedEdge (ti_claimedAt ti)) p of
                  (Inl e, p1) \<Rightarrow>
                    tryRequeueAs B claim OutPersistenceFailed
                      (''appendOcrStatusOnce(queued->claimed) failed: '' @ errorMessage e) q p1
                | (Inr _, p1) \<Rightarrow>
                    runWorkerTurn V worker B P claim (jv_pending_retry_submission record) ti q p1)))"

lemmas processOneOcrQueueClaim_unfold = processOneOcrQueueClaim_def [unfolded some_and]

end
