(* ===== verification/OcrTurn.thy ===== *)
theory OcrTurn
  imports OcrCoordinator
begin

text \<open>
  What one coordinator turn guarantees, over any queue backend and any persistence layer
  that keep their contracts: the interface \<open>ocr_persistence_port\<close> and the locale
  \<open>ocr_coordinator\<close> that joins it with the queue's, the lemmas about each phase of the turn,
  and the interpretation on the in-memory store of services/ocr-persistence.
  A job is \<open>accounted\<close> for when it is active in the queue, or its timeline has
  reached a terminal state, or the outbox holds its next attempt.
\<close>

subsection \<open>Accounting\<close>

definition terminal_timeline :: "TransitionRecord list \<Rightarrow> bool" where
  "terminal_timeline ts \<longleftrightarrow> (\<exists>s. last_to None ts = Some s \<and> isTerminalState s)"

definition accounted ::
  "(string \<Rightarrow> OcrJob option) \<Rightarrow> (string \<Rightarrow> TransitionRecord list) \<Rightarrow> (string \<Rightarrow> jval option) \<Rightarrow> string \<Rightarrow> bool" where
  "accounted pd tml ob i \<longleftrightarrow> pd i \<noteq> None \<or> terminal_timeline (tml i) \<or> ob i \<noteq> None"

definition valid_timeline :: "TransitionRecord list \<Rightarrow> bool" where
  "valid_timeline ts \<longleftrightarrow> ts = [] \<or> validateTransitionSequence ts = Inr ()"

definition outbox_ok :: "(string \<Rightarrow> jval option) \<Rightarrow> bool" where
  "outbox_ok ob \<longleftrightarrow> (\<forall>i s. ob i = Some s \<longrightarrow> js_key (jget s ''job_id'') = i)"

lemma job_key_js_key: "job_key j = js_key (jget (job_submission j) ''job_id'')"
  by (simp add: job_key_def js_key_def)

lemma valid_terminal_prefix:
  assumes "prefix xs ys" and "valid_timeline ys" and "terminal_timeline xs"
  shows "ys = xs"
proof -
  from assms(3) have "xs \<noteq> []" by (auto simp: terminal_timeline_def)
  then obtain zs t where xs: "xs = zs @ [t]" by (metis rev_exhaust)
  obtain us where ys: "ys = zs @ t # us" using assms(1) xs by (auto simp: prefix_def)
  with assms(2) have "validateTransitionSequence (zs @ t # us) = Inr ()"
    by (simp add: valid_timeline_def)
  moreover have "isTerminalState (tr_to t)" using assms(3) xs by (simp add: terminal_timeline_def)
  ultimately have "us = []" by (rule valid_terminal_last)
  with xs ys show ?thesis by simp
qed

lemma valid_terminal_member:
  assumes "valid_timeline ts" and "t \<in> set ts" and "isTerminalState (tr_to t)"
  shows "terminal_timeline ts"
proof -
  obtain zs us where ts: "ts = zs @ t # us" using assms(2) by (meson split_list)
  with assms(1) have "validateTransitionSequence (zs @ t # us) = Inr ()"
    by (simp add: valid_timeline_def)
  then have "us = []" using assms(3) by (rule valid_terminal_last)
  with ts assms(3) show ?thesis by (simp add: terminal_timeline_def)
qed

lemma bumpAttempt_key: "js_key (jget (bumpAttempt s) ''job_id'') = js_key (jget s ''job_id'')"
  by (cases s) (simp_all add: bumpAttempt_def)

lemma bumpAttempt_other: "k \<noteq> ''retry'' \<Longrightarrow> jget (bumpAttempt s) k = jget s k"
  by (cases s) (simp_all add: bumpAttempt_def)

lemma bumpAttempt_retry:
  assumes "jget (jget s ''retry'') ''attempt'' = JInt a"
  shows "jget (jget (bumpAttempt s) ''retry'') f = (if f = ''attempt'' then JInt (a + 1) else jget (jget s ''retry'') f)"
proof -
  obtain kvs where r: "jget s ''retry'' = JObj kvs" using assms by (cases "jget s ''retry''") auto
  moreover obtain kvs' where "s = JObj kvs'" using r by (cases s) auto
  ultimately show ?thesis using assms by (simp add: bumpAttempt_def jget_jset)
qed

lemma normalizeForStep10C_Inr:
  assumes "normalizeForStep10C ts = Inr ws"
  shows "ws \<noteq> [] \<and> tr_to (last ws) \<in> {Succeeded, PartialSucceeded, Failed} \<and>
    (\<forall>t\<in>set ws. tr_by t = ByWorker) \<and> suffix ws ts"
proof -
  define working where "working = (case ts of
      t # us \<Rightarrow> if tr_from t = Queued \<and> tr_to t = Claimed \<and> tr_by t = ByQueue then us else ts | [] \<Rightarrow> [])"
  have suf: "suffix working ts"
    by (auto simp: working_def suffix_def split: list.splits)
  have "working \<noteq> [] \<and> List.find (\<lambda>t. tr_by t \<noteq> ByWorker) working = None \<and>
      tr_to (last working) \<in> {Succeeded, PartialSucceeded, Failed} \<and> ws = working"
    using assms unfolding normalizeForStep10C_def working_def [symmetric] Let_def
    by (auto split: option.splits if_splits)
  with suf show ?thesis by (auto simp: find_None_iff_all)
qed

abbreviation classify_result :: "jval \<Rightarrow> jval \<Rightarrow> string + RetryDecision" where
  "classify_result retry r \<equiv>
     classifyOcrFailureForRetry (nullish (jget r ''partial_failure'')) retry (jget r ''status'')"

lemma classifyResults_step:
  assumes "classifyResults retry (r # rl) d = Inr c"
  shows "jget r ''status'' \<noteq> JStr ''failed'' \<and> classifyResults retry rl d = Inr c \<or>
    jget r ''status'' = JStr ''failed'' \<and>
      (\<exists>n reason. classify_result retry r = Inr (Retry n reason) \<and> c = Some (ChooseRetry reason)) \<or>
    jget r ''status'' = JStr ''failed'' \<and>
      (\<exists>why. classify_result retry r = Inr (DeadLetter why) \<and>
         classifyResults retry rl (if d = None then Some (ChooseDeadLetter why) else d) = Inr c)"
proof (cases "jget r ''status'' = JStr ''failed''")
  case False
  with assms show ?thesis by simp
next
  case True
  show ?thesis
  proof (cases "classify_result retry r")
    case (Inl e)
    with True assms show ?thesis by simp
  next
    case (Inr dec)
    with True assms show ?thesis by (cases dec) simp_all
  qed
qed

lemma classifyResults_None:
  "classifyResults retry rl d = Inr None \<Longrightarrow>
     d = None \<and> (\<forall>r\<in>set rl. jget r ''status'' \<noteq> JStr ''failed'')"
proof (induction rl arbitrary: d)
  case (Cons r rl)
  from classifyResults_step [OF Cons.prems] Cons.IH [of d] show ?case
    by (auto dest: Cons.IH split: if_splits)
qed simp

lemma classifyResults_Retry:
  "classifyResults retry rl d = Inr (Some (ChooseRetry reason)) \<Longrightarrow> d \<noteq> Some (ChooseRetry reason) \<Longrightarrow>
     \<exists>r\<in>set rl. \<exists>n. jget r ''status'' = JStr ''failed'' \<and> classify_result retry r = Inr (Retry n reason)"
proof (induction rl arbitrary: d)
  case (Cons r rl)
  from classifyResults_step [OF Cons.prems(1)] show ?case
  proof (elim disjE conjE exE)
    assume "classifyResults retry rl d = Inr (Some (ChooseRetry reason))"
    from Cons.IH [OF this Cons.prems(2)] show ?thesis by auto
  next
    fix n x
    assume "classify_result retry r = Inr (Retry n x)" "Some (ChooseRetry reason) = Some (ChooseRetry x)"
      "jget r ''status'' = JStr ''failed''"
    then show ?thesis by auto
  next
    fix why
    assume "classifyResults retry rl (if d = None then Some (ChooseDeadLetter why) else d)
        = Inr (Some (ChooseRetry reason))"
    from Cons.IH [OF this] Cons.prems(2) show ?thesis by (auto split: if_splits)
  qed
qed simp

subsection \<open>The persistence interface\<close>

text \<open>What the coordinator may rely on: \<open>tml\<close> is the status timeline of a job, \<open>ob\<close> its outbox
  row, \<open>rs\<close> its stored results.\<close>

locale ocr_persistence_port =
  fixes P :: "'p PersistencePort"
    and pinv :: "'p \<Rightarrow> bool"
    and tml :: "'p \<Rightarrow> string \<Rightarrow> TransitionRecord list"
    and ob :: "'p \<Rightarrow> string \<Rightarrow> jval option"
    and rs :: "'p \<Rightarrow> string \<Rightarrow> jval list"
  assumes get_law: "pinv p \<Longrightarrow> pp_getOcrJob P i p = (g, p') \<Longrightarrow>
      pinv p' \<and> tml p' = tml p \<and> ob p' = ob p \<and> rs p' = rs p \<and>
      (\<forall>v. g = Inr (Some v) \<longrightarrow> jv_terminal_state v = last_to None (tml p i) \<and>
           jv_pending_retry_submission v = ob p i)"
    and append_law: "pinv p \<Longrightarrow> pp_appendOcrStatusOnce P i t p = (a, p') \<Longrightarrow>
      pinv p' \<and> ob p' = ob p \<and> rs p' = rs p \<and>
      (case a of Inl _ \<Rightarrow> tml p' = tml p
       | Inr _ \<Rightarrow> tml p' = (tml p)(i := if t \<in> set (tml p i) then tml p i else tml p i @ [t]))"
    and save_law: "pinv p \<Longrightarrow> pp_saveOcrResultOnce P i r p = (a, p') \<Longrightarrow>
      pinv p' \<and> tml p' = tml p \<and> ob p' = ob p \<and> (\<forall>k. k \<noteq> i \<longrightarrow> rs p' k = rs p k)"
    and set_law: "pinv p \<Longrightarrow> pp_setOcrPendingRetry P i s p = (a, p') \<Longrightarrow>
      pinv p' \<and> tml p' = tml p \<and> rs p' = rs p \<and>
      (case a of Inl _ \<Rightarrow> ob p' = ob p
       | Inr _ \<Rightarrow> \<exists>x. (x = s \<or> ob p i = Some x) \<and> ob p' = (ob p)(i \<mapsto> x))"
    and clear_law: "pinv p \<Longrightarrow> pp_clearOcrPendingRetry P i p = (a, p') \<Longrightarrow>
      pinv p' \<and> tml p' = tml p \<and> rs p' = rs p \<and>
      (case a of Inl _ \<Rightarrow> ob p' = ob p | Inr _ \<Rightarrow> ob p' = (ob p)(i := None))"
    and valid_law: "pinv p \<Longrightarrow> valid_timeline (tml p i)"
begin

lemma append_facts:
  assumes "pinv p" and "pp_appendOcrStatusOnce P i t p = (a, p')"
  shows "pinv p'" and "ob p' = ob p" and "rs p' = rs p" and "prefix (tml p k) (tml p' k)"
    and "k \<noteq> i \<Longrightarrow> tml p' k = tml p k" and "a = Inr u \<Longrightarrow> t \<in> set (tml p' i)"
    and "set (tml p' i) \<subseteq> insert t (set (tml p i))"
  using append_law [OF assms] by (cases a; auto)+

lemma clear_snd:
  assumes "pinv p"
  shows "pinv (snd (pp_clearOcrPendingRetry P i p))"
    and "tml (snd (pp_clearOcrPendingRetry P i p)) = tml p"
    and "rs (snd (pp_clearOcrPendingRetry P i p)) = rs p"
    and "ob (snd (pp_clearOcrPendingRetry P i p)) = ob p \<or>
         ob (snd (pp_clearOcrPendingRetry P i p)) = (ob p)(i := None)"
proof -
  obtain a p' where c: "pp_clearOcrPendingRetry P i p = (a, p')" by fastforce
  show "pinv (snd (pp_clearOcrPendingRetry P i p))"
    "tml (snd (pp_clearOcrPendingRetry P i p)) = tml p"
    "rs (snd (pp_clearOcrPendingRetry P i p)) = rs p"
    "ob (snd (pp_clearOcrPendingRetry P i p)) = ob p \<or>
     ob (snd (pp_clearOcrPendingRetry P i p)) = (ob p)(i := None)"
    using clear_law [OF assms c] by (cases a; simp add: c)+
qed

text \<open>Both write loops: what they write, where, and that nothing is written twice.\<close>

lemma appendAll_law:
  assumes "pinv p" and "appendAll P i ts n p = (e, m, p')"
  shows "pinv p' \<and> ob p' = ob p \<and> rs p' = rs p \<and> (\<forall>k. prefix (tml p k) (tml p' k)) \<and>
    (e = None \<longrightarrow> set ts \<subseteq> set (tml p' i) \<and> m = n + length ts)"
  using assms
proof (induction ts arbitrary: n p)
  case (Cons t ts)
  obtain a p1 where a: "pp_appendOcrStatusOnce P i t p = (a, p1)" by fastforce
  note f = append_facts [OF Cons.prems(1) a]
  show ?case
  proof (cases a)
    case (Inl e')
    with a Cons.prems(2) f show ?thesis by auto
  next
    case (Inr u)
    with a Cons.prems(2) have "appendAll P i ts (Suc n) p1 = (e, m, p')" by simp
    note ih = Cons.IH [OF f(1) this]
    have "t \<in> set (tml p' i)"
      using ih f(6) [OF Inr] by (meson set_mono_prefix subsetD)
    moreover have "prefix (tml p k) (tml p' k)" for k
      using f(4) ih prefix_order.trans by blast
    ultimately show ?thesis using ih f by auto
  qed
qed simp

lemma saveAll_law:
  assumes "pinv p" and "saveAll P i rl n p = (e, m, p')"
  shows "pinv p' \<and> ob p' = ob p \<and> tml p' = tml p \<and> (\<forall>k. k \<noteq> i \<longrightarrow> rs p' k = rs p k)"
  using assms
proof (induction rl arbitrary: n p)
  case (Cons r rl)
  obtain a p1 where a: "pp_saveOcrResultOnce P i r p = (a, p1)" by fastforce
  note f = save_law [OF Cons.prems(1) a]
  show ?case
  proof (cases a)
    case (Inl e')
    with a Cons.prems(2) f show ?thesis by auto
  next
    case (Inr u)
    with a Cons.prems(2) have "saveAll P i rl (Suc n) p1 = (e, m, p')" by simp
    with Cons.IH f show ?thesis by auto
  qed
qed simp

text \<open>An append that would break the state machine is refused.\<close>

lemma append_refused:
  assumes "pinv p" and "pp_appendOcrStatusOnce P i t p = (a, p')"
    and "t \<notin> set (tml p i)" and "\<not> valid_timeline (tml p i @ [t])"
  shows "\<exists>e. a = Inl e"
proof (cases a)
  case (Inr u)
  then have "tml p' i = tml p i @ [t]" using append_law [OF assms(1,2)] assms(3) by simp
  moreover have "valid_timeline (tml p' i)" using append_facts(1) [OF assms(1,2)] by (rule valid_law)
  ultimately show ?thesis using assms(4) by simp
qed simp

end

subsection \<open>The coordinator over both interfaces\<close>

locale ocr_coordinator =
  q: ocr_queue_backend B qinv pend + s: ocr_persistence_port P pinv tml ob rs
  for B :: "'q QueueBackend" and qinv pend
    and P :: "'p PersistencePort" and pinv tml ob rs
begin

definition ready :: "'q \<Rightarrow> 'p \<Rightarrow> bool" where
  "ready q p \<longleftrightarrow> qinv q \<and> pinv p \<and> outbox_ok (ob p)"

definition safe :: "'q \<Rightarrow> 'p \<Rightarrow> 'q \<Rightarrow> 'p \<Rightarrow> bool" where
  "safe q p q' p' \<longleftrightarrow> ready q' p' \<and> (\<forall>k. prefix (tml p k) (tml p' k)) \<and>
     (\<forall>k. accounted (pend q) (tml p) (ob p) k \<longrightarrow> accounted (pend q') (tml p') (ob p') k)"

lemma safe_trans: "safe q p q1 p1 \<Longrightarrow> safe q1 p1 q2 p2 \<Longrightarrow> safe q p q2 p2"
  unfolding safe_def by (meson prefix_order.trans)

lemma terminal_kept:
  assumes "pinv p'" and "prefix (tml p k) (tml p' k)" and "terminal_timeline (tml p k)"
  shows "terminal_timeline (tml p' k)"
  using valid_terminal_prefix [OF assms(2) s.valid_law [OF assms(1)] assms(3)] assms(3) by simp

lemma safe_keep:
  assumes "ready q' p'" and "\<And>k. prefix (tml p k) (tml p' k)"
    and "pend q' = pend q" and "\<And>k. ob p k \<noteq> None \<Longrightarrow> ob p' k \<noteq> None"
  shows "safe q p q' p'"
  using assms terminal_kept [of p' p] unfolding safe_def accounted_def ready_def by metis

lemma safe_at:
  assumes "ready q' p'" and "\<And>k. prefix (tml p k) (tml p' k)"
    and "\<And>k. k \<noteq> i \<Longrightarrow> pend q' k = pend q k \<and> ob p' k = ob p k"
    and "accounted (pend q') (tml p') (ob p') i"
  shows "safe q p q' p'"
  using assms terminal_kept [of p' p] unfolding safe_def accounted_def ready_def by metis

lemma outbox_ok_clear: "outbox_ok o1 \<Longrightarrow> o2 = o1 \<or> o2 = o1(i := None) \<Longrightarrow> outbox_ok o2"
  by (auto simp: outbox_ok_def split: if_splits)

lemma requeue_as:
  assumes "qinv q" and "tryRequeueAs B claim oc m q p = (r, q', p')"
  shows "qinv q' \<and> pend q' = pend q \<and> p' = p"
proof -
  obtain a q1 where a: "qb_requeueClaim B claim q = (a, q1)" by fastforce
  with assms(2) have "q' = q1 \<and> p' = p"
    by (auto simp: tryRequeueAs_def split: sum.splits exn.splits)
  with q.requeue_law [OF assms(1) a] show ?thesis by simp
qed

lemma requeue_as_safe:
  assumes "ready q p" and "tryRequeueAs B claim oc m q p = (r, q', p')"
  shows "safe q p q' p'"
  using requeue_as [OF _ assms(2)] assms(1) by (intro safe_keep) (auto simp: ready_def)

text \<open>Completing a job whose timeline is terminal, with or without clearing its outbox row.\<close>

lemma complete_safe:
  assumes "ready q p" and "qb_completeClaim B claim q = (a, q')"
    and "p' = p \<or> p' = snd (pp_clearOcrPendingRetry P (clm_job_id claim) p)"
    and "terminal_timeline (tml p (clm_job_id claim))"
  shows "safe q p q' p'"
proof -
  have p: "pinv p" and q: "qinv q" and o: "outbox_ok (ob p)" using assms(1) by (auto simp: ready_def)
  note c = s.clear_snd [OF p, of "clm_job_id claim"]
  have tml: "tml p' = tml p" and p': "pinv p'"
    and o': "ob p' = ob p \<or> ob p' = (ob p)(clm_job_id claim := None)"
    using assms(3) c p by auto
  show ?thesis
  proof (rule safe_at [where i = "clm_job_id claim"])
    show "ready q' p'"
      using p' q.complete_law [OF q assms(2)] outbox_ok_clear [OF o o'] by (simp add: ready_def)
    show "pend q' k = pend q k \<and> ob p' k = ob p k" if "k \<noteq> clm_job_id claim" for k
      using that o' q.complete_keeps_others [OF q assms(2)] by auto
    show "accounted (pend q') (tml p') (ob p') (clm_job_id claim)"
      using assms(4) tml by (simp add: accounted_def)
  qed (simp add: tml)
qed

lemma already_terminal_safe:
  assumes "ready q p" and "tryCompleteAlreadyTerminal B claim q p1 = (r, q', p')"
    and "p1 = p \<or> p1 = snd (pp_clearOcrPendingRetry P (clm_job_id claim) p)"
    and "terminal_timeline (tml p (clm_job_id claim))"
  shows "safe q p q' p'"
proof -
  obtain a q1 where a: "qb_completeClaim B claim q = (a, q1)" by fastforce
  with assms(2) have "q' = q1 \<and> p' = p1"
    by (auto simp: tryCompleteAlreadyTerminal_def split: sum.splits exn.splits)
  with complete_safe [OF assms(1) a _ assms(4)] assms(3) show ?thesis by simp
qed

lemma finishCompleted_safe:
  assumes "ready q p" and "finishCompleted B P claim hadPending s r q p = (res, q', p')"
    and "terminal_timeline (tml p (clm_job_id claim))"
  shows "safe q p q' p'"
proof -
  obtain a q1 where a: "qb_completeClaim B claim q = (a, q1)" by fastforce
  with assms(2) have "q' = q1 \<and> (p' = p \<or> p' = snd (pp_clearOcrPendingRetry P (clm_job_id claim) p))"
    by (auto simp: finishCompleted_def split: sum.splits exn.splits if_splits)
  with complete_safe [OF assms(1) a _ assms(3)] show ?thesis by auto
qed

lemma ready_append:
  assumes "ready q p" and "pp_appendOcrStatusOnce P i t p = (a, p')"
  shows "ready q p' \<and> safe q p q p'"
proof -
  have "ready q p'" using assms s.append_facts [of p i t a p'] by (auto simp: ready_def)
  moreover have "safe q p q p'"
    using assms s.append_facts [of p i t a p'] calculation by (intro safe_keep) (auto simp: ready_def)
  ultimately show ?thesis ..
qed

lemma finishDeadLetter_safe:
  assumes "ready q p" and "finishDeadLetter B P claim reason ti s r q p = (res, q', p')"
  shows "safe q p q' p'"
proof -
  let ?i = "clm_job_id claim"
  let ?t = "\<lparr>tr_from = Failed, tr_to = DeadLettered, tr_by = ByQueue, tr_at = ti_failedAt ti, tr_note = Some reason\<rparr>"
  obtain a p1 where a: "pp_appendOcrStatusOnce P ?i ?t p = (a, p1)" by fastforce
  note st = ready_append [OF assms(1) a]
  show ?thesis
  proof (cases a)
    case (Inl e)
    with assms(2) a st show ?thesis by (auto simp: finishDeadLetter_def)
  next
    case (Inr u)
    obtain c q1 where c: "qb_completeClaim B claim q = (c, q1)" by fastforce
    have "q' = q1 \<and> (p' = p1 \<or> p' = snd (pp_clearOcrPendingRetry P ?i p1))"
      using assms(2) a Inr c by (auto simp: finishDeadLetter_def split: sum.splits exn.splits)
    moreover have "?t \<in> set (tml p1 ?i)"
      using s.append_facts(6) [OF _ a Inr] assms(1) by (simp add: ready_def)
    then have "terminal_timeline (tml p1 ?i)"
      using valid_terminal_member s.valid_law st by (fastforce simp: ready_def)
    ultimately have "safe q p1 q' p'" using complete_safe [OF conjunct1 [OF st] c] by auto
    with st show ?thesis using safe_trans by blast
  qed
qed

text \<open>The retry path. The outbox row is written before the claim is completed, so the job is
  accounted for at every intermediate state.\<close>

lemma finishRetry_safe:
  assumes "ready q p" and "finishRetry B P claim reason sub ti s r q p = (res, q', p')"
    and key: "js_key (jget sub ''job_id'') = clm_job_id claim"
  shows "safe q p q' p'"
proof -
  let ?i = "clm_job_id claim" and ?next = "bumpAttempt sub"
  let ?t = "\<lparr>tr_from = Failed, tr_to = Queued, tr_by = ByQueue, tr_at = ti_failedAt ti, tr_note = Some reason\<rparr>"
  let ?job = "\<lparr>job_tid = ti_jobId ti, job_submission = ?next, job_enqueued_at = ti_enqueuedAt ti, job_scenario = None\<rparr>"
  have jk: "job_key ?job = ?i" using key by (simp add: job_key_js_key bumpAttempt_key)
  obtain a p1 where a: "pp_appendOcrStatusOnce P ?i ?t p = (a, p1)" by fastforce
  note st = ready_append [OF assms(1) a]
  obtain b p2 where b: "pp_setOcrPendingRetry P ?i ?next p1 = (b, p2)" by fastforce
  have p1: "pinv p1" and q: "qinv q" and o1: "outbox_ok (ob p1)" using st by (auto simp: ready_def)
  note set = s.set_law [OF p1 b]
  show ?thesis
  proof (cases "\<exists>u v. a = Inr u \<and> b = Inr v")
    case False
    have r2: "ready q p2 \<and> ob p2 = ob p1 \<and> tml p2 = tml p1" if "b = Inl e" for e
      using set that st by (auto simp: ready_def)
    have "safe q p1 q p2" if "b = Inl e" for e
      using r2 [OF that] by (intro safe_keep) auto
    moreover have "q' = q \<and> (p' = p1 \<or> (\<exists>e. b = Inl e) \<and> p' = p2)"
      using assms(2) a b False by (auto simp: finishRetry_def Let_def split: sum.splits)
    ultimately show ?thesis using st safe_trans by blast
  next
    case True
    then obtain u v where ab: "a = Inr u" "b = Inr v" by blast
    then obtain x where x: "x = ?next \<or> ob p1 ?i = Some x" and o2: "ob p2 = (ob p1)(?i \<mapsto> x)"
      using set by auto
    have "js_key (jget x ''job_id'') = ?i"
      using x o1 key by (auto simp: outbox_ok_def bumpAttempt_key)
    then have ok2: "outbox_ok (ob p2)" using o1 o2 by (auto simp: outbox_ok_def)
    have ready2: "ready q p2" using set ok2 q by (simp add: ready_def)
    have s2: "safe q p1 q p2" using ready2 set o2 by (intro safe_keep) auto
    obtain c q1 where c: "qb_completeClaim B claim q = (c, q1)" by fastforce
    have q1: "qinv q1" using q.complete_law [OF q c] by simp
    obtain d q2 where d: "qb_enqueue B ?job q1 = (d, q2)" by fastforce
    have end_states: "(q' = q1 \<and> p' = p2) \<or> (\<exists>e. d = Inl e) \<and> q' = q2 \<and> p' = p2 \<or>
        (\<exists>er. d = Inr er) \<and> q' = q2 \<and> p' = snd (pp_clearOcrPendingRetry P ?i p2)"
      using assms(2) a b ab c d by (auto simp: finishRetry_def Let_def split: sum.splits exn.splits)
    have oth1: "pend q1 k = pend q k" if "k \<noteq> ?i" for k using q.complete_keeps_others [OF q c that] .
    have oth2: "pend q2 k = pend q k" if "k \<noteq> ?i" for k
      using q.enqueue_keeps_others [OF q1 d] oth1 that jk by simp
    have q2: "qinv q2" using q.enqueue_law [OF q1 d] by simp
    have "safe q p2 q' p'" using end_states
    proof (elim disjE conjE)
      assume "q' = q1" "p' = p2"
      then show ?thesis using q1 ready2 oth1 o2
        by (intro safe_at [where i = ?i]) (auto simp: ready_def accounted_def)
    next
      assume "q' = q2" "p' = p2"
      then show ?thesis using q2 ready2 oth2 o2
        by (intro safe_at [where i = ?i]) (auto simp: ready_def accounted_def)
    next
      assume e: "\<exists>er. d = Inr er" and "q' = q2" and p': "p' = snd (pp_clearOcrPendingRetry P ?i p2)"
      then have "pend q' ?i \<noteq> None" using q.enqueue_present [OF q1] d jk by fastforce
      moreover have p2: "pinv p2" using ready2 by (simp add: ready_def)
      moreover have "ready q' p'"
        using q2 s.clear_snd [OF p2, of ?i] outbox_ok_clear [OF ok2] \<open>q' = q2\<close> p' by (simp add: ready_def)
      moreover have "tml p' = tml p2" "\<And>k. k \<noteq> ?i \<Longrightarrow> ob p' k = ob p2 k"
        using s.clear_snd(2,4) [OF p2, of ?i] p' by auto
      ultimately show ?thesis using oth2 \<open>q' = q2\<close>
        by (intro safe_at [where i = ?i]) (auto simp: accounted_def)
    qed
    with st s2 show ?thesis using safe_trans by blast
  qed
qed

lemma persistAndFinish_safe:
  assumes "ready q p" and "persistAndFinish B P claim hp choice sub ti ts rl n q p = (res, q', p')"
    and key: "js_key (jget sub ''job_id'') = clm_job_id claim"
    and fin_if: "choice = None \<Longrightarrow> ts \<noteq> [] \<and> isTerminalState (tr_to (last ts))"
  shows "safe q p q' p'"
proof -
  let ?i = "clm_job_id claim"
  obtain e m p1 where a: "appendAll P ?i ts n p = (e, m, p1)" by (metis prod_cases3)
  have q: "qinv q" and p: "pinv p" and o: "outbox_ok (ob p)" using assms(1) by (auto simp: ready_def)
  note app = s.appendAll_law [OF p a]
  have r1: "ready q p1" using app q o by (simp add: ready_def)
  have s1: "safe q p q p1" using app r1 by (intro safe_keep) auto
  show ?thesis
  proof (cases e)
    case (Some x)
    with assms(2) a s1 show ?thesis by (simp add: persistAndFinish_def)
  next
    case None
    define w where "w = (case choice of Some (ChooseRetry _) \<Rightarrow> (None, 0, p1) | _ \<Rightarrow> saveAll P ?i rl 0 p1)"
    obtain e2 m2 p2 where w2: "w = (e2, m2, p2)" by (metis prod_cases3)
    have sv: "pinv p2 \<and> ob p2 = ob p1 \<and> tml p2 = tml p1"
      using w2 s.saveAll_law [of p1 ?i rl 0 e2 m2 p2] r1
      by (auto simp: w_def ready_def split: option.splits RetryChoice.splits)
    have r2: "ready q p2" using sv r1 by (simp add: ready_def)
    have s2: "safe q p1 q p2" using sv r2 by (intro safe_keep) auto
    have run: "(case e2 of Some x \<Rightarrow> q' = q \<and> p' = p2
      | None \<Rightarrow> (case choice of None \<Rightarrow> finishCompleted B P claim hp m m2 q p2
                | Some (ChooseDeadLetter reason) \<Rightarrow> finishDeadLetter B P claim reason ti m m2 q p2
                | Some (ChooseRetry reason) \<Rightarrow> finishRetry B P claim reason sub ti m m2 q p2) = (res, q', p'))"
      using assms(2) a None w2
      by (cases choice; cases "the choice"; cases e2) (simp_all add: persistAndFinish_def w_def)
    have fin: "terminal_timeline (tml p2 ?i)" if "choice = None"
    proof -
      have "last ts \<in> set (tml p2 ?i)" using app None fin_if [OF that] sv by auto
      then show ?thesis
        using valid_terminal_member s.valid_law fin_if [OF that] sv by blast
    qed
    have "safe q p2 q' p'"
    proof (cases e2)
      case (Some x)
      with run r2 show ?thesis by (auto intro: safe_keep)
    next
      case None
      with run r2 fin key show ?thesis
        by (auto split: option.splits RetryChoice.splits
            intro: finishCompleted_safe finishDeadLetter_safe finishRetry_safe)
    qed
    with s1 s2 show ?thesis using safe_trans by blast
  qed
qed

lemma runWorkerTurn_safe:
  assumes "ready q p" and "runWorkerTurn V worker B P claim pendingSub ti q p = (res, q', p')"
    and k1: "job_key (clm_job claim) = clm_job_id claim"
    and k2: "\<And>sub. pendingSub = Some sub \<Longrightarrow> js_key (jget sub ''job_id'') = clm_job_id claim"
  shows "safe q p q' p'"
proof -
  define job where "job = (case pendingSub of Some sub \<Rightarrow> (clm_job claim)\<lparr>job_submission := sub\<rparr> | None \<Rightarrow> clm_job claim)"
  have key: "js_key (jget (job_submission job) ''job_id'') = clm_job_id claim"
    using k1 k2 by (auto simp: job_def job_key_js_key split: option.splits)
  note run = assms(2) [unfolded runWorkerTurn_def, folded job_def, unfolded Let_def]
  note rq = requeue_as_safe [OF assms(1)]
  have keep: "safe q p q p" using assms(1) by (intro safe_keep) auto
  show ?thesis
  proof (cases "worker job")
    case (Inl e)
    with run show ?thesis by (auto intro: rq)
  next
    case (Inr out)
    note run1 = run [unfolded Inr, simplified]
    show ?thesis
    proof (cases "\<exists>u. validateWorkerOutcomeContract V out job = Inr (Inr u)")
      case False
      with run1 keep show ?thesis by (cases "validateWorkerOutcomeContract V out job") (auto intro: rq split: sum.splits)
    next
      case True
      then obtain u where valid: "validateWorkerOutcomeContract V out job = Inr (Inr u)" by blast
      note run2 = run1 [unfolded valid, simplified]
      show ?thesis
      proof (cases "normalizeForStep10C (oc_statuses out)")
        case (Inl e)
        with run2 show ?thesis by (auto intro: rq)
      next
        case (Inr ws)
        note ws = normalizeForStep10C_Inr [OF Inr]
        note run3 = run2 [unfolded Inr, simplified]
        show ?thesis
        proof (cases "tr_to (last ws) = Failed \<and> (\<exists>r\<in>set (oc_results out). jget r ''status'' = JStr ''failed'')")
          case False
          with run3 ws have "tryRequeueAs B claim OutRequeued
              (''worker emitted terminal_state='' @ quoted ''failed'' @ '' with no result carrying status='' @ quoted ''failed''
                   @ ''; cannot classify for retry'') q p
                = (res, q', p') \<or> isTerminalState (tr_to (last ws)) \<and>
              persistAndFinish B P claim (pendingSub \<noteq> None) None (job_submission job) ti ws (oc_results out) 1 q p = (res, q', p')"
            by (auto split: if_splits)
          then show ?thesis using rq persistAndFinish_safe [OF assms(1) _ key] ws by blast
        next
          case True
          show ?thesis
          proof (cases "decideRetry V (job_submission job) (oc_results out)")
            case (Inl e)
            with True run3 keep show ?thesis by auto
          next
            case (Inr choice)
            have "choice \<noteq> None"
            proof
              assume "choice = None"
              with Inr have "classifyResults (jget (job_submission job) ''retry'') (oc_results out) None = Inr None"
                by (simp add: decideRetry_def split: option.splits)
              with classifyResults_None True show False by blast
            qed
            moreover have "persistAndFinish B P claim (pendingSub \<noteq> None) choice (job_submission job) ti ws
                (oc_results out) 1 q p = (res, q', p')"
              using Inr True run3 by auto
            ultimately show ?thesis using persistAndFinish_safe [OF assms(1) _ key] by blast
          qed
        qed
      qed
    qed
  qed
qed

text \<open>One whole turn.\<close>

lemma claimed_key:
  assumes "qinv q" and "qb_claimNext B w q = (Inr (Some claim), q1)"
  shows "job_key (clm_job claim) = clm_job_id claim" and "pend q (clm_job_id claim) = Some (clm_job claim)"
proof -
  show p: "pend q (clm_job_id claim) = Some (clm_job claim)" using q.claim_law [OF assms] by simp
  show "job_key (clm_job claim) = clm_job_id claim" using q.key_law [OF assms(1) p] .
qed

lemma turn_never_loses_a_job:
  assumes "ready q0 p0" and "processOneOcrQueueClaim V worker B P w ti q0 p0 = (res, q', p')"
  shows "safe q0 p0 q' p'"
proof -
  have q: "qinv q0" and p: "pinv p0" and o: "outbox_ok (ob p0)" using assms(1) by (auto simp: ready_def)
  obtain c q1 where c: "qb_claimNext B w q0 = (c, q1)" by fastforce
  have r1: "ready q1 p0" using q.claim_law [OF q c] p o by (simp add: ready_def)
  have s1: "safe q0 p0 q1 p0" using r1 q.claim_law [OF q c] by (intro safe_keep) auto
  show ?thesis
  proof (cases "\<exists>claim. c = Inr (Some claim)")
    case False
    with assms(2) c have "q' = q1 \<and> p' = p0"
      by (auto simp: processOneOcrQueueClaim_unfold split: sum.splits option.splits)
    with s1 show ?thesis by simp
  next
    case True
    then obtain claim where claim: "c = Inr (Some claim)" by blast
    note key = claimed_key(1) [OF q c [unfolded claim]]
    obtain g p1 where g: "pp_getOcrJob P (clm_job_id claim) p0 = (g, p1)" by fastforce
    note get = s.get_law [OF p g]
    have r2: "ready q1 p1" using r1 get by (simp add: ready_def)
    have s2: "safe q1 p0 q1 p1" using r2 get by (intro safe_keep) auto
    have keep: "safe q1 p1 q1 p1" using r2 by (intro safe_keep) auto
    have "safe q1 p1 q' p'"
    proof (cases "\<exists>record. g = Inr (Some record)")
      case False
      with assms(2) c claim g have "q' = q1 \<and> p' = p1 \<or>
          tryRequeueAs B claim OutPersistenceFailed (''no persisted job record for job_id='' @ clm_job_id claim) q1 p1 = (res, q', p')"
        by (auto simp: processOneOcrQueueClaim_unfold split: sum.splits option.splits)
      then show ?thesis using keep requeue_as_safe [OF r2] by blast
    next
      case True
      then obtain rcd where rec: "g = Inr (Some rcd)" by blast
      have fin: "jv_terminal_state rcd = last_to None (tml p1 (clm_job_id claim))"
        and obx: "jv_pending_retry_submission rcd = ob p1 (clm_job_id claim)"
        using get rec by auto
      note run = assms(2) [unfolded processOneOcrQueueClaim_unfold c claim, simplified, unfolded g rec, simplified]
      show ?thesis
      proof (cases "terminal_timeline (tml p1 (clm_job_id claim))")
        case True
        then have "\<exists>s. jv_terminal_state rcd = Some s \<and> isTerminalState s"
          by (simp add: terminal_timeline_def fin)
        with run show ?thesis by (auto intro: already_terminal_safe [OF r2 _ _ True] split: if_splits)
      next
        case False
        then have nt: "\<not> (\<exists>s. jv_terminal_state rcd = Some s \<and> isTerminalState s)"
          by (simp add: terminal_timeline_def fin)
        obtain a p2 where a: "pp_appendOcrStatusOnce P (clm_job_id claim) (claimedEdge (ti_claimedAt ti)) p1 = (a, p2)"
          by fastforce
        note st = ready_append [OF r2 a]
        have "safe q1 p2 q' p'"
        proof (cases a)
          case (Inl e)
          with run nt a show ?thesis by (auto intro: requeue_as_safe [OF conjunct1 [OF st]])
        next
          case (Inr u)
          have "runWorkerTurn V worker B P claim (jv_pending_retry_submission rcd) ti q1 p2 = (res, q', p')"
            using run nt a Inr by simp
          then show ?thesis
            using runWorkerTurn_safe [OF conjunct1 [OF st]] key obx r2
            by (auto simp: ready_def outbox_ok_def)
        qed
        with st show ?thesis using safe_trans by blast
      qed
    qed
    with s1 s2 show ?thesis using safe_trans by blast
  qed
qed

subsection \<open>What the outcomes mean\<close>

lemma ack_outcome_ne [simp]:
  "mapQueueErrorToAckOutcome code \<noteq> OutRetried" "mapQueueErrorToAckOutcome code \<noteq> OutCompleted"
  "mapQueueErrorToAckOutcome code \<noteq> OutDeadLettered" "mapQueueErrorToAckOutcome code \<noteq> OutRequeued"
  "mapQueueErrorToAckOutcome code \<noteq> OutCompletedAlreadyTerminal"
  by (simp_all add: mapQueueErrorToAckOutcome_def)

lemma requeue_as_outcome:
  assumes "tryRequeueAs B claim oc m q p = (Inr res, q', p')"
  shows "cr_outcome res \<in> {oc, OutLeaseLost, OutAckFailed}"
  using assms
  by (auto simp: tryRequeueAs_def mapQueueErrorToAckOutcome_def split: prod.splits sum.splits exn.splits if_splits)

lemma finishRetry_retried:
  assumes "ready q p" and "finishRetry B P claim reason sub ti s r q p = (Inr res, q', p')"
    and "cr_outcome res = OutRetried" and key: "js_key (jget sub ''job_id'') = clm_job_id claim"
  shows "cr_job_id res = Some (clm_job_id claim) \<and> rs p' = rs p \<and>
    (\<exists>job'. pend q' (clm_job_id claim) = Some job' \<and> job_submission job' = bumpAttempt sub)"
proof -
  let ?i = "clm_job_id claim" and ?next = "bumpAttempt sub"
  let ?t = "\<lparr>tr_from = Failed, tr_to = Queued, tr_by = ByQueue, tr_at = ti_failedAt ti, tr_note = Some reason\<rparr>"
  let ?job = "\<lparr>job_tid = ti_jobId ti, job_submission = ?next, job_enqueued_at = ti_enqueuedAt ti, job_scenario = None\<rparr>"
  have jk: "job_key ?job = ?i" using key by (simp add: job_key_js_key bumpAttempt_key)
  obtain a p1 where a: "pp_appendOcrStatusOnce P ?i ?t p = (a, p1)" by fastforce
  obtain b p2 where b: "pp_setOcrPendingRetry P ?i ?next p1 = (b, p2)" by fastforce
  obtain c q1 where c: "qb_completeClaim B claim q = (c, q1)" by fastforce
  obtain d q2 where d: "qb_enqueue B ?job q1 = (d, q2)" by fastforce
  obtain u v x er where inr: "a = Inr u" "b = Inr v" "c = Inr x" "d = Inr er" and q': "q' = q2"
    and p': "p' = snd (pp_clearOcrPendingRetry P ?i p2)" and id: "cr_job_id res = Some ?i"
    using assms(2,3) a b c d
    by (auto simp: finishRetry_def Let_def split: sum.splits exn.splits)
  have q: "qinv q" and p: "pinv p" using assms(1) by (auto simp: ready_def)
  have p1: "pinv p1" "rs p1 = rs p" using s.append_facts [OF p a] by auto
  have p2: "pinv p2" "rs p2 = rs p" using s.set_law [OF p1(1) b] p1 by auto
  have "pend q1 ?i = None" and q1: "qinv q1" using q.complete_law [OF q c] inr by auto
  then have "pend q2 ?i = Some ?job"
    using q.enqueue_law [OF q1 d] inr jk by (auto split: if_splits)
  then show ?thesis using q' p' id s.clear_snd(3) [OF p2(1)] p2(2) by simp
qed

lemma finish_others_outcome:
  "finishCompleted B P claim hp s r q p = (Inr res, q', p') \<Longrightarrow> cr_outcome res \<noteq> OutRetried"
  "finishDeadLetter B P claim reason ti s r q p = (Inr res, q', p') \<Longrightarrow> cr_outcome res \<noteq> OutRetried"
  by (auto simp: finishCompleted_def finishDeadLetter_def split: prod.splits sum.splits exn.splits)

lemma persistAndFinish_retried:
  assumes "ready q p" and "persistAndFinish B P claim hp choice sub ti ts rl n q p = (Inr res, q', p')"
    and "cr_outcome res = OutRetried" and key: "js_key (jget sub ''job_id'') = clm_job_id claim"
  shows "cr_job_id res = Some (clm_job_id claim) \<and> rs p' = rs p \<and>
    (\<exists>job'. pend q' (clm_job_id claim) = Some job' \<and> job_submission job' = bumpAttempt sub) \<and>
    (\<exists>reason. choice = Some (ChooseRetry reason))"
proof -
  obtain e m p1 where a: "appendAll P (clm_job_id claim) ts n p = (e, m, p1)" by (metis prod_cases3)
  have q: "qinv q" and p: "pinv p" and o: "outbox_ok (ob p)" using assms(1) by (auto simp: ready_def)
  note app = s.appendAll_law [OF p a]
  have r1: "ready q p1" using app q o by (simp add: ready_def)
  have e: "e = None" using assms(2,3) a by (cases e) (auto simp: persistAndFinish_def)
  note run = assms(2) [unfolded persistAndFinish_def a e, simplified]
  show ?thesis
  proof (cases "\<exists>reason. choice = Some (ChooseRetry reason)")
    case True
    then obtain reason where ch: "choice = Some (ChooseRetry reason)" by blast
    with run have "finishRetry B P claim reason sub ti m 0 q p1 = (Inr res, q', p')" by simp
    from finishRetry_retried [OF r1 this assms(3) key] app ch show ?thesis by simp
  next
    case False
    obtain e2 m2 p2 where w2: "saveAll P (clm_job_id claim) rl 0 p1 = (e2, m2, p2)" by (metis prod_cases3)
    have "choice = None \<or> (\<exists>reason. choice = Some (ChooseDeadLetter reason))"
      using False by (metis RetryChoice.exhaust not_None_eq)
    then have False
      using run w2 assms(3) finish_others_outcome by (cases e2) auto
    then show ?thesis ..
  qed
qed

text \<open>A turn that reports \<open>retried\<close> left the next attempt in the queue and wrote no results.\<close>

lemma runWorkerTurn_retried:
  assumes "ready q p" and "runWorkerTurn V worker B P claim pendingSub ti q p = (Inr res, q', p')"
    and oc: "cr_outcome res = OutRetried" and k1: "job_key (clm_job claim) = clm_job_id claim"
    and k2: "\<And>sub. pendingSub = Some sub \<Longrightarrow> js_key (jget sub ''job_id'') = clm_job_id claim"
    and sub: "sub = (case pendingSub of Some s \<Rightarrow> s | None \<Rightarrow> job_submission (clm_job claim))"
  shows "cr_job_id res = Some (clm_job_id claim) \<and> rs p' = rs p \<and>
    (\<exists>job'. pend q' (clm_job_id claim) = Some job' \<and> job_submission job' = bumpAttempt sub) \<and>
    (\<exists>a m. jget (jget sub ''retry'') ''attempt'' = JInt a \<and> jget (jget sub ''retry'') ''max_attempts'' = JInt m \<and> 1 \<le> a \<and> a < m)"
proof -
  define job where "job = (case pendingSub of Some sub \<Rightarrow> (clm_job claim)\<lparr>job_submission := sub\<rparr> | None \<Rightarrow> clm_job claim)"
  have js: "job_submission job = sub" by (simp add: job_def sub split: option.splits)
  have key: "js_key (jget sub ''job_id'') = clm_job_id claim"
    using k1 k2 by (auto simp: sub job_key_js_key split: option.splits)
  note run = assms(2) [unfolded runWorkerTurn_def, folded job_def, unfolded Let_def js]
  have ne: "cr_outcome res \<noteq> OutRetried" if "tryRequeueAs B claim OutRequeued m q p = (Inr res, q', p')" for m
    using requeue_as_outcome [OF that] by auto
  obtain out where w: "worker job = Inr out" using run ne oc by (cases "worker job") auto
  note run1 = run [unfolded w, simplified]
  obtain u where v: "validateWorkerOutcomeContract V out job = Inr (Inr u)"
    using run1 ne oc by (cases "validateWorkerOutcomeContract V out job") (auto split: sum.splits)
  note run2 = run1 [unfolded v, simplified]
  obtain ws where n: "normalizeForStep10C (oc_statuses out) = Inr ws"
    using run2 ne oc by (cases "normalizeForStep10C (oc_statuses out)") auto
  note run3 = run2 [unfolded n, simplified]
  obtain choice where pf: "persistAndFinish B P claim (pendingSub \<noteq> None) choice sub ti ws (oc_results out) 1 q p = (Inr res, q', p')"
    and dec: "choice \<noteq> None \<Longrightarrow> decideRetry V sub (oc_results out) = Inr choice"
  proof (cases "tr_to (last ws) = Failed")
    case False
    with run3 that [of None] show ?thesis by simp
  next
    case True
    with run3 ne oc have "\<exists>r\<in>set (oc_results out). jget r ''status'' = JStr ''failed''"
      by (auto split: if_splits)
    with True run3 oc that show ?thesis
      by (cases "decideRetry V sub (oc_results out)") auto
  qed
  note ret = persistAndFinish_retried [OF assms(1) pf oc key]
  then obtain reason where "choice = Some (ChooseRetry reason)" by blast
  with dec have "classifyResults (jget sub ''retry'') (oc_results out) None = Inr (Some (ChooseRetry reason))"
    by (auto simp: decideRetry_def split: option.splits)
  then have "\<exists>r n. classify_result (jget sub ''retry'') r = Inr (Retry n reason)"
    using classifyResults_Retry by blast
  then have "\<exists>a m. jget (jget sub ''retry'') ''attempt'' = JInt a \<and>
      jget (jget sub ''retry'') ''max_attempts'' = JInt m \<and> 1 \<le> a \<and> a < m"
    by (auto simp: classify_Retry_iff)
  with ret show ?thesis by simp
qed

lemma turn_retried:
  assumes "ready q0 p0" and "processOneOcrQueueClaim V worker B P w ti q0 p0 = (Inr res, q', p')"
    and oc: "cr_outcome res = OutRetried"
  shows "\<exists>i job sub job'. cr_job_id res = Some i \<and> pend q0 i = Some job \<and>
    sub = (case ob p0 i of Some s \<Rightarrow> s | None \<Rightarrow> job_submission job) \<and>
    pend q' i = Some job' \<and> job_submission job' = bumpAttempt sub \<and> rs p' = rs p0 \<and>
    (\<exists>a m. jget (jget sub ''retry'') ''attempt'' = JInt a \<and>
           jget (jget sub ''retry'') ''max_attempts'' = JInt m \<and> 1 \<le> a \<and> a < m)"
proof -
  have q: "qinv q0" and p: "pinv p0" and o: "outbox_ok (ob p0)" using assms(1) by (auto simp: ready_def)
  obtain c q1 where c: "qb_claimNext B w q0 = (c, q1)" by fastforce
  obtain claim where claim: "c = Inr (Some claim)"
    using assms(2) c oc by (auto simp: processOneOcrQueueClaim_unfold split: sum.splits option.splits)
  note key = claimed_key [OF q c [unfolded claim]]
  obtain g p1 where g: "pp_getOcrJob P (clm_job_id claim) p0 = (g, p1)" by fastforce
  note get = s.get_law [OF p g]
  have r1: "ready q1 p1" using q.claim_law [OF q c] get o by (simp add: ready_def)
  note run0 = assms(2) [unfolded processOneOcrQueueClaim_unfold c claim, simplified, unfolded g]
  obtain rcd where rec: "g = Inr (Some rcd)"
    using run0 oc by (auto split: sum.splits option.splits dest!: requeue_as_outcome)
  note run = run0 [unfolded rec, simplified]
  have obx: "jv_pending_retry_submission rcd = ob p0 (clm_job_id claim)" using get rec by auto
  have nt: "\<not> (\<exists>s. jv_terminal_state rcd = Some s \<and> isTerminalState s)"
    using run oc by (auto simp: tryCompleteAlreadyTerminal_def split: prod.splits sum.splits exn.splits if_splits)
  obtain a p2 where a: "pp_appendOcrStatusOnce P (clm_job_id claim) (claimedEdge (ti_claimedAt ti)) p1 = (a, p2)"
    by fastforce
  note st = ready_append [OF r1 a]
  have p2: "rs p2 = rs p0" using s.append_facts(3) [OF _ a] get r1 by (simp add: ready_def)
  obtain u where "a = Inr u" using run nt a oc by (cases a) (auto dest!: requeue_as_outcome)
  then have w: "runWorkerTurn V worker B P claim (ob p0 (clm_job_id claim)) ti q1 p2 = (Inr res, q', p')"
    using run nt a obx by simp
  show ?thesis
    using runWorkerTurn_retried [OF conjunct1 [OF st] w oc key(1) _ refl] key(2) o p2
    by (fastforce simp: outbox_ok_def)
qed

text \<open>On a job whose timeline is terminal the turn is the acknowledgement of its claim; the worker is not run.\<close>

lemma terminal_redelivery:
  assumes "ready q0 p0" and c: "qb_claimNext B w q0 = (Inr (Some claim), q1)"
    and "terminal_timeline (tml p0 (clm_job_id claim))"
    and "\<exists>v. fst (pp_getOcrJob P (clm_job_id claim) p0) = Inr (Some v)"
    and "processOneOcrQueueClaim V worker B P w ti q0 p0 = (res, q', p')"
  shows "processOneOcrQueueClaim V' worker' B P w ti' q0 p0 = (res, q', p') \<and>
    tml p' = tml p0 \<and> rs p' = rs p0 \<and> tryCompleteAlreadyTerminal B claim q1 p' = (res, q', p')"
proof -
  have p: "pinv p0" using assms(1) by (simp add: ready_def)
  obtain g p1 where g: "pp_getOcrJob P (clm_job_id claim) p0 = (g, p1)" by fastforce
  with assms(4) obtain v where v: "g = Inr (Some v)" by auto
  note get = s.get_law [OF p g]
  have fin: "\<exists>s. jv_terminal_state v = Some s \<and> isTerminalState s"
    using assms(3) get v by (auto simp: terminal_timeline_def)
  define p2 where "p2 = (if jv_pending_retry_submission v \<noteq> None
      then snd (pp_clearOcrPendingRetry P (clm_job_id claim) p1) else p1)"
  have run: "processOneOcrQueueClaim V' worker' B P w ti' q0 p0 = tryCompleteAlreadyTerminal B claim q1 p2"
    for V' worker' ti'
    by (simp add: processOneOcrQueueClaim_unfold c g v fin p2_def)
  have p2: "tml p2 = tml p0 \<and> rs p2 = rs p0" using get s.clear_snd [of p1] by (auto simp: p2_def)
  have ack: "tryCompleteAlreadyTerminal B claim q1 p2 = (res, q', p')" using assms(5) run by simp
  then have "p' = p2" by (auto simp: tryCompleteAlreadyTerminal_def split: prod.splits sum.splits exn.splits)
  with p2 run ack show ?thesis by simp
qed

text \<open>A job whose timeline already left \<open>queued\<close>, as after a worker that threw: with a clock
  reading that the timeline does not hold, the claim edge is illegal, the turn stops there, the
  worker is not run and the job goes back to the queue unchanged.\<close>

lemma redelivery_blocked:
  assumes "ready q0 p0" and c: "qb_claimNext B w q0 = (Inr (Some claim), q1)"
    and last: "last_to None (tml p0 (clm_job_id claim)) = Some s" "s \<noteq> Queued" "\<not> isTerminalState s"
    and new: "claimedEdge (ti_claimedAt ti) \<notin> set (tml p0 (clm_job_id claim))"
    and known: "\<exists>v. fst (pp_getOcrJob P (clm_job_id claim) p0) = Inr (Some v)"
    and run: "processOneOcrQueueClaim V worker B P w ti q0 p0 = (Inr res, q', p')"
  shows "processOneOcrQueueClaim V' worker' B P w ti q0 p0 = (Inr res, q', p') \<and>
    tml p' = tml p0 \<and> rs p' = rs p0 \<and> pend q' = pend q0 \<and>
    cr_outcome res \<in> {OutPersistenceFailed, OutLeaseLost, OutAckFailed}"
proof -
  let ?i = "clm_job_id claim" and ?t = "claimedEdge (ti_claimedAt ti)"
  have p: "pinv p0" and q: "qinv q0" using assms(1) by (auto simp: ready_def)
  obtain g p1 where g: "pp_getOcrJob P ?i p0 = (g, p1)" by fastforce
  with known obtain v where v: "g = Inr (Some v)" by auto
  note get = s.get_law [OF p g]
  have nt: "\<not> (\<exists>s. jv_terminal_state v = Some s \<and> isTerminalState s)" using last get v by auto
  obtain a p2 where a: "pp_appendOcrStatusOnce P ?i ?t p1 = (a, p2)" by fastforce
  have ne: "tml p0 ?i \<noteq> []" using last(1) by auto
  then have "tr_to (last (tml p0 ?i)) = s" using last(1) by (simp add: last_to_snoc)
  then have "\<not> valid_timeline (tml p1 ?i @ [?t])"
    using ne last(2) get by (auto simp: valid_timeline_def valid_sequence_snoc claimedEdge_def)
  then obtain e where e: "a = Inl e" using s.append_refused [OF _ a] new get by auto
  have p2: "tml p2 = tml p0 \<and> rs p2 = rs p0" using s.append_law [OF _ a] e get by auto
  define m where "m = ''appendOcrStatusOnce(queued->claimed) failed: '' @ errorMessage e"
  have go: "processOneOcrQueueClaim V' worker' B P w ti q0 p0 = tryRequeueAs B claim OutPersistenceFailed m q1 p2"
    for V' worker'
    by (simp add: processOneOcrQueueClaim_unfold c g v nt a e m_def)
  have rq: "tryRequeueAs B claim OutPersistenceFailed m q1 p2 = (Inr res, q', p')" using run go by simp
  have "qinv q1 \<and> pend q1 = pend q0" using q.claim_law [OF q c] by simp
  with requeue_as [OF _ rq] requeue_as_outcome [OF rq] p2 go rq show ?thesis by auto
qed

end

subsection \<open>The in-memory store as the persistence layer\<close>

text \<open>The store with its injected clock, read in sequence; an \<open>OcrPersistenceError\<close> is an
  error that is not an \<open>OcrQueueError\<close>.\<close>

record StoreEnv =
  st_store :: InMemoryOcrPersistence
  st_now :: "nat \<Rightarrow> string"
  st_ticks :: nat

definition on_store ::
  "(string \<Rightarrow> InMemoryOcrPersistence \<Rightarrow> (string + 'a) \<times> InMemoryOcrPersistence) \<Rightarrow> StoreEnv \<Rightarrow> (exn + unit) \<times> StoreEnv" where
  "on_store f m =
     (let (r, p) = f (st_now m (st_ticks m)) (st_store m)
      in (case r of Inl e \<Rightarrow> Inl (OtherError e) | Inr _ \<Rightarrow> Inr (),
          m\<lparr>st_store := p, st_ticks := Suc (st_ticks m)\<rparr>))"

definition memoryStore :: "Validators \<Rightarrow> StoreEnv PersistencePort" where
  "memoryStore V =
     \<lparr>pp_getOcrJob = (\<lambda>i m. (Inr (map_option (\<lambda>j. \<lparr>jv_terminal_state = jr_terminal_state j,
          jv_pending_retry_submission = jr_pending_retry_submission j\<rparr>) (getOcrJob i (st_store m))), m)),
      pp_appendOcrStatusOnce = (\<lambda>i t. on_store (appendOcrStatusOnce V i t)),
      pp_saveOcrResultOnce = (\<lambda>i r. on_store (saveOcrResultOnce V i r)),
      pp_setOcrPendingRetry = (\<lambda>i s. on_store (\<lambda>_. setOcrPendingRetry V i s)),
      pp_clearOcrPendingRetry = (\<lambda>i. on_store (\<lambda>_. clearOcrPendingRetry i))\<rparr>"

definition ms_inv :: "Validators \<Rightarrow> StoreEnv \<Rightarrow> bool" where
  "ms_inv V m \<longleftrightarrow> store_inv V (st_store m)"

definition ms_timeline :: "StoreEnv \<Rightarrow> string \<Rightarrow> TransitionRecord list" where
  "ms_timeline m i = payloads (events_of (st_store m) i)"

definition ms_outbox :: "StoreEnv \<Rightarrow> string \<Rightarrow> jval option" where
  "ms_outbox m i = Option.bind (mget (p_jobs (st_store m)) i) jr_pending_retry_submission"

definition ms_results :: "StoreEnv \<Rightarrow> string \<Rightarrow> jval list" where
  "ms_results m i = map rr_result (results_of (st_store m) i)"

lemma on_store_run:
  assumes "on_store f m = (a, m')"
  obtains r where "f (st_now m (st_ticks m)) (st_store m) = (r, st_store m')"
    and "a = (case r of Inl e \<Rightarrow> Inl (OtherError e) | Inr _ \<Rightarrow> Inr ())"
  using assms by (auto simp: on_store_def split: prod.splits)

lemma unknown_job_empty:
  assumes "store_inv V p" and "mget (p_jobs p) i = None"
  shows "events_of p i = []" and "results_of p i = []"
proof -
  have "i \<notin> set (mkeys (p_statuses p))" "i \<notin> set (mkeys (p_results p))"
    using assms by (simp_all add: store_inv_def mget_None_iff)
  then have "mget (p_statuses p) i = None" "mget (p_results p) i = None"
    by (simp_all only: mget_None_iff not_False_eq_True)
  then show "events_of p i = []" "results_of p i = []" by simp_all
qed

text \<open>What a write to one job shows of it.\<close>

lemma with_job_views:
  assumes "with_job i job es rl (st_store m) (st_store m')"
  shows "ms_timeline m' = (ms_timeline m)(i := payloads es)"
    and "ms_outbox m' = (ms_outbox m)(i := jr_pending_retry_submission job)"
    and "ms_results m' = (ms_results m)(i := map rr_result rl)"
  using assms unfolding with_job_def ms_timeline_def ms_outbox_def ms_results_def
  by (auto simp: fun_eq_iff)

lemma same_store_views:
  assumes "st_store m' = st_store m"
  shows "ms_timeline m' = ms_timeline m" "ms_outbox m' = ms_outbox m" "ms_results m' = ms_results m"
  using assms by (simp_all add: fun_eq_iff ms_timeline_def ms_outbox_def ms_results_def)

lemma upd_same_views:
  "(ms_timeline m)(i := payloads (events_of (st_store m) i)) = ms_timeline m"
  "(ms_results m)(i := map rr_result (results_of (st_store m) i)) = ms_results m"
  by (simp_all add: ms_timeline_def ms_results_def fun_eq_iff)

lemma job_outbox:
  assumes "mget (p_jobs (st_store m)) i = Some job"
  shows "ms_outbox m i = jr_pending_retry_submission job"
    and "(ms_outbox m)(i := jr_pending_retry_submission job) = ms_outbox m"
  using assms by (simp_all add: ms_outbox_def fun_eq_iff)

interpretation ms: ocr_persistence_port "memoryStore V" "ms_inv V" ms_timeline ms_outbox ms_results
  for V
proof (unfold_locales, goal_cases)
  case (1 m i g m')
  have m': "m' = m" using 1(2) by (simp add: memoryStore_def)
  show ?case
  proof (cases "mget (p_jobs (st_store m)) i")
    case None
    with 1 m' show ?thesis by (auto simp: memoryStore_def getOcrJob_def)
  next
    case (Some job)
    then have "jr_terminal_state job = last_to None (ms_timeline m i)"
      using store_invD [of V "st_store m" i job] 1(1) by (simp add: ms_inv_def job_ok_def ms_timeline_def)
    moreover have "g = Inr (Some \<lparr>jv_terminal_state = jr_terminal_state job,
        jv_pending_retry_submission = jr_pending_retry_submission job\<rparr>)"
      using Some 1(2) by (simp add: memoryStore_def getOcrJob_def)
    ultimately show ?thesis using 1(1) m' job_outbox(1) [OF Some] by simp
  qed
next
  case (2 m i t a m')
  have inv: "store_inv V (st_store m)" using 2(1) by (simp add: ms_inv_def)
  from 2(2) have "on_store (appendOcrStatusOnce V i t) m = (a, m')" by (simp add: memoryStore_def)
  then obtain r where run: "appendOcrStatusOnce V i t (st_now m (st_ticks m)) (st_store m) = (r, st_store m')"
    and a: "a = (case r of Inl e \<Rightarrow> Inl (OtherError e) | Inr _ \<Rightarrow> Inr ())" by (rule on_store_run)
  show ?case
  proof (cases r)
    case (Inl e)
    with appendOcrStatusOnce_spec [OF inv run] have eq: "st_store m' = st_store m" by simp
    with Inl a inv show ?thesis by (simp add: ms_inv_def same_store_views [OF eq])
  next
    case (Inr e)
    note spec = appendOcrStatusOnce_spec [OF inv run, unfolded Inr, simplified]
    show ?thesis
    proof (cases "t \<in> set (ms_timeline m i)")
      case True
      then have eq: "st_store m' = st_store m" using spec by (auto simp: ms_timeline_def)
      with True inv a Inr show ?thesis by (simp add: ms_inv_def same_store_views [OF eq])
    next
      case False
      have "t \<in> set (ms_timeline m' i)" using spec by (auto simp: ms_timeline_def)
      with False have "st_store m' \<noteq> st_store m" by (metis same_store_views(1))
      then obtain job where job: "mget (p_jobs (st_store m)) i = Some job"
        and w: "with_job i (job\<lparr>jr_terminal_state := Some (tr_to t)\<rparr>) (events_of (st_store m) i @ [e])
           (results_of (st_store m) i) (st_store m) (st_store m')" using spec by blast
      have strip: "payloads (events_of (st_store m) i @ [e]) = ms_timeline m i @ [t]"
        using spec by (simp add: ms_timeline_def)
      show ?thesis
        using with_job_views [OF w, unfolded strip upd_same_views] conjunct1 [OF spec] a Inr False
          job_outbox [OF job]
        by (simp add: ms_inv_def)
    qed
  qed
next
  case (3 m i r a m')
  have inv: "store_inv V (st_store m)" using 3(1) by (simp add: ms_inv_def)
  from 3(2) have "on_store (saveOcrResultOnce V i r) m = (a, m')" by (simp add: memoryStore_def)
  then obtain x where run: "saveOcrResultOnce V i r (st_now m (st_ticks m)) (st_store m) = (x, st_store m')"
    by (rule on_store_run)
  note spec = saveOcrResultOnce_spec [OF inv run]
  show ?case
  proof (cases "st_store m' = st_store m")
    case True
    with inv show ?thesis by (simp add: ms_inv_def same_store_views [OF True])
  next
    case False
    with spec obtain rec job where job: "mget (p_jobs (st_store m)) i = Some job"
      and w: "with_job i job (events_of (st_store m) i) (results_of (st_store m) i @ [rec]) (st_store m) (st_store m')"
      by (auto split: sum.splits)
    show ?thesis
      using with_job_views [OF w, unfolded upd_same_views] job_outbox [OF job] conjunct1 [OF spec]
      by (simp add: ms_inv_def)
  qed
next
  case (4 m i s a m')
  have inv: "store_inv V (st_store m)" using 4(1) by (simp add: ms_inv_def)
  from 4(2) have "on_store (\<lambda>_. setOcrPendingRetry V i s) m = (a, m')" by (simp add: memoryStore_def)
  then obtain x where run: "setOcrPendingRetry V i s (st_store m) = (x, st_store m')"
    and a: "a = (case x of Inl e \<Rightarrow> Inl (OtherError e) | Inr _ \<Rightarrow> Inr ())" by (rule on_store_run)
  note spec = setOcrPendingRetry_spec [OF inv run]
  show ?case
  proof (cases x)
    case (Inl e)
    with spec have eq: "st_store m' = st_store m" by simp
    with Inl a inv show ?thesis by (simp add: ms_inv_def same_store_views [OF eq])
  next
    case (Inr u)
    with spec obtain job y where job: "mget (p_jobs (st_store m)) i = Some job"
      and y: "y = s \<or> jr_pending_retry_submission job = Some y"
      and w: "with_job i (job\<lparr>jr_pending_retry_submission := Some y\<rparr>) (events_of (st_store m) i)
         (results_of (st_store m) i) (st_store m) (st_store m')" by auto
    have "\<exists>x. (x = s \<or> ms_outbox m i = Some x) \<and> ms_outbox m' = (ms_outbox m)(i \<mapsto> x)"
      using with_job_views(2) [OF w] y job_outbox(1) [OF job] by (intro exI [of _ y]) simp
    then show ?thesis
      using with_job_views [OF w, unfolded upd_same_views] conjunct1 [OF spec] a Inr by (simp add: ms_inv_def)
  qed
next
  case (5 m i a m')
  have inv: "store_inv V (st_store m)" using 5(1) by (simp add: ms_inv_def)
  from 5(2) have "on_store (\<lambda>_. clearOcrPendingRetry i) m = (a, m')" by (simp add: memoryStore_def)
  then obtain x where run: "clearOcrPendingRetry i (st_store m) = (x, st_store m')"
    and a: "a = (case x of Inl e \<Rightarrow> Inl (OtherError e) | Inr _ \<Rightarrow> Inr ())" by (rule on_store_run)
  note spec = clearOcrPendingRetry_spec [OF inv run]
  show ?case
  proof (cases x)
    case (Inl e)
    with spec have eq: "st_store m' = st_store m" by simp
    with Inl a inv show ?thesis by (simp add: ms_inv_def same_store_views [OF eq])
  next
    case (Inr u)
    with spec obtain job where job: "mget (p_jobs (st_store m)) i = Some job"
      and w: "with_job i (job\<lparr>jr_pending_retry_submission := None\<rparr>) (events_of (st_store m) i)
         (results_of (st_store m) i) (st_store m) (st_store m')" by auto
    show ?thesis
      using with_job_views [OF w, unfolded upd_same_views] conjunct1 [OF spec] a Inr by (simp add: ms_inv_def)
  qed
next
  case (6 m i)
  have inv: "store_inv V (st_store m)" using 6 by (simp add: ms_inv_def)
  show ?case
  proof (cases "mget (p_jobs (st_store m)) i")
    case None
    with unknown_job_empty [OF inv] show ?thesis by (simp add: ms_timeline_def valid_timeline_def)
  next
    case (Some job)
    from store_invD [OF inv Some] show ?thesis
      by (auto simp: job_ok_def timeline_ok_def ms_timeline_def valid_timeline_def)
  qed
qed

interpretation turn: ocr_coordinator memoryBackend mb_inv mb_pending
  "memoryStore V" "ms_inv V" ms_timeline ms_outbox ms_results for V
  by unfold_locales

end
