(* ===== verification/OcrIngest.thy ===== *)
theory OcrIngest
  imports OcrTurn
begin

text \<open>
  The producing side: services/ocr-ingestion/src (createSubmission.ts builds a contract-valid
  submission from a domain request, ingest.ts persists and enqueues it) and the job adapter
  services/ocr-worker/src/adapter.ts, with the registry's dependency guard. Domain requests are \<open>jval\<close> values of the declared
  types; clock readings and generated ids are arguments. The arrow of a message is spelled
  \<open>->\<close> and the section sign is dropped.
\<close>

subsection \<open>Building a submission\<close>

text \<open>\<open>IngestionError\<close> with its optional code.\<close>

record IngestionError =
  ie_message :: string
  ie_code :: "string option"

abbreviation ingestion_error :: "string \<Rightarrow> IngestionError" where
  "ingestion_error m \<equiv> \<lparr>ie_message = m, ie_code = None\<rparr>"

definition MULTI_PAGE_UNSUPPORTED :: string where
  "MULTI_PAGE_UNSUPPORTED = ''multi_page_unsupported''"

definition MAX_V1_PAGES_PER_SUBMISSION :: nat where
  "MAX_V1_PAGES_PER_SUBMISSION = 1"

definition DEFAULT_CONTRACT_VERSION :: string where
  "DEFAULT_CONTRACT_VERSION = ''1.0.0''"

definition DEFAULT_OCR_LANGUAGES :: jval where
  "DEFAULT_OCR_LANGUAGES = JArr [JStr ''zh-Hans'', JStr ''en'']"

definition DEFAULT_OCR_OPTIONS :: "(string \<times> jval) list" where
  "DEFAULT_OCR_OPTIONS =
     [(''languages'', DEFAULT_OCR_LANGUAGES), (''detect_orientation'', JBool True),
      (''detect_vertical_text'', JBool True), (''table_recognition'', JStr ''auto''),
      (''seal_recognition'', JBool True), (''return_word_confidence'', JBool True),
      (''return_polygon'', JBool True), (''min_confidence_emit'', JFrac ''0.3'')]"

definition DEFAULT_PREPROCESSING :: jval where
  "DEFAULT_PREPROCESSING = JObj
     [(''deskew'', JStr ''auto''), (''denoise'', JStr ''auto''), (''binarize'', JBool False),
      (''remove_seal_bleed'', JBool False), (''upscale_low_dpi'', JBool True),
      (''target_dpi_floor'', JInt 200), (''crop_borders'', JStr ''auto'')]"

definition DEFAULT_RETRY :: jval where
  "DEFAULT_RETRY = JObj
     [(''max_attempts'', JInt 3), (''backoff'', JStr ''exponential''), (''base_delay_ms'', JInt 2000),
      (''max_delay_ms'', JInt 60000), (''attempt'', JInt 1)]"

definition requireNonEmptyString :: "jval \<Rightarrow> string \<Rightarrow> IngestionError + unit" where
  "requireNonEmptyString value name =
     (case value of
        JStr s \<Rightarrow> requireR (s \<noteq> []) (ingestion_error (name @ '' is required''))
      | _ \<Rightarrow> Inl (ingestion_error (name @ '' is required'')))"

fun checkPages :: "nat \<Rightarrow> jval list \<Rightarrow> IngestionError + unit" where
  "checkPages i [] = Inr ()"
| "checkPages i (p # ps) =
     bindR (requireNonEmptyString (jget p ''page_id'') (''pages['' @ show_nat i @ ''].page_id'')) (\<lambda>_.
     bindR (requireR (positive_integer (jget p ''page_number''))
              (ingestion_error (''pages['' @ show_nat i @ ''].page_number must be an integer >= 1''))) (\<lambda>_.
     bindR (requireR (is_object (jget p ''source''))
              (ingestion_error (''pages['' @ show_nat i @ ''].source is required''))) (\<lambda>_.
     checkPages (Suc i) ps)))"

text \<open>The fields of an object, and \<open>{...base, ...extra}\<close>.\<close>

fun jfields :: "jval \<Rightarrow> (string \<times> jval) list" where
  "jfields (JObj kvs) = kvs"
| "jfields _ = []"

definition spread :: "(string \<times> jval) list \<Rightarrow> (string \<times> jval) list \<Rightarrow> (string \<times> jval) list" where
  "spread base extra = foldl (\<lambda>m kv. mset_kv (fst kv) (snd kv) m) base extra"

record IngestionEnvironment =
  ev_jobId :: string
  ev_now :: string
  ev_contractVersion :: "string option"

definition ocrOptions :: "jval \<Rightarrow> jval" where
  "ocrOptions opts = JObj
     (spread (spread DEFAULT_OCR_OPTIONS (if truthy opts then jfields opts else []))
        [(''languages'', if jget opts ''languages'' \<noteq> JUndef then JArr (jelems (jget opts ''languages''))
                        else DEFAULT_OCR_LANGUAGES)])"

definition pageRef :: "jval \<Rightarrow> jval" where
  "pageRef p = JObj [(''page_id'', jget p ''page_id''), (''page_number'', jget p ''page_number''),
                     (''source'', jget p ''source'')]"

definition given_or :: "jval \<Rightarrow> jval \<Rightarrow> jval" where
  "given_or v d = (if truthy v then v else d)"

definition submissionFields :: "jval \<Rightarrow> IngestionEnvironment \<Rightarrow> (string \<times> jval) list" where
  "submissionFields input env =
     [(''contract_version'', JStr (case ev_contractVersion env of Some v \<Rightarrow> v | None \<Rightarrow> DEFAULT_CONTRACT_VERSION)),
      (''job_id'', JStr (ev_jobId env)),
      (''tenant_id'', jget input ''tenant_id''),
      (''document_id'', jget input ''document_id''),
      (''document_revision'', or_default (jget input ''document_revision'') (JInt 1)),
      (''submitted_at'', JStr (ev_now env)),
      (''submitted_by'', jget input ''submitted_by''),
      (''pages'', JArr (map pageRef (jelems (jget input ''pages'')))),
      (''rerun'', JObj [(''is_rerun'', JBool False), (''previous_job_id'', JNull), (''page_ids'', JNull)]),
      (''ocr_options'', ocrOptions (jget input ''ocr_options'')),
      (''preprocessing'', given_or (jget input ''preprocessing'') DEFAULT_PREPROCESSING),
      (''priority'', or_default (jget input ''priority'') (JInt 50)),
      (''retry'', given_or (jget input ''retry'') DEFAULT_RETRY),
      (''metadata'', given_or (jget input ''metadata'') (JObj []))]"

text \<open>\<open>if (input.k !== undefined) submission.k = input.k\<close>.\<close>

definition set_if_given :: "string \<Rightarrow> jval \<Rightarrow> (string \<times> jval) list \<Rightarrow> (string \<times> jval) list" where
  "set_if_given k input m = (if jget input k \<noteq> JUndef then mset_kv k (jget input k) m else m)"

definition buildSubmission :: "jval \<Rightarrow> IngestionEnvironment \<Rightarrow> jval" where
  "buildSubmission input env =
     JObj (set_if_given ''deadline'' input (set_if_given ''case_id'' input (submissionFields input env)))"

definition createOcrSubmissionFromDocument ::
  "Validators \<Rightarrow> jval \<Rightarrow> IngestionEnvironment \<Rightarrow> IngestionError + jval" where
  "createOcrSubmissionFromDocument V input env =
     bindR (requireR (is_object input) (ingestion_error ''ingestion input is required'')) (\<lambda>_.
     bindR (requireNonEmptyString (jget input ''tenant_id'') ''tenant_id'') (\<lambda>_.
     bindR (requireNonEmptyString (jget input ''document_id'') ''document_id'') (\<lambda>_.
     bindR (requireNonEmptyString (jget input ''submitted_by'') ''submitted_by'') (\<lambda>_.
     bindR (requireR (jelems (jget input ''pages'') \<noteq> []) (ingestion_error ''at least one page is required'')) (\<lambda>_.
     bindR (requireR (length (jelems (jget input ''pages'')) \<le> MAX_V1_PAGES_PER_SUBMISSION)
              \<lparr>ie_message = ''multi-page OCR submissions are not supported in v1 (received ''
                 @ show_nat (length (jelems (jget input ''pages''))) @ '' pages; cap is ''
                 @ show_nat MAX_V1_PAGES_PER_SUBMISSION @ '' per ADR-11B 3)'',
               ie_code = Some MULTI_PAGE_UNSUPPORTED\<rparr>) (\<lambda>_.
     bindR (checkPages 0 (jelems (jget input ''pages''))) (\<lambda>_.
       let submission = buildSubmission input env in
       case v_submission V submission of
         Some summary \<Rightarrow> Inl (ingestion_error (''generated submission is not contract-valid: '' @ summary))
       | None \<Rightarrow> Inr submission)))))))"

subsection \<open>The adapter\<close>

text \<open>\<open>OcrAdapterError\<close>s and the backend's errors are both \<open>exn\<close>.\<close>

definition enqueueOcrJob ::
  "Validators \<Rightarrow> 'q QueueBackend \<Rightarrow> jval \<Rightarrow> string option \<Rightarrow> string \<Rightarrow> string \<Rightarrow> 'q \<Rightarrow> (exn + EnqueueResult) \<times> 'q" where
  "enqueueOcrJob V B submission scenario newId nowIso q =
     (case v_submission V submission of
        Some summary \<Rightarrow> (Inl (OtherError (''invalid submission: '' @ summary)), q)
      | None \<Rightarrow> qb_enqueue B \<lparr>job_tid = newId, job_submission = submission, job_enqueued_at = nowIso,
                             job_scenario = scenario\<rparr> q)"

definition processOcrJob ::
  "Validators \<Rightarrow> (OcrJob \<Rightarrow> exn + OcrJobOutcome) \<Rightarrow> OcrJob \<Rightarrow> exn + (OcrJob \<times> OcrJobOutcome)" where
  "processOcrJob V worker job =
     (case worker job of Inl e \<Rightarrow> Inl e | Inr outcome \<Rightarrow>
      (case validateWorkerOutcomeContract V outcome job of
         Inl e \<Rightarrow> Inl e
       | Inr (Inl reason) \<Rightarrow> Inl (OtherError reason)
       | Inr (Inr _) \<Rightarrow> Inr (job, outcome)))"

definition processNextOcrJob ::
  "Validators \<Rightarrow> (OcrJob \<Rightarrow> exn + OcrJobOutcome) \<Rightarrow> 'q QueueBackend \<Rightarrow> string \<Rightarrow> 'q \<Rightarrow>
   (exn + (OcrJob \<times> OcrJobOutcome) option) \<times> 'q" where
  "processNextOcrJob V worker B workerId q =
     (case qb_claimNext B workerId q of
        (Inl e, q1) \<Rightarrow> (Inl e, q1)
      | (Inr None, q1) \<Rightarrow> (Inr None, q1)
      | (Inr (Some claim), q1) \<Rightarrow>
          (case processOcrJob V worker (clm_job claim) of
             Inl e \<Rightarrow> (Inl e, snd (qb_requeueClaim B claim q1))
           | Inr result \<Rightarrow>
               (case qb_completeClaim B claim q1 of
                  (Inr _, q2) \<Rightarrow> (Inr (Some result), q2)
                | (Inl e, q2) \<Rightarrow> (Inl e, snd (qb_requeueClaim B claim q2)))))"

text \<open>The registry's guard on the production worker's dependencies: \<open>engine.detect\<close> callable is
  a flag, functions are not JSON.\<close>

definition isPaddleOcrOnnxAdapterDeps :: "jval \<Rightarrow> bool \<Rightarrow> bool" where
  "isPaddleOcrOnnxAdapterDeps value detectCallable \<longleftrightarrow>
     is_object value \<and> (\<exists>s\<in>set_option (jstr (jget value ''engineVersion'')). s \<noteq> []) \<and>
     is_object (jget value ''fetcher'') \<and> is_object (jget value ''engine'') \<and> detectCallable"

subsection \<open>Ingestion\<close>

text \<open>The SQLite store's optional atomic operation, and the paths the same-store probe reads.\<close>

record ('q, 'p) IngestDependencies =
  id_createOcrJob :: "jval \<Rightarrow> 'p \<Rightarrow> (exn + OcrJobRecord) \<times> 'p"
  id_enqueueNewOcrJob :: "(jval \<Rightarrow> string option \<Rightarrow> 'q \<Rightarrow> 'p \<Rightarrow> (exn + (OcrJobRecord \<times> EnqueueResult)) \<times> 'q \<times> 'p) option"
  id_backend :: "'q QueueBackend"
  id_queueGiven :: bool
  id_persistenceDbFilePath :: "string option"
  id_queueDbFilePath :: "string option"
  id_scenario :: "string option"

definition prefix_of :: "string \<Rightarrow> string \<Rightarrow> bool" where
  "prefix_of p s \<longleftrightarrow> take (length p) s = p"

definition has_memory_mode :: "string \<Rightarrow> bool" where
  "has_memory_mode s \<longleftrightarrow>
     (\<exists>i\<in>set [0..<length s]. (s ! i = CHR ''?'' \<or> s ! i = CHR ''&'') \<and> prefix_of ''mode=memory'' (drop (Suc i) s) \<and>
        (let rest = drop (Suc i + 11) s in
         rest = [] \<or> \<not> (is_digit (hd rest) \<or> hd rest = CHR ''_'' \<or>
           (65 \<le> (of_char (hd rest) :: nat) \<and> (of_char (hd rest) :: nat) \<le> 90) \<or>
           (97 \<le> (of_char (hd rest) :: nat) \<and> (of_char (hd rest) :: nat) \<le> 122))))"

definition isAtomicEligiblePath :: "string \<Rightarrow> bool" where
  "isAtomicEligiblePath path \<longleftrightarrow>
     path \<noteq> [] \<and> path \<noteq> '':memory:'' \<and> \<not> prefix_of ''file::memory:'' path \<and>
     \<not> (prefix_of ''file:'' path \<and> has_memory_mode path)"

definition canTakeAtomicPath :: "('q, 'p) IngestDependencies \<Rightarrow> bool" where
  "canTakeAtomicPath deps \<longleftrightarrow>
     id_enqueueNewOcrJob deps \<noteq> None \<and> id_queueGiven deps \<and>
     (case (id_persistenceDbFilePath deps, id_queueDbFilePath deps) of
        (Some pp, Some qp) \<Rightarrow> isAtomicEligiblePath pp \<and> pp = qp
      | _ \<Rightarrow> False)"

record IngestionOutcome =
  io_job :: OcrJobRecord
  io_enqueueResult :: EnqueueResult
  io_atomic :: bool

definition ingestDocumentForOcr ::
  "Validators \<Rightarrow> ('q, 'p) IngestDependencies \<Rightarrow> jval \<Rightarrow> IngestionEnvironment \<Rightarrow> string \<Rightarrow> string \<Rightarrow> 'q \<Rightarrow> 'p \<Rightarrow>
   ((IngestionError + exn) + IngestionOutcome) \<times> 'q \<times> 'p" where
  "ingestDocumentForOcr V deps input env transportId enqueuedAt q p =
     (case createOcrSubmissionFromDocument V input env of
        Inl e \<Rightarrow> (Inl (Inl e), q, p)
      | Inr submission \<Rightarrow>
          if canTakeAtomicPath deps
          then (case the (id_enqueueNewOcrJob deps) submission (id_scenario deps) q p of
                  (Inl e, q', p') \<Rightarrow> (Inl (Inr e), q', p')
                | (Inr (job, er), q', p') \<Rightarrow> (Inr \<lparr>io_job = job, io_enqueueResult = er, io_atomic = True\<rparr>, q', p'))
          else (case id_createOcrJob deps submission p of
                  (Inl e, p') \<Rightarrow> (Inl (Inr e), q, p')
                | (Inr job, p') \<Rightarrow>
                    (case enqueueOcrJob V (id_backend deps) submission (id_scenario deps) transportId enqueuedAt q of
                       (Inl e, q') \<Rightarrow> (Inl (Inr e), q', p')
                     | (Inr er, q') \<Rightarrow> (Inr \<lparr>io_job = job, io_enqueueResult = er, io_atomic = False\<rparr>, q', p'))))"

subsection \<open>What a built submission holds\<close>

lemma checkPages_Inr:
  "checkPages i ps = Inr u \<longleftrightarrow> (\<forall>p\<in>set ps. (\<exists>s. jget p ''page_id'' = JStr s \<and> s \<noteq> []) \<and>
     positive_integer (jget p ''page_number'') \<and> is_object (jget p ''source''))"
  by (induction i ps rule: checkPages.induct)
     (auto simp: result_simps requireNonEmptyString_def split: jval.splits)

lemma mget_set_if_given: "k' \<noteq> k \<Longrightarrow> mget (set_if_given k input m) k' = mget m k'"
  by (simp add: set_if_given_def)

lemma buildSubmission_get:
  "k \<noteq> ''deadline'' \<Longrightarrow> k \<noteq> ''case_id'' \<Longrightarrow>
     jget (buildSubmission input env) k = jget (JObj (submissionFields input env)) k"
  by (simp add: buildSubmission_def mget_set_if_given)

lemma buildSubmission_fields:
  "jget (buildSubmission input env) ''job_id'' = JStr (ev_jobId env)"
  "jget (buildSubmission input env) ''tenant_id'' = jget input ''tenant_id''"
  "jget (buildSubmission input env) ''document_id'' = jget input ''document_id''"
  "length (jelems (jget (buildSubmission input env) ''pages'')) = length (jelems (jget input ''pages''))"
  "jget (buildSubmission input env) ''retry'' = given_or (jget input ''retry'') DEFAULT_RETRY"
  by (simp_all add: buildSubmission_get) (simp_all add: submissionFields_def)

lemma create_Inr:
  assumes "createOcrSubmissionFromDocument V input env = Inr sub"
  shows "sub = buildSubmission input env \<and> v_submission V sub = None \<and>
    length (jelems (jget input ''pages'')) = 1"
proof -
  have "jelems (jget input ''pages'') \<noteq> []" "length (jelems (jget input ''pages'')) \<le> 1"
    "sub = buildSubmission input env" "v_submission V sub = None"
    using assms
    by (auto simp: createOcrSubmissionFromDocument_def result_simps Let_def MAX_V1_PAGES_PER_SUBMISSION_def
        split: option.splits)
  then show ?thesis by (cases "jelems (jget input ''pages'')") auto
qed

subsection \<open>The adapter loses no job\<close>

context ocr_queue_backend begin

lemma processNextOcrJob_law:
  assumes q: "inv q" and run: "processNextOcrJob V worker B w q = (r, q')"
  shows "inv q' \<and> (case r of Inl _ \<Rightarrow> pend q' = pend q | Inr None \<Rightarrow> pend q' = pend q
    | Inr (Some (job, out)) \<Rightarrow> pend q (job_key job) = Some job \<and> pend q' = (pend q)(job_key job := None) \<and>
        validateWorkerOutcomeContract V out job = Inr (Inr ()))"
proof -
  obtain c q1 where c: "qb_claimNext B w q = (c, q1)" by fastforce
  note cl = claim_law [OF q c]
  show ?thesis
  proof (cases "\<exists>claim. c = Inr (Some claim)")
    case False
    with run c cl show ?thesis
      by (auto simp: processNextOcrJob_def split: sum.splits option.splits)
  next
    case True
    then obtain claim where claim: "c = Inr (Some claim)" by blast
    have pj: "pend q (clm_job_id claim) = Some (clm_job claim)" and q1: "inv q1" "pend q1 = pend q"
      using cl claim by auto
    have key: "job_key (clm_job claim) = clm_job_id claim" using key_law [OF q pj] .
    have rq: "inv (snd (qb_requeueClaim B claim x)) \<and> pend (snd (qb_requeueClaim B claim x)) = pend x" if "inv x" for x
      using requeue_law [OF that prod.collapse [symmetric]] .
    show ?thesis
    proof (cases "processOcrJob V worker (clm_job claim)")
      case (Inl e)
      with run c claim rq [OF q1(1)] q1 show ?thesis by (auto simp: processNextOcrJob_def)
    next
      case (Inr res)
      obtain job out where res: "res = (job, out)" by (cases res)
      have job: "job = clm_job claim" "validateWorkerOutcomeContract V out job = Inr (Inr ())"
        using Inr res by (auto simp: processOcrJob_def split: sum.splits)
      obtain d q2 where d: "qb_completeClaim B claim q1 = (d, q2)" by fastforce
      note cp = complete_law [OF q1(1) d]
      show ?thesis
      proof (cases d)
        case (Inl e)
        with run c claim Inr d cp rq [of q2] q1 \<open>processOcrJob V worker (clm_job claim) = Inr res\<close> show ?thesis
          by (auto simp: processNextOcrJob_def)
      next
        case (Inr u)
        with run c claim \<open>processOcrJob V worker (clm_job claim) = Inr res\<close> d cp q1 pj key job res show ?thesis
          by (auto simp: processNextOcrJob_def)
      qed
    qed
  qed
qed

end

subsection \<open>Ingestion over the in-memory queue and store\<close>

definition memoryDeps :: "Validators \<Rightarrow> string option \<Rightarrow> (MemoryBackend, StoreEnv) IngestDependencies" where
  "memoryDeps V scenario =
     \<lparr>id_createOcrJob = (\<lambda>sub m. let (r, p) = createOcrJob V sub (st_now m (st_ticks m)) (st_store m)
        in (case r of Inl e \<Rightarrow> Inl (OtherError e) | Inr rec \<Rightarrow> Inr rec,
            m\<lparr>st_store := p, st_ticks := Suc (st_ticks m)\<rparr>)),
      id_enqueueNewOcrJob = None, id_backend = memoryBackend, id_queueGiven = True,
      id_persistenceDbFilePath = None, id_queueDbFilePath = None, id_scenario = scenario\<rparr>"

lemma memory_create_run:
  assumes "ms_inv V p" and "id_createOcrJob (memoryDeps V sc) sub p = (c, p1)"
  shows "ms_inv V p1 \<and> (case c of Inl e \<Rightarrow> st_store p1 = st_store p
    | Inr rec \<Rightarrow> mget (p_jobs (st_store p)) (jr_job_id rec) = None \<and>
        rec = buildJobRecord sub (st_now p (st_ticks p)) \<and>
        getOcrJob (jr_job_id rec) (st_store p1) = Some rec \<and> ms_timeline p1 (jr_job_id rec) = [])"
proof -
  obtain r s where run: "createOcrJob V sub (st_now p (st_ticks p)) (st_store p) = (r, s)" by fastforce
  have c: "c = (case r of Inl e \<Rightarrow> Inl (OtherError e) | Inr rec \<Rightarrow> Inr rec)" and s: "st_store p1 = s"
    using assms(2) run by (auto simp: memoryDeps_def)
  note spec = createOcrJob_spec [OF assms(1) [unfolded ms_inv_def] run]
  show ?thesis
  proof (cases r)
    case (Inl e)
    with spec c s show ?thesis by (auto simp: ms_inv_def)
  next
    case (Inr rec)
    have w: "with_job (jr_job_id rec) rec [] [] (st_store p) (st_store p1)"
      using spec Inr s by auto
    then have "getOcrJob (jr_job_id rec) (st_store p1) = Some rec" by (simp add: with_job_def getOcrJob_def)
    moreover have "ms_timeline p1 (jr_job_id rec) = []" using with_job_views(1) [OF w] by simp
    ultimately show ?thesis using spec c s Inr by (auto simp: ms_inv_def)
  qed
qed

lemma memory_cannot_take_atomic: "\<not> canTakeAtomicPath (memoryDeps V sc)"
  by (simp add: canTakeAtomicPath_def memoryDeps_def)

lemma ingest_memory:
  assumes q: "mb_inv q" and p: "ms_inv V p" and
    run: "ingestDocumentForOcr V (memoryDeps V sc) input env tid at q p = (r, q', p')"
  shows "mb_inv q' \<and> ms_inv V p' \<and>
    (case r of
       Inl (Inl e) \<Rightarrow> q' = q \<and> p' = p
     | Inl (Inr e) \<Rightarrow> mb_pending q' = mb_pending q
     | Inr out \<Rightarrow>
         jr_job_id (io_job out) = ev_jobId env \<and> jr_submission (io_job out) = buildSubmission input env \<and>
         getOcrJob (ev_jobId env) (st_store p) = None \<and>
         getOcrJob (ev_jobId env) (st_store p') = Some (io_job out) \<and> ms_timeline p' (ev_jobId env) = [] \<and>
         mb_pending q' (ev_jobId env) = Some (er_job (io_enqueueResult out)))"
proof (cases "createOcrSubmissionFromDocument V input env")
  case (Inl e)
  with run q p show ?thesis by (auto simp: ingestDocumentForOcr_def)
next
  case (Inr sub)
  note sub = create_Inr [OF Inr]
  have jid: "jget sub ''job_id'' = JStr (ev_jobId env)" using sub buildSubmission_fields(1) by simp
  obtain c p1 where c: "id_createOcrJob (memoryDeps V sc) sub p = (c, p1)" by fastforce
  note cr = memory_create_run [OF p c]
  show ?thesis
  proof (cases c)
    case (Inl e)
    with run q \<open>createOcrSubmissionFromDocument V input env = Inr sub\<close> c cr memory_cannot_take_atomic
    show ?thesis by (auto simp: ingestDocumentForOcr_def)
  next
    case (Inr rec)
    let ?job = "\<lparr>job_tid = tid, job_submission = sub, job_enqueued_at = at, job_scenario = sc\<rparr>"
    obtain d q1 where d: "qb_enqueue memoryBackend ?job q = (d, q1)" by fastforce
    have enq: "enqueueOcrJob V (id_backend (memoryDeps V sc)) sub (id_scenario (memoryDeps V sc)) tid at q = (d, q1)"
      using d sub by (auto simp: enqueueOcrJob_def memoryDeps_def)
    note el = mem.enqueue_law [OF q d]
    have key: "job_key ?job = ev_jobId env" using jid by (simp add: job_key_def)
    have out: "r = (case d of Inl e \<Rightarrow> Inl (Inr e)
        | Inr er \<Rightarrow> Inr \<lparr>io_job = rec, io_enqueueResult = er, io_atomic = False\<rparr>)" "q' = q1" "p' = p1"
      using run \<open>createOcrSubmissionFromDocument V input env = Inr sub\<close> c Inr enq memory_cannot_take_atomic
      by (auto simp: ingestDocumentForOcr_def split: sum.splits)
    have rec: "jr_job_id rec = ev_jobId env" "jr_submission rec = buildSubmission input env"
      using cr Inr sub jid by (simp_all add: buildJobRecord_def js_key_def)
    show ?thesis
    proof (cases d)
      case (Inl e)
      with el out cr Inr show ?thesis by simp
    next
      case (Inr er)
      have "mb_pending q1 (ev_jobId env) = Some (er_job er)"
      proof (cases "er_deduped er")
        case True
        with el Inr key show ?thesis by simp
      next
        case False
        obtain x y where run: "enqueue ?job (mb_queue q) = (x, y)" by fastforce
        have "x = d" using d run by (simp add: memoryBackend_def on_queue_def)
        then have "er_job er = ?job"
          using enqueue_spec [OF _ run] q Inr False by (simp add: mb_inv_def)
        with el Inr key False show ?thesis by simp
      qed
      with el out cr Inr \<open>c = Inr rec\<close> rec show ?thesis by (simp add: getOcrJob_def)
    qed
  qed
qed

end
