(* ===== verification/OcrWorkerLoop.thy ===== *)
theory OcrWorkerLoop
  imports OcrCoordinator
begin

text \<open>
  The worker loop of services/ocr-worker/src/workerLoop.ts. The world \<open>'s\<close> holds the
  coordinator's state, the abort flag and whatever the hooks touch; \<open>processOne\<close>, the hooks and
  the sleep are the injected functions, each returning its thrown message or its value with the
  new world. The loop may run forever, so it is a partial function: \<open>None\<close> is not returning.
\<close>

datatype OcrWorkerLoopErrorPhase = PhProcessOne | PhOnOutcome | PhLoop

datatype StopReason = StopMaxIterations | StopStopped | StopError

record 's OcrWorkerLoopOptions =
  lo_processOne :: "'s \<Rightarrow> (string + OcrCoordinatorResult) \<times> 's"
  lo_aborted :: "'s \<Rightarrow> bool"
  lo_maxIterations :: "int option"
  lo_idleDelayMs :: "int option"
  lo_includeEmptyOutcomes :: bool
  lo_onOutcome :: "(OcrCoordinatorResult \<Rightarrow> 's \<Rightarrow> (string + unit) \<times> 's) option"
  lo_onError :: "(OcrWorkerLoopErrorPhase \<times> string \<Rightarrow> 's \<Rightarrow> (string + unit) \<times> 's) option"
  lo_sleep :: "int \<Rightarrow> 's \<Rightarrow> (string + unit) \<times> 's"

record OcrWorkerLoopSummary =
  ls_iterations :: nat
  ls_stop_reason :: StopReason
  ls_outcomes :: "(OcrCoordinatorOutcome, nat) jmap"
  ls_last_outcome :: "OcrCoordinatorResult option"
  ls_last_error :: "(OcrWorkerLoopErrorPhase \<times> string) option"

text \<open>The loop's local variables.\<close>

record LoopVars =
  lv_iterations :: nat
  lv_outcomes :: "(OcrCoordinatorOutcome, nat) jmap"
  lv_last_outcome :: "OcrCoordinatorResult option"
  lv_last_error :: "(OcrWorkerLoopErrorPhase \<times> string) option"

definition DEFAULT_IDLE_DELAY_MS :: int where
  "DEFAULT_IDLE_DELAY_MS = 25"

definition reportError :: "'s OcrWorkerLoopOptions \<Rightarrow> OcrWorkerLoopErrorPhase \<Rightarrow> string \<Rightarrow> 's \<Rightarrow> 's" where
  "reportError opts phase message s =
     (case lo_onError opts of None \<Rightarrow> s | Some onError \<Rightarrow> snd (onError (phase, message) s))"

definition finalizeLoop :: "StopReason \<Rightarrow> LoopVars \<Rightarrow> OcrWorkerLoopSummary" where
  "finalizeLoop reason v =
     \<lparr>ls_iterations = lv_iterations v, ls_stop_reason = reason, ls_outcomes = lv_outcomes v,
      ls_last_outcome = lv_last_outcome v, ls_last_error = lv_last_error v\<rparr>"

definition bumpOutcome :: "OcrCoordinatorOutcome \<Rightarrow> (OcrCoordinatorOutcome, nat) jmap \<Rightarrow> (OcrCoordinatorOutcome, nat) jmap" where
  "bumpOutcome oc m = mset_kv oc ((case mget m oc of Some n \<Rightarrow> n | None \<Rightarrow> 0) + 1) m"

definition fireOnOutcome :: "'s OcrWorkerLoopOptions \<Rightarrow> OcrCoordinatorResult \<Rightarrow> 's \<Rightarrow> 's" where
  "fireOnOutcome opts result s =
     (case lo_onOutcome opts of
        Some onOutcome \<Rightarrow>
          if cr_outcome result \<noteq> OutEmpty \<or> lo_includeEmptyOutcomes opts
          then (case onOutcome result s of
                  (Inr _, s') \<Rightarrow> s'
                | (Inl message, s') \<Rightarrow> reportError opts PhOnOutcome message s')
          else s
      | None \<Rightarrow> s)"

text \<open>One pass of the \<open>for (;;)\<close> body: \<open>Inl\<close> returns the summary, \<open>Inr\<close> goes round again.\<close>

definition loopBody ::
  "'s OcrWorkerLoopOptions \<Rightarrow> LoopVars \<Rightarrow> 's \<Rightarrow> (OcrWorkerLoopSummary \<times> 's) + (LoopVars \<times> 's)" where
  "loopBody opts v s =
     (if lo_aborted opts s then Inl (finalizeLoop StopStopped v, s)
      else if (case lo_maxIterations opts of Some m \<Rightarrow> m \<le> int (lv_iterations v) | None \<Rightarrow> False)
      then Inl (finalizeLoop StopMaxIterations v, s)
      else case lo_processOne opts s of
        (Inl message, s1) \<Rightarrow>
          Inl (finalizeLoop StopError (v\<lparr>lv_last_error := Some (PhProcessOne, message)\<rparr>),
               reportError opts PhProcessOne message s1)
      | (Inr result, s1) \<Rightarrow>
          (let v1 = v\<lparr>lv_iterations := lv_iterations v + 1, lv_last_outcome := Some result,
                      lv_outcomes := bumpOutcome (cr_outcome result) (lv_outcomes v)\<rparr>;
               s2 = fireOnOutcome opts result s1;
               idleDelayMs = (case lo_idleDelayMs opts of Some d \<Rightarrow> d | None \<Rightarrow> DEFAULT_IDLE_DELAY_MS) in
           if cr_outcome result = OutEmpty \<and> idleDelayMs > 0
           then (case lo_sleep opts idleDelayMs s2 of
                   (Inr _, s3) \<Rightarrow> Inr (v1, s3)
                 | (Inl message, s3) \<Rightarrow>
                     if lo_aborted opts s3 then Inl (finalizeLoop StopStopped v1, s3)
                     else Inl (finalizeLoop StopError (v1\<lparr>lv_last_error := Some (PhLoop, message)\<rparr>),
                               reportError opts PhLoop message s3))
           else Inr (v1, s2)))"

lemmas loopBody_unfold = loopBody_def [unfolded some_and]

partial_function (option) runLoop ::
  "'s OcrWorkerLoopOptions \<Rightarrow> LoopVars \<Rightarrow> 's \<Rightarrow> (OcrWorkerLoopSummary \<times> 's) option" where
  "runLoop opts v s =
     (case loopBody opts v s of Inl r \<Rightarrow> Some r | Inr vs \<Rightarrow> runLoop opts (fst vs) (snd vs))"

definition loopStart :: LoopVars where
  "loopStart = \<lparr>lv_iterations = 0, lv_outcomes = [], lv_last_outcome = None, lv_last_error = None\<rparr>"

definition runOcrWorkerLoop :: "'s OcrWorkerLoopOptions \<Rightarrow> 's \<Rightarrow> (OcrWorkerLoopSummary \<times> 's) option" where
  "runOcrWorkerLoop opts s =
     (if lo_aborted opts s then Some (finalizeLoop StopStopped loopStart, s)
      else runLoop opts loopStart s)"

subsection \<open>Partial correctness\<close>

definition histogram_total :: "(OcrCoordinatorOutcome, nat) jmap \<Rightarrow> nat" where
  "histogram_total m = sum_list (mvals m)"

lemma histogram_total_bump: "histogram_total (bumpOutcome oc m) = histogram_total m + 1"
proof -
  have "sum_list (mvals (mset_kv oc ((case mget m oc of Some n \<Rightarrow> n | None \<Rightarrow> 0) + 1) m)) = sum_list (mvals m) + 1"
    for m :: "(OcrCoordinatorOutcome, nat) jmap"
    by (induction m) auto
  then show ?thesis by (simp add: histogram_total_def bumpOutcome_def)
qed

definition vars_ok :: "LoopVars \<Rightarrow> bool" where
  "vars_ok v \<longleftrightarrow> histogram_total (lv_outcomes v) = lv_iterations v \<and> lv_last_error v = None \<and>
     (lv_last_outcome v = None \<longleftrightarrow> lv_iterations v = 0)"

definition summary_ok :: "'s OcrWorkerLoopOptions \<Rightarrow> OcrWorkerLoopSummary \<Rightarrow> 's \<Rightarrow> bool" where
  "summary_ok opts r s \<longleftrightarrow>
     histogram_total (ls_outcomes r) = ls_iterations r \<and>
     (ls_last_outcome r = None \<longleftrightarrow> ls_iterations r = 0) \<and>
     (ls_stop_reason r = StopError \<longleftrightarrow> ls_last_error r \<noteq> None) \<and>
     (ls_stop_reason r = StopStopped \<longrightarrow> lo_aborted opts s) \<and>
     (\<forall>m. lo_maxIterations opts = Some m \<longrightarrow> int (ls_iterations r) \<le> max 0 m) \<and>
     (ls_stop_reason r = StopMaxIterations \<longrightarrow> (\<exists>m. lo_maxIterations opts = Some m \<and> int (ls_iterations r) = max 0 m))"

definition below_cap :: "'s OcrWorkerLoopOptions \<Rightarrow> LoopVars \<Rightarrow> bool" where
  "below_cap opts v \<longleftrightarrow> (\<forall>m. lo_maxIterations opts = Some m \<longrightarrow> int (lv_iterations v) \<le> max 0 m)"

lemma loopBody_ok:
  assumes "vars_ok v" and "below_cap opts v"
  shows "case loopBody opts v s of Inl (r, s') \<Rightarrow> summary_ok opts r s'
    | Inr (v', s') \<Rightarrow> vars_ok v' \<and> below_cap opts v' \<and> lv_iterations v' = Suc (lv_iterations v)"
  using assms
  by (auto simp: loopBody_unfold Let_def vars_ok_def below_cap_def summary_ok_def finalizeLoop_def histogram_total_bump
      split: prod.splits sum.splits option.splits if_splits)

lemma runLoop_ok:
  assumes "runLoop opts v s = Some (r, s')" and "vars_ok v" and "below_cap opts v"
  shows "summary_ok opts r s'"
proof -
  have "vars_ok v \<longrightarrow> below_cap opts v \<longrightarrow> summary_ok opts (fst (r, s')) (snd (r, s'))"
  proof (rule runLoop.raw_induct [where P = "\<lambda>opts v s x. vars_ok v \<longrightarrow> below_cap opts v \<longrightarrow> summary_ok opts (fst x) (snd x)",
        OF _ assms(1)], intro impI, goal_cases)
    case (1 rec opts v s x)
    from loopBody_ok [OF 1(3,4), of s] 1(1,2) show ?case
      by (cases "loopBody opts v s") (auto split: prod.splits)
  qed
  with assms show ?thesis by simp
qed

text \<open>With a cap the loop returns.\<close>

lemma runLoop_returns:
  assumes "lo_maxIterations opts = Some m" and "nat m - lv_iterations v \<le> n"
    and "vars_ok v" "below_cap opts v"
  shows "\<exists>r s'. runLoop opts v s = Some (r, s')"
  using assms(2-)
proof (induction n arbitrary: v s)
  case 0
  then have "m \<le> int (lv_iterations v)" by linarith
  with assms(1) show ?case by (subst runLoop.simps) (auto simp: loopBody_unfold)
next
  case (Suc n)
  show ?case
  proof (cases "loopBody opts v s")
    case (Inl x)
    then show ?thesis by (subst runLoop.simps) (cases x; simp)
  next
    case (Inr x)
    obtain v' s' where x: "x = (v', s')" by (cases x)
    from loopBody_ok [OF Suc.prems(2,3), of s] have
      "vars_ok v'" "below_cap opts v'" "lv_iterations v' = Suc (lv_iterations v)" by (simp_all add: Inr x)
    then have "\<exists>r s''. runLoop opts v' s' = Some (r, s'')" using Suc.IH Suc.prems(1) by simp
    with Inr x show ?thesis by (subst runLoop.simps) simp
  qed
qed

lemma start_ok: "vars_ok loopStart" "below_cap opts loopStart"
  by (simp_all add: vars_ok_def below_cap_def loopStart_def histogram_total_def)

subsection \<open>What every step keeps, the loop keeps\<close>

definition steps_respect :: "('s \<Rightarrow> 's \<Rightarrow> bool) \<Rightarrow> 's OcrWorkerLoopOptions \<Rightarrow> bool" where
  "steps_respect R opts \<longleftrightarrow>
     (\<forall>s. R s (snd (lo_processOne opts s))) \<and>
     (\<forall>f r s. lo_onOutcome opts = Some f \<longrightarrow> R s (snd (f r s))) \<and>
     (\<forall>f e s. lo_onError opts = Some f \<longrightarrow> R s (snd (f e s))) \<and>
     (\<forall>d s. R s (snd (lo_sleep opts d s)))"

lemma fireOnOutcome_respects:
  assumes R: "reflp R" "transp R" and opts: "steps_respect R opts"
  shows "R s (reportError opts ph m s)" and "R s (fireOnOutcome opts r s)"
proof -
  show e: "R s (reportError opts ph m s)" for s ph m
    using R(1) opts by (auto simp: reportError_def steps_respect_def reflp_def split: option.splits)
  show "R s (fireOnOutcome opts r s)"
  proof (cases "lo_onOutcome opts")
    case None
    then show ?thesis using R(1) by (simp add: fireOnOutcome_def reflp_def)
  next
    case (Some f)
    then have "R s (snd (f r s))" using opts by (simp add: steps_respect_def)
    moreover from this e have "R s (reportError opts ph m (snd (f r s)))" for ph m
      using transpE [OF R(2)] by blast
    moreover have "R s s" using R(1) by (simp add: reflp_def)
    ultimately show ?thesis using Some
      by (cases "f r s"; cases "fst (f r s)") (auto simp: fireOnOutcome_def)
  qed
qed

lemma loopBody_respects:
  assumes R: "reflp R" "transp R" and opts: "steps_respect R opts"
  shows "R s (case loopBody opts v s of Inl x \<Rightarrow> snd x | Inr x \<Rightarrow> snd x)"
proof -
  have refl: "R x x" and trans: "R x y \<Longrightarrow> R y z \<Longrightarrow> R x z" for x y z
    using R by (auto simp: reflp_def elim: transpE)
  obtain x s1 where run: "lo_processOne opts s = (x, s1)" by fastforce
  then have one: "R s s1" using opts by (metis snd_conv steps_respect_def)
  note hooks = fireOnOutcome_respects [OF R opts]
  show ?thesis
  proof (cases x)
    case (Inl m)
    with run one hooks(1) refl trans show ?thesis
      by (auto simp: loopBody_def)
  next
    case (Inr r)
    define s2 where "s2 = fireOnOutcome opts r s1"
    have two: "R s s2" using trans one hooks(2) by (auto simp: s2_def)
    obtain y s3 where sleep: "lo_sleep opts (case lo_idleDelayMs opts of Some d \<Rightarrow> d | None \<Rightarrow> DEFAULT_IDLE_DELAY_MS) s2 = (y, s3)"
      by fastforce
    then have "R s2 s3" using opts by (metis snd_conv steps_respect_def)
    then have three: "R s s3" using two trans by blast
    then have four: "R s (reportError opts ph m s3)" for ph m using hooks(1) trans by blast
    show ?thesis
      using refl two three four
      by (auto simp: loopBody_def run Inr Let_def s2_def [symmetric] sleep split: sum.splits if_splits option.splits)
  qed
qed

lemma runLoop_respects:
  assumes R: "reflp R" "transp R" and opts: "steps_respect R opts" and run: "runLoop opts v s = Some (r, s')"
  shows "R s s'"
proof -
  have "steps_respect R opts \<longrightarrow> R s (snd (r, s'))"
  proof (rule runLoop.raw_induct [where P = "\<lambda>opts v s x. steps_respect R opts \<longrightarrow> R s (snd x)", OF _ run], intro impI, goal_cases)
    case (1 rec opts v s x)
    note body = loopBody_respects [OF R 1(3), of s v]
    show ?case
    proof (cases "loopBody opts v s")
      case (Inl y)
      with body 1(2) show ?thesis by simp
    next
      case (Inr y)
      with 1(2) have "rec opts (fst y) (snd y) = Some x" by simp
      from 1(1) [OF this] 1(3) have "R (snd y) (snd x)" by simp
      with body Inr show ?thesis using transpE [OF R(2)] by force
    qed
  qed
  with opts show ?thesis by simp
qed

lemma runOcrWorkerLoop_respects:
  assumes "reflp R" "transp R" "steps_respect R opts" and "runOcrWorkerLoop opts s = Some (r, s')"
  shows "R s s'"
  using assms runLoop_respects [OF assms(1-3)]
  by (auto simp: runOcrWorkerLoop_def reflp_def split: if_splits)

end
