(* ===== verification/OcrSystem.thy ===== *)
theory OcrSystem
  imports OcrIngest OcrWorkerLoop
begin

text \<open>
  The OCR components together: producers that ingest documents, workers that take coordinator
  turns and renew leases, over one in-memory queue and one in-memory store, in any interleaving.
  \<open>system_step\<close> is one such call; the invariant of the coordinator's contract is kept by every
  history of calls.
\<close>

subsection \<open>Histories of the store\<close>

inductive store_step :: "Validators \<Rightarrow> InMemoryOcrPersistence \<Rightarrow> InMemoryOcrPersistence \<Rightarrow> bool" for V where
  store_create: "createOcrJob V sub now p = (r, p') \<Longrightarrow> store_step V p p'"
| store_append: "appendOcrStatus V i t now p = (r1, p') \<Longrightarrow> store_step V p p'"
| store_append_once: "appendOcrStatusOnce V i t now p = (r1, p') \<Longrightarrow> store_step V p p'"
| store_save: "saveOcrResult V i x now p = (r2, p') \<Longrightarrow> store_step V p p'"
| store_save_once: "saveOcrResultOnce V i x now p = (r2, p') \<Longrightarrow> store_step V p p'"
| store_set: "setOcrPendingRetry V i x p = (r3, p') \<Longrightarrow> store_step V p p'"
| store_clear: "clearOcrPendingRetry i p = (r3, p') \<Longrightarrow> store_step V p p'"

lemma store_step_inv: "store_step V p p' \<Longrightarrow> store_inv V p \<Longrightarrow> store_inv V p'"
  by (induction rule: store_step.induct)
     (auto dest: createOcrJob_spec appendOcrStatus_spec appendOcrStatusOnce_spec saveOcrResult_spec
       saveOcrResultOnce_spec setOcrPendingRetry_spec clearOcrPendingRetry_spec)

lemma store_history_inv: "(store_step V)\<^sup>*\<^sup>* p p' \<Longrightarrow> store_inv V p \<Longrightarrow> store_inv V p'"
  by (induction rule: rtranclp_induct) (auto intro: store_step_inv)

text \<open>No operation of the store rewrites a timeline: it only appends.\<close>

lemma with_job_events: "with_job i job es rs p p' \<Longrightarrow> events_of p' k = (if k = i then es else events_of p k)"
  by (simp add: with_job_def fun_eq_iff)

lemma unknown_no_events: "store_inv V p \<Longrightarrow> mget (p_jobs p) i = None \<Longrightarrow> events_of p i = []"
  using unknown_job_empty(1) .

lemma store_step_prefix:
  assumes "store_step V p p'" and "store_inv V p"
  shows "prefix (events_of p k) (events_of p' k)"
  using assms
proof (induction rule: store_step.induct)
  case (store_create sub now p r p')
  with createOcrJob_spec [OF store_create(2,1)] show ?case
    by (auto simp: with_job_events unknown_no_events split: sum.splits)
next
  case (store_append i t now p r p')
  with appendOcrStatus_spec [OF store_append(2,1)] show ?case
    by (auto simp: with_job_events split: sum.splits)
next
  case (store_append_once i t now p r p')
  with appendOcrStatusOnce_spec [OF store_append_once(2,1)] show ?case
    by (auto simp: with_job_events split: sum.splits)
next
  case (store_save i x now p r p')
  with saveOcrResult_spec [OF store_save(2,1)] show ?case
    by (auto simp: with_job_events split: sum.splits)
next
  case (store_save_once i x now p r p')
  with saveOcrResultOnce_spec [OF store_save_once(2,1)] show ?case
    by (auto simp: with_job_events split: sum.splits)
next
  case (store_set i x p r p')
  with setOcrPendingRetry_spec [OF store_set(2,1)] show ?case
    by (auto simp: with_job_events split: sum.splits)
next
  case (store_clear i p r p')
  with clearOcrPendingRetry_spec [OF store_clear(2,1)] show ?case
    by (auto simp: with_job_events split: sum.splits)
qed

lemma store_history_prefix:
  assumes "(store_step V)\<^sup>*\<^sup>* p p'" and "store_inv V p"
  shows "prefix (events_of p k) (events_of p' k)"
  using assms
proof (induction rule: rtranclp_induct)
  case (step y z)
  then have "prefix (events_of p k) (events_of y k)" by blast
  also have "prefix (events_of y k) (events_of z k)"
    using step store_history_inv store_step_prefix by blast
  finally show ?case .
qed simp

subsection \<open>Replays are harmless\<close>

lemma find_append_None: "List.find P xs = None \<Longrightarrow> List.find P (xs @ ys) = List.find P ys"
  by (induction xs) (auto split: if_splits)

lemma append_once_found:
  assumes "mget (p_jobs p) i = Some job" and "List.find (\<lambda>e. transitionEquals e t) (events_of p i) = Some e"
  shows "appendOcrStatusOnce V i t now p = (Inr e, p)"
  using assms by (simp add: appendOcrStatusOnce_def)

lemma append_once_replay:
  assumes inv: "store_inv V p" and run: "appendOcrStatusOnce V i t now p = (Inr e, p')"
  shows "appendOcrStatusOnce V i t now' p' = (Inr e, p')"
proof -
  note spec = appendOcrStatusOnce_spec [OF inv run]
  then have inv': "store_inv V p'" and e: "stripStatusMeta e = t" "e \<in> set (events_of p' i)" by auto
  have known: "mget (p_jobs p') i \<noteq> None" using unknown_no_events [OF inv'] e(2) by (cases "mget (p_jobs p') i") auto
  have "List.find (\<lambda>x. transitionEquals x t) (events_of p' i) \<noteq> None"
    using e by (auto simp: find_None_iff_all transitionEquals_iff)
  then obtain x where x: "List.find (\<lambda>x. transitionEquals x t) (events_of p' i) = Some x" by auto
  from appendOcrStatusOnce_cases [OF run]
  have "x = e"
  proof
    assume "\<exists>job e'. mget (p_jobs p) i = Some job \<and> e' \<in> set (events_of p i) \<and> stripStatusMeta e' = t \<and> Inr e = (Inr e' :: string + OcrStatusEvent) \<and> p' = p"
    then obtain job where job: "mget (p_jobs p) i = Some job" and "e \<in> set (events_of p i)" "p' = p" by auto
    with run x show ?thesis by (simp add: appendOcrStatusOnce_def)
  next
    assume new: "(t \<notin> set (payloads (events_of p i)) \<or> mget (p_jobs p) i = None) \<and> appendOcrStatus V i t now p = (Inr e, p')"
    with appendOcrStatus_spec [OF inv conjunct2 [OF new]]
    have es: "events_of p' i = events_of p i @ [e]" "t \<notin> set (payloads (events_of p i))"
      by (auto simp: with_job_events)
    then have "List.find (\<lambda>x. transitionEquals x t) (events_of p i) = None"
      by (auto simp: find_None_iff_all transitionEquals_iff)
    from find_append_None [OF this, of "[e]"] x e(1) show ?thesis by (simp add: es(1) transitionEquals_iff)
  qed
  with known x show ?thesis by (auto simp: append_once_found)
qed

lemma save_once_replay:
  assumes inv: "store_inv V p" and run: "saveOcrResultOnce V i x now p = (Inr rec, p')"
  shows "saveOcrResultOnce V i x now' p' = (Inr rec, p')"
proof -
  note spec = saveOcrResultOnce_spec [OF inv run]
  then have inv': "store_inv V p'" and r: "deepEquals (rr_result rec) x" "rec \<in> set (results_of p' i)" by auto
  obtain job where job: "mget (p_jobs p) i = Some job" and chk: "checkResult V i job x = Inr ()"
    using run by (auto simp: saveOcrResultOnce_def split: option.splits sum.splits)
  from spec job have job': "mget (p_jobs p') i = Some job" by (auto simp: with_job_def)
  have same: "same_page x rec"
    using run job chk by (auto simp: saveOcrResultOnce_def Let_def split: option.splits if_splits dest!: find_Some_iff_split)
  have "distinct (page_ids (results_of p' i))"
    using store_invD [OF inv' job'] by (simp add: job_ok_def)
  then have "List.find (same_page x) (results_of p' i) = Some rec"
    using r(2) same by (rule distinct_page_ids_find)
  with job' chk r(1) show ?thesis by (simp add: saveOcrResultOnce_def)
qed

lemma terminal_append_refused:
  assumes inv: "store_inv V p" and fin: "terminal_timeline (payloads (events_of p i))"
  shows "\<exists>e. appendOcrStatus V i t now p = (Inl e, p)"
proof (cases "appendOcrStatus V i t now p")
  case (Pair r p')
  show ?thesis
  proof (cases r)
    case (Inl e)
    with appendOcrStatus_spec [OF inv Pair] Pair show ?thesis by simp
  next
    case (Inr e)
    note spec = appendOcrStatus_spec [OF inv Pair, unfolded Inr, simplified]
    then obtain job where w: "events_of p' i = events_of p i @ [e]" and inv': "store_inv V p'"
      by (auto simp: with_job_events)
    then have "mget (p_jobs p') i \<noteq> None" using unknown_no_events [OF inv', of i] by auto
    then have "timeline_ok (events_of p' i)" using store_invD [OF inv'] by (auto simp: job_ok_def)
    then have "valid_timeline (payloads (events_of p i) @ [stripStatusMeta e])"
      by (simp add: timeline_ok_def valid_timeline_def w)
    from valid_terminal_prefix [OF _ this fin] show ?thesis by simp
  qed
qed

subsection \<open>A claim is acknowledged once\<close>

definition receipt_dead :: "InMemoryOcrQueue \<Rightarrow> string \<Rightarrow> bool" where
  "receipt_dead q r \<longleftrightarrow> r \<in> q_issuedReceipts q \<and> mget (q_active q) r = None"

lemma dead_refused:
  assumes "receipt_dead q (clm_receipt c)"
  shows "\<exists>code m. resolveClaim c t q = Inl (OcrQueueError code m) \<and> code \<in> {UnknownReceipt, StaleReceipt, InvalidClaim}"
  using assms by (cases "clm_receipt c \<noteq> [] \<and> clm_job_id c \<noteq> []")
    (auto simp: receipt_dead_def resolveClaim_def lookupOrThrow_def assertClaimShape_def)

lemma acknowledged_dead:
  assumes inv: "queue_inv q" and ack: "completeClaim c t q = (Inr (), q') \<or> requeueClaim c t q = (Inr (), q')"
  shows "receipt_dead q' (clm_receipt c)"
proof -
  obtain rec where rec: "resolveClaim c t q = Inr rec"
    using ack by (auto simp: completeClaim_def requeueClaim_def split: sum.splits)
  then have act: "mget (q_active q) (clm_receipt c) = Some rec" by (simp add: resolveClaim_Inr_iff)
  with inv claims_okD [OF _ act] have "ac_receipt rec = clm_receipt c" "clm_receipt c \<in> q_issuedReceipts q"
    by (auto simp: queue_inv_iff good_claim_def)
  with ack rec show ?thesis by (auto simp: receipt_dead_def completeClaim_def requeueClaim_def)
qed

lemma step_keeps_dead:
  assumes "queue_step q q'" and inv: "queue_inv q" and dead: "receipt_dead q r"
  shows "receipt_dead q' r"
  using assms(1)
proof (cases rule: queue_step.cases)
  case (step_enqueue job x)
  then show ?thesis using dead
    by (auto simp: receipt_dead_def enqueue_def split: sum.splits option.splits if_splits)
next
  case (step_claim receipt w t1 t2 x)
  have d: "distinct (mkeys (q_active q))" using inv by (simp add: queue_inv_def)
  have gone: "mget (filter P (q_active q)) r = None" for P
    using dead by (auto simp: receipt_dead_def map_of_eq_None_iff)
  show ?thesis using dead step_claim gone
    by (auto simp: receipt_dead_def claimNext_def Let_def sweepExpired_eq [OF d]
        split: sum.splits list.splits if_splits)
next
  case (step_renew c t1 t2 x)
  then show ?thesis using dead
    by (auto simp: receipt_dead_def renewClaim_def Let_def resolveClaim_Inr_iff split: sum.splits)
next
  case (step_complete c t x)
  then show ?thesis using dead by (auto simp: receipt_dead_def completeClaim_def split: sum.splits)
next
  case (step_requeue c t x)
  then show ?thesis using dead by (auto simp: receipt_dead_def requeueClaim_def split: sum.splits)
next
  case step_close
  then show ?thesis using dead by (simp add: receipt_dead_def closeQueue_def)
qed

lemma history_keeps_dead:
  "queue_step\<^sup>*\<^sup>* q q' \<Longrightarrow> queue_inv q \<Longrightarrow> receipt_dead q r \<Longrightarrow> queue_inv q' \<and> receipt_dead q' r"
  by (induction rule: rtranclp_induct) (auto intro: queue_step_inv step_keeps_dead)

subsection \<open>Ingestion beside the workers\<close>

lemma create_keeps:
  assumes "ms_inv V p" and "id_createOcrJob (memoryDeps V sc) sub p = (c, p1)"
  shows "ms_inv V p1 \<and> ms_timeline p1 = ms_timeline p \<and> ms_outbox p1 = ms_outbox p"
proof -
  obtain r s where run: "createOcrJob V sub (st_now p (st_ticks p)) (st_store p) = (r, s)" by fastforce
  have s: "st_store p1 = s" using assms(2) run by (auto simp: memoryDeps_def)
  note spec = createOcrJob_spec [OF assms(1) [unfolded ms_inv_def] run]
  show ?thesis
  proof (cases r)
    case (Inl e)
    with spec s same_store_views [of p1 p] show ?thesis by (auto simp: ms_inv_def)
  next
    case (Inr rec)
    let ?i = "jr_job_id rec"
    have new: "mget (p_jobs (st_store p)) ?i = None" and w: "with_job ?i rec [] [] (st_store p) (st_store p1)"
      and rec: "rec = buildJobRecord sub (st_now p (st_ticks p))" and inv: "store_inv V (st_store p1)"
      using spec Inr s by auto
    have "ms_timeline p ?i = []" "ms_outbox p ?i = None"
      using unknown_no_events [OF _ new] assms(1) new by (simp_all add: ms_timeline_def ms_outbox_def ms_inv_def)
    moreover have "jr_pending_retry_submission rec = None" by (simp add: rec buildJobRecord_def)
    ultimately show ?thesis using with_job_views [OF w] inv by (auto simp: ms_inv_def fun_eq_iff)
  qed
qed

lemma enqueue_grows:
  assumes "mb_inv q" and "enqueueOcrJob V memoryBackend sub sc tid at q = (r, q')"
  shows "mb_inv q' \<and> (\<forall>k j. mb_pending q k = Some j \<longrightarrow> mb_pending q' k = Some j)"
proof (cases "v_submission V sub")
  case None
  then have "qb_enqueue memoryBackend \<lparr>job_tid = tid, job_submission = sub, job_enqueued_at = at, job_scenario = sc\<rparr> q = (r, q')"
    using assms(2) by (simp add: enqueueOcrJob_def)
  from mem.enqueue_law [OF assms(1) this] show ?thesis by (auto split: sum.splits if_splits)
qed (use assms in \<open>auto simp: enqueueOcrJob_def\<close>)

definition system_ready :: "Validators \<Rightarrow> MemoryBackend \<times> StoreEnv \<Rightarrow> bool" where
  "system_ready V s \<longleftrightarrow> mb_inv (fst s) \<and> ms_inv V (snd s) \<and> outbox_ok (ms_outbox (snd s))"

definition job_accounted :: "MemoryBackend \<times> StoreEnv \<Rightarrow> string \<Rightarrow> bool" where
  "job_accounted s k \<longleftrightarrow> accounted (mb_pending (fst s)) (ms_timeline (snd s)) (ms_outbox (snd s)) k"

definition system_safe :: "Validators \<Rightarrow> MemoryBackend \<times> StoreEnv \<Rightarrow> MemoryBackend \<times> StoreEnv \<Rightarrow> bool" where
  "system_safe V s s' \<longleftrightarrow> system_ready V s' \<and> (\<forall>k. prefix (ms_timeline (snd s) k) (ms_timeline (snd s') k)) \<and>
     (\<forall>k. job_accounted s k \<longrightarrow> job_accounted s' k)"

lemma turn_safe:
  assumes "system_ready V (q, p)" and "processOneOcrQueueClaim V worker memoryBackend (memoryStore V) w ti q p = (res, q', p')"
  shows "system_safe V (q, p) (q', p')"
  using turn.turn_never_loses_a_job [OF _ assms(2)] assms(1)
  by (simp add: turn.ready_def turn.safe_def system_ready_def system_safe_def job_accounted_def)

lemma ingest_safe:
  assumes ready: "system_ready V (q, p)"
    and run: "ingestDocumentForOcr V (memoryDeps V sc) input env tid at q p = (res, q', p')"
  shows "system_safe V (q, p) (q', p')"
proof -
  have q: "mb_inv q" and p: "ms_inv V p" and o: "outbox_ok (ms_outbox p)" using ready by (auto simp: system_ready_def)
  have keep: "system_safe V (q, p) (q1, p1)"
    if "mb_inv q1 \<and> (\<forall>k j. mb_pending q k = Some j \<longrightarrow> mb_pending q1 k = Some j)"
      "ms_inv V p1 \<and> ms_timeline p1 = ms_timeline p \<and> ms_outbox p1 = ms_outbox p" for q1 p1
    using that o by (auto simp: system_safe_def system_ready_def job_accounted_def accounted_def)
  show ?thesis
  proof (cases "createOcrSubmissionFromDocument V input env")
    case (Inl e)
    with run q p keep show ?thesis by (auto simp: ingestDocumentForOcr_def)
  next
    case (Inr sub)
    obtain c p1 where c: "id_createOcrJob (memoryDeps V sc) sub p = (c, p1)" by fastforce
    obtain d q1 where d: "enqueueOcrJob V memoryBackend sub sc tid at q = (d, q1)" by fastforce
    have "(q', p') = (q, p1) \<or> (q', p') = (q1, p1)"
      using run Inr c d memory_cannot_take_atomic [of V sc]
      by (auto simp: ingestDocumentForOcr_def memoryDeps_def split: sum.splits)
    with keep create_keeps [OF p c] enqueue_grows [OF q d] q show ?thesis by auto
  qed
qed

lemma renew_safe:
  assumes ready: "system_ready V (q, p)" and run: "qb_renewClaim memoryBackend c q = (r, q')"
  shows "system_safe V (q, p) (q', p)"
  using mem.renew_law [OF _ run] ready
  by (auto simp: system_ready_def system_safe_def job_accounted_def split: sum.splits)

inductive system_step :: "Validators \<Rightarrow> MemoryBackend \<times> StoreEnv \<Rightarrow> MemoryBackend \<times> StoreEnv \<Rightarrow> bool" for V where
  system_turn: "processOneOcrQueueClaim V worker memoryBackend (memoryStore V) w ti q p = (res, q', p') \<Longrightarrow>
     system_step V (q, p) (q', p')"
| system_ingest: "ingestDocumentForOcr V (memoryDeps V sc) input env tid at q p = (out, q', p') \<Longrightarrow>
     system_step V (q, p) (q', p')"
| system_renew: "qb_renewClaim memoryBackend c q = (r, q') \<Longrightarrow> system_step V (q, p) (q', p)"

lemma system_step_safe: "system_step V s s' \<Longrightarrow> system_ready V s \<Longrightarrow> system_safe V s s'"
  by (induction rule: system_step.induct) (auto intro: turn_safe ingest_safe renew_safe)

lemma system_history_safe:
  "(system_step V)\<^sup>*\<^sup>* s s' \<Longrightarrow> system_ready V s \<Longrightarrow> system_safe V s s'"
proof (induction rule: rtranclp_induct)
  case base
  then show ?case by (simp add: system_safe_def)
next
  case (step y z)
  then have "system_safe V s y" by blast
  moreover from this have "system_safe V y z" using step(2) by (auto simp: system_safe_def dest!: system_step_safe)
  ultimately have "system_safe V s y" "system_safe V y z" by auto
  then show ?case unfolding system_safe_def by (meson prefix_order.trans)
qed

subsection \<open>A worker process: the loop over coordinator turns\<close>

text \<open>The world of one worker process: the shared system, the inputs each turn reads and what the
  hooks keep (the observability counters, the abort flag).\<close>

record 'h LoopWorld =
  lw_system :: "MemoryBackend \<times> StoreEnv"
  lw_inputs :: "nat \<Rightarrow> TurnInputs"
  lw_turns :: nat
  lw_hooks :: 'h

definition coordinatorTurn ::
  "Validators \<Rightarrow> (OcrJob \<Rightarrow> exn + OcrJobOutcome) \<Rightarrow> string \<Rightarrow> 'h LoopWorld \<Rightarrow> (string + OcrCoordinatorResult) \<times> 'h LoopWorld" where
  "coordinatorTurn V worker w s =
     (let (res, q, p) = processOneOcrQueueClaim V worker memoryBackend (memoryStore V) w
            (lw_inputs s (lw_turns s)) (fst (lw_system s)) (snd (lw_system s)) in
      (case res of Inl e \<Rightarrow> Inl (errorMessage e) | Inr r \<Rightarrow> Inr r,
       s\<lparr>lw_system := (q, p), lw_turns := Suc (lw_turns s)\<rparr>))"

definition world_safe :: "Validators \<Rightarrow> 'h LoopWorld \<Rightarrow> 'h LoopWorld \<Rightarrow> bool" where
  "world_safe V s s' \<longleftrightarrow> (system_ready V (lw_system s) \<longrightarrow> system_safe V (lw_system s) (lw_system s'))"

definition hooks_apart :: "'h LoopWorld OcrWorkerLoopOptions \<Rightarrow> bool" where
  "hooks_apart opts \<longleftrightarrow>
     (\<forall>f r s. lo_onOutcome opts = Some f \<longrightarrow> lw_system (snd (f r s)) = lw_system s) \<and>
     (\<forall>f e s. lo_onError opts = Some f \<longrightarrow> lw_system (snd (f e s)) = lw_system s) \<and>
     (\<forall>d s. lw_system (snd (lo_sleep opts d s)) = lw_system s)"

lemma world_safe_same: "lw_system s' = lw_system s \<Longrightarrow> world_safe V s s'"
  by (simp add: world_safe_def system_safe_def)

lemma world_safe_preorder: "reflp (world_safe V)" "transp (world_safe V)"
proof -
  show "reflp (world_safe V)" by (simp add: reflp_def world_safe_same)
  show "transp (world_safe V)"
    unfolding transp_def world_safe_def system_safe_def by (meson prefix_order.trans)
qed

lemma coordinatorTurn_safe: "world_safe V s (snd (coordinatorTurn V worker w s))"
proof -
  obtain q p where qp: "lw_system s = (q, p)" by fastforce
  obtain res q' p' where run: "processOneOcrQueueClaim V worker memoryBackend (memoryStore V) w
      (lw_inputs s (lw_turns s)) q p = (res, q', p')" by (metis prod_cases3)
  then have "lw_system (snd (coordinatorTurn V worker w s)) = (q', p')"
    by (simp add: coordinatorTurn_def qp)
  with turn_safe [OF _ run] show ?thesis by (simp add: world_safe_def qp)
qed

lemma worker_loop_safe:
  assumes "hooks_apart opts" and "lo_processOne opts = coordinatorTurn V worker w"
    and "runOcrWorkerLoop opts s = Some (r, s')"
  shows "world_safe V s s'"
proof (rule runOcrWorkerLoop_respects [OF world_safe_preorder _ assms(3)])
  show "steps_respect (world_safe V) opts"
    using assms(1,2) coordinatorTurn_safe [of V _ worker w]
    unfolding steps_respect_def hooks_apart_def by (auto intro: world_safe_same)
qed

text \<open>What a persisted timeline says of the job record.\<close>

lemma timeline_known:
  assumes "ms_inv V p" and "ms_timeline p i \<noteq> []"
  shows "\<exists>v. fst (pp_getOcrJob (memoryStore V) i p) = Inr (Some v)"
proof -
  have "mget (p_jobs (st_store p)) i \<noteq> None"
    using assms unknown_no_events by (fastforce simp: ms_inv_def ms_timeline_def)
  then show ?thesis by (auto simp: memoryStore_def getOcrJob_def)
qed

end
