(* ===== verification/JsonParse.thy ===== *)
theory JsonParse
  imports Json
begin

text \<open>
  A reader of JSON texts, and the round trip with \<open>stringify\<close>. The pagination cursors take
  \<open>JSON.parse\<close> and the base64url codec of the platform as parameters (\<open>CursorCodec\<close>), of which
  they need only that reading undoes printing (\<open>codec_ok\<close>); \<open>jsonParse\<close> shows that such a codec
  exists and computes. It reads the texts \<open>stringify\<close> prints: no white space, and numbers
  kept as they are spelled.
\<close>

subsection \<open>The reader\<close>

fun read_str :: "nat \<Rightarrow> string \<Rightarrow> (string \<times> string) option" where
  "read_str 0 s = None"
| "read_str (Suc n) [] = None"
| "read_str (Suc n) (c # r) =
     (if c = CHR 0x22 then Some ([], r)
      else let (d, r') = unescape_one (c # r) in
        map_option (\<lambda>(x, y). (d # x, y)) (read_str n r'))"

definition read_int :: "string \<Rightarrow> int" where
  "read_int s = (case s of c # r \<Rightarrow> if c = CHR ''-'' then - int (read_nat r) else int (read_nat s) | [] \<Rightarrow> 0)"

definition read_num :: "string \<Rightarrow> jval" where
  "read_num s = (if CHR ''.'' \<in> set s \<or> CHR ''e'' \<in> set s then JFrac s else JInt (read_int s))"

text \<open>A literal and what follows it.\<close>

definition read_lit :: "string \<Rightarrow> jval \<Rightarrow> string \<Rightarrow> (jval \<times> string) option" where
  "read_lit l v s = (if take (length l) s = l then Some (v, drop (length l) s) else None)"

fun read_value :: "nat \<Rightarrow> string \<Rightarrow> (jval \<times> string) option"
  and read_elems :: "nat \<Rightarrow> string \<Rightarrow> (jval list \<times> string) option"
  and read_fields :: "nat \<Rightarrow> string \<Rightarrow> ((string \<times> jval) list \<times> string) option"
where
  "read_value 0 s = None"
| "read_value (Suc n) [] = None"
| "read_value (Suc n) (c # r) =
     (if c = CHR 0x22 then map_option (\<lambda>(x, y). (JStr x, y)) (read_str n r)
      else if c = CHR ''['' then
        (if take 1 r = '']'' then Some (JArr [], drop 1 r)
         else map_option (\<lambda>(x, y). (JArr x, y)) (read_elems n r))
      else if c = CHR ''{'' then
        (if take 1 r = ''}'' then Some (JObj [], drop 1 r)
         else map_option (\<lambda>(x, y). (JObj x, y)) (read_fields n r))
      else if c = CHR ''n'' then read_lit ''null'' JNull (c # r)
      else if c = CHR ''t'' then read_lit ''true'' (JBool True) (c # r)
      else if c = CHR ''f'' then read_lit ''false'' (JBool False) (c # r)
      else if num_char c then Some (read_num (takeWhile num_char (c # r)), dropWhile num_char (c # r))
      else None)"
| "read_elems 0 s = None"
| "read_elems (Suc n) s =
     (case read_value n s of
        None \<Rightarrow> None
      | Some (v, r) \<Rightarrow>
          if take 1 r = '']'' then Some ([v], drop 1 r)
          else if take 1 r = '','' then map_option (\<lambda>(x, y). (v # x, y)) (read_elems n (drop 1 r))
          else None)"
| "read_fields 0 s = None"
| "read_fields (Suc n) [] = None"
| "read_fields (Suc n) (c # s) =
     (if c \<noteq> CHR 0x22 then None else
      case read_str n s of
        None \<Rightarrow> None
      | Some (k, r0) \<Rightarrow>
          if take 1 r0 \<noteq> '':'' then None else
          (case read_value n (drop 1 r0) of
             None \<Rightarrow> None
           | Some (v, r) \<Rightarrow>
               if take 1 r = ''}'' then Some ([(k, v)], drop 1 r)
               else if take 1 r = '','' then map_option (\<lambda>(x, y). ((k, v) # x, y)) (read_fields n (drop 1 r))
               else None))"

definition jsonParse :: "string \<Rightarrow> jval option" where
  "jsonParse s = (case read_value (Suc (length s)) s of Some (v, []) \<Rightarrow> Some v | _ \<Rightarrow> None)"

subsection \<open>Reading undoes printing\<close>

lemma read_str_quoted:
  assumes "length (concat (map esc_char s)) < n"
  shows "read_str n (concat (map esc_char s) @ CHR 0x22 # r) = Some (s, r)"
  using assms
proof (induction s arbitrary: n)
  case Nil
  then obtain m where "n = Suc m" by (cases n) auto
  then show ?case by simp
next
  case (Cons c s)
  obtain m where n: "n = Suc m" using Cons.prems by (cases n) auto
  obtain h t where ht: "esc_char c = h # t" by (cases "esc_char c") auto
  have u: "unescape_one (h # t @ concat (map esc_char s) @ CHR 0x22 # r) =
      (c, concat (map esc_char s) @ CHR 0x22 # r)"
    using unescape_one_esc [of c "concat (map esc_char s) @ CHR 0x22 # r"] ht by simp
  have "length (concat (map esc_char s)) < m" using Cons.prems ht n by simp
  then show ?case using Cons.IH esc_char_hd [OF ht] by (simp add: n ht u del: unescape_one.simps)
qed

lemma read_int_show [simp]: "read_int (show_int i) = i"
proof (cases "i < 0")
  case True
  then show ?thesis by (simp add: read_int_def show_int_def)
next
  case False
  obtain c r where cr: "show_nat (nat i) = c # r" by (cases "show_nat (nat i)") auto
  then have "is_digit c" by (rule show_nat_hd_digit)
  then have "c \<noteq> CHR ''-''" by auto
  with False cr read_show_nat [of "nat i"] show ?thesis by (simp add: read_int_def show_int_def)
qed

lemma read_num_text:
  assumes "wf_json v" and "kind_of v = 4"
  shows "read_num (stringify v) = v"
  using assms by (cases v) (auto simp: kind_of_def read_num_def split: if_splits)

lemma num_text_chars:
  assumes "wf_json v" and "kind_of v = 4"
  shows "\<forall>c\<in>set (stringify v). num_char c"
  using assms show_int_num_char by (cases v) (auto simp: kind_of_def split: if_splits)

lemma delim_not_num: "delim r \<Longrightarrow> takeWhile num_char r = [] \<and> dropWhile num_char r = r"
  by (cases r) (auto simp: delim_def num_char_def is_digit_def)

lemma read_num_value:
  assumes v: "wf_json v" "kind_of v = 4" and "delim r" and "0 < n"
  shows "read_value n (stringify v @ r) = Some (v, r)"
proof -
  obtain h t where ht: "stringify v = h # t" using stringify_ne v(1) by blast
  have num: "\<forall>c\<in>set (stringify v). num_char c" using num_text_chars v by blast
  then have h: "num_char h" using ht by simp
  have cut: "takeWhile num_char (h # t @ r) = h # t" "dropWhile num_char (h # t @ r) = r"
    using num delim_not_num [OF \<open>delim r\<close>] ht by (simp_all add: takeWhile_append dropWhile_append)
  have "h \<noteq> CHR 0x22 \<and> h \<noteq> CHR ''['' \<and> h \<noteq> CHR ''{'' \<and> h \<noteq> CHR ''n'' \<and> h \<noteq> CHR ''t'' \<and> h \<noteq> CHR ''f''"
    using h by (auto simp: num_char_def is_digit_def)
  moreover obtain m where "n = Suc m" using \<open>0 < n\<close> by (cases n) auto
  ultimately show ?thesis
    using h cut read_num_text [OF v] by (simp add: ht del: takeWhile.simps dropWhile.simps)
qed

definition reads :: "jval \<Rightarrow> bool" where
  "reads v \<longleftrightarrow> (\<forall>n r. length (stringify v) < n \<longrightarrow> delim r \<longrightarrow> read_value n (stringify v @ r) = Some (v, r))"

lemma read_elems_join:
  assumes "xs \<noteq> []" and "\<forall>x\<in>set xs. reads x" and "length (join (map stringify xs)) + 1 < n"
  shows "read_elems n (join (map stringify xs) @ CHR '']'' # r) = Some (xs, r)"
  using assms
proof (induction xs arbitrary: n)
  case (Cons x xs)
  obtain m where n: "n = Suc m" using Cons.prems(3) by (cases n) auto
  show ?case
  proof (cases "xs = []")
    case True
    have "read_value m (stringify x @ CHR '']'' # r) = Some (x, CHR '']'' # r)"
      using Cons.prems(2,3) True n by (auto simp: reads_def delim_def)
    with True n show ?thesis by simp
  next
    case False
    have "read_value m (stringify x @ CHR '','' # join (map stringify xs) @ CHR '']'' # r)
        = Some (x, CHR '','' # join (map stringify xs) @ CHR '']'' # r)"
      using Cons.prems(2,3) False n by (auto simp: reads_def delim_def join_Cons)
    moreover have "read_elems m (join (map stringify xs) @ CHR '']'' # r) = Some (xs, r)"
      using Cons.prems(2,3) False n by (intro Cons.IH) (auto simp: join_Cons)
    ultimately show ?thesis using False n by (simp add: join_Cons)
  qed
qed simp

lemma read_fields_join:
  assumes "kvs \<noteq> []" and "\<forall>p\<in>set kvs. reads (snd p)" and "length (join (map entry_text kvs)) + 1 < n"
  shows "read_fields n (join (map entry_text kvs) @ CHR ''}'' # r) = Some (kvs, r)"
  using assms
proof (induction kvs arbitrary: n)
  case (Cons p kvs)
  obtain m where n: "n = Suc m" using Cons.prems(3) by (cases n) auto
  obtain k v where p: "p = (k, v)" by (cases p)
  let ?body = "concat (map esc_char k)"
  have key: "read_str m (?body @ CHR 0x22 # z) = Some (k, z)" for z
    using Cons.prems(3) n p by (intro read_str_quoted) (auto simp: join_Cons entry_text_def quote_def split: if_splits)
  have etxt: "entry_text (k, v) @ z = CHR 0x22 # ?body @ CHR 0x22 # CHR '':'' # stringify v @ z" for z
    by (simp add: entry_text_def quote_def)
  have val: "read_value m (stringify v @ z) = Some (v, z)" if "delim z" for z
    using Cons.prems(2,3) n p that
    by (auto simp: reads_def join_Cons entry_text_def quote_def split: if_splits)
  show ?case
  proof (cases "kvs = []")
    case True
    with n p show ?thesis by (simp add: etxt key val delim_def)
  next
    case False
    have "read_fields m (join (map entry_text kvs) @ CHR ''}'' # r) = Some (kvs, r)"
      using Cons.prems(2,3) False n by (intro Cons.IH) (auto simp: join_Cons)
    with False n p show ?thesis by (simp add: join_Cons etxt key val delim_def)
  qed
qed simp

lemma stringify_reads: "sound_json v \<Longrightarrow> reads v"
proof (induction v)
  case (JArr xs)
  have els: "\<forall>x\<in>set xs. reads x" using JArr by auto
  show ?case unfolding reads_def
  proof (intro allI impI)
    fix n r assume n: "length (stringify (JArr xs)) < n" and "delim r"
    obtain m where m: "n = Suc m" using n by (cases n) auto
    show "read_value n (stringify (JArr xs) @ r) = Some (JArr xs, r)"
    proof (cases "xs = []")
      case True with m show ?thesis by simp
    next
      case False
      have "take 1 (join (map stringify xs) @ CHR '']'' # r) \<noteq> '']''"
      proof -
        obtain x ys where xs: "xs = x # ys" using False by (cases xs) auto
        then obtain h t where "stringify x = h # t" using stringify_ne JArr.prems by fastforce
        moreover have "\<not> delim (h # t)" using stringify_starts calculation JArr.prems xs by fastforce
        ultimately show ?thesis by (auto simp: xs join_Cons delim_def)
      qed
      moreover have "read_elems m (join (map stringify xs) @ CHR '']'' # r) = Some (xs, r)"
        using False els n m JArr.prems by (intro read_elems_join) (auto simp: stringify_arr simp del: stringify.simps)
      ultimately show ?thesis
        using m JArr.prems by (simp add: stringify_arr del: stringify.simps)
    qed
  qed
next
  case (JObj kvs)
  have els: "\<forall>p\<in>set kvs. reads (snd p)"
  proof
    fix p assume p: "p \<in> set kvs"
    show "reads (snd p)"
      using JObj.IH [OF p, of "snd p"] sound_json_entry [OF JObj.prems p] by (cases p) auto
  qed
  show ?case unfolding reads_def
  proof (intro allI impI)
    fix n r assume n: "length (stringify (JObj kvs)) < n" and "delim r"
    obtain m where m: "n = Suc m" using n by (cases n) auto
    show "read_value n (stringify (JObj kvs) @ r) = Some (JObj kvs, r)"
    proof (cases "kvs = []")
      case True with m show ?thesis by simp
    next
      case False
      have "take 1 (join (map entry_text kvs) @ CHR ''}'' # r) \<noteq> ''}''"
        using False by (cases kvs) (auto simp: join_Cons entry_text_def quote_def)
      moreover have "read_fields m (join (map entry_text kvs) @ CHR ''}'' # r) = Some (kvs, r)"
        using False els n m JObj.prems by (intro read_fields_join) (auto simp: stringify_obj simp del: stringify.simps)
      ultimately show ?thesis
        using m JObj.prems by (simp add: stringify_obj del: stringify.simps)
    qed
  qed
next
  case (JStr s)
  show ?case unfolding reads_def
  proof (intro allI impI)
    fix n r assume n: "length (stringify (JStr s)) < n" and "delim r"
    obtain m where m: "n = Suc m" using n by (cases n) auto
    have "read_str m (concat (map esc_char s) @ CHR 0x22 # r) = Some (s, r)"
      using n m by (intro read_str_quoted) (auto simp: quote_def)
    with m show "read_value n (stringify (JStr s) @ r) = Some (JStr s, r)" by (simp add: quote_def)
  qed
next
  case (JBool b)
  show ?case unfolding reads_def
  proof (intro allI impI)
    fix n r assume n: "length (stringify (JBool b)) < n" and "delim r"
    obtain m where m: "n = Suc m" using n by (cases n) auto
    show "read_value n (stringify (JBool b) @ r) = Some (JBool b, r)"
      by (cases b) (simp_all add: m read_lit_def)
  qed
next
  case JNull
  show ?case unfolding reads_def
  proof (intro allI impI)
    fix n r assume n: "length (stringify JNull) < n" and "delim r"
    obtain m where m: "n = Suc m" using n by (cases n) auto
    show "read_value n (stringify JNull @ r) = Some (JNull, r)" by (simp add: m read_lit_def)
  qed
qed (auto simp: reads_def kind_of_def intro!: read_num_value simp del: stringify.simps)

theorem jsonParse_stringify: "sound_json v \<Longrightarrow> jsonParse (stringify v) = Some v"
  using stringify_reads [of v] unfolding reads_def
  by (auto simp: jsonParse_def delim_def dest!: spec [of _ "Suc (length (stringify v))"] dest: spec [of _ "[]"]
      simp del: read_value.simps stringify.simps)

end
