(* ===== verification/Seek.thy ===== *)
theory Seek
  imports Json
begin

text \<open>
  Seek-based pagination in general: a comparator built field by field, the scan for the first
  row after a sort tuple (\<open>findSeekStartIndex\<close> of services/ocr-persistence/src/inMemoryRepo.ts),
  and the contract \<open>seek_order\<close> between a comparator and its after-cursor test, under which
  following the cursors enumerates every row once.
\<close>

subsection \<open>Comparators field by field\<close>

lemma total_preorder_asc:
  fixes f :: "'a \<Rightarrow> 'b::linorder"
  assumes "total_preorder_on A le"
  shows "total_preorder_on A (\<lambda>a b. if f a < f b then True else if f b < f a then False else le a b)"
  using assms unfolding total_preorder_on_def by (smt (verit) less_linear order.strict_trans)

lemma total_preorder_desc:
  fixes f :: "'a \<Rightarrow> 'b::linorder"
  assumes "total_preorder_on A le"
  shows "total_preorder_on A (\<lambda>a b. if f b < f a then True else if f a < f b then False else le a b)"
  using assms unfolding total_preorder_on_def by (smt (verit) less_linear order.strict_trans)

lemma total_preorder_True: "total_preorder_on A (\<lambda>a b. True)"
  by (simp add: total_preorder_on_def)

lemma total_preorder_cong:
  "total_preorder_on A le \<Longrightarrow> (\<And>x y. x \<in> A \<Longrightarrow> y \<in> A \<Longrightarrow> le' x y = le x y) \<Longrightarrow> total_preorder_on A le'"
  unfolding total_preorder_on_def by blast

subsection \<open>The scan\<close>

fun findSeekStartIndex :: "'a list \<Rightarrow> jval list \<Rightarrow> ('a \<Rightarrow> jval list \<Rightarrow> bool) \<Rightarrow> nat" where
  "findSeekStartIndex [] tuple isAfter = 0"
| "findSeekStartIndex (r # rs) tuple isAfter =
     (if isAfter r tuple then 0 else Suc (findSeekStartIndex rs tuple isAfter))"

lemma findSeekStartIndex_first:
  assumes "n \<le> length rows" and "\<forall>i<n. \<not> isAfter (rows ! i) t"
    and "n < length rows \<Longrightarrow> isAfter (rows ! n) t"
  shows "findSeekStartIndex rows t isAfter = n"
  using assms
proof (induction rows arbitrary: n)
  case (Cons r rows)
  show ?case
  proof (cases n)
    case 0
    with Cons.prems show ?thesis by simp
  next
    case (Suc m)
    with Cons.prems have "findSeekStartIndex rows t isAfter = m" by (intro Cons.IH) auto
    moreover have "\<not> isAfter r t" using Cons.prems(2) Suc by auto
    ultimately show ?thesis using Suc by simp
  qed
qed simp

subsection \<open>Following the cursors\<close>

text \<open>A client that passes each page's \<open>next_cursor\<close> to the next call until there is none.\<close>

fun followCursors ::
  "nat \<Rightarrow> (string option \<Rightarrow> 'e + ('r list \<times> string option)) \<Rightarrow> string option \<Rightarrow> 'r list option" where
  "followCursors 0 page c = None"
| "followCursors (Suc n) page c =
     (case page c of
        Inl _ \<Rightarrow> None
      | Inr (rows, None) \<Rightarrow> Some rows
      | Inr (rows, Some c') \<Rightarrow> map_option (\<lambda>more. rows @ more) (followCursors n page (Some c')))"

definition page_at :: "'r list \<Rightarrow> nat \<Rightarrow> ('r \<Rightarrow> string) \<Rightarrow> nat \<Rightarrow> 'r list \<times> string option" where
  "page_at rows limit cursor start =
     (let slice = take limit (drop start rows) in
      (slice, if start + limit < length rows \<and> slice \<noteq> [] then Some (cursor (last slice)) else None))"

lemma followCursors_complete:
  assumes first: "page None = Inr (page_at rows limit cursor 0)"
    and next_page: "\<And>k. k < length rows \<Longrightarrow> page (Some (cursor (rows ! k))) = Inr (page_at rows limit cursor (Suc k))"
    and limit: "1 \<le> limit"
  shows "followCursors (Suc (length rows)) page None = Some rows"
proof -
  have "followCursors n page c = Some (drop s rows)"
    if "page c = Inr (page_at rows limit cursor s)" "length rows - s < n" for n c s
    using that
  proof (induction n arbitrary: c s)
    case (Suc n)
    show ?case
    proof (cases "s + limit < length rows")
      case False
      then have "take limit (drop s rows) = drop s rows" by simp
      with False Suc.prems(1) show ?thesis by (simp add: page_at_def Let_def)
    next
      case True
      let ?slice = "take limit (drop s rows)"
      have ne: "?slice \<noteq> []" using True limit by auto
      have last: "last ?slice = rows ! (s + limit - 1)"
        using True limit ne by (simp add: last_conv_nth)
      have "page (Some (cursor (last ?slice))) = Inr (page_at rows limit cursor (s + limit))"
        using next_page [of "s + limit - 1"] True limit by (simp add: last)
      then have "followCursors n page (Some (cursor (last ?slice))) = Some (drop (s + limit) rows)"
        using Suc.IH Suc.prems(2) True limit by simp
      moreover have "?slice @ drop (s + limit) rows = drop s rows"
        by (metis add.commute append_take_drop_id drop_drop)
      ultimately show ?thesis using Suc.prems(1) True ne by (simp add: page_at_def Let_def)
    qed
  qed simp
  from this [OF first, of "Suc (length rows)"] show ?thesis by simp
qed

subsection \<open>The contract of a comparator and its cursor test\<close>

locale seek_order =
  fixes ok :: "'r list \<Rightarrow> bool"
    and le :: "'r \<Rightarrow> 'r \<Rightarrow> bool"
    and after :: "'r \<Rightarrow> jval list \<Rightarrow> bool"
    and tup :: "'r \<Rightarrow> jval list"
  assumes le_total: "ok raw \<Longrightarrow> total_preorder_on (set raw) le"
    and le_antisym: "ok raw \<Longrightarrow> x \<in> set raw \<Longrightarrow> y \<in> set raw \<Longrightarrow> le x y \<Longrightarrow> le y x \<Longrightarrow> x = y"
    and after_iff: "ok raw \<Longrightarrow> x \<in> set raw \<Longrightarrow> y \<in> set raw \<Longrightarrow> after x (tup y) \<longleftrightarrow> \<not> le x y"
    and ok_distinct: "ok raw \<Longrightarrow> distinct raw"
begin

lemma seek_next:
  assumes ok: "ok raw" and k: "k < length (sort_by le raw)"
  shows "findSeekStartIndex (sort_by le raw) (tup (sort_by le raw ! k)) after = Suc k"
proof -
  define rows where "rows = sort_by le raw"
  have set: "set rows = set raw" by (simp add: rows_def)
  have sorted: "sorted_wrt le rows" unfolding rows_def
    by (rule sorted_wrt_sort_by [OF le_total [OF ok]])
  have dist: "distinct rows" using ok_distinct [OF ok] by (simp add: rows_def)
  have after: "after x (tup y) \<longleftrightarrow> \<not> le x y" if "x \<in> set rows" "y \<in> set rows" for x y
    using after_iff [OF ok] that set by simp
  have refl: "le x x" if "x \<in> set rows" for x
    using le_total [OF ok] that set unfolding total_preorder_on_def by blast
  have k': "k < length rows" using k by (simp add: rows_def)
  have "findSeekStartIndex rows (tup (rows ! k)) after = Suc k"
  proof (rule findSeekStartIndex_first)
    show "\<forall>i<Suc k. \<not> after (rows ! i) (tup (rows ! k))"
    proof (intro allI impI)
      fix i assume "i < Suc k"
      then have "le (rows ! i) (rows ! k)"
        using sorted k' refl by (cases "i = k") (auto simp: sorted_wrt_iff_nth_less)
      then show "\<not> after (rows ! i) (tup (rows ! k))" using after \<open>i < Suc k\<close> k' by simp
    qed
  next
    assume n: "Suc k < length rows"
    have le: "le (rows ! k) (rows ! Suc k)" using sorted n by (simp add: sorted_wrt_iff_nth_less)
    have "rows ! k \<noteq> rows ! Suc k" using dist n by (simp add: nth_eq_iff_index_eq)
    then have "\<not> le (rows ! Suc k) (rows ! k)"
      using le_antisym [OF ok, of "rows ! k" "rows ! Suc k"] le n k' set nth_mem by metis
    then show "after (rows ! Suc k) (tup (rows ! k))" using after n by simp
  qed (use k' in simp)
  then show ?thesis by (simp add: rows_def)
qed

end

end
