(* ===== verification/OcrPaging.thy ===== *)
theory OcrPaging
  imports OcrStore JsonParse Seek
begin

text \<open>
  Cursor pagination: services/ocr-persistence/src/cursor.ts and the two list operations of
  inMemoryRepo.ts (\<open>listOcrJobsByDocument\<close>, \<open>listOcrReviewPageRows\<close>). SHA-256, base64url and
  \<open>JSON.parse\<close> are the platform's, a parameter \<open>CursorCodec\<close>; \<open>codec_ok\<close> is what the code
  relies on. The result is that following \<open>next_cursor\<close> from the first page yields every
  matching row exactly once, in the documented order.
\<close>

subsection \<open>Cursors\<close>

datatype OcrCursorKind = JobsByDocument | ReviewPages

fun cursor_kind_str :: "OcrCursorKind \<Rightarrow> string" where
  "cursor_kind_str JobsByDocument = ''jobs_by_document''"
| "cursor_kind_str ReviewPages = ''review_pages''"

record CursorCodec =
  cc_sha256 :: "string \<Rightarrow> string"
  cc_toBase64url :: "string \<Rightarrow> string"
  cc_fromBase64url :: "string \<Rightarrow> string"
  cc_parse :: "string \<Rightarrow> jval option"

definition codec_ok :: "CursorCodec \<Rightarrow> bool" where
  "codec_ok C \<longleftrightarrow>
     (\<forall>s. cc_fromBase64url C (cc_toBase64url C s) = s) \<and> (\<forall>s. s \<noteq> [] \<longrightarrow> cc_toBase64url C s \<noteq> []) \<and>
     (\<forall>v. sound_json v \<longrightarrow> cc_parse C (stringify v) = Some v)"

definition DEFAULT_LIMIT :: int where "DEFAULT_LIMIT = 50"

definition MAX_LIMIT :: int where "MAX_LIMIT = 200"

definition resolveLimit :: "jval \<Rightarrow> string + int" where
  "resolveLimit limit =
     (if limit = JUndef then Inr DEFAULT_LIMIT
      else case limit of
        JInt i \<Rightarrow>
          if i \<le> 0 then Inl (''invalid limit: '' @ js_String limit @ '' (must be > 0)'')
          else if i > MAX_LIMIT
          then Inl (''invalid limit: '' @ js_String limit @ '' (max '' @ show_int MAX_LIMIT @ '')'')
          else Inr i
      | JFrac _ \<Rightarrow> Inl (''invalid limit: '' @ js_String limit @ '' (not an integer)'')
      | _ \<Rightarrow> Inl (''invalid limit: '' @ js_String limit))"

lemma resolveLimit_bounds: "resolveLimit limit = Inr l \<Longrightarrow> 1 \<le> l \<and> l \<le> MAX_LIMIT"
  by (auto simp: resolveLimit_def DEFAULT_LIMIT_def MAX_LIMIT_def split: if_splits jval.splits)

definition computeFiltersHash :: "CursorCodec \<Rightarrow> (string \<times> jval) list \<Rightarrow> string" where
  "computeFiltersHash C filters =
     cc_sha256 C (stringify (JObj (filter (\<lambda>(k, v). v \<noteq> JUndef) (sort_key fst filters))))"

definition cursor_payload :: "OcrCursorKind \<Rightarrow> string \<Rightarrow> jval list \<Rightarrow> jval" where
  "cursor_payload kind filters_hash last_sort_tuple = JObj
     [(''v'', JInt 1), (''kind'', JStr (cursor_kind_str kind)),
      (''filters_hash'', JStr filters_hash), (''last_sort_tuple'', JArr last_sort_tuple)]"

definition encodeCursor :: "CursorCodec \<Rightarrow> jval \<Rightarrow> string" where
  "encodeCursor C payload = cc_toBase64url C (stringify payload)"

definition decodeCursor :: "CursorCodec \<Rightarrow> string \<Rightarrow> OcrCursorKind \<Rightarrow> string \<Rightarrow> string + jval list" where
  "decodeCursor C cursor kind filters_hash =
     (if cursor = [] then Inl ''malformed cursor: not a non-empty string''
      else let json = cc_fromBase64url C cursor in
      case cc_parse C json of None \<Rightarrow> Inl ''malformed cursor: bad JSON'' | Some p \<Rightarrow>
      if \<not> is_object p then Inl ''malformed cursor: not an object''
      else if jget p ''v'' \<noteq> JInt 1
      then Inl (''malformed cursor: unsupported version '' @ js_String (jget p ''v''))
      else if jget p ''kind'' \<noteq> JStr ''jobs_by_document'' \<and> jget p ''kind'' \<noteq> JStr ''review_pages''
      then Inl (''malformed cursor: invalid kind '' @ js_String (jget p ''kind''))
      else if jget p ''kind'' \<noteq> JStr (cursor_kind_str kind)
      then Inl (''wrong-kind cursor: expected '' @ cursor_kind_str kind @ '', got '' @ js_String (jget p ''kind''))
      else if jstr (jget p ''filters_hash'') = None
      then Inl ''malformed cursor: filters_hash not a string''
      else if jget p ''filters_hash'' \<noteq> JStr filters_hash
      then Inl ''cursor filters_hash does not match current query filters''
      else (case jget p ''last_sort_tuple'' of
              JArr tuple \<Rightarrow> Inr tuple
            | _ \<Rightarrow> Inl ''malformed cursor: last_sort_tuple not an array''))"

text \<open>A cursor decodes to its tuple for the query it was issued for, and for no other kind or
  filter set.\<close>

lemma decode_encode:
  assumes "codec_ok C" and "\<forall>x\<in>set tuple. sound_json x"
  shows "decodeCursor C (encodeCursor C (cursor_payload k h tuple)) k' h' =
    (if k' \<noteq> k then Inl (''wrong-kind cursor: expected '' @ cursor_kind_str k' @ '', got '' @ cursor_kind_str k)
     else if h' \<noteq> h then Inl ''cursor filters_hash does not match current query filters''
     else Inr tuple)"
proof -
  define p where "p = cursor_payload k h tuple"
  have "sound_json p" using assms(2) by (simp add: p_def cursor_payload_def)
  then have parse: "cc_parse C (stringify p) = Some p" using assms(1) by (simp add: codec_ok_def)
  have fields: "is_object p" "jget p ''v'' = JInt 1" "jget p ''kind'' = JStr (cursor_kind_str k)"
    "jget p ''filters_hash'' = JStr h" "jget p ''last_sort_tuple'' = JArr tuple"
    by (simp_all add: p_def cursor_payload_def is_object_def)
  have "stringify p \<noteq> []" by (simp add: p_def cursor_payload_def)
  then have wire: "encodeCursor C p \<noteq> []" "cc_fromBase64url C (encodeCursor C p) = stringify p"
    using assms(1) by (auto simp: codec_ok_def encodeCursor_def)
  show ?thesis unfolding p_def [symmetric]
    by (cases k; cases k') (simp_all add: decodeCursor_def wire parse fields)
qed

subsection \<open>Seeking\<close>

text \<open>JavaScript's \<open><\<close> on what a sort tuple holds: strings by code unit, integers by value;
  \<open>undefined\<close> compares as \<open>NaN\<close>.\<close>

fun js_less :: "jval \<Rightarrow> jval \<Rightarrow> bool" where
  "js_less (JStr a) (JStr b) = (a < b)"
| "js_less (JInt a) (JInt b) = (a < b)"
| "js_less _ _ = False"

definition jnth :: "jval list \<Rightarrow> nat \<Rightarrow> jval" where
  "jnth xs i = (if i < length xs then xs ! i else JUndef)"

definition jobSortTuple :: "OcrJobRecord \<Rightarrow> jval list" where
  "jobSortTuple job = [JStr (jr_created_at job), JStr (jr_job_id job)]"

definition jobAfterCursor :: "OcrJobRecord \<Rightarrow> jval list \<Rightarrow> bool" where
  "jobAfterCursor job tuple =
     (let tCreated = jnth tuple 0; tJobId = jnth tuple 1 in
      if js_less (JStr (jr_created_at job)) tCreated then True
      else if js_less tCreated (JStr (jr_created_at job)) then False
      else js_less tJobId (JStr (jr_job_id job)))"

type_synonym review_row = "OcrJobRecord \<times> OcrResultRecord"

abbreviation row_page_number :: "review_row \<Rightarrow> jval" where
  "row_page_number row \<equiv> jget (rr_result (snd row)) ''page_number''"

abbreviation row_page_id :: "review_row \<Rightarrow> jval" where
  "row_page_id row \<equiv> jget (rr_result (snd row)) ''page_id''"

definition reviewSortTuple :: "review_row \<Rightarrow> jval list" where
  "reviewSortTuple row =
     [JStr (rr_persisted_at (snd row)), JStr (jr_job_id (fst row)), row_page_number row, row_page_id row]"

definition reviewAfterCursor :: "review_row \<Rightarrow> jval list \<Rightarrow> bool" where
  "reviewAfterCursor row tuple =
     (let tPersisted = jnth tuple 0; tJobId = jnth tuple 1; tPageNumber = jnth tuple 2; tPageId = jnth tuple 3;
          persisted = JStr (rr_persisted_at (snd row)); jobId = JStr (jr_job_id (fst row)) in
      if js_less persisted tPersisted then True
      else if js_less tPersisted persisted then False
      else if js_less jobId tJobId then False
      else if js_less tJobId jobId then True
      else if js_less (row_page_number row) tPageNumber then False
      else if js_less tPageNumber (row_page_number row) then True
      else js_less tPageId (row_page_id row))"

subsection \<open>The list operations\<close>

record ListOcrJobsByDocumentQuery =
  jq_tenant_id :: jval
  jq_document_id :: jval
  jq_document_revision :: jval
  jq_limit :: jval
  jq_cursor :: "string option"

record ListOcrReviewPageRowsQuery =
  rq_tenant_id :: jval
  rq_document_id :: jval
  rq_document_revision :: jval
  rq_case_id :: jval
  rq_limit :: jval
  rq_cursor :: "string option"

text \<open>\<open>le a b\<close>: the comparator does not return a positive number on \<open>(a, b)\<close>.\<close>

definition job_le :: "OcrJobRecord \<Rightarrow> OcrJobRecord \<Rightarrow> bool" where
  "job_le a b =
     (if jr_created_at b < jr_created_at a then True
      else if jr_created_at a < jr_created_at b then False
      else if jr_job_id a < jr_job_id b then True
      else if jr_job_id b < jr_job_id a then False
      else True)"

definition review_le :: "review_row \<Rightarrow> review_row \<Rightarrow> bool" where
  "review_le a b =
     (if rr_persisted_at (snd b) < rr_persisted_at (snd a) then True
      else if rr_persisted_at (snd a) < rr_persisted_at (snd b) then False
      else if jr_job_id (fst a) < jr_job_id (fst b) then True
      else if jr_job_id (fst b) < jr_job_id (fst a) then False
      else if js_less (row_page_number a) (row_page_number b) then True
      else if js_less (row_page_number b) (row_page_number a) then False
      else if js_less (row_page_id a) (row_page_id b) then True
      else if js_less (row_page_id b) (row_page_id a) then False
      else True)"

definition job_matches :: "ListOcrJobsByDocumentQuery \<Rightarrow> OcrJobRecord \<Rightarrow> bool" where
  "job_matches q job \<longleftrightarrow>
     jr_tenant_id job = jq_tenant_id q \<and> jr_document_id job = jq_document_id q \<and>
     (jq_document_revision q \<noteq> JUndef \<longrightarrow> jr_document_revision job = jq_document_revision q)"

definition sorted_jobs :: "ListOcrJobsByDocumentQuery \<Rightarrow> InMemoryOcrPersistence \<Rightarrow> OcrJobRecord list" where
  "sorted_jobs q p = sort_by job_le (filter (job_matches q) (mvals (p_jobs p)))"

definition listOcrJobsByDocument ::
  "CursorCodec \<Rightarrow> ListOcrJobsByDocumentQuery \<Rightarrow> InMemoryOcrPersistence \<Rightarrow> string + (OcrJobRecord list \<times> string option)" where
  "listOcrJobsByDocument C q p =
     (case resolveLimit (jq_limit q) of Inl e \<Rightarrow> Inl e | Inr lim \<Rightarrow>
      let limit = nat lim;
          filters_hash = computeFiltersHash C
            [(''tenant_id'', jq_tenant_id q), (''document_id'', jq_document_id q),
             (''document_revision'', jq_document_revision q)] in
      case (case jq_cursor q of None \<Rightarrow> Inr None
            | Some c \<Rightarrow> (case decodeCursor C c JobsByDocument filters_hash of Inl e \<Rightarrow> Inl e | Inr t \<Rightarrow> Inr (Some t))) of
        Inl e \<Rightarrow> Inl e
      | Inr cursor \<Rightarrow>
          (let matched = sorted_jobs q p;
               startIdx = (case cursor of None \<Rightarrow> 0 | Some t \<Rightarrow> findSeekStartIndex matched t jobAfterCursor);
               slice = take limit (drop startIdx matched);
               hasMore = startIdx + limit < length matched in
           Inr (slice,
                if hasMore \<and> slice \<noteq> []
                then Some (encodeCursor C (cursor_payload JobsByDocument filters_hash (jobSortTuple (last slice))))
                else None)))"

definition review_job_matches :: "ListOcrReviewPageRowsQuery \<Rightarrow> OcrJobRecord \<Rightarrow> bool" where
  "review_job_matches q job \<longleftrightarrow>
     jr_tenant_id job = rq_tenant_id q \<and>
     (rq_document_id q \<noteq> JUndef \<longrightarrow> jr_document_id job = rq_document_id q) \<and>
     (rq_document_revision q \<noteq> JUndef \<longrightarrow> jr_document_revision job = rq_document_revision q) \<and>
     (rq_case_id q \<noteq> JUndef \<longrightarrow> jr_case_id job = rq_case_id q)"

definition needs_review :: "OcrResultRecord \<Rightarrow> bool" where
  "needs_review r \<longleftrightarrow> jget (jget (rr_result r) ''review'') ''manual_review_recommended'' = JBool True"

definition sorted_review_rows :: "ListOcrReviewPageRowsQuery \<Rightarrow> InMemoryOcrPersistence \<Rightarrow> review_row list" where
  "sorted_review_rows q p = sort_by review_le
     (concat (map (\<lambda>job. map (\<lambda>r. (job, r)) (filter needs_review (results_of p (jr_job_id job))))
                  (filter (review_job_matches q) (mvals (p_jobs p)))))"

definition listOcrReviewPageRows ::
  "CursorCodec \<Rightarrow> ListOcrReviewPageRowsQuery \<Rightarrow> InMemoryOcrPersistence \<Rightarrow> string + (review_row list \<times> string option)" where
  "listOcrReviewPageRows C q p =
     (case resolveLimit (rq_limit q) of Inl e \<Rightarrow> Inl e | Inr lim \<Rightarrow>
      let limit = nat lim;
          filters_hash = computeFiltersHash C
            [(''tenant_id'', rq_tenant_id q), (''document_id'', rq_document_id q),
             (''document_revision'', rq_document_revision q), (''case_id'', rq_case_id q)] in
      case (case rq_cursor q of None \<Rightarrow> Inr None
            | Some c \<Rightarrow> (case decodeCursor C c ReviewPages filters_hash of Inl e \<Rightarrow> Inl e | Inr t \<Rightarrow> Inr (Some t))) of
        Inl e \<Rightarrow> Inl e
      | Inr cursor \<Rightarrow>
          (let matched = sorted_review_rows q p;
               startIdx = (case cursor of None \<Rightarrow> 0 | Some t \<Rightarrow> findSeekStartIndex matched t reviewAfterCursor);
               slice = take limit (drop startIdx matched);
               hasMore = startIdx + limit < length matched in
           Inr (slice,
                if hasMore \<and> slice \<noteq> []
                then Some (encodeCursor C (cursor_payload ReviewPages filters_hash (reviewSortTuple (last slice))))
                else None)))"

subsection \<open>Both orders meet the contract\<close>

lemma job_le_total: "total_preorder_on A job_le"
  by (rule total_preorder_cong [OF total_preorder_desc [OF total_preorder_asc [OF total_preorder_True]]])
     (simp add: job_le_def)

interpretation job_seek: seek_order "\<lambda>raw. distinct (map jr_job_id raw)" job_le jobAfterCursor jobSortTuple
proof (unfold_locales, goal_cases)
  case (1 raw)
  show ?case by (rule job_le_total)
next
  case (2 raw x y)
  have "jr_job_id x = jr_job_id y" using 2(4,5) by (auto simp: job_le_def split: if_splits)
  with 2(1-3) show ?case by (simp add: distinct_map inj_on_def)
next
  case (3 raw x y)
  show ?case
    by (auto simp: jobAfterCursor_def jobSortTuple_def jnth_def job_le_def Let_def)
next
  case (4 raw)
  then show ?case by (simp add: distinct_map)
qed

definition review_rows_ok :: "review_row list \<Rightarrow> bool" where
  "review_rows_ok raw \<longleftrightarrow> distinct raw \<and>
     (\<forall>x\<in>set raw. \<exists>n i. row_page_number x = JInt n \<and> row_page_id x = JStr i) \<and>
     (\<forall>x\<in>set raw. \<forall>y\<in>set raw. jr_job_id (fst x) = jr_job_id (fst y) \<longrightarrow> row_page_id x = row_page_id y \<longrightarrow> x = y)"

lemma review_rows_ok_page:
  "review_rows_ok raw \<Longrightarrow> x \<in> set raw \<Longrightarrow> \<exists>n i. row_page_number x = JInt n \<and> row_page_id x = JStr i"
  unfolding review_rows_ok_def by blast

lemma review_le_keys:
  assumes "row_page_number x = JInt n" "row_page_id x = JStr a" "row_page_number y = JInt m" "row_page_id y = JStr b"
  shows "review_le x y =
    (if rr_persisted_at (snd y) < rr_persisted_at (snd x) then True
     else if rr_persisted_at (snd x) < rr_persisted_at (snd y) then False
     else if jr_job_id (fst x) < jr_job_id (fst y) then True
     else if jr_job_id (fst y) < jr_job_id (fst x) then False
     else if int_of (row_page_number x) < int_of (row_page_number y) then True
     else if int_of (row_page_number y) < int_of (row_page_number x) then False
     else if js_key (row_page_id x) < js_key (row_page_id y) then True
     else if js_key (row_page_id y) < js_key (row_page_id x) then False
     else True)"
  unfolding review_le_def using assms by (simp add: js_key_def)

lemma review_le_total:
  assumes "review_rows_ok raw"
  shows "total_preorder_on (set raw) review_le"
proof (rule total_preorder_cong)
  show "total_preorder_on (set raw) (\<lambda>x y.
    (if rr_persisted_at (snd y) < rr_persisted_at (snd x) then True
     else if rr_persisted_at (snd x) < rr_persisted_at (snd y) then False
     else if jr_job_id (fst x) < jr_job_id (fst y) then True
     else if jr_job_id (fst y) < jr_job_id (fst x) then False
     else if int_of (row_page_number x) < int_of (row_page_number y) then True
     else if int_of (row_page_number y) < int_of (row_page_number x) then False
     else if js_key (row_page_id x) < js_key (row_page_id y) then True
     else if js_key (row_page_id y) < js_key (row_page_id x) then False
     else True))"
    by (intro total_preorder_desc total_preorder_asc total_preorder_True)
next
  fix x y assume "x \<in> set raw" "y \<in> set raw"
  with assms obtain n a m b where
    "row_page_number x = JInt n" "row_page_id x = JStr a" "row_page_number y = JInt m" "row_page_id y = JStr b"
    unfolding review_rows_ok_def by metis
  then show "review_le x y =
    (if rr_persisted_at (snd y) < rr_persisted_at (snd x) then True
     else if rr_persisted_at (snd x) < rr_persisted_at (snd y) then False
     else if jr_job_id (fst x) < jr_job_id (fst y) then True
     else if jr_job_id (fst y) < jr_job_id (fst x) then False
     else if int_of (row_page_number x) < int_of (row_page_number y) then True
     else if int_of (row_page_number y) < int_of (row_page_number x) then False
     else if js_key (row_page_id x) < js_key (row_page_id y) then True
     else if js_key (row_page_id y) < js_key (row_page_id x) then False
     else True)" by (rule review_le_keys)
qed

lemma review_le_antisym:
  assumes "review_rows_ok raw" "x \<in> set raw" "y \<in> set raw" "review_le x y" "review_le y x"
  shows "x = y"
proof -
  from assms(1-3) obtain n a m b where f:
    "row_page_number x = JInt n" "row_page_id x = JStr a" "row_page_number y = JInt m" "row_page_id y = JStr b"
    unfolding review_rows_ok_def by metis
  have "jr_job_id (fst x) = jr_job_id (fst y) \<and> a = b"
    using assms(4,5) f unfolding review_le_def by (auto split: if_splits)
  with f assms(1-3) show ?thesis unfolding review_rows_ok_def by metis
qed

interpretation review_seek: seek_order review_rows_ok review_le reviewAfterCursor reviewSortTuple
proof (unfold_locales, goal_cases)
  case (1 raw)
  then show ?case by (rule review_le_total)
next
  case (2 raw x y)
  then show ?case by (rule review_le_antisym)
next
  case (3 raw x y)
  then obtain n a m b where f:
    "row_page_number x = JInt n" "row_page_id x = JStr a" "row_page_number y = JInt m" "row_page_id y = JStr b"
    unfolding review_rows_ok_def by metis
  have nth: "jnth (reviewSortTuple y) 0 = JStr (rr_persisted_at (snd y))"
    "jnth (reviewSortTuple y) 1 = JStr (jr_job_id (fst y))"
    "jnth (reviewSortTuple y) 2 = JInt m" "jnth (reviewSortTuple y) 3 = JStr b"
    using f by (simp_all add: jnth_def reviewSortTuple_def numeral_2_eq_2 numeral_3_eq_3)
  show ?case
    unfolding reviewAfterCursor_def review_le_def nth Let_def f by auto
next
  case (4 raw)
  then show ?case by (simp add: review_rows_ok_def)
qed

subsection \<open>Pages of the store\<close>

lemma jobs_distinct_ids:
  assumes "store_inv V p"
  shows "distinct (map jr_job_id (filter P (mvals (p_jobs p))))"
proof -
  have "jr_job_id j = i" if "(i, j) \<in> set (p_jobs p)" for i j
    using that assms store_invD [OF assms, of i j] by (simp add: store_inv_def job_ok_def)
  then have "map jr_job_id (mvals (p_jobs p)) = mkeys (p_jobs p)"
    by (auto intro!: map_cong)
  moreover have "distinct (mkeys (p_jobs p))" using assms by (simp add: store_inv_def)
  ultimately show ?thesis by (simp only: distinct_map_filter)
qed

lemma stored_job:
  assumes "store_inv V p" and "job \<in> set (mvals (p_jobs p))"
  shows "mget (p_jobs p) (jr_job_id job) = Some job"
proof -
  obtain i where i: "(i, job) \<in> set (p_jobs p)" using assms(2) by auto
  then have g: "mget (p_jobs p) i = Some job" using assms(1) by (simp add: store_inv_def)
  with store_invD [OF assms(1) g] show ?thesis by (simp add: job_ok_def)
qed

text \<open>What the result schema says of page references.\<close>

definition result_schema :: "Validators \<Rightarrow> bool" where
  "result_schema V \<longleftrightarrow> (\<forall>r. v_result V r = None \<longrightarrow>
     (\<exists>n. jget r ''page_number'' = JInt n) \<and> (\<exists>i. jget r ''page_id'' = JStr i))"

abbreviation raw_review_rows :: "ListOcrReviewPageRowsQuery \<Rightarrow> InMemoryOcrPersistence \<Rightarrow> review_row list" where
  "raw_review_rows q p \<equiv> concat (map (\<lambda>job. map (\<lambda>r. (job, r)) (filter needs_review (results_of p (jr_job_id job))))
                  (filter (review_job_matches q) (mvals (p_jobs p))))"

lemma distinct_concat_pairs:
  "distinct xs \<Longrightarrow> (\<And>x. x \<in> set xs \<Longrightarrow> distinct (f x)) \<Longrightarrow> distinct (concat (map (\<lambda>x. map (Pair x) (f x)) xs))"
  by (induction xs) (auto simp: distinct_map inj_on_def)

lemma concat_pairs_member:
  "x \<in> set (concat (map (\<lambda>j. map (\<lambda>r. (j, r)) (filter P (g j))) xs)) \<Longrightarrow>
     fst x \<in> set xs \<and> snd x \<in> set (g (fst x))"
  by auto

lemma raw_review_row:
  assumes "x \<in> set (raw_review_rows q p)"
  shows "fst x \<in> set (mvals (p_jobs p))" and "snd x \<in> set (results_of p (jr_job_id (fst x)))"
  using concat_pairs_member [OF assms] by simp_all

lemma checkResult_schema: "checkResult V i job r = Inr u \<Longrightarrow> v_result V r = None"
  by (auto simp: checkResult_def split: option.splits)

lemma review_rows_of_store:
  assumes inv: "store_inv V p" and schema: "result_schema V"
  shows "review_rows_ok (raw_review_rows q p)"
  unfolding review_rows_ok_def
proof (intro conjI ballI impI)
  have dj: "distinct (filter (review_job_matches q) (mvals (p_jobs p)))"
    using jobs_distinct_ids [OF inv, of "review_job_matches q"] by (simp add: distinct_map)
  have ok: "job_ok V (jr_job_id job) job (events_of p (jr_job_id job)) (results_of p (jr_job_id job))"
    if "job \<in> set (mvals (p_jobs p))" for job
    using store_invD [OF inv stored_job [OF inv that]] .
  have dr: "distinct (filter needs_review (results_of p (jr_job_id job)))" if "job \<in> set (mvals (p_jobs p))" for job
    using ok [OF that] by (simp add: job_ok_def distinct_map)
  show "distinct (raw_review_rows q p)" using dj dr by (intro distinct_concat_pairs) auto
  show "\<exists>n i. row_page_number x = JInt n \<and> row_page_id x = JStr i" if "x \<in> set (raw_review_rows q p)" for x
  proof -
    have "v_result V (rr_result (snd x)) = None"
      using raw_review_row [OF that] ok [of "fst x"] checkResult_schema unfolding job_ok_def by metis
    with schema show ?thesis by (simp add: result_schema_def)
  qed
  fix x y
  assume x: "x \<in> set (raw_review_rows q p)" and y: "y \<in> set (raw_review_rows q p)"
    and same: "jr_job_id (fst x) = jr_job_id (fst y)" "row_page_id x = row_page_id y"
  note jx = raw_review_row [OF x] and jy = raw_review_row [OF y]
  have job: "fst x = fst y"
    using stored_job [OF inv jx(1)] stored_job [OF inv jy(1)] same(1) by (metis option.inject)
  have "distinct (page_ids (results_of p (jr_job_id (fst x))))" using ok [OF jx(1)] by (simp add: job_ok_def)
  moreover have "snd y \<in> set (results_of p (jr_job_id (fst x)))" using jy(2) by (simp only: job)
  ultimately have "snd x = snd y" using jx(2) same(2) unfolding distinct_map inj_on_def by blast
  with job show "x = y" by (simp add: prod_eq_iff)
qed

subsection \<open>The documented orders\<close>

text \<open>The orders as src/types.ts documents them: of the jobs, the latest created first and the job ids
  ascending among equals; of the review rows, the latest persisted first, then job id, page number and
  page id, each ascending.\<close>

definition job_before :: "OcrJobRecord \<Rightarrow> OcrJobRecord \<Rightarrow> bool" where
  "job_before a b \<longleftrightarrow> jr_created_at b < jr_created_at a \<or>
     jr_created_at a = jr_created_at b \<and> jr_job_id a < jr_job_id b"

definition review_before :: "review_row \<Rightarrow> review_row \<Rightarrow> bool" where
  "review_before a b \<longleftrightarrow> rr_persisted_at (snd b) < rr_persisted_at (snd a) \<or>
     rr_persisted_at (snd a) = rr_persisted_at (snd b) \<and>
       (jr_job_id (fst a) < jr_job_id (fst b) \<or>
        jr_job_id (fst a) = jr_job_id (fst b) \<and>
          (int_of (row_page_number a) < int_of (row_page_number b) \<or>
           row_page_number a = row_page_number b \<and> js_key (row_page_id a) < js_key (row_page_id b)))"

lemma sorted_wrt_strict:
  assumes "sorted_wrt le xs" and "distinct xs"
    and "\<And>x y. x \<in> set xs \<Longrightarrow> y \<in> set xs \<Longrightarrow> x \<noteq> y \<Longrightarrow> le x y \<Longrightarrow> R x y"
  shows "sorted_wrt R xs"
  using assms by (simp add: sorted_wrt_iff_nth_less nth_eq_iff_index_eq)

lemma sorted_jobs_order:
  assumes "store_inv V p"
  shows "distinct (sorted_jobs q p)" "sorted_wrt job_before (sorted_jobs q p)"
proof -
  have ids: "distinct (map jr_job_id (filter (job_matches q) (mvals (p_jobs p))))"
    by (rule jobs_distinct_ids [OF assms])
  then show d: "distinct (sorted_jobs q p)" by (simp add: sorted_jobs_def distinct_map)
  have "sorted_wrt job_le (sorted_jobs q p)"
    unfolding sorted_jobs_def by (intro sorted_wrt_sort_by job_le_total)
  then show "sorted_wrt job_before (sorted_jobs q p)" using d
  proof (rule sorted_wrt_strict)
    fix x y assume "x \<in> set (sorted_jobs q p)" "y \<in> set (sorted_jobs q p)" "x \<noteq> y" "job_le x y"
    moreover from this ids have "jr_job_id x \<noteq> jr_job_id y"
      unfolding sorted_jobs_def set_sort_by by (meson distinct_map inj_onD)
    ultimately show "job_before x y" by (auto simp: job_le_def job_before_def split: if_splits)
  qed
qed

lemma sorted_review_rows_order:
  assumes "store_inv V p" and "result_schema V"
  shows "distinct (sorted_review_rows q p)" "sorted_wrt review_before (sorted_review_rows q p)"
proof -
  let ?raw = "raw_review_rows q p"
  have ok: "review_rows_ok ?raw" by (rule review_rows_of_store [OF assms])
  then have inj: "\<forall>x\<in>set ?raw. \<forall>y\<in>set ?raw. jr_job_id (fst x) = jr_job_id (fst y) \<longrightarrow> row_page_id x = row_page_id y \<longrightarrow> x = y"
    unfolding review_rows_ok_def by (elim conjE)
  from ok show d: "distinct (sorted_review_rows q p)" by (simp add: sorted_review_rows_def review_rows_ok_def)
  have "sorted_wrt review_le (sorted_review_rows q p)"
    unfolding sorted_review_rows_def by (rule sorted_wrt_sort_by [OF review_le_total [OF ok]])
  then show "sorted_wrt review_before (sorted_review_rows q p)" using d
  proof (rule sorted_wrt_strict)
    fix x y assume xy: "x \<in> set (sorted_review_rows q p)" "y \<in> set (sorted_review_rows q p)" "x \<noteq> y" "review_le x y"
    then have mem: "x \<in> set ?raw" "y \<in> set ?raw" by (simp_all only: sorted_review_rows_def set_sort_by)
    then obtain n a m b where f:
      "row_page_number x = JInt n" "row_page_id x = JStr a" "row_page_number y = JInt m" "row_page_id y = JStr b"
      using review_rows_ok_page [OF ok mem(1)] review_rows_ok_page [OF ok mem(2)] by blast
    have "a \<noteq> b" if "jr_job_id (fst x) = jr_job_id (fst y)"
    proof
      assume "a = b"
      then have "row_page_id x = row_page_id y" by (simp only: f)
      with inj mem that xy(3) show False by blast
    qed
    moreover from xy(4) f have "rr_persisted_at (snd y) < rr_persisted_at (snd x) \<or> rr_persisted_at (snd x) = rr_persisted_at (snd y) \<and>
        (jr_job_id (fst x) < jr_job_id (fst y) \<or> jr_job_id (fst x) = jr_job_id (fst y) \<and> (n < m \<or> n = m \<and> a \<le> b))"
      unfolding review_le_def f by (simp add: not_less split: if_splits)
    ultimately show "review_before x y" unfolding review_before_def f by (auto simp: js_key_def)
  qed
qed

subsection \<open>One call, and the walk over all pages\<close>

lemma sorted_jobs_cursor [simp]: "sorted_jobs (q\<lparr>jq_cursor := c\<rparr>) p = sorted_jobs q p"
proof -
  have "job_matches (q\<lparr>jq_cursor := c\<rparr>) = job_matches q" by (simp add: fun_eq_iff job_matches_def)
  then show ?thesis by (simp only: sorted_jobs_def)
qed

lemma sorted_review_rows_cursor [simp]: "sorted_review_rows (q\<lparr>rq_cursor := c\<rparr>) p = sorted_review_rows q p"
proof -
  have "review_job_matches (q\<lparr>rq_cursor := c\<rparr>) = review_job_matches q"
    by (simp add: fun_eq_iff review_job_matches_def)
  then show ?thesis by (simp only: sorted_review_rows_def)
qed

abbreviation jobs_hash :: "CursorCodec \<Rightarrow> ListOcrJobsByDocumentQuery \<Rightarrow> string" where
  "jobs_hash C q \<equiv> computeFiltersHash C
     [(''tenant_id'', jq_tenant_id q), (''document_id'', jq_document_id q), (''document_revision'', jq_document_revision q)]"

abbreviation jobs_cursor :: "CursorCodec \<Rightarrow> ListOcrJobsByDocumentQuery \<Rightarrow> OcrJobRecord \<Rightarrow> string" where
  "jobs_cursor C q job \<equiv> encodeCursor C (cursor_payload JobsByDocument (jobs_hash C q) (jobSortTuple job))"

lemma jobs_page_first:
  assumes "resolveLimit (jq_limit q) = Inr l"
  shows "listOcrJobsByDocument C (q\<lparr>jq_cursor := None\<rparr>) p
    = Inr (page_at (sorted_jobs q p) (nat l) (jobs_cursor C q) 0)"
  using assms by (simp add: listOcrJobsByDocument_def page_at_def Let_def)

lemma jobs_page_next:
  assumes C: "codec_ok C" and inv: "store_inv V p" and l: "resolveLimit (jq_limit q) = Inr l"
    and k: "k < length (sorted_jobs q p)"
  shows "listOcrJobsByDocument C (q\<lparr>jq_cursor := Some (jobs_cursor C q (sorted_jobs q p ! k))\<rparr>) p
    = Inr (page_at (sorted_jobs q p) (nat l) (jobs_cursor C q) (Suc k))"
proof -
  let ?t = "jobSortTuple (sorted_jobs q p ! k)"
  have sound: "\<forall>x\<in>set ?t. sound_json x" by (simp add: jobSortTuple_def)
  have dec: "decodeCursor C (jobs_cursor C q (sorted_jobs q p ! k)) JobsByDocument (jobs_hash C q) = Inr ?t"
    using decode_encode [OF C sound] by simp
  have seek: "findSeekStartIndex (sorted_jobs q p) ?t jobAfterCursor = Suc k"
    using job_seek.seek_next [OF jobs_distinct_ids [OF inv]] k unfolding sorted_jobs_def by simp
  show ?thesis
    by (simp add: listOcrJobsByDocument_def page_at_def Let_def l dec seek)
qed

abbreviation review_hash :: "CursorCodec \<Rightarrow> ListOcrReviewPageRowsQuery \<Rightarrow> string" where
  "review_hash C q \<equiv> computeFiltersHash C
     [(''tenant_id'', rq_tenant_id q), (''document_id'', rq_document_id q),
      (''document_revision'', rq_document_revision q), (''case_id'', rq_case_id q)]"

abbreviation review_cursor :: "CursorCodec \<Rightarrow> ListOcrReviewPageRowsQuery \<Rightarrow> review_row \<Rightarrow> string" where
  "review_cursor C q row \<equiv> encodeCursor C (cursor_payload ReviewPages (review_hash C q) (reviewSortTuple row))"

lemma review_page_first:
  assumes "resolveLimit (rq_limit q) = Inr l"
  shows "listOcrReviewPageRows C (q\<lparr>rq_cursor := None\<rparr>) p
    = Inr (page_at (sorted_review_rows q p) (nat l) (review_cursor C q) 0)"
  using assms by (simp add: listOcrReviewPageRows_def page_at_def Let_def)

lemma review_page_next:
  assumes C: "codec_ok C" and inv: "store_inv V p" and schema: "result_schema V"
    and l: "resolveLimit (rq_limit q) = Inr l" and k: "k < length (sorted_review_rows q p)"
  shows "listOcrReviewPageRows C (q\<lparr>rq_cursor := Some (review_cursor C q (sorted_review_rows q p ! k))\<rparr>) p
    = Inr (page_at (sorted_review_rows q p) (nat l) (review_cursor C q) (Suc k))"
proof -
  let ?row = "sorted_review_rows q p ! k"
  have ok: "review_rows_ok (raw_review_rows q p)" using review_rows_of_store [OF inv schema] .
  have "?row \<in> set (raw_review_rows q p)"
    using nth_mem [OF k] by (simp only: sorted_review_rows_def set_sort_by)
  then obtain n a where "row_page_number ?row = JInt n" "row_page_id ?row = JStr a"
    using review_rows_ok_page [OF ok] by blast
  then have sound: "\<forall>x\<in>set (reviewSortTuple ?row). sound_json x" by (simp add: reviewSortTuple_def)
  have dec: "decodeCursor C (review_cursor C q ?row) ReviewPages (review_hash C q) = Inr (reviewSortTuple ?row)"
    using decode_encode [OF C sound] by simp
  have seek: "findSeekStartIndex (sorted_review_rows q p) (reviewSortTuple ?row) reviewAfterCursor = Suc k"
    using review_seek.seek_next [OF ok] k unfolding sorted_review_rows_def by simp
  show ?thesis
    by (simp add: listOcrReviewPageRows_def page_at_def Let_def l dec seek)
qed

lemma walk_jobs:
  assumes "codec_ok C" "store_inv V p" "resolveLimit (jq_limit q) = Inr l"
  shows "followCursors (Suc (length (sorted_jobs q p))) (\<lambda>c. listOcrJobsByDocument C (q\<lparr>jq_cursor := c\<rparr>) p) None
    = Some (sorted_jobs q p)"
proof (rule followCursors_complete)
  show "1 \<le> nat l" using resolveLimit_bounds [OF assms(3)] by linarith
qed (use jobs_page_first [OF assms(3)] jobs_page_next [OF assms] in auto)

lemma walk_review_rows:
  assumes "codec_ok C" "store_inv V p" "result_schema V" "resolveLimit (rq_limit q) = Inr l"
  shows "followCursors (Suc (length (sorted_review_rows q p)))
      (\<lambda>c. listOcrReviewPageRows C (q\<lparr>rq_cursor := c\<rparr>) p) None = Some (sorted_review_rows q p)"
proof (rule followCursors_complete)
  show "1 \<le> nat l" using resolveLimit_bounds [OF assms(4)] by linarith
qed (use review_page_first [OF assms(4)] review_page_next [OF assms] in auto)

text \<open>The contract of the codec can be met: with the parser of JsonParse and no encoding.\<close>

definition exCodec :: CursorCodec where
  "exCodec = \<lparr>cc_sha256 = id, cc_toBase64url = id, cc_fromBase64url = id, cc_parse = jsonParse\<rparr>"

lemma exCodec_ok: "codec_ok exCodec"
  by (simp add: codec_ok_def exCodec_def jsonParse_stringify)

end
