(* ===== verification/OcrReview.thy ===== *)
theory OcrReview
  imports OcrPaging
begin

text \<open>
  The review read models of services/ocr-review/src: the job lifecycle (lifecycle.ts), the
  reviewable page (page.ts), the ingestion summary (summary.ts) and the cross-job lists
  (crossJob.ts), over the in-memory store. Fields copied from payloads stay \<open>jval\<close>.
\<close>

subsection \<open>Lifecycle\<close>

record OcrJobLifecycle =
  lc_job :: OcrJobRecord
  lc_statuses :: "OcrStatusEvent list"
  lc_results :: "OcrResultRecord list"
  lc_current_state :: "OcrJobState option"
  lc_is_terminal :: bool
  lc_terminal_state :: "OcrJobState option"

definition deriveCurrentState :: "OcrStatusEvent list \<Rightarrow> OcrJobState option" where
  "deriveCurrentState statuses = (if statuses = [] then None else Some (tr_to (last statuses)))"

fun deriveRetryCount :: "OcrStatusEvent list \<Rightarrow> nat" where
  "deriveRetryCount [] = 0"
| "deriveRetryCount (s # ss) = (if tr_from s = Failed \<and> tr_to s = Queued then 1 else 0) + deriveRetryCount ss"

definition is_terminal_opt :: "OcrJobState option \<Rightarrow> bool" where
  "is_terminal_opt st = (case st of Some s \<Rightarrow> isTerminalState s | None \<Rightarrow> False)"

definition getOcrJobLifecycle :: "InMemoryOcrPersistence \<Rightarrow> string \<Rightarrow> OcrJobLifecycle option" where
  "getOcrJobLifecycle p jobId =
     (case getOcrJob jobId p of None \<Rightarrow> None | Some job \<Rightarrow>
      (let statuses = listOcrJobStatuses jobId p; results = listOcrResults jobId p;
           current_state = deriveCurrentState statuses; is_terminal = is_terminal_opt current_state in
       Some \<lparr>lc_job = job, lc_statuses = statuses, lc_results = results, lc_current_state = current_state,
             lc_is_terminal = is_terminal, lc_terminal_state = (if is_terminal then current_state else None)\<rparr>))"

subsection \<open>Reviewable page\<close>

datatype PageOutcome = PageSucceeded | PageFailed

record BlockDigest =
  bd_count :: nat
  bd_block_ids :: "jval list"

datatype EvidenceIndexSignal = FromClientTags | NoSignal

record PartialFailureDigest =
  pf_code :: jval
  pf_message :: jval
  pf_is_transient :: jval
  pf_attempted_count :: jval

record ReviewableOcrPage =
  rp_job_id :: jval
  rp_tenant_id :: jval
  rp_case_id :: jval
  rp_document_id :: jval
  rp_document_revision :: jval
  rp_page_id :: jval
  rp_page_number :: jval
  rp_outcome :: PageOutcome
  rp_raw_text :: string
  rp_text_preview :: string
  rp_manual_review_recommended :: bool
  rp_manual_review_reasons :: "jval list"
  rp_detected_seals :: BlockDigest
  rp_detected_tables :: BlockDigest
  rp_evidence_index :: EvidenceIndexSignal
  rp_partial_failure :: "PartialFailureDigest option"
  rp_persisted_at :: string

definition TEXT_PREVIEW_MAX_CHARS :: nat where
  "TEXT_PREVIEW_MAX_CHARS = 500"

definition EVIDENCE_INDEX_TAG :: string where
  "EVIDENCE_INDEX_TAG = ''evidence-index''"

definition hasEvidenceIndexTag :: "jval \<Rightarrow> bool" where
  "hasEvidenceIndexTag tags = (case tags of JArr xs \<Rightarrow> JStr EVIDENCE_INDEX_TAG \<in> set xs | _ \<Rightarrow> False)"

definition digestBlocks :: "jval \<Rightarrow> string \<Rightarrow> BlockDigest" where
  "digestBlocks blocks ty =
     (let matched = filter (\<lambda>b. jget b ''type'' = JStr ty) (jelems blocks) in
      \<lparr>bd_count = length matched, bd_block_ids = map (\<lambda>b. jget b ''block_id'') matched\<rparr>)"

definition deriveEvidenceIndexSignal :: "OcrJobRecord \<Rightarrow> jval \<Rightarrow> EvidenceIndexSignal" where
  "deriveEvidenceIndexSignal job result =
     (let submissionTags = jget (jget (jr_submission job) ''metadata'') ''client_tags'';
          resultTags = jget (jget result ''metadata'') ''client_tags'' in
      if hasEvidenceIndexTag submissionTags \<or> hasEvidenceIndexTag resultTags then FromClientTags else NoSignal)"

definition buildReviewableOcrPage :: "OcrJobRecord \<Rightarrow> OcrResultRecord \<Rightarrow> ReviewableOcrPage" where
  "buildReviewableOcrPage job record =
     (let r = rr_result record;
          outcome = (if jget r ''status'' = JStr ''succeeded'' then PageSucceeded else PageFailed);
          raw_text = (case jget r ''raw_text'' of JStr s \<Rightarrow> s | _ \<Rightarrow> []);
          review = jget r ''review'';
          pf = jget r ''partial_failure'' in
      \<lparr>rp_job_id = jget r ''job_id'', rp_tenant_id = jget r ''tenant_id'', rp_case_id = jr_case_id job,
       rp_document_id = jget r ''document_id'', rp_document_revision = jget r ''document_revision'',
       rp_page_id = jget r ''page_id'', rp_page_number = jget r ''page_number'',
       rp_outcome = outcome, rp_raw_text = raw_text,
       rp_text_preview = take TEXT_PREVIEW_MAX_CHARS raw_text,
       rp_manual_review_recommended = (jget review ''manual_review_recommended'' = JBool True),
       rp_manual_review_reasons = (if truthy (jget review ''reasons'') then jelems (jget review ''reasons'') else []),
       rp_detected_seals = digestBlocks (jget r ''blocks'') ''seal'',
       rp_detected_tables = digestBlocks (jget r ''blocks'') ''table'',
       rp_evidence_index = deriveEvidenceIndexSignal job r,
       rp_partial_failure =
         (if outcome = PageFailed \<and> truthy pf
          then Some \<lparr>pf_code = jget pf ''code'', pf_message = jget pf ''message'',
                     pf_is_transient = jget pf ''is_transient'', pf_attempted_count = jget pf ''attempted_count''\<rparr>
          else None),
       rp_persisted_at = rr_persisted_at record\<rparr>)"

definition getReviewableOcrPage :: "InMemoryOcrPersistence \<Rightarrow> string \<Rightarrow> string \<Rightarrow> ReviewableOcrPage option" where
  "getReviewableOcrPage p job_id page_id =
     (case getOcrJob job_id p of None \<Rightarrow> None | Some job \<Rightarrow>
      (case List.find (\<lambda>r. jget (rr_result r) ''page_id'' = JStr page_id) (listOcrResults job_id p) of
         None \<Rightarrow> None
       | Some record \<Rightarrow> Some (buildReviewableOcrPage job record)))"

subsection \<open>Ingestion summary\<close>

record PageBreakdown =
  pb_total_pages :: nat
  pb_succeeded_pages :: nat
  pb_failed_pages :: nat
  pb_pending_pages :: nat
  pb_failed_page_ids :: "jval list"
  pb_pending_page_ids :: "jval list"

definition resultByPageId :: "OcrResultRecord list \<Rightarrow> (jval, jval) jmap" where
  "resultByPageId results =
     foldl (\<lambda>m r. mset_kv (jget (rr_result r) ''page_id'') (rr_result r) m) [] results"

definition breakdownStep :: "(jval, jval) jmap \<Rightarrow> PageBreakdown \<Rightarrow> jval \<Rightarrow> PageBreakdown" where
  "breakdownStep m b p =
     (case mget m (jget p ''page_id'') of
        None \<Rightarrow> b\<lparr>pb_pending_pages := pb_pending_pages b + 1,
                  pb_pending_page_ids := pb_pending_page_ids b @ [jget p ''page_id'']\<rparr>
      | Some result \<Rightarrow>
          if jget result ''status'' = JStr ''succeeded''
          then b\<lparr>pb_succeeded_pages := pb_succeeded_pages b + 1\<rparr>
          else b\<lparr>pb_failed_pages := pb_failed_pages b + 1,
                 pb_failed_page_ids := pb_failed_page_ids b @ [jget p ''page_id'']\<rparr>)"

abbreviation submitted_pages :: "OcrJobRecord \<Rightarrow> jval list" where
  "submitted_pages job \<equiv> jelems (jget (jr_submission job) ''pages'')"

definition derivePageBreakdown :: "OcrJobRecord \<Rightarrow> OcrResultRecord list \<Rightarrow> PageBreakdown" where
  "derivePageBreakdown job results =
     foldl (breakdownStep (resultByPageId results))
       \<lparr>pb_total_pages = length (submitted_pages job), pb_succeeded_pages = 0, pb_failed_pages = 0,
        pb_pending_pages = 0, pb_failed_page_ids = [], pb_pending_page_ids = []\<rparr>
       (submitted_pages job)"

fun countManualReviewPages :: "OcrResultRecord list \<Rightarrow> nat" where
  "countManualReviewPages [] = 0"
| "countManualReviewPages (r # rs) = (if needs_review r then 1 else 0) + countManualReviewPages rs"

record OcrIngestionOutcomeSummary =
  os_job_id :: string
  os_tenant_id :: jval
  os_case_id :: jval
  os_document_id :: jval
  os_document_revision :: jval
  os_current_state :: "OcrJobState option"
  os_is_terminal :: bool
  os_terminal_state :: "OcrJobState option"
  os_dead_lettered :: bool
  os_retry_count :: nat
  os_pages :: PageBreakdown
  os_pages_needing_manual_review :: nat

definition summarizeOcrIngestionOutcome :: "InMemoryOcrPersistence \<Rightarrow> string \<Rightarrow> OcrIngestionOutcomeSummary option" where
  "summarizeOcrIngestionOutcome p jobId =
     (case getOcrJob jobId p of None \<Rightarrow> None | Some job \<Rightarrow>
      (let statuses = listOcrJobStatuses jobId p; results = listOcrResults jobId p;
           current_state = deriveCurrentState statuses; is_terminal = is_terminal_opt current_state;
           terminal_state = (if is_terminal then current_state else None) in
       Some \<lparr>os_job_id = jr_job_id job, os_tenant_id = jr_tenant_id job, os_case_id = jr_case_id job,
             os_document_id = jr_document_id job, os_document_revision = jr_document_revision job,
             os_current_state = current_state, os_is_terminal = is_terminal,
             os_terminal_state = terminal_state, os_dead_lettered = (terminal_state = Some DeadLettered),
             os_retry_count = deriveRetryCount statuses, os_pages = derivePageBreakdown job results,
             os_pages_needing_manual_review = countManualReviewPages results\<rparr>))"

subsection \<open>Cross-job lists\<close>

record OcrDocumentJobSummary =
  js_job_id :: string
  js_tenant_id :: jval
  js_case_id :: jval
  js_document_id :: jval
  js_document_revision :: jval
  js_created_at :: string
  js_submitted_by :: jval
  js_current_state :: "OcrJobState option"
  js_is_terminal :: bool
  js_terminal_state :: "OcrJobState option"
  js_total_pages :: nat
  js_result_pages :: nat
  js_succeeded_pages :: nat
  js_failed_pages :: nat
  js_pending_pages :: nat
  js_manual_review_pages :: nat
  js_metadata :: jval

definition page_succeeded :: "OcrResultRecord \<Rightarrow> bool" where
  "page_succeeded r \<longleftrightarrow> jget (rr_result r) ''status'' = JStr ''succeeded''"

definition buildJobSummary :: "OcrJobRecord \<Rightarrow> OcrResultRecord list \<Rightarrow> OcrDocumentJobSummary" where
  "buildJobSummary job results =
     (let submission = jr_submission job;
          seenPageIds = set (page_ids results);
          current_state = jr_terminal_state job; is_terminal = is_terminal_opt current_state in
      \<lparr>js_job_id = jr_job_id job, js_tenant_id = jr_tenant_id job, js_case_id = jr_case_id job,
       js_document_id = jr_document_id job, js_document_revision = jr_document_revision job,
       js_created_at = jr_created_at job, js_submitted_by = jget submission ''submitted_by'',
       js_current_state = current_state, js_is_terminal = is_terminal,
       js_terminal_state = (if is_terminal then current_state else None),
       js_total_pages = length (submitted_pages job), js_result_pages = length results,
       js_succeeded_pages = length (filter page_succeeded results),
       js_failed_pages = length (filter (\<lambda>r. \<not> page_succeeded r) results),
       js_pending_pages = length (filter (\<lambda>pg. jget pg ''page_id'' \<notin> seenPageIds) (submitted_pages job)),
       js_manual_review_pages = length (filter needs_review results),
       js_metadata = (if truthy (jget submission ''metadata'') then jget submission ''metadata'' else JUndef)\<rparr>)"

definition listOcrJobsForDocument ::
  "CursorCodec \<Rightarrow> InMemoryOcrPersistence \<Rightarrow> ListOcrJobsByDocumentQuery \<Rightarrow>
   string + (OcrDocumentJobSummary list \<times> string option)" where
  "listOcrJobsForDocument C p query =
     bindR (listOcrJobsByDocument C query p) (\<lambda>(rows, next_cursor).
       Inr (map (\<lambda>job. buildJobSummary job (listOcrResults (jr_job_id job) p)) rows, next_cursor))"

definition listPagesNeedingManualReview ::
  "CursorCodec \<Rightarrow> InMemoryOcrPersistence \<Rightarrow> ListOcrReviewPageRowsQuery \<Rightarrow>
   string + (ReviewableOcrPage list \<times> string option)" where
  "listPagesNeedingManualReview C p query =
     bindR (listOcrReviewPageRows C query p) (\<lambda>(rows, next_cursor).
       Inr (map (\<lambda>(job, result). buildReviewableOcrPage job result) rows, next_cursor))"

subsection \<open>Page counts\<close>

lemma breakdown_fold:
  "foldl (breakdownStep m) b ps =
     b\<lparr>pb_succeeded_pages := pb_succeeded_pages b +
         length (filter (\<lambda>p. \<exists>r. mget m (jget p ''page_id'') = Some r \<and> jget r ''status'' = JStr ''succeeded'') ps),
       pb_failed_pages := pb_failed_pages b +
         length (filter (\<lambda>p. \<exists>r. mget m (jget p ''page_id'') = Some r \<and> jget r ''status'' \<noteq> JStr ''succeeded'') ps),
       pb_pending_pages := pb_pending_pages b + length (filter (\<lambda>p. mget m (jget p ''page_id'') = None) ps),
       pb_failed_page_ids := pb_failed_page_ids b @ map (\<lambda>p. jget p ''page_id'')
         (filter (\<lambda>p. \<exists>r. mget m (jget p ''page_id'') = Some r \<and> jget r ''status'' \<noteq> JStr ''succeeded'') ps),
       pb_pending_page_ids := pb_pending_page_ids b @ map (\<lambda>p. jget p ''page_id'')
         (filter (\<lambda>p. mget m (jget p ''page_id'') = None) ps)\<rparr>"
  by (induction ps arbitrary: b) (auto simp: breakdownStep_def split: option.splits)

text \<open>Every submitted page is counted once: as succeeded, as failed, or as pending.\<close>

lemma breakdown_total:
  "pb_succeeded_pages (derivePageBreakdown job results) + pb_failed_pages (derivePageBreakdown job results)
     + pb_pending_pages (derivePageBreakdown job results) = pb_total_pages (derivePageBreakdown job results)"
proof -
  have "length (filter (\<lambda>p. \<exists>r. mget m (jget p ''page_id'') = Some r \<and> jget r ''status'' = JStr ''succeeded'') ps) +
      length (filter (\<lambda>p. \<exists>r. mget m (jget p ''page_id'') = Some r \<and> jget r ''status'' \<noteq> JStr ''succeeded'') ps) +
      length (filter (\<lambda>p. mget m (jget p ''page_id'') = None) ps) = length ps" for m :: "(jval, jval) jmap" and ps
    by (induction ps) auto
  then show ?thesis by (simp add: derivePageBreakdown_def breakdown_fold)
qed

lemma resultByPageId_get:
  assumes "distinct (page_ids results)"
  shows "mget (resultByPageId results) i = map_option rr_result (List.find (\<lambda>r. jget (rr_result r) ''page_id'' = i) results)"
proof -
  have "mget (foldl (\<lambda>m r. mset_kv (jget (rr_result r) ''page_id'') (rr_result r) m) m rs) i =
      (case List.find (\<lambda>r. jget (rr_result r) ''page_id'' = i) rs of Some r \<Rightarrow> Some (rr_result r) | None \<Rightarrow> mget m i)"
    if "distinct (page_ids rs)" for m rs
    using that
  proof (induction rs arbitrary: m)
    case (Cons r rs)
    show ?case
    proof (cases "jget (rr_result r) ''page_id'' = i")
      case False
      with Cons show ?thesis by (simp split: option.splits)
    next
      case True
      with Cons.prems have "List.find (\<lambda>r. jget (rr_result r) ''page_id'' = i) rs = None"
        by (auto simp: find_None_iff_all image_iff)
      with True Cons show ?thesis by simp
    qed
  qed simp
  from this [OF assms, of "[]"] show ?thesis
    by (simp add: resultByPageId_def split: option.splits)
qed

subsection \<open>The two summaries of a stored job agree\<close>

abbreviation page_ids_of :: "OcrJobRecord \<Rightarrow> jval list" where
  "page_ids_of job \<equiv> map (\<lambda>pg. jget pg ''page_id'') (submitted_pages job)"

lemma deriveCurrentState_payloads: "deriveCurrentState es = last_to None (payloads es)"
  by (cases "es = []") (simp_all add: deriveCurrentState_def last_to_snoc last_map TransitionRecord.defs)

lemma cached_state:
  assumes "store_inv V p" and "getOcrJob i p = Some job"
  shows "jr_terminal_state job = deriveCurrentState (listOcrJobStatuses i p)"
  using store_invD [OF assms(1) assms(2) [unfolded getOcrJob_def]]
  by (simp add: job_ok_def deriveCurrentState_payloads listOcrJobStatuses_def)

lemma distinct_length_eq:
  "distinct xs \<Longrightarrow> distinct ys \<Longrightarrow> set xs = set ys \<Longrightarrow> length xs = length ys"
  by (metis distinct_card)

text \<open>Counting submitted pages by their result is counting results.\<close>

lemma pages_by_result:
  assumes dp: "distinct (map f pages)" and dr: "distinct (map g results)"
    and sub: "\<And>r. r \<in> set results \<Longrightarrow> Q r \<Longrightarrow> g r \<in> f ` set pages"
    and P: "\<And>p. p \<in> set pages \<Longrightarrow> P p \<longleftrightarrow> (\<exists>r\<in>set results. Q r \<and> g r = f p)"
  shows "length (filter P pages) = length (filter Q results)"
proof -
  have "length (map f (filter P pages)) = length (map g (filter Q results))"
  proof (rule distinct_length_eq)
    show "distinct (map f (filter P pages))" using dp by (rule distinct_map_filter)
    show "distinct (map g (filter Q results))" using dr by (rule distinct_map_filter)
    show "set (map f (filter P pages)) = set (map g (filter Q results))"
      using P sub by (force simp: image_iff)
  qed
  then show ?thesis by simp
qed

lemma checkResult_page:
  "checkResult V i job r = Inr u \<Longrightarrow> jget r ''page_id'' \<in> set (page_ids_of job)"
  by (auto simp: checkResult_def image_iff split: option.splits if_splits dest!: find_Some_iff_split) metis+

lemma find_page_iff:
  assumes "distinct (page_ids results)"
  shows "List.find (\<lambda>r. jget (rr_result r) ''page_id'' = i) results = Some r \<longleftrightarrow>
    r \<in> set results \<and> jget (rr_result r) ''page_id'' = i"
proof
  assume "List.find (\<lambda>r. jget (rr_result r) ''page_id'' = i) results = Some r"
  then show "r \<in> set results \<and> jget (rr_result r) ''page_id'' = i" by (rule find_Some_iff_split)
next
  assume "r \<in> set results \<and> jget (rr_result r) ''page_id'' = i"
  with assms show "List.find (\<lambda>r. jget (rr_result r) ''page_id'' = i) results = Some r"
    by (induction results) (auto simp: image_iff)
qed

lemma page_counts_agree:
  assumes inv: "store_inv V p" and job: "getOcrJob i p = Some job" and dp: "distinct (page_ids_of job)"
  shows "pb_succeeded_pages (derivePageBreakdown job (listOcrResults i p))
      = js_succeeded_pages (buildJobSummary job (listOcrResults i p))"
    and "pb_failed_pages (derivePageBreakdown job (listOcrResults i p))
      = js_failed_pages (buildJobSummary job (listOcrResults i p))"
    and "pb_pending_pages (derivePageBreakdown job (listOcrResults i p))
      = js_pending_pages (buildJobSummary job (listOcrResults i p))"
proof -
  let ?rs = "listOcrResults i p" and ?pages = "submitted_pages job"
  have ok: "job_ok V i job (events_of p i) (results_of p i)"
    using store_invD [OF inv] job by (simp add: getOcrJob_def)
  have rs: "set ?rs = set (results_of p i)" by (simp only: listOcrResults_def set_sort_by)
  have inj: "inj_on (\<lambda>r. jget (rr_result r) ''page_id'') (set ?rs)"
    using ok unfolding rs job_ok_def distinct_map by blast
  moreover have "distinct ?rs"
    using ok unfolding job_ok_def distinct_map listOcrResults_def distinct_sort_by by blast
  ultimately have dr: "distinct (page_ids ?rs)" by (simp add: distinct_map)
  have sub: "jget (rr_result r) ''page_id'' \<in> set (page_ids_of job)" if "r \<in> set ?rs" for r
    using ok that checkResult_page unfolding rs job_ok_def by blast
  have get: "mget (resultByPageId ?rs) k = Some v \<longleftrightarrow> (\<exists>r\<in>set ?rs. rr_result r = v \<and> jget (rr_result r) ''page_id'' = k)" for k v
    using find_page_iff [OF dr] by (auto simp: resultByPageId_get [OF dr])
  have none: "mget (resultByPageId ?rs) k = None \<longleftrightarrow> k \<notin> set (page_ids ?rs)" for k
    by (auto simp: resultByPageId_get [OF dr] find_None_iff_all image_iff)
  have "length (filter (\<lambda>p. \<exists>r. mget (resultByPageId ?rs) (jget p ''page_id'') = Some r \<and> jget r ''status'' = JStr ''succeeded'') ?pages)
      = length (filter page_succeeded ?rs)"
    using dp dr sub by (intro pages_by_result) (auto simp: get page_succeeded_def)
  then show "pb_succeeded_pages (derivePageBreakdown job ?rs) = js_succeeded_pages (buildJobSummary job ?rs)"
    by (simp add: derivePageBreakdown_def breakdown_fold buildJobSummary_def Let_def)
  have "length (filter (\<lambda>p. \<exists>r. mget (resultByPageId ?rs) (jget p ''page_id'') = Some r \<and> jget r ''status'' \<noteq> JStr ''succeeded'') ?pages)
      = length (filter (\<lambda>r. \<not> page_succeeded r) ?rs)"
    using dp dr sub by (intro pages_by_result) (auto simp: get page_succeeded_def)
  then show "pb_failed_pages (derivePageBreakdown job ?rs) = js_failed_pages (buildJobSummary job ?rs)"
    by (simp add: derivePageBreakdown_def breakdown_fold buildJobSummary_def Let_def)
  show "pb_pending_pages (derivePageBreakdown job ?rs) = js_pending_pages (buildJobSummary job ?rs)"
    by (simp only: derivePageBreakdown_def breakdown_fold buildJobSummary_def Let_def none) simp
qed

text \<open>Pages on the manual-review queue are flagged, and belong to the queried tenant.\<close>

lemma review_slice_rows:
  assumes "listOcrReviewPageRows C q p = Inr (rows, c)"
  shows "set rows \<subseteq> set (raw_review_rows q p)"
proof -
  obtain n m where rows: "rows = take n (drop m (sorted_review_rows q p))"
    using assms
    by (auto simp: listOcrReviewPageRows_def Let_def split: sum.splits option.splits) (metis drop0)
  have "set rows \<subseteq> set (sorted_review_rows q p)"
    unfolding rows using set_take_subset set_drop_subset by fastforce
  also have "\<dots> = set (raw_review_rows q p)" by (simp only: sorted_review_rows_def set_sort_by)
  finally show ?thesis .
qed

text \<open>What a review row is made of.\<close>

lemma raw_row:
  assumes inv: "store_inv V p" and row: "(job, r) \<in> set (raw_review_rows q p)"
  shows "review_job_matches q job \<and> needs_review r \<and> getOcrJob (jr_job_id job) p = Some job \<and>
    checkResult V (jr_job_id job) job (rr_result r) = Inr ()"
proof -
  have job: "job \<in> set (mvals (p_jobs p))" and m: "review_job_matches q job" "needs_review r"
    and r: "r \<in> set (results_of p (jr_job_id job))"
    using row by auto
  have get: "mget (p_jobs p) (jr_job_id job) = Some job" using stored_job [OF inv job] .
  from store_invD [OF inv this] have "checkResult V (jr_job_id job) job (rr_result r) = Inr ()"
    using r unfolding job_ok_def by blast
  with get m show ?thesis by (simp add: getOcrJob_def)
qed

lemma checkResult_same_tenant:
  "checkResult V i job r = Inr u \<Longrightarrow> jget r ''tenant_id'' = jr_tenant_id job \<and> jget r ''document_id'' = jr_document_id job"
  by (auto simp: checkResult_def split: option.splits if_splits)

lemma listed_pages:
  assumes inv: "store_inv V p" and run: "listPagesNeedingManualReview C p q = Inr (rows, c)" and row: "x \<in> set rows"
  shows "rp_tenant_id x = rq_tenant_id q \<and> rp_manual_review_recommended x \<and>
    (rq_document_id q \<noteq> JUndef \<longrightarrow> rp_document_id x = rq_document_id q)"
proof -
  obtain raw where raw: "listOcrReviewPageRows C q p = Inr (raw, c)"
    and rows: "rows = map (\<lambda>(job, r). buildReviewableOcrPage job r) raw"
    using run by (auto simp: listPagesNeedingManualReview_def result_simps)
  obtain job r where jr: "(job, r) \<in> set raw" and x: "x = buildReviewableOcrPage job r"
    using row rows by auto
  have "(job, r) \<in> set (raw_review_rows q p)" using review_slice_rows [OF raw] jr by blast
  note facts = raw_row [OF inv this]
  then show ?thesis
    using checkResult_same_tenant [of V "jr_job_id job" job "rr_result r"]
    by (simp add: x buildReviewableOcrPage_def Let_def review_job_matches_def needs_review_def)
qed

end
