(* ===== verification/EditDistance.thy ===== *)
theory EditDistance
  imports Prelude "HOL-Library.Sublist" "HOL-Library.Multiset"
begin

text \<open>
  The two dynamic programs of services/ocr-worker-bakeoff/src: the two-row Levenshtein
  distance of accuracy.ts and the longest-common-subsequence table of \<open>computeOrder\<close> in
  verdict.ts, with what they compute: the least number of single-token edits between the two
  sequences, and the greatest length of a common subsequence.
\<close>

subsection \<open>The programs\<close>

text \<open>The inner loop over \<open>b\<close>: \<open>prev\<close> is read at \<open>j - 1\<close> and \<open>j\<close>, \<open>left\<close> is \<open>curr[j - 1]\<close>.\<close>

fun levRow :: "'a \<Rightarrow> nat list \<Rightarrow> 'a list \<Rightarrow> nat \<Rightarrow> nat list" where
  "levRow ai (p0 # p1 # ps) (bj # bs) left =
     (let cost = (if ai = bj then 0 else 1);
          deletion = p1 + 1; insertion = left + 1; substitution = p0 + cost;
          v = min deletion (min insertion substitution)
      in v # levRow ai (p1 # ps) bs v)"
| "levRow ai _ _ left = []"

fun levRows :: "nat \<Rightarrow> nat list \<Rightarrow> 'a list \<Rightarrow> 'a list \<Rightarrow> nat list" where
  "levRows i prev [] b = prev"
| "levRows i prev (x # a) b = levRows (Suc i) (i # levRow x prev b i) a b"

definition levOrdered :: "'a list \<Rightarrow> 'a list \<Rightarrow> nat" where
  "levOrdered a b =
     (if b = [] then length a else levRows 1 [0..<Suc (length b)] a b ! length b)"

definition levenshtein :: "'a list \<Rightarrow> 'a list \<Rightarrow> nat" where
  "levenshtein a b = (if length a < length b then levOrdered b a else levOrdered a b)"

fun lcsRow :: "'a \<Rightarrow> nat list \<Rightarrow> 'a list \<Rightarrow> nat \<Rightarrow> nat list" where
  "lcsRow ai (p0 # p1 # ps) (bj # bs) left =
     (let v = (if ai = bj then p0 + 1 else max p1 left) in v # lcsRow ai (p1 # ps) bs v)"
| "lcsRow ai _ _ left = []"

fun lcsRows :: "nat list \<Rightarrow> 'a list \<Rightarrow> 'a list \<Rightarrow> nat list" where
  "lcsRows prev [] b = prev"
| "lcsRows prev (x # a) b = lcsRows (0 # lcsRow x prev b 0) a b"

definition lcsLength :: "'a list \<Rightarrow> 'a list \<Rightarrow> nat" where
  "lcsLength a b = lcsRows (replicate (Suc (length b)) 0) a b ! length b"

subsection \<open>Edit distance\<close>

fun ed :: "'a list \<Rightarrow> 'a list \<Rightarrow> nat" where
  "ed [] ys = length ys"
| "ed xs [] = length xs"
| "ed (x # xs) (y # ys) =
     min (ed xs (y # ys) + 1) (min (ed (x # xs) ys + 1) (ed xs ys + (if x = y then 0 else 1)))"

lemma ed_Nil2 [simp]: "ed xs [] = length xs"
  by (cases xs) simp_all

lemma ed_sym: "ed xs ys = ed ys xs"
  by (induction xs ys rule: ed.induct) (simp_all add: min.left_commute)

lemma ed_Cons_le: "ed (x # xs) ys \<le> ed xs ys + 1"
  by (cases ys) simp_all

lemma ed_le_Cons: "ed xs ys \<le> ed (x # xs) ys + 1"
proof (induction ys arbitrary: x xs)
  case (Cons y ys)
  have "ed xs (y # ys) \<le> ed xs ys + 1" using ed_Cons_le [of y ys xs] by (simp add: ed_sym)
  moreover have "ed xs ys \<le> ed (x # xs) ys + 1" by (rule Cons.IH)
  ultimately show ?case by simp
qed simp

lemma ed_refl [simp]: "ed xs xs = 0"
  by (induction xs) simp_all

lemma ed_eq_0: "ed xs ys = 0 \<longleftrightarrow> xs = ys"
proof
  show "ed xs ys = 0 \<Longrightarrow> xs = ys"
    by (induction xs ys rule: ed.induct) (auto split: if_splits simp: min_def)
qed simp

text \<open>One edit at any position.\<close>

inductive edit1 :: "'a list \<Rightarrow> 'a list \<Rightarrow> bool" where
  edit_delete: "edit1 (us @ x # vs) (us @ vs)"
| edit_insert: "edit1 (us @ vs) (us @ x # vs)"
| edit_replace: "edit1 (us @ x # vs) (us @ y # vs)"

lemma edit1_Cons: "edit1 xs ys \<Longrightarrow> edit1 (c # xs) (c # ys)"
  by (induction rule: edit1.induct) (metis append_Cons edit1.intros)+

lemma edits_Cons: "(edit1 ^^ n) xs ys \<Longrightarrow> (edit1 ^^ n) (c # xs) (c # ys)"
proof (induction n arbitrary: ys)
  case (Suc n)
  then obtain zs where "(edit1 ^^ n) xs zs" "edit1 zs ys" by auto
  then show ?case using Suc.IH edit1_Cons by (metis relpowp_Suc_I)
qed simp

lemma edits_delete_all: "(edit1 ^^ length xs) xs []"
proof (induction xs)
  case (Cons x xs)
  have "edit1 (x # xs) xs" using edit_delete [of "[]" x xs] by simp
  then show ?case using Cons relpowp_Suc_I2 by fastforce
qed simp

lemma edits_insert_all: "(edit1 ^^ length ys) [] ys"
proof (induction ys)
  case (Cons y ys)
  have "edit1 ys (y # ys)" using edit_insert [of "[]" ys y] by simp
  then show ?case using Cons by (auto intro: relcomppI)
qed simp

lemma ed_edits: "(edit1 ^^ ed xs ys) xs ys"
proof (induction xs ys rule: ed.induct)
  case (1 ys)
  then show ?case using edits_insert_all by simp
next
  case (2 x xs)
  then show ?case using edits_delete_all [of "x # xs"] by simp
next
  case (3 x xs y ys)
  let ?d = "ed (x # xs) (y # ys)"
  have "?d = Suc (ed xs (y # ys)) \<or> ?d = Suc (ed (x # xs) ys) \<or> (x = y \<and> ?d = ed xs ys) \<or> ?d = Suc (ed xs ys)"
    by (simp add: min_def)
  then consider "?d = Suc (ed xs (y # ys))" | "?d = Suc (ed (x # xs) ys)" | "x = y" "?d = ed xs ys"
    | "?d = Suc (ed xs ys)"
    by blast
  then show ?case
  proof cases
    case 1
    have "edit1 (x # xs) xs" using edit_delete [of "[]" x xs] by simp
    then show ?thesis unfolding 1 using "3.IH"(1) by (rule relpowp_Suc_I2)
  next
    case 2
    have "edit1 ys (y # ys)" using edit_insert [of "[]" ys y] by simp
    then show ?thesis unfolding 2 using "3.IH"(2) by (auto intro: relcomppI)
  next
    case 3
    then show ?thesis using edits_Cons [OF "3.IH"(3), of y] by simp
  next
    case 4
    have "edit1 (x # xs) (y # xs)" using edit_replace [of "[]" x xs y] by simp
    then show ?thesis unfolding 4 using edits_Cons [OF "3.IH"(3)] by (rule relpowp_Suc_I2)
  qed
qed

text \<open>One edit changes the distance by at most one, in any context.\<close>

lemma ed_context:
  assumes "\<And>zs. ed us zs \<le> ed vs zs + 1"
  shows "ed (c # us) zs \<le> ed (c # vs) zs + 1"
proof (induction zs)
  case Nil
  have "ed us [] \<le> ed vs [] + 1" by (rule assms)
  then show ?case by simp
next
  case (Cons z zs)
  have "ed us (z # zs) \<le> ed vs (z # zs) + 1" "ed us zs \<le> ed vs zs + 1" by (rule assms)+
  with Cons show ?case by (simp only: ed.simps(3); linarith)
qed

lemma ed_edit1: "edit1 xs ys \<Longrightarrow> ed xs zs \<le> ed ys zs + 1"
proof (induction arbitrary: zs rule: edit1.induct)
  case (edit_delete us x vs)
  show ?case by (induction us arbitrary: zs) (simp_all add: ed_Cons_le [simplified] ed_context [simplified])
next
  case (edit_insert us vs x)
  show ?case by (induction us arbitrary: zs) (simp_all add: ed_le_Cons [simplified] ed_context [simplified])
next
  case (edit_replace us x vs y)
  have base: "ed (x # vs) zs \<le> ed (y # vs) zs + 1" for zs
  proof (induction zs)
    case (Cons z zs)
    have "ed vs zs \<le> ed (y # vs) zs + 1" by (rule ed_le_Cons)
    with Cons show ?case
      by (cases "x = z"; cases "y = z"; simp; linarith)
  qed simp
  show ?case by (induction us arbitrary: zs) (simp_all add: base [simplified] ed_context [simplified])
qed

lemma edits_ed: "(edit1 ^^ n) xs ys \<Longrightarrow> ed xs ys \<le> n"
proof (induction n arbitrary: xs)
  case (Suc n)
  then obtain zs where "edit1 xs zs" "(edit1 ^^ n) zs ys" by (metis relpowp_Suc_D2)
  with Suc.IH [of zs] ed_edit1 [of xs zs ys] show ?case by simp
qed simp

lemma edit1_rev: "edit1 xs ys \<Longrightarrow> edit1 (rev xs) (rev ys)"
  by (induction rule: edit1.induct) (simp_all add: edit1.intros)

lemma edits_rev: "(edit1 ^^ n) xs ys \<Longrightarrow> (edit1 ^^ n) (rev xs) (rev ys)"
proof (induction n arbitrary: ys)
  case (Suc n)
  then obtain zs where "(edit1 ^^ n) xs zs" "edit1 zs ys" by auto
  then show ?case using Suc.IH edit1_rev by (metis relpowp_Suc_I)
qed simp

lemma ed_rev: "ed (rev xs) (rev ys) = ed xs ys"
proof (rule antisym)
  show "ed (rev xs) (rev ys) \<le> ed xs ys" using edits_ed [OF edits_rev [OF ed_edits]] .
  show "ed xs ys \<le> ed (rev xs) (rev ys)"
    using edits_ed [OF edits_rev [OF ed_edits, of "rev xs" "rev ys"]] by simp
qed

subsection \<open>The Levenshtein program computes the edit distance\<close>

text \<open>Row \<open>i\<close> holds the distances between the first \<open>i\<close> tokens of \<open>a\<close> and each prefix of \<open>b\<close>;
  prefixes are kept reversed.\<close>

definition lev_row_spec :: "'a list \<Rightarrow> 'a list \<Rightarrow> nat list" where
  "lev_row_spec ra b = map (\<lambda>j. ed ra (rev (take j b))) [0..<Suc (length b)]"

lemma upt_0_Suc: "[0..<Suc n] = 0 # map Suc [0..<n]"
  by (simp add: upt_conv_Cons map_Suc_upt del: upt_Suc)

lemma levRow_spec:
  "levRow x (map (\<lambda>j. ed ra (rev (take j bs) @ rb)) [0..<Suc (length bs)]) bs (ed (x # ra) rb)
     = map (\<lambda>j. ed (x # ra) (rev (take (Suc j) bs) @ rb)) [0..<length bs]"
proof (induction bs arbitrary: rb)
  case Nil
  show ?case by simp
next
  case (Cons b bs)
  have upt: "[0..<Suc (length (b # bs))] = 0 # map Suc [0..<Suc (length bs)]"
    using upt_0_Suc [of "length (b # bs)"] by (simp del: upt_Suc)
  have rows: "map (\<lambda>j. ed ra (rev (take j (b # bs)) @ rb)) [0..<Suc (length (b # bs))]
      = ed ra rb # map (\<lambda>j. ed ra (rev (take j bs) @ (b # rb))) [0..<Suc (length bs)]"
    unfolding upt by (simp del: upt_Suc)
  have split: "map (\<lambda>j. ed ra (rev (take j bs) @ (b # rb))) [0..<Suc (length bs)]
      = ed ra (b # rb) # map (\<lambda>j. ed ra (rev (take (Suc j) bs) @ (b # rb))) [0..<length bs]"
    by (simp only: upt_0_Suc list.map map_map comp_def) simp
  have v: "min (ed ra (b # rb) + 1) (min (ed (x # ra) rb + 1) (ed ra rb + (if x = b then 0 else 1))) = ed (x # ra) (b # rb)"
    by simp
  have "[0..<length (b # bs)] = 0 # map Suc [0..<length bs]" 
    using upt_0_Suc [of "length bs"] by (simp del: upt_Suc)
  then have goal: "map (\<lambda>j. ed (x # ra) (rev (take (Suc j) (b # bs)) @ rb)) [0..<length (b # bs)]
      = ed (x # ra) (b # rb) # map (\<lambda>j. ed (x # ra) (rev (take (Suc j) bs) @ (b # rb))) [0..<length bs]"
    by simp
  show ?case
    unfolding rows goal unfolding split levRow.simps Let_def v unfolding split [symmetric] Cons.IH ..
qed

lemma levRows_spec:
  "levRows (Suc (length ra)) (lev_row_spec ra b) as b = lev_row_spec (rev as @ ra) b"
proof (induction as arbitrary: ra)
  case (Cons x as)
  have "Suc (length ra) # levRow x (lev_row_spec ra b) b (Suc (length ra)) = lev_row_spec (x # ra) b"
  proof -
    have "levRow x (lev_row_spec ra b) b (ed (x # ra) []) = map (\<lambda>j. ed (x # ra) (rev (take (Suc j) b))) [0..<length b]"
      using levRow_spec [of x ra b "[]"] by (simp add: lev_row_spec_def del: upt_Suc)
    then show ?thesis
      by (simp only: lev_row_spec_def upt_0_Suc list.map map_map comp_def) simp
  qed
  with Cons.IH [of "x # ra"] show ?case by simp
qed simp

lemma levOrdered_ed: "levOrdered a b = ed a b"
proof (cases "b = []")
  case False
  have "[0..<Suc (length b)] = lev_row_spec [] b"
    by (intro nth_equalityI) (auto simp: lev_row_spec_def simp del: upt_Suc)
  then have "levRows 1 [0..<Suc (length b)] a b ! length b = lev_row_spec (rev a) b ! length b"
    using levRows_spec [of "[]" b a] by simp
  also have "\<dots> = ed (rev a) (rev b)" by (simp add: lev_row_spec_def del: upt_Suc)
  finally show ?thesis using False by (simp add: levOrdered_def ed_rev)
qed (simp add: levOrdered_def)

lemma levenshtein_ed: "levenshtein a b = ed a b"
  by (simp add: levenshtein_def levOrdered_ed ed_sym)

lemma ed_le_max: "ed xs ys \<le> max (length xs) (length ys)"
  by (induction xs ys rule: ed.induct) (auto simp: min_def max_def split: if_splits)

subsection \<open>The order program computes the longest common subsequence\<close>

fun lcs :: "'a list \<Rightarrow> 'a list \<Rightarrow> nat" where
  "lcs [] ys = 0"
| "lcs xs [] = 0"
| "lcs (x # xs) (y # ys) = (if x = y then lcs xs ys + 1 else max (lcs xs (y # ys)) (lcs (x # xs) ys))"

lemma lcs_Nil2 [simp]: "lcs xs [] = 0"
  by (cases xs) simp_all

lemma lcs_common: "\<exists>s. subseq s xs \<and> subseq s ys \<and> length s = lcs xs ys"
proof (induction xs ys rule: lcs.induct)
  case (3 x xs y ys)
  show ?case
  proof (cases "x = y")
    case True
    with 3(1) obtain s where "subseq s xs" "subseq s ys" "length s = lcs xs ys" by blast
    then have "subseq (x # s) (x # xs)" "subseq (x # s) (y # ys)" "length (x # s) = lcs (x # xs) (y # ys)"
      using True by simp_all
    then show ?thesis by blast
  next
    case False
    from 3(2) [OF False] obtain s where s: "subseq s xs" "subseq s (y # ys)" "length s = lcs xs (y # ys)" by blast
    from 3(3) [OF False] obtain t where t: "subseq t (x # xs)" "subseq t ys" "length t = lcs (x # xs) ys" by blast
    show ?thesis
    proof (cases "lcs (x # xs) ys \<le> lcs xs (y # ys)")
      case True
      with s False show ?thesis by (intro exI [of _ s]) (auto simp: max_def)
    next
      case 2: False
      with t False show ?thesis by (intro exI [of _ t]) (auto simp: max_def)
    qed
  qed
qed simp_all

lemma lcs_greatest: "subseq s xs \<Longrightarrow> subseq s ys \<Longrightarrow> length s \<le> lcs xs ys"
proof (induction xs ys arbitrary: s rule: lcs.induct)
  case (3 x xs y ys)
  show ?case
  proof (cases s)
    case (Cons c s')
    show ?thesis
    proof (cases "x = y")
      case True
      have "subseq s' xs" "subseq s' ys"
        using "3.prems" Cons by (auto split: if_splits dest: subseq_Cons')
      with "3.IH"(1) [OF True] True Cons show ?thesis by simp
    next
      case False
      then have "subseq s xs \<or> subseq s ys"
        using "3.prems" Cons by (auto split: if_splits)
      then show ?thesis
        using "3.IH"(2,3) [OF False] "3.prems" False by fastforce
    qed
  qed simp
qed simp_all

lemma subseq_rev_rev: "subseq xs ys \<Longrightarrow> subseq (rev xs) (rev ys)"
  by (induction rule: list_emb.induct) (auto intro: list_emb_append_mono subseq_order.order_trans)

lemma lcs_rev: "lcs (rev xs) (rev ys) = lcs xs ys"
proof (rule antisym)
  obtain s where "subseq s (rev xs)" "subseq s (rev ys)" "length s = lcs (rev xs) (rev ys)"
    using lcs_common by blast
  then show "lcs (rev xs) (rev ys) \<le> lcs xs ys"
    using lcs_greatest [of "rev s" xs ys] by (metis length_rev rev_rev_ident subseq_rev_rev)
  obtain t where "subseq t xs" "subseq t ys" "length t = lcs xs ys" using lcs_common by blast
  then show "lcs xs ys \<le> lcs (rev xs) (rev ys)"
    using lcs_greatest [of "rev t" "rev xs" "rev ys"] by (metis length_rev subseq_rev_rev)
qed

definition lcs_row_spec :: "'a list \<Rightarrow> 'a list \<Rightarrow> nat list" where
  "lcs_row_spec ra b = map (\<lambda>j. lcs ra (rev (take j b))) [0..<Suc (length b)]"

lemma lcsRow_spec:
  "lcsRow x (map (\<lambda>j. lcs ra (rev (take j bs) @ rb)) [0..<Suc (length bs)]) bs (lcs (x # ra) rb)
     = map (\<lambda>j. lcs (x # ra) (rev (take (Suc j) bs) @ rb)) [0..<length bs]"
proof (induction bs arbitrary: rb)
  case Nil
  show ?case by simp
next
  case (Cons b bs)
  have upt: "[0..<Suc (length (b # bs))] = 0 # map Suc [0..<Suc (length bs)]"
    using upt_0_Suc [of "length (b # bs)"] by (simp del: upt_Suc)
  have rows: "map (\<lambda>j. lcs ra (rev (take j (b # bs)) @ rb)) [0..<Suc (length (b # bs))]
      = lcs ra rb # map (\<lambda>j. lcs ra (rev (take j bs) @ (b # rb))) [0..<Suc (length bs)]"
    unfolding upt by (simp del: upt_Suc)
  have split: "map (\<lambda>j. lcs ra (rev (take j bs) @ (b # rb))) [0..<Suc (length bs)]
      = lcs ra (b # rb) # map (\<lambda>j. lcs ra (rev (take (Suc j) bs) @ (b # rb))) [0..<length bs]"
    by (simp only: upt_0_Suc list.map map_map comp_def) simp
  have v: "(if x = b then lcs ra rb + 1 else max (lcs ra (b # rb)) (lcs (x # ra) rb)) = lcs (x # ra) (b # rb)"
    by simp
  have "[0..<length (b # bs)] = 0 # map Suc [0..<length bs]"
    using upt_0_Suc [of "length bs"] by (simp del: upt_Suc)
  then have goal: "map (\<lambda>j. lcs (x # ra) (rev (take (Suc j) (b # bs)) @ rb)) [0..<length (b # bs)]
      = lcs (x # ra) (b # rb) # map (\<lambda>j. lcs (x # ra) (rev (take (Suc j) bs) @ (b # rb))) [0..<length bs]"
    by simp
  show ?case
    unfolding rows goal unfolding split lcsRow.simps Let_def v unfolding split [symmetric] Cons.IH ..
qed

lemma lcsRows_spec: "lcsRows (lcs_row_spec ra b) as b = lcs_row_spec (rev as @ ra) b"
proof (induction as arbitrary: ra)
  case (Cons x as)
  have "0 # lcsRow x (lcs_row_spec ra b) b 0 = lcs_row_spec (x # ra) b"
  proof -
    have "lcsRow x (lcs_row_spec ra b) b (lcs (x # ra) []) = map (\<lambda>j. lcs (x # ra) (rev (take (Suc j) b))) [0..<length b]"
      using lcsRow_spec [of x ra b "[]"] by (simp add: lcs_row_spec_def del: upt_Suc)
    then show ?thesis
      by (simp only: lcs_row_spec_def upt_0_Suc list.map map_map comp_def) simp
  qed
  with Cons.IH [of "x # ra"] show ?case by simp
qed simp

lemma lcsLength_lcs: "lcsLength a b = lcs a b"
proof -
  have "replicate (Suc (length b)) 0 = lcs_row_spec [] b"
    by (intro nth_equalityI) (auto simp: lcs_row_spec_def simp del: upt_Suc replicate_Suc)
  then have "lcsRows (replicate (Suc (length b)) 0) a b ! length b = lcs_row_spec (rev a) b ! length b"
    using lcsRows_spec [of "[]" b a] by simp
  also have "\<dots> = lcs (rev a) (rev b)" by (simp add: lcs_row_spec_def del: upt_Suc)
  finally show ?thesis by (simp add: lcsLength_def lcs_rev)
qed

lemma subseq_mset: "subseq s xs \<Longrightarrow> mset s \<subseteq># mset xs"
  by (induction rule: list_emb.induct) (auto intro: subset_mset.order_trans)

text \<open>What is in order is contained.\<close>

lemma lcs_le_contained: "lcs xs ys \<le> size (mset xs \<inter># mset ys)"
proof -
  obtain s where "subseq s xs" "subseq s ys" "length s = lcs xs ys" using lcs_common by blast
  then show ?thesis by (metis size_mset size_mset_mono subseq_mset subset_mset.inf_greatest)
qed

end
