(* ===== verification/OcrBakeoff.thy ===== *)
theory OcrBakeoff
  imports EditDistance Complex_Main
begin

text \<open>
  The scores of the engine bake-off, services/ocr-worker-bakeoff/src: the character error rate
  of accuracy.ts and the order-insensitive scores of verdict.ts. Texts are lists of UTF-16 code
  units; the Unicode normal forms are a parameter. Numbers are exact rationals where the code
  has doubles.
\<close>

subsection \<open>Character error rate\<close>

type_synonym ustring = "nat list"

record Unicode =
  u_nfc :: "ustring \<Rightarrow> ustring"
  u_nfkc :: "ustring \<Rightarrow> ustring"

text \<open>\<open>\s\<close>.\<close>

definition is_ws :: "nat \<Rightarrow> bool" where
  "is_ws c \<longleftrightarrow> (9 \<le> c \<and> c \<le> 13) \<or> c = 32 \<or> c = 160 \<or> c = 5760 \<or> (8192 \<le> c \<and> c \<le> 8202)
     \<or> c = 8232 \<or> c = 8233 \<or> c = 8239 \<or> c = 8287 \<or> c = 12288 \<or> c = 65279"

fun unifyBreaks :: "ustring \<Rightarrow> ustring" where
  "unifyBreaks [] = []"
| "unifyBreaks (c # r) =
     (if c = 13 then (case r of d # r' \<Rightarrow> if d = 10 then 32 # unifyBreaks r' else 32 # unifyBreaks r | [] \<Rightarrow> [32])
      else if c = 10 then 32 # unifyBreaks r
      else c # unifyBreaks r)"

fun collapseWs :: "bool \<Rightarrow> ustring \<Rightarrow> ustring" where
  "collapseWs inRun [] = []"
| "collapseWs inRun (c # r) =
     (if is_ws c then (if inRun then collapseWs True r else 32 # collapseWs True r)
      else c # collapseWs False r)"

definition trimWs :: "ustring \<Rightarrow> ustring" where
  "trimWs s = rev (dropWhile is_ws (rev (dropWhile is_ws s)))"

text \<open>The string iterator: surrogate pairs are one code point.\<close>

fun codePoints :: "ustring \<Rightarrow> ustring list" where
  "codePoints [] = []"
| "codePoints [c] = [[c]]"
| "codePoints (c # d # r) =
     (if 55296 \<le> c \<and> c \<le> 56319 \<and> 56320 \<le> d \<and> d \<le> 57343 then [c, d] # codePoints r
      else [c] # codePoints (d # r))"

definition normalizeForCer :: "Unicode \<Rightarrow> ustring \<Rightarrow> ustring list" where
  "normalizeForCer U s = codePoints (trimWs (collapseWs False (unifyBreaks (u_nfc U s))))"

definition computeCER :: "Unicode \<Rightarrow> ustring \<Rightarrow> ustring \<Rightarrow> rat" where
  "computeCER U reference candidate =
     (let refTokens = normalizeForCer U reference; candTokens = normalizeForCer U candidate in
      if refTokens = [] \<and> candTokens = [] then 0
      else if refTokens = [] \<or> candTokens = [] then 1
      else of_nat (levenshtein refTokens candTokens) / of_nat (max (length refTokens) (length candTokens)))"

definition computeCERFolded :: "Unicode \<Rightarrow> ustring \<Rightarrow> ustring \<Rightarrow> rat" where
  "computeCERFolded U reference candidate = computeCER U (u_nfkc U reference) (u_nfkc U candidate)"

subsection \<open>Order-insensitive agreement\<close>

definition bag :: "Unicode \<Rightarrow> ustring \<Rightarrow> ustring list" where
  "bag U s = codePoints (filter (\<lambda>c. \<not> is_ws c) (u_nfkc U s))"

definition countChars :: "'a list \<Rightarrow> ('a, nat) jmap" where
  "countChars cand = foldl (\<lambda>counts ch. mset_kv ch ((case mget counts ch of Some k \<Rightarrow> k | None \<Rightarrow> 0) + 1) counts) [] cand"

fun countHits :: "('a, nat) jmap \<Rightarrow> 'a list \<Rightarrow> nat \<Rightarrow> nat" where
  "countHits counts [] hit = hit"
| "countHits counts (ch # ref) hit =
     (let k = (case mget counts ch of Some k \<Rightarrow> k | None \<Rightarrow> 0) in
      if k > 0 then countHits (mset_kv ch (k - 1) counts) ref (hit + 1) else countHits counts ref hit)"

definition computeContainment :: "Unicode \<Rightarrow> ustring \<Rightarrow> ustring \<Rightarrow> rat option" where
  "computeContainment U reference candidate =
     (let ref = bag U reference; cand = bag U candidate in
      if ref = [] then None
      else Some (of_nat (countHits (countChars cand) ref 0) / of_nat (length ref)))"

definition computeInflation :: "Unicode \<Rightarrow> ustring \<Rightarrow> ustring \<Rightarrow> rat option" where
  "computeInflation U reference candidate =
     (let r = length (bag U reference) in
      if r = 0 then None else Some (of_nat (length (bag U candidate)) / of_nat r))"

definition js_round :: "rat \<Rightarrow> int" where
  "js_round x = \<lfloor>x + 1 / 2\<rfloor>"

definition computeOrder :: "Unicode \<Rightarrow> ustring \<Rightarrow> ustring \<Rightarrow> rat option" where
  "computeOrder U reference candidate =
     (let a = bag U reference; b = bag U candidate in
      if a = [] then None
      else let contained = (case computeContainment U reference candidate of None \<Rightarrow> 0
                            | Some c \<Rightarrow> js_round (c * of_nat (length a))) in
        if contained = 0 then None
        else Some (min 1 (of_nat (lcsLength a b) / of_int contained)))"

subsection \<open>Properties of the scores\<close>

lemma max_length_pos: "xs \<noteq> [] \<Longrightarrow> 0 < max (length xs) (length ys)"
  by (cases xs) auto

lemma computeCER_range: "0 \<le> computeCER U r c \<and> computeCER U r c \<le> 1"
proof -
  have "levenshtein xs ys \<le> max (length xs) (length ys)" for xs ys :: "ustring list"
    by (simp add: levenshtein_ed ed_le_max)
  then have le: "(of_nat (levenshtein xs ys) :: rat) \<le> of_nat (max (length xs) (length ys))" for xs ys :: "ustring list"
    by (simp only: of_nat_le_iff)
  have "(of_nat (levenshtein xs ys) :: rat) / of_nat (max (length xs) (length ys)) \<le> 1" for xs ys :: "ustring list"
    using le [of xs ys] by (auto simp: divide_le_eq_1 simp del: of_nat_max)
  then show ?thesis
    by (auto simp: computeCER_def Let_def simp del: of_nat_max)
qed

lemma computeCER_0_iff: "computeCER U r c = 0 \<longleftrightarrow> normalizeForCer U r = normalizeForCer U c"
proof -
  have pos: "(of_nat (max (length xs) (length ys)) :: rat) \<noteq> 0" if "xs \<noteq> []" for xs ys :: "ustring list"
    using max_length_pos [OF that, of ys] by (simp only: of_nat_eq_0_iff)
  show ?thesis
    using pos [of "normalizeForCer U r" "normalizeForCer U c"]
    by (auto simp: computeCER_def Let_def levenshtein_ed ed_eq_0 simp del: of_nat_max)
qed

lemma computeCER_sym: "computeCER U r c = computeCER U c r"
  by (simp add: computeCER_def Let_def levenshtein_ed ed_sym max.commute conj_commute disj_commute)

lemma countChars_get: "mget (countChars xs) x = (if x \<in> set xs then Some (count_list xs x) else None)"
proof -
  have "mget (foldl (\<lambda>counts ch. mset_kv ch ((case mget counts ch of Some k \<Rightarrow> k | None \<Rightarrow> 0) + 1) counts) m xs) x
      = (if x \<in> set xs \<or> mget m x \<noteq> None then Some ((case mget m x of Some k \<Rightarrow> k | None \<Rightarrow> 0) + count_list xs x) else None)" for m
    by (induction xs arbitrary: m) (auto split: option.splits)
  from this [of "[]"] show ?thesis by (simp add: countChars_def)
qed

lemma countHits_inter:
  assumes "\<And>x. (case mget m x of Some k \<Rightarrow> k | None \<Rightarrow> 0) = count M x"
  shows "countHits m ref h = h + size (mset ref \<inter># M)"
  using assms
proof (induction ref arbitrary: m M h)
  case (Cons ch ref)
  let ?k = "case mget m ch of Some k \<Rightarrow> k | None \<Rightarrow> 0"
  show ?case
  proof (cases "?k > 0")
    case True
    then have in_M: "ch \<in># M" using Cons.prems [of ch] by (simp add: count_greater_zero_iff [symmetric] del: count_greater_zero_iff)
    have "countHits (mset_kv ch (?k - 1) m) ref (h + 1) = (h + 1) + size (mset ref \<inter># (M - {#ch#}))"
      using Cons.prems by (intro Cons.IH) (auto simp: Cons.prems)
    moreover have "mset (ch # ref) \<inter># M = add_mset ch (mset ref \<inter># (M - {#ch#}))"
      using in_M by (simp only: mset.simps inter_add_left2)
    ultimately show ?thesis using True by (simp add: Let_def)
  next
    case False
    then have "ch \<notin># M" using Cons.prems [of ch] by (simp add: count_eq_zero_iff [symmetric] del: count_eq_zero_iff)
    then have "mset (ch # ref) \<inter># M = mset ref \<inter># M" by (simp only: mset.simps inter_add_left1 not_False_eq_True)
    moreover have "countHits m (ch # ref) h = h + size (mset ref \<inter># M)"
      using False Cons by (simp add: Let_def)
    ultimately show ?thesis by (simp only:)
  qed
qed simp

lemma containment_inter:
  "countHits (countChars cand) ref 0 = size (mset ref \<inter># mset cand)"
  using countHits_inter [of "countChars cand" "mset cand" ref 0]
  by (auto simp: countChars_get count_mset count_list_0_iff)

end
