(* ===== verification/BakeoffVerdict.thy ===== *)
theory BakeoffVerdict
  imports OcrBakeoff Seek
begin

text \<open>
  The verdict of the engine bake-off, services/ocr-worker-bakeoff/src/verdict.ts: the
  aggregation of a run report per candidate and subgroup, the evaluation of the registered
  requirements, the ranking of the qualifying candidates with its tie rule, and the check a
  result passes before it is committed. Numbers are exact rationals where the code has doubles;
  \<open>localeCompare\<close> is a parameter; the keys of the code's result objects are own properties
  (maps here), in the order they were first written.
\<close>

subsection \<open>Specification, fixtures and observations\<close>

datatype Subgroup = Png | PdfLayer | PdfScan

datatype MetricName =
    Success_rate | Signal_rate | Mean_cer | Mean_cer_folded | Exact_rate | P95_latency_ms | Max_rss_mb

record Requirement =
  rq_subgroup :: Subgroup
  rq_metric :: MetricName
  rq_code :: "string option"
  rq_at_least :: bool
  rq_value :: rat

record RankKey =
  ky_subgroup :: Subgroup
  ky_metric :: MetricName
  ky_code :: "string option"
  ky_asc :: bool

record SlotSpec =
  sl_slot :: string
  sl_candidates :: "string list"
  sl_requirements :: "Requirement list"
  sl_rank_by :: "RankKey list"

record VerdictSpec =
  vs_registered_at :: string
  vs_evaluate_on_role :: string
  vs_slots :: "SlotSpec list"
  vs_control :: "string option"

datatype FixtureMedia = MediaPng | MediaPdf

datatype BakeoffFixture =
    ActiveFixture (fx_id: string) (fx_role: string) (fx_media: FixtureMedia)
  | PlaceholderFixture (fx_id: string)

datatype EngineObservation =
    SuccessObs (ob_fixture: string) (ob_engine: string) (ob_transcript: ustring) (ob_latency_ms: rat) (ob_rss_bytes: rat)
  | FailureObs (ob_fixture: string) (ob_engine: string) (ob_code: string)

record BakeoffRunReport =
  br_role_filter :: string
  br_fixtures_scored :: nat
  br_probes :: "string list"
  br_observations :: "EngineObservation list"

datatype VerdictSpecError = NoSubgroup string | ScoredMismatch nat nat

record SubgroupAggregate =
  sa_fixtures :: nat
  sa_successes :: nat
  sa_failures :: "(string, nat) jmap"
  sa_success_rate :: rat
  sa_mean_cer :: "rat option"
  sa_mean_cer_folded :: "rat option"
  sa_exact_rate :: rat
  sa_mean_containment :: "rat option"
  sa_mean_inflation :: "rat option"
  sa_mean_order :: "rat option"
  sa_p50_latency_ms :: "rat option"
  sa_p95_latency_ms :: "rat option"
  sa_max_rss_mb :: "rat option"

type_synonym Aggregates = "(string, (Subgroup, SubgroupAggregate) jmap) jmap"

subsection \<open>Aggregation\<close>

definition endsWith :: "string \<Rightarrow> string \<Rightarrow> bool" where
  "endsWith s suf \<longleftrightarrow> length suf \<le> length s \<and> drop (length s - length suf) s = suf"

definition subgroupOf :: "string \<Rightarrow> FixtureMedia \<Rightarrow> Subgroup option" where
  "subgroupOf i media =
     (if media = MediaPng then Some Png
      else if endsWith i ''-pdf-layer'' then Some PdfLayer
      else if endsWith i ''-pdf-scan'' then Some PdfScan
      else None)"

definition percentile :: "rat list \<Rightarrow> nat \<Rightarrow> rat option" where
  "percentile xs p =
     (if xs = [] then None
      else let rank = max 1 (nat \<lceil>(of_nat p / 100) * (of_nat (length xs) :: rat)\<rceil>) in
        Some (xs ! (rank - 1)))"

text \<open>\<open>Number(v.toFixed(places))\<close>: the closest decimal, the larger of two equally close.\<close>

definition toFixed :: "rat \<Rightarrow> nat \<Rightarrow> rat" where
  "toFixed v places =
     (if v < 0 then - (of_int (js_round (- v * 10 ^ places)) / 10 ^ places)
      else of_int (js_round (v * 10 ^ places)) / 10 ^ places)"

definition roundPlaces :: "rat option \<Rightarrow> nat \<Rightarrow> rat option" where
  "roundPlaces v places = map_option (\<lambda>x. toFixed x places) v"

definition roundAggregate :: "SubgroupAggregate \<Rightarrow> SubgroupAggregate" where
  "roundAggregate a = a\<lparr>
     sa_success_rate := toFixed (sa_success_rate a) 4,
     sa_mean_cer := roundPlaces (sa_mean_cer a) 4,
     sa_mean_cer_folded := roundPlaces (sa_mean_cer_folded a) 4,
     sa_exact_rate := toFixed (sa_exact_rate a) 4,
     sa_mean_containment := roundPlaces (sa_mean_containment a) 4,
     sa_mean_inflation := roundPlaces (sa_mean_inflation a) 4,
     sa_mean_order := roundPlaces (sa_mean_order a) 4,
     sa_max_rss_mb := roundPlaces (sa_max_rss_mb a) 1\<rparr>"

definition roundAggregates :: "Aggregates \<Rightarrow> Aggregates" where
  "roundAggregates agg = map (\<lambda>(c, subs). (c, map (\<lambda>(s, a). (s, roundAggregate a)) subs)) agg"

text \<open>\<open>CODE_SHAPE\<close>, \<open>/^[a-z][a-z0-9_]{0,63}$/\<close>.\<close>

definition lower_char :: "char \<Rightarrow> bool" where
  "lower_char c \<longleftrightarrow> (let n = (of_char c :: nat) in 97 \<le> n \<and> n \<le> 122)"

fun CODE_SHAPE :: "string \<Rightarrow> bool" where
  "CODE_SHAPE [] = False"
| "CODE_SHAPE (c # r) \<longleftrightarrow>
     lower_char c \<and> length r \<le> 63 \<and> (\<forall>d\<in>set r. lower_char d \<or> is_digit d \<or> d = CHR ''_'')"

definition tally :: "string \<Rightarrow> (string, nat) jmap \<Rightarrow> (string, nat) jmap" where
  "tally k m = mset_kv k ((case mget m k of Some n \<Rightarrow> n | None \<Rightarrow> 0) + 1) m"

definition push_some :: "rat option \<Rightarrow> rat list \<Rightarrow> rat list" where
  "push_some v xs = (case v of Some x \<Rightarrow> xs @ [x] | None \<Rightarrow> xs)"

text \<open>The arrays a subgroup's loop fills.\<close>

record SubgroupTotals =
  st_failures :: "(string, nat) jmap"
  st_cers :: "rat list"
  st_folded :: "rat list"
  st_containment :: "rat list"
  st_inflation :: "rat list"
  st_order :: "rat list"
  st_latencies :: "rat list"
  st_rss :: "rat list"
  st_successes :: nat

definition totals0 :: SubgroupTotals where
  "totals0 = \<lparr>st_failures = [], st_cers = [], st_folded = [], st_containment = [], st_inflation = [],
     st_order = [], st_latencies = [], st_rss = [], st_successes = 0\<rparr>"

definition addSuccess :: "Unicode \<Rightarrow> ustring \<Rightarrow> ustring \<Rightarrow> rat \<Rightarrow> rat \<Rightarrow> SubgroupTotals \<Rightarrow> SubgroupTotals" where
  "addSuccess U ref transcript latency rss t = t\<lparr>
     st_successes := st_successes t + 1,
     st_cers := st_cers t @ [computeCER U ref transcript],
     st_folded := st_folded t @ [computeCERFolded U ref transcript],
     st_containment := push_some (computeContainment U ref transcript) (st_containment t),
     st_inflation := push_some (computeInflation U ref transcript) (st_inflation t),
     st_order := push_some (computeOrder U ref transcript) (st_order t),
     st_latencies := st_latencies t @ [latency],
     st_rss := st_rss t @ [rss]\<rparr>"

definition scoreFixture ::
  "Unicode \<Rightarrow> (string \<Rightarrow> ustring) \<Rightarrow> EngineObservation list \<Rightarrow> BakeoffFixture \<Rightarrow> SubgroupTotals \<Rightarrow> SubgroupTotals" where
  "scoreFixture U expected obs f t =
     (case List.find (\<lambda>x. ob_fixture x = fx_id f) obs of
        None \<Rightarrow> t\<lparr>st_failures := tally ''not_run'' (st_failures t)\<rparr>
      | Some (FailureObs _ _ code) \<Rightarrow>
          t\<lparr>st_failures := tally (if CODE_SHAPE code then code else ''unrecognised_code'') (st_failures t)\<rparr>
      | Some (SuccessObs _ _ transcript latency rss) \<Rightarrow>
          addSuccess U (expected (fx_id f)) transcript latency rss t)"

definition mean :: "rat list \<Rightarrow> rat option" where
  "mean xs = (if xs = [] then None else Some (foldl (+) 0 xs / of_nat (length xs)))"

definition maxBytes :: "rat list \<Rightarrow> rat option" where
  "maxBytes xs = (if xs = [] then None else Some (foldl max (hd xs) (tl xs) / (1024 * 1024)))"

definition summarizeTotals :: "nat \<Rightarrow> SubgroupTotals \<Rightarrow> SubgroupAggregate" where
  "summarizeTotals n t =
     (let latencies = sort (st_latencies t) in
      \<lparr>sa_fixtures = n, sa_successes = st_successes t, sa_failures = st_failures t,
       sa_success_rate = of_nat (st_successes t) / of_nat n,
       sa_mean_cer = mean (st_cers t),
       sa_mean_cer_folded = mean (st_folded t),
       sa_exact_rate = of_nat (length (filter (\<lambda>c. c = 0) (st_folded t))) / of_nat n,
       sa_mean_containment = mean (st_containment t),
       sa_mean_inflation = mean (st_inflation t),
       sa_mean_order = mean (st_order t),
       sa_p50_latency_ms = percentile latencies 50,
       sa_p95_latency_ms = percentile latencies 95,
       sa_max_rss_mb = maxBytes (st_rss t)\<rparr>)"

definition fixture_subgroup :: "BakeoffFixture \<Rightarrow> Subgroup option" where
  "fixture_subgroup f = subgroupOf (fx_id f) (fx_media f)"

definition aggregateSubgroup ::
  "Unicode \<Rightarrow> (string \<Rightarrow> ustring) \<Rightarrow> BakeoffFixture list \<Rightarrow> EngineObservation list \<Rightarrow> Subgroup \<Rightarrow>
     (Subgroup \<times> SubgroupAggregate) list" where
  "aggregateSubgroup U expected active obs sub =
     (let members = filter (\<lambda>f. fixture_subgroup f = Some sub) active in
      if members = [] then []
      else [(sub, summarizeTotals (length members) (fold (scoreFixture U expected obs) members totals0))])"

definition isScored :: "string \<Rightarrow> BakeoffFixture \<Rightarrow> bool" where
  "isScored role f = (case f of ActiveFixture _ r _ \<Rightarrow> r = role | PlaceholderFixture _ \<Rightarrow> False)"

text \<open>A \<open>Set\<close> built from an array: first occurrences, in order.\<close>

definition firsts :: "'a list \<Rightarrow> 'a list" where
  "firsts xs = foldl (\<lambda>s x. if x \<in> set s then s else s @ [x]) [] xs"

text \<open>\<open>byId.get(f.id)\<close>: the last active fixture with the id.\<close>

definition byId :: "BakeoffFixture list \<Rightarrow> string \<Rightarrow> BakeoffFixture" where
  "byId active i = the (mget (foldl (\<lambda>m f. mset_kv (fx_id f) f m) [] active) i)"

definition aggregate ::
  "Unicode \<Rightarrow> BakeoffRunReport \<Rightarrow> BakeoffFixture list \<Rightarrow> (BakeoffFixture \<Rightarrow> ustring) \<Rightarrow> VerdictSpecError + Aggregates" where
  "aggregate U report fixtures expectedText =
     (let active = filter (isScored (br_role_filter report)) fixtures in
      case List.find (\<lambda>f. fixture_subgroup f = None) active of
        Some f \<Rightarrow> Inl (NoSubgroup (fx_role f))
      | None \<Rightarrow>
        if br_fixtures_scored report \<noteq> length active
        then Inl (ScoredMismatch (br_fixtures_scored report) (length active))
        else Inr (map (\<lambda>name.
               (name, concat (map (aggregateSubgroup U (\<lambda>i. expectedText (byId active i)) active
                                     (filter (\<lambda>ob. ob_engine ob = name) (br_observations report)))
                                [Png, PdfLayer, PdfScan])))
             (firsts (br_probes report @ map ob_engine (br_observations report)))))"

subsection \<open>Evaluation\<close>

record RequirementResult = Requirement +
  rr_measured :: "rat option"
  rr_pass :: bool

record CandidateEvaluation =
  ce_candidate :: string
  ce_present :: bool
  ce_requirements :: "RequirementResult list"
  ce_qualifies :: bool

record SlotResult =
  sr_slot :: string
  sr_evaluations :: "CandidateEvaluation list"
  sr_awarded_to :: "string option"
  sr_ranking :: "string list"
  sr_tie :: "string list option"

definition TIE_EPSILON :: rat where
  "TIE_EPSILON = 1 / 100"

definition measure_metric ::
  "Aggregates \<Rightarrow> string \<Rightarrow> Subgroup \<Rightarrow> MetricName \<Rightarrow> string option \<Rightarrow> rat option" where
  "measure_metric agg candidate subgroup metric code =
     (case mget agg candidate of
        None \<Rightarrow> None
      | Some subs \<Rightarrow>
        case mget subs subgroup of
          None \<Rightarrow> None
        | Some sub \<Rightarrow>
          (case metric of
             Success_rate \<Rightarrow> Some (sa_success_rate sub)
           | Signal_rate \<Rightarrow>
               Some (of_nat (case mget (sa_failures sub) (case code of Some k \<Rightarrow> k | None \<Rightarrow> []) of
                               Some n \<Rightarrow> n | None \<Rightarrow> 0) / of_nat (sa_fixtures sub))
           | Mean_cer \<Rightarrow> sa_mean_cer sub
           | Mean_cer_folded \<Rightarrow> sa_mean_cer_folded sub
           | Exact_rate \<Rightarrow> Some (sa_exact_rate sub)
           | P95_latency_ms \<Rightarrow> sa_p95_latency_ms sub
           | Max_rss_mb \<Rightarrow> sa_max_rss_mb sub))"

definition judge :: "Aggregates \<Rightarrow> string \<Rightarrow> Requirement \<Rightarrow> RequirementResult" where
  "judge agg candidate r =
     (let measured = measure_metric agg candidate (rq_subgroup r) (rq_metric r) (rq_code r) in
      Requirement.extend r
        \<lparr>rr_measured = roundPlaces measured 4,
         rr_pass = (case measured of None \<Rightarrow> False
                    | Some m \<Rightarrow> if rq_at_least r then m \<ge> rq_value r else m \<le> rq_value r)\<rparr>)"

definition evaluateCandidate :: "SlotSpec \<Rightarrow> Aggregates \<Rightarrow> string \<Rightarrow> CandidateEvaluation" where
  "evaluateCandidate sl agg candidate =
     (let present = (mget agg candidate \<noteq> None);
          requirements = map (judge agg candidate) (sl_requirements sl) in
      \<lparr>ce_candidate = candidate, ce_present = present, ce_requirements = requirements,
       ce_qualifies = (present \<and> (\<forall>r\<in>set requirements. rr_pass r))\<rparr>)"

text \<open>The sort's comparator, from the first key on: the sign of the first key that separates.\<close>

fun compareKeys :: "RankKey list \<Rightarrow> rat option list \<Rightarrow> rat option list \<Rightarrow> rat option" where
  "compareKeys (k # ks) (x # xs) (y # ys) =
     (case (x, y) of
        (None, None) \<Rightarrow> compareKeys ks xs ys
      | (None, Some _) \<Rightarrow> Some 1
      | (Some _, None) \<Rightarrow> Some (- 1)
      | (Some u, Some v) \<Rightarrow>
          if u \<noteq> v then Some ((u - v) * (if ky_asc k then 1 else - 1)) else compareKeys ks xs ys)"
| "compareKeys _ _ _ = None"

definition compareCandidates ::
  "(string \<Rightarrow> string \<Rightarrow> rat) \<Rightarrow> RankKey list \<Rightarrow> string \<times> rat option list \<Rightarrow> string \<times> rat option list \<Rightarrow> rat" where
  "compareCandidates localeCompare rank_by a b =
     (case compareKeys rank_by (snd a) (snd b) of
        Some d \<Rightarrow> d
      | None \<Rightarrow> localeCompare (fst a) (fst b))"

definition keysOf :: "Aggregates \<Rightarrow> RankKey list \<Rightarrow> string \<Rightarrow> string \<times> rat option list" where
  "keysOf agg rank_by c =
     (c, map (\<lambda>k. measure_metric agg c (ky_subgroup k) (ky_metric k) (ky_code k)) rank_by)"

fun findIndex :: "('a \<Rightarrow> bool) \<Rightarrow> 'a list \<Rightarrow> nat option" where
  "findIndex P [] = None"
| "findIndex P (x # xs) = (if P x then Some 0 else map_option Suc (findIndex P xs))"

definition tieOf :: "RankKey list \<Rightarrow> (string \<times> rat option list) list \<Rightarrow> string list option" where
  "tieOf rank_by keyed =
     (case findIndex (\<lambda>k. ky_metric k = Mean_cer_folded) rank_by of
        None \<Rightarrow> None
      | Some i \<Rightarrow>
        if length keyed < 2 then None
        else let first = snd (hd keyed) ! i;
                 tied = map fst (filter (\<lambda>k. case (first, snd k ! i) of
                          (Some u, Some v) \<Rightarrow> \<bar>v - u\<bar> < TIE_EPSILON
                        | _ \<Rightarrow> False) keyed) in
          if length tied \<ge> 2 then Some tied else None)"

definition evaluateSlot :: "(string \<Rightarrow> string \<Rightarrow> rat) \<Rightarrow> Aggregates \<Rightarrow> SlotSpec \<Rightarrow> SlotResult" where
  "evaluateSlot localeCompare agg sl =
     (let evaluations = map (evaluateCandidate sl agg) (sl_candidates sl);
          qualifying = map ce_candidate (filter ce_qualifies evaluations);
          keyed = sort_by (\<lambda>a b. compareCandidates localeCompare (sl_rank_by sl) a b \<le> 0)
                    (map (keysOf agg (sl_rank_by sl)) qualifying);
          ranking = map fst keyed in
      \<lparr>sr_slot = sl_slot sl, sr_evaluations = evaluations,
       sr_awarded_to = (case ranking of [] \<Rightarrow> None | c # _ \<Rightarrow> Some c),
       sr_ranking = ranking, sr_tie = tieOf (sl_rank_by sl) keyed\<rparr>)"

definition evaluate ::
  "(string \<Rightarrow> string \<Rightarrow> rat) \<Rightarrow> VerdictSpec \<Rightarrow> Aggregates \<Rightarrow> SlotResult list \<times> string option" where
  "evaluate localeCompare spec agg =
     (let slots = map (evaluateSlot localeCompare agg) (vs_slots spec) in
      (slots,
       case vs_control spec of
         None \<Rightarrow> None
       | Some from_slot \<Rightarrow>
         (case List.find (\<lambda>s. sr_slot s = from_slot) slots of
            None \<Rightarrow> None
          | Some s \<Rightarrow> if length (sr_ranking s) \<ge> 2 then Some (sr_ranking s ! 1) else None)))"

subsection \<open>What may be committed\<close>

fun contains :: "string \<Rightarrow> string \<Rightarrow> bool" where
  "contains needle [] \<longleftrightarrow> needle = []"
| "contains needle (c # r) \<longleftrightarrow> take (length needle) (c # r) = needle \<or> contains needle r"

definition slashed :: "string \<Rightarrow> bool" where
  "slashed s \<longleftrightarrow> CHR ''/'' \<in> set s \<or> CHR 0x5C \<in> set s"

definition forbiddenKeys :: "string list" where
  "forbiddenKeys = [''transcript'', ''observations'', ''cer_scores'', ''fixture_id'', ''path'', ''detail'', ''message'']"

text \<open>The walk over every key and string value; the flag says that the value is the result itself.\<close>

fun walk :: "bool \<Rightarrow> jval \<Rightarrow> bool" where
  "walk isRoot (JStr s) = (\<not> slashed s)"
| "walk isRoot (JArr xs) = (\<forall>x\<in>set xs. walk False x)"
| "walk isRoot (JObj kvs) =
     (\<forall>(k, x)\<in>set kvs. \<not> slashed k \<and> (isRoot \<and> k = ''schema'' \<or> walk False x))"
| "walk isRoot _ = True"

definition assertCommittable :: "jval \<Rightarrow> bool" where
  "assertCommittable result \<longleftrightarrow>
     (\<forall>key\<in>set forbiddenKeys. \<not> contains (CHR 0x22 # key @ [CHR 0x22]) (stringify result)) \<and> walk True result"

subsection \<open>The aggregate counts every fixture once\<close>

abbreviation failure_count :: "SubgroupTotals \<Rightarrow> nat" where
  "failure_count t \<equiv> sum_list (map snd (st_failures t))"

lemma mset_kv_sum:
  "sum_list (map snd (mset_kv k v m)) + (case mget m k of Some n \<Rightarrow> n | None \<Rightarrow> 0) = sum_list (map snd m) + (v::nat)"
  by (induction k v m rule: mset_kv.induct) (auto split: option.splits)

lemma tally_sum: "sum_list (map snd (tally k m)) = Suc (sum_list (map snd m))"
  using mset_kv_sum [of k "Suc (case mget m k of Some n \<Rightarrow> n | None \<Rightarrow> 0)" m] by (simp add: tally_def)

definition totals_ok :: "nat \<Rightarrow> SubgroupTotals \<Rightarrow> bool" where
  "totals_ok n t \<longleftrightarrow> distinct (mkeys (st_failures t)) \<and> st_successes t + failure_count t = n
     \<and> length (st_cers t) = st_successes t \<and> length (st_folded t) = st_successes t
     \<and> length (st_latencies t) = st_successes t \<and> length (st_rss t) = st_successes t
     \<and> (\<forall>c\<in>set (st_cers t). 0 \<le> c \<and> c \<le> 1) \<and> (\<forall>c\<in>set (st_folded t). 0 \<le> c \<and> c \<le> 1)"

lemma scoreFixture_ok:
  assumes "totals_ok n t"
  shows "totals_ok (Suc n) (scoreFixture U expected obs f t)"
  using assms computeCER_range [of U]
  by (auto simp: scoreFixture_def totals_ok_def tally_sum addSuccess_def computeCERFolded_def
        split: option.splits EngineObservation.splits) (auto simp: tally_def intro!: distinct_mset_kv)

lemma fold_scoreFixture_ok:
  "totals_ok n t \<Longrightarrow> totals_ok (n + length fs) (fold (scoreFixture U expected obs) fs t)"
proof (induction fs arbitrary: n t)
  case (Cons f fs)
  then show ?case using Cons.IH [OF scoreFixture_ok [OF Cons.prems]] by simp
qed simp

definition aggregate_ok :: "SubgroupAggregate \<Rightarrow> bool" where
  "aggregate_ok a \<longleftrightarrow> 0 < sa_fixtures a \<and> sa_successes a + sum_list (map snd (sa_failures a)) = sa_fixtures a
     \<and> sa_success_rate a = of_nat (sa_successes a) / of_nat (sa_fixtures a)
     \<and> (sa_mean_cer a = None \<longleftrightarrow> sa_successes a = 0)
     \<and> (\<forall>c. sa_mean_cer a = Some c \<longrightarrow> 0 \<le> c \<and> c \<le> 1)
     \<and> (\<forall>c. sa_mean_cer_folded a = Some c \<longrightarrow> 0 \<le> c \<and> c \<le> 1)
     \<and> 0 \<le> sa_exact_rate a \<and> sa_exact_rate a \<le> sa_success_rate a \<and> sa_success_rate a \<le> 1"

lemma mean_range:
  assumes "\<forall>x\<in>set xs. 0 \<le> x \<and> x \<le> 1" and "mean xs = Some c"
  shows "0 \<le> c \<and> c \<le> 1"
proof -
  have "foldl (+) a xs = a + sum_list xs" for a :: rat by (induction xs arbitrary: a) auto
  moreover have "0 \<le> sum_list xs \<and> sum_list xs \<le> of_nat (length xs)"
    using assms(1) by (induction xs) (auto intro: add_mono)
  ultimately show ?thesis
    using assms(2) by (auto simp: mean_def divide_le_eq_1 split: if_splits)
qed

lemma summarizeTotals_ok:
  assumes ok: "totals_ok n t" and n: "0 < n"
  shows "aggregate_ok (summarizeTotals n t)"
proof -
  have exact: "length (filter (\<lambda>c. c = 0) (st_folded t)) \<le> st_successes t"
    using ok by (metis length_filter_le totals_ok_def)
  have "st_successes t \<le> n" using ok by (simp add: totals_ok_def)
  with exact n have "of_nat (length (filter (\<lambda>c. c = 0) (st_folded t))) / (of_nat n :: rat) \<le> of_nat (st_successes t) / of_nat n
     \<and> (of_nat (st_successes t) :: rat) / of_nat n \<le> 1"
    by (auto intro: divide_right_mono)
  moreover have "mean (st_cers t) = None \<longleftrightarrow> st_successes t = 0"
    using ok by (cases "st_cers t") (auto simp: mean_def totals_ok_def)
  moreover have "mean (st_cers t) = Some c \<Longrightarrow> 0 \<le> c \<and> c \<le> 1" for c
    using ok by (intro mean_range [of "st_cers t"]) (auto simp: totals_ok_def)
  moreover have "mean (st_folded t) = Some c \<Longrightarrow> 0 \<le> c \<and> c \<le> 1" for c
    using ok by (intro mean_range [of "st_folded t"]) (auto simp: totals_ok_def)
  ultimately show ?thesis
    using ok n by (auto simp: aggregate_ok_def summarizeTotals_def Let_def totals_ok_def)
qed

lemma aggregateSubgroup_ok:
  "(s, a) \<in> set (aggregateSubgroup U expected active obs sub) \<Longrightarrow>
     aggregate_ok a \<and> sa_fixtures a = length (filter (\<lambda>f. fixture_subgroup f = Some s) active)"
  using fold_scoreFixture_ok [of 0 totals0 "filter (\<lambda>f. fixture_subgroup f = Some sub) active" U expected obs]
  by (auto simp: aggregateSubgroup_def Let_def totals_ok_def totals0_def summarizeTotals_ok
        intro!: summarizeTotals_ok split: if_splits) (auto simp: summarizeTotals_def Let_def)

subsection \<open>The ranking is a total preorder and the award its minimum\<close>

lemma total_preorder_vimage:
  "total_preorder_on (f ` A) le \<Longrightarrow> total_preorder_on A (\<lambda>x y. le (f x) (f y))"
  unfolding total_preorder_on_def by blast

lemma compareCandidates_preorder:
  assumes lc: "total_preorder_on UNIV (\<lambda>a b. localeCompare a b \<le> (0::rat))"
  shows "total_preorder_on {p. length (snd p) = length ks} (\<lambda>a b. compareCandidates localeCompare ks a b \<le> 0)"
proof (induction ks)
  case Nil
  have "total_preorder_on {p. length (snd p :: rat option list) = length ([] :: RankKey list)} (\<lambda>a b. localeCompare (fst a) (fst b) \<le> 0)"
    by (intro total_preorder_vimage [of fst] total_preorder_on_subset [OF lc]) simp
  then show ?case by (rule total_preorder_cong) (auto simp: compareCandidates_def)
next
  case (Cons k ks)
  let ?missing = "\<lambda>p :: string \<times> rat option list. if hd (snd p) = None then 1 else 0 :: nat"
  let ?amount = "\<lambda>p :: string \<times> rat option list. (case hd (snd p) of None \<Rightarrow> 0 | Some u \<Rightarrow> u * (if ky_asc k then 1 else - 1))"
  let ?tail = "\<lambda>p :: string \<times> rat option list. (fst p, tl (snd p))"
  let ?A = "{p :: string \<times> rat option list. length (snd p) = length (k # ks)}"
  have "total_preorder_on ?A (\<lambda>a b. compareCandidates localeCompare ks (?tail a) (?tail b) \<le> 0)"
    by (intro total_preorder_vimage [of ?tail] total_preorder_on_subset [OF Cons.IH]) auto
  then have "total_preorder_on ?A (\<lambda>a b. if ?missing a < ?missing b then True else if ?missing b < ?missing a then False
      else if ?amount a < ?amount b then True else if ?amount b < ?amount a then False
      else compareCandidates localeCompare ks (?tail a) (?tail b) \<le> 0)"
    by (intro total_preorder_asc)
  then show ?case
  proof (rule total_preorder_cong)
    fix a b assume "a \<in> ?A" "b \<in> ?A"
    then obtain c x xs d y ys where ab: "a = (c, x # xs)" "b = (d, y # ys)"
      by (cases a; cases b; cases "snd a"; cases "snd b") auto
    show "(compareCandidates localeCompare (k # ks) a b \<le> 0) =
      (if ?missing a < ?missing b then True else if ?missing b < ?missing a then False
      else if ?amount a < ?amount b then True else if ?amount b < ?amount a then False
      else compareCandidates localeCompare ks (?tail a) (?tail b) \<le> 0)"
      by (cases x; cases y; cases "compareKeys ks xs ys") (auto simp: ab compareCandidates_def)
  qed
qed

definition qualifies :: "Aggregates \<Rightarrow> SlotSpec \<Rightarrow> string \<Rightarrow> bool" where
  "qualifies agg sl c \<longleftrightarrow> c \<in> set (sl_candidates sl) \<and> mget agg c \<noteq> None \<and>
     (\<forall>r\<in>set (sl_requirements sl). \<exists>m. measure_metric agg c (rq_subgroup r) (rq_metric r) (rq_code r) = Some m
        \<and> (if rq_at_least r then rq_value r \<le> m else m \<le> rq_value r))"

lemma judge_pass:
  "rr_pass (judge agg c r) \<longleftrightarrow> (\<exists>m. measure_metric agg c (rq_subgroup r) (rq_metric r) (rq_code r) = Some m
     \<and> (if rq_at_least r then rq_value r \<le> m else m \<le> rq_value r))"
  by (auto simp: judge_def Let_def Requirement.defs split: option.splits)

lemma evaluated_qualifies:
  "c \<in> set (sl_candidates sl) \<Longrightarrow> ce_qualifies (evaluateCandidate sl agg c) \<longleftrightarrow> qualifies agg sl c"
  by (auto simp: evaluateCandidate_def Let_def qualifies_def judge_pass)

lemma qualifying:
  "map ce_candidate (filter ce_qualifies (map (evaluateCandidate sl agg) (sl_candidates sl)))
     = filter (qualifies agg sl) (sl_candidates sl)"
proof -
  have "map ce_candidate (filter ce_qualifies (map (evaluateCandidate sl agg) cs)) = filter (qualifies agg sl) cs"
    if "set cs \<subseteq> set (sl_candidates sl)" for cs
    using that by (induction cs) (auto simp: evaluated_qualifies, simp_all add: evaluateCandidate_def Let_def)
  then show ?thesis by blast
qed

lemma qualifying_set:
  "set (filter (qualifies agg sl) (sl_candidates sl)) = {c. qualifies agg sl c}"
  by (auto simp: qualifies_def)

definition rank_le :: "(string \<Rightarrow> string \<Rightarrow> rat) \<Rightarrow> Aggregates \<Rightarrow> RankKey list \<Rightarrow> string \<Rightarrow> string \<Rightarrow> bool" where
  "rank_le localeCompare agg ks c d \<longleftrightarrow> compareCandidates localeCompare ks (keysOf agg ks c) (keysOf agg ks d) \<le> 0"

text \<open>The registered order, spelled out: the first key on which the measured values differ decides. A value
  precedes a missing one; of two values the smaller precedes on an ascending key, the larger on a descending
  one. Candidates equal on every key are left to the comparison of their names.\<close>

definition key_value :: "Aggregates \<Rightarrow> string \<Rightarrow> RankKey \<Rightarrow> rat option" where
  "key_value agg c k = measure_metric agg c (ky_subgroup k) (ky_metric k) (ky_code k)"

definition better_on :: "RankKey \<Rightarrow> rat option \<Rightarrow> rat option \<Rightarrow> bool" where
  "better_on k x y \<longleftrightarrow> (case x of None \<Rightarrow> False | Some u \<Rightarrow>
     (case y of None \<Rightarrow> True | Some v \<Rightarrow> if ky_asc k then u < v else v < u))"

definition ranks_before :: "(string \<Rightarrow> string \<Rightarrow> rat) \<Rightarrow> Aggregates \<Rightarrow> RankKey list \<Rightarrow> string \<Rightarrow> string \<Rightarrow> bool" where
  "ranks_before localeCompare agg ks c d \<longleftrightarrow>
     (\<exists>i<length ks. (\<forall>j<i. key_value agg c (ks ! j) = key_value agg d (ks ! j)) \<and>
        better_on (ks ! i) (key_value agg c (ks ! i)) (key_value agg d (ks ! i))) \<or>
     (\<forall>j<length ks. key_value agg c (ks ! j) = key_value agg d (ks ! j)) \<and> localeCompare c d \<le> 0"

lemma ranks_before_Cons:
  "ranks_before lc agg (k # ks) c d \<longleftrightarrow>
     better_on k (key_value agg c k) (key_value agg d k) \<or>
     key_value agg c k = key_value agg d k \<and> ranks_before lc agg ks c d"
  by (simp add: ranks_before_def Ex_less_Suc2 All_less_Suc2) blast

lemma rank_le_ranks_before: "rank_le lc agg ks c d \<longleftrightarrow> ranks_before lc agg ks c d"
proof (induction ks)
  case Nil
  show ?case by (simp add: rank_le_def ranks_before_def compareCandidates_def keysOf_def)
next
  case (Cons k ks)
  then show ?case
    unfolding ranks_before_Cons rank_le_def keysOf_def compareCandidates_def fst_conv snd_conv list.map key_value_def [symmetric]
    by (cases "key_value agg c k"; cases "key_value agg d k")
       (auto simp: better_on_def)
qed

lemma fst_keysOf [simp]: "fst (keysOf agg ks c) = c"
  by (simp add: keysOf_def)

lemma insort_keyed: "\<exists>zs. insort_by le (f x) (map f ys) = map f zs"
proof (induction ys)
  case Nil
  show ?case by (intro exI [of _ "[x]"]) simp
next
  case (Cons y ys)
  then obtain zs where "insort_by le (f x) (map f ys) = map f zs" by blast
  then have "insort_by le (f x) (map f (y # ys)) = map f (if le (f x) (f y) then x # y # ys else y # zs)" by simp
  then show ?case by blast
qed

lemma sort_keyed: "\<exists>ys. sort_by le (map f xs) = map f ys"
proof (induction xs)
  case (Cons x xs)
  then obtain ys where "sort_by le (map f xs) = map f ys" by blast
  then have "sort_by le (map f (x # xs)) = insort_by le (f x) (map f ys)" by (simp add: sort_by_def)
  then show ?case using insort_keyed [of le f x ys] by simp
qed (simp add: sort_by_def)

lemma slot_ranking:
  fixes agg :: Aggregates and sl :: SlotSpec
  assumes lc: "total_preorder_on UNIV (\<lambda>a b. localeCompare a b \<le> (0::rat))"
  defines "R \<equiv> sr_ranking (evaluateSlot localeCompare agg sl)"
  shows "set R = {c. qualifies agg sl c}"
    and "sorted_wrt (rank_le localeCompare agg (sl_rank_by sl)) R"
    and "distinct (sl_candidates sl) \<Longrightarrow> distinct R"
    and "sr_awarded_to (evaluateSlot localeCompare agg sl) = (case R of [] \<Rightarrow> None | c # _ \<Rightarrow> Some c)"
proof -
  let ?ks = "sl_rank_by sl"
  let ?le = "\<lambda>a b. compareCandidates localeCompare ?ks a b \<le> 0"
  let ?q = "filter (qualifies agg sl) (sl_candidates sl)"
  let ?keyed = "sort_by ?le (map (keysOf agg ?ks) ?q)"
  have R: "R = map fst ?keyed" by (simp only: R_def evaluateSlot_def Let_def qualifying SlotResult.simps)
  show "set R = {c. qualifies agg sl c}"
    unfolding R qualifying_set [symmetric] by (force simp: image_image)
  have "sorted_wrt ?le ?keyed"
    by (intro sorted_wrt_sort_by total_preorder_on_subset [OF compareCandidates_preorder [OF lc]]) (auto simp: keysOf_def)
  moreover obtain ys where ys: "?keyed = map (keysOf agg ?ks) ys" using sort_keyed by blast
  moreover from ys have "R = ys" by (simp add: R comp_def)
  ultimately show "sorted_wrt (rank_le localeCompare agg ?ks) R"
    unfolding rank_le_def [abs_def] by (simp add: sorted_wrt_map)
  show "distinct R" if "distinct (sl_candidates sl)"
  proof -
    from that have "distinct ?q" by simp
    then have "distinct (map (keysOf agg ?ks) ?q)" by (simp add: distinct_map inj_on_def keysOf_def)
    then have "distinct (map (keysOf agg ?ks) ys)" using ys by (metis distinct_sort_by)
    with \<open>R = ys\<close> show ?thesis by (simp add: distinct_map)
  qed
  show "sr_awarded_to (evaluateSlot localeCompare agg sl) = (case R of [] \<Rightarrow> None | c # _ \<Rightarrow> Some c)"
    by (simp add: R_def evaluateSlot_def Let_def)
qed

lemma award:
  assumes "total_preorder_on UNIV (\<lambda>a b. localeCompare a b \<le> (0::rat))"
    and "sr_awarded_to (evaluateSlot localeCompare agg sl) = Some c"
  shows "qualifies agg sl c \<and> (\<forall>d. qualifies agg sl d \<longrightarrow> d \<noteq> c \<longrightarrow> rank_le localeCompare agg (sl_rank_by sl) c d)"
  using slot_ranking [OF assms(1), where agg = agg and sl = sl] assms(2)
  by (cases "sr_ranking (evaluateSlot localeCompare agg sl)") auto

lemma no_award:
  assumes "total_preorder_on UNIV (\<lambda>a b. localeCompare a b \<le> (0::rat))"
  shows "sr_awarded_to (evaluateSlot localeCompare agg sl) = None \<longleftrightarrow> (\<forall>c. \<not> qualifies agg sl c)"
  using slot_ranking [OF assms, where agg = agg and sl = sl]
  by (cases "sr_ranking (evaluateSlot localeCompare agg sl)") auto

subsection \<open>A committed result carries no page\<close>

lemma contains_iff: "contains needle s \<longleftrightarrow> (\<exists>a b. s = a @ needle @ b)"
proof (induction s)
  case (Cons c r)
  have "take (length needle) (c # r) = needle \<longleftrightarrow> (\<exists>b. c # r = needle @ b)"
    by (metis append_eq_conv_conj append_take_drop_id)
  then show ?case
    by (simp add: Cons.IH) (metis append_Cons append_Nil list.exhaust list.inject)
qed simp

fun mentions :: "string \<Rightarrow> jval \<Rightarrow> bool" where
  "mentions key (JArr xs) = (\<exists>x\<in>set xs. mentions key x)"
| "mentions key (JObj kvs) = (\<exists>(k, x)\<in>set kvs. x \<noteq> JUndef \<and> (k = key \<or> mentions key x))"
| "mentions key _ = False"

fun strings_of :: "jval \<Rightarrow> string set" where
  "strings_of (JStr s) = {s}"
| "strings_of (JArr xs) = (\<Union>x\<in>set xs. strings_of x)"
| "strings_of (JObj kvs) = (\<Union>(k, x)\<in>set kvs. insert k (strings_of x))"
| "strings_of _ = {}"

lemma contains_join: "x \<in> set xs \<Longrightarrow> contains n x \<Longrightarrow> contains n (join xs)"
proof (induction xs rule: join.induct)
  case (3 a b xs)
  then show ?case by (auto simp: contains_iff) (metis append.assoc append_Cons)+
qed auto

lemma contains_append: "contains n x \<Longrightarrow> contains n (a @ x @ b)"
  by (auto simp: contains_iff) (metis append.assoc)

lemma mentions_printed: "mentions key v \<Longrightarrow> contains (quote key) (stringify v)"
proof (induction key v rule: mentions.induct)
  case (1 key xs)
  then obtain x where "x \<in> set xs" "mentions key x" by auto
  with 1 have x: "x \<in> set xs" "contains (quote key) (stringify x)" "x \<noteq> JUndef" by auto
  then have "contains (quote key) (join (map (\<lambda>x. if x = JUndef then ''null'' else stringify x) xs))"
    by (intro contains_join [of "stringify x"]) (auto simp: image_iff intro!: bexI [of _ x])
  from contains_append [OF this, of "''[''" "'']''"] show ?case by simp
next
  case (2 key kvs)
  then obtain k x where kx: "(k, x) \<in> set kvs" "x \<noteq> JUndef" "k = key \<or> mentions key x" by auto
  have "contains (quote key) (quote k @ '':'' @ stringify x)"
  proof (cases "k = key")
    case True
    then show ?thesis unfolding contains_iff by (metis append_Nil)
  next
    case False
    then have "contains (quote key) (stringify x)" using 2 kx by auto
    then show ?thesis using contains_append [of "quote key" "stringify x" "quote k @ '':''" "[]"] by simp
  qed
  then have "contains (quote key) (join (map (\<lambda>(k, v). quote k @ '':'' @ stringify v) (filter (\<lambda>(k, v). v \<noteq> JUndef) kvs)))"
    using kx by (intro contains_join [of "quote k @ '':'' @ stringify x"]) (auto simp: image_iff intro!: bexI [of _ "(k, x)"])
  from contains_append [OF this, of "''{''" "''}''"] show ?case by simp
qed auto

lemma walk_strings: "walk False v \<Longrightarrow> s \<in> strings_of v \<Longrightarrow> \<not> slashed s"
  by (induction False v rule: walk.induct) (auto split: prod.splits, blast+)

lemma forbidden_quote: "key \<in> set forbiddenKeys \<Longrightarrow> quote key = CHR 0x22 # key @ [CHR 0x22]"
  by (auto simp: forbiddenKeys_def quote_def esc_char_def)

lemma committable:
  assumes "assertCommittable (JObj kvs)"
  shows "key \<in> set forbiddenKeys \<Longrightarrow> \<not> mentions key (JObj kvs)"
    and "(k, x) \<in> set kvs \<Longrightarrow> k \<noteq> ''schema'' \<Longrightarrow> s \<in> strings_of x \<Longrightarrow> \<not> slashed s"
    and "(k, x) \<in> set kvs \<Longrightarrow> \<not> slashed k"
proof -
  show "\<not> mentions key (JObj kvs)" if "key \<in> set forbiddenKeys"
    using assms mentions_printed [of key "JObj kvs"] that
    by (auto simp: assertCommittable_def forbidden_quote simp del: mentions.simps stringify.simps)
  show "\<not> slashed s" if "(k, x) \<in> set kvs" "k \<noteq> ''schema''" "s \<in> strings_of x"
    using assms that walk_strings [of x s] by (auto simp: assertCommittable_def)
  show "\<not> slashed k" if "(k, x) \<in> set kvs" using assms that by (auto simp: assertCommittable_def)
qed

end
