(* ===== verification/Examples.thy ===== *)
theory Examples
  imports OcrSystem OcrWorkerLoop OcrReview BakeoffVerdict
begin

text \<open>
  A concrete deployment the properties are applied to: one job of one page, the validators of a
  schema that only requires page references, the queue that holds the job, the store at several
  points of the job's life, and workers that fail, succeed or throw.
\<close>

definition exV :: Validators where
  "exV = \<lparr>v_submission = (\<lambda>s. None),
     v_result = (\<lambda>r. case (jget r ''page_number'', jget r ''page_id'') of
        (JInt _, JStr _) \<Rightarrow> None | _ \<Rightarrow> Some ''page reference''),
     v_statusSequence = (\<lambda>i ts. None)\<rparr>"

definition exRetry :: jval where
  "exRetry = JObj [(''attempt'', JInt 1), (''max_attempts'', JInt 3)]"

definition exSub :: jval where
  "exSub = JObj [(''job_id'', JStr ''j1''), (''tenant_id'', JStr ''t1''), (''document_id'', JStr ''d1''),
     (''document_revision'', JInt 1), (''retry'', exRetry),
     (''pages'', JArr [JObj [(''page_id'', JStr ''p1''), (''page_number'', JInt 1)]])]"

definition exJob :: OcrJob where
  "exJob = \<lparr>job_tid = ''x1'', job_submission = exSub, job_enqueued_at = ''n0'', job_scenario = None\<rparr>"

definition exQueue :: InMemoryOcrQueue where
  "exQueue = snd (enqueue exJob (newInMemoryOcrQueue None))"

definition exBackend :: MemoryBackend where
  "exBackend = \<lparr>mb_queue = exQueue, mb_now = int, mb_ticks = 0,
     mb_generateReceipt = (\<lambda>n. replicate (Suc n) CHR ''r''), mb_minted = 0\<rparr>"

definition exCreated :: InMemoryOcrPersistence where
  "exCreated = snd (createOcrJob exV exSub ''n0'' newInMemoryOcrPersistence)"

definition exEdge :: "OcrJobState \<Rightarrow> OcrJobState \<Rightarrow> OcrJobActor \<Rightarrow> TransitionRecord" where
  "exEdge f t b = \<lparr>tr_from = f, tr_to = t, tr_by = b, tr_at = ''n1'', tr_note = None\<rparr>"

definition exAppend :: "TransitionRecord \<Rightarrow> InMemoryOcrPersistence \<Rightarrow> InMemoryOcrPersistence" where
  "exAppend t p = snd (appendOcrStatus exV ''j1'' t ''n1'' p)"

definition exClaimed :: InMemoryOcrPersistence where
  "exClaimed = exAppend (exEdge Queued Claimed ByQueue) exCreated"

definition exResult :: jval where
  "exResult = JObj [(''job_id'', JStr ''j1''), (''tenant_id'', JStr ''t1''), (''document_id'', JStr ''d1''),
     (''document_revision'', JInt 1), (''page_id'', JStr ''p1''), (''page_number'', JInt 1),
     (''status'', JStr ''succeeded''), (''review'', JObj [(''manual_review_recommended'', JBool True)])]"

definition exFailedResult :: jval where
  "exFailedResult = JObj [(''job_id'', JStr ''j1''), (''tenant_id'', JStr ''t1''), (''document_id'', JStr ''d1''),
     (''document_revision'', JInt 1), (''page_id'', JStr ''p1''), (''page_number'', JInt 1),
     (''status'', JStr ''failed''),
     (''partial_failure'', JObj [(''is_transient'', JBool True), (''code'', JStr ''timeout'')])]"

definition exSaved :: InMemoryOcrPersistence where
  "exSaved = snd (saveOcrResult exV ''j1'' exResult ''n2''
     (exAppend (exEdge Processing Succeeded ByWorker) (exAppend (exEdge Claimed Processing ByWorker) exClaimed)))"

definition exEnv :: "InMemoryOcrPersistence \<Rightarrow> StoreEnv" where
  "exEnv p = \<lparr>st_store = p, st_now = (\<lambda>n. ''n3''), st_ticks = 0\<rparr>"

definition exInputs :: TurnInputs where
  "exInputs = \<lparr>ti_claimedAt = ''n4'', ti_failedAt = ''n5'', ti_enqueuedAt = ''n6'', ti_jobId = ''x2''\<rparr>"

definition exOutcome :: "OcrJobState \<Rightarrow> jval \<Rightarrow> OcrJobOutcome" where
  "exOutcome s r = \<lparr>oc_job_id = ''j1'',
     oc_statuses = [exEdge Queued Claimed ByQueue, exEdge Claimed Processing ByWorker, exEdge Processing s ByWorker],
     oc_results = [r], oc_terminal_state = s\<rparr>"

definition exFails :: "OcrJob \<Rightarrow> exn + OcrJobOutcome" where
  "exFails job = Inr (exOutcome Failed exFailedResult)"

definition exSucceeds :: "OcrJob \<Rightarrow> exn + OcrJobOutcome" where
  "exSucceeds job = Inr (exOutcome Succeeded exResult)"

lemmas ex_defs = exV_def exRetry_def exSub_def exJob_def exQueue_def exBackend_def exCreated_def exEdge_def
  exAppend_def exClaimed_def exResult_def exFailedResult_def exSaved_def exEnv_def exInputs_def
  exOutcome_def exFails_def exSucceeds_def

abbreviation exTurn ::
  "(OcrJob \<Rightarrow> exn + OcrJobOutcome) \<Rightarrow> InMemoryOcrPersistence \<Rightarrow> (exn + OcrCoordinatorResult) \<times> MemoryBackend \<times> StoreEnv" where
  "exTurn worker p \<equiv> processOneOcrQueueClaim exV worker memoryBackend (memoryStore exV) ''w1'' exInputs exBackend (exEnv p)"

lemma exQueue_inv: "queue_inv exQueue"
  using enqueue_spec [OF queue_inv_new prod.collapse [symmetric], of exJob None] by (simp add: exQueue_def)

lemma exBackend_inv: "mb_inv exBackend"
proof -
  have "q_issuedReceipts exQueue = {}" by code_simp
  moreover have "inj (\<lambda>n. replicate (Suc n) CHR ''r'')" by (auto simp: inj_def dest: arg_cong [of _ _ length])
  ultimately show ?thesis using exQueue_inv by (simp add: mb_inv_def exBackend_def)
qed

lemma exCreated_inv: "store_inv exV exCreated"
  using createOcrJob_spec [OF store_inv_new prod.collapse [symmetric], of exV exSub "''n0''"] by (simp add: exCreated_def)

lemma exAppend_inv: "store_inv exV p \<Longrightarrow> store_inv exV (exAppend t p)"
  using appendOcrStatus_spec [OF _ prod.collapse [symmetric], of exV p "''j1''" t "''n1''"] by (simp add: exAppend_def)

lemma exClaimed_inv: "store_inv exV exClaimed"
  unfolding exClaimed_def by (intro exAppend_inv exCreated_inv)

lemma exSaved_inv: "store_inv exV exSaved"
  unfolding exSaved_def
  using saveOcrResult_spec [OF _ prod.collapse [symmetric]] exAppend_inv exClaimed_inv by blast

lemma exReady: "store_inv exV p \<Longrightarrow> ms_outbox (exEnv p) ''j1'' = None \<Longrightarrow> (\<And>k. k \<noteq> ''j1'' \<Longrightarrow> mget (p_jobs p) k = None)
    \<Longrightarrow> system_ready exV (exBackend, exEnv p)"
proof -
  assume inv: "store_inv exV p" and out: "ms_outbox (exEnv p) ''j1'' = None" and only: "\<And>k. k \<noteq> ''j1'' \<Longrightarrow> mget (p_jobs p) k = None"
  have "ms_outbox (exEnv p) k = None" for k
    using out only [of k] by (cases "k = ''j1''") (simp_all add: ms_outbox_def exEnv_def)
  then show "system_ready exV (exBackend, exEnv p)"
    using inv exBackend_inv by (simp add: system_ready_def ms_inv_def outbox_ok_def exEnv_def)
qed

lemma mget_other: "set (mkeys m) \<subseteq> {a} \<Longrightarrow> k \<noteq> a \<Longrightarrow> mget m k = None"
  by (auto simp: map_of_eq_None_iff)

lemma exCreated_ready: "system_ready exV (exBackend, exEnv exCreated)"
proof (rule exReady [OF exCreated_inv])
  show "ms_outbox (exEnv exCreated) ''j1'' = None" by code_simp
  have "mkeys (p_jobs exCreated) = [''j1'']" by code_simp
  then show "mget (p_jobs exCreated) k = None" if "k \<noteq> ''j1''" for k using that by (intro mget_other) auto
qed

lemma exClaimed_ready: "system_ready exV (exBackend, exEnv exClaimed)"
proof (rule exReady [OF exClaimed_inv])
  show "ms_outbox (exEnv exClaimed) ''j1'' = None" by code_simp
  have "mkeys (p_jobs exClaimed) = [''j1'']" by code_simp
  then show "mget (p_jobs exClaimed) k = None" if "k \<noteq> ''j1''" for k using that by (intro mget_other) auto
qed

lemma exSaved_ready: "system_ready exV (exBackend, exEnv exSaved)"
proof (rule exReady [OF exSaved_inv])
  show "ms_outbox (exEnv exSaved) ''j1'' = None" by code_simp
  have "mkeys (p_jobs exSaved) = [''j1'']" by code_simp
  then show "mget (p_jobs exSaved) k = None" if "k \<noteq> ''j1''" for k using that by (intro mget_other) auto
qed

text \<open>A run as the triple of its result and the two states.\<close>

lemma run_parts: "x = (fst x, fst (snd x), snd (snd x))"
  by simp

end
