(* ===== verification/CaseBoxAuditLog.thy ===== *)
theory CaseBoxAuditLog
  imports Json
begin

text \<open>
  \<open>docs/contracts/case-box-contract/src/audit-log.ts\<close>: the audit vocabulary, the canonical hash input of an
  event, the event builder and the chain verifier. An event is a JSON object, as it is stored and
  imported; the schema check (\<open>validateAuditEvent\<close>, compiled from the JSON schema by a library) and
  SHA-256 are parameters, and \<open>audit_schema_ok\<close> is what the schema file says of an accepted event.
  Messages are the code's, with a hyphen for its one dash.
\<close>

named_theorems audit_simps "facts on audit events and their hashes"

record AuditKindMeta =
  km_action :: string
  km_entity_type :: string
  km_reasonRequired :: bool

definition CASE_BOX_AUDIT_EVENT_KINDS :: "(string \<times> AuditKindMeta) list" where
  "CASE_BOX_AUDIT_EVENT_KINDS =
    [
     (''MATTER_REGISTERED'', \<lparr>km_action = ''create'', km_entity_type = ''matter'', km_reasonRequired = False\<rparr>),
     (''MATTER_ARCHIVED'', \<lparr>km_action = ''update'', km_entity_type = ''matter'', km_reasonRequired = False\<rparr>),
     (''MATTER_UNARCHIVED'', \<lparr>km_action = ''update'', km_entity_type = ''matter'', km_reasonRequired = False\<rparr>),
     (''MATTER_PARTY_IDS_ASSIGNED'', \<lparr>km_action = ''update'', km_entity_type = ''matter'', km_reasonRequired = False\<rparr>),
     (''MATTER_DETAILS_UPDATED'', \<lparr>km_action = ''update'', km_entity_type = ''matter'', km_reasonRequired = True\<rparr>),
     (''DOCUMENT_REGISTERED'', \<lparr>km_action = ''create'', km_entity_type = ''document'', km_reasonRequired = False\<rparr>),
     (''DOCUMENT_OCR_SUBMITTED'', \<lparr>km_action = ''update'', km_entity_type = ''document'', km_reasonRequired = False\<rparr>),
     (''DOCUMENT_OCR_COMPLETE'', \<lparr>km_action = ''update'', km_entity_type = ''document'', km_reasonRequired = False\<rparr>),
     (''DOCUMENT_OCR_FAILED'', \<lparr>km_action = ''update'', km_entity_type = ''document'', km_reasonRequired = False\<rparr>),
     (''DOCUMENT_TRIAGED'', \<lparr>km_action = ''update'', km_entity_type = ''document'', km_reasonRequired = False\<rparr>),
     (''DOCUMENT_TAGGED'', \<lparr>km_action = ''update'', km_entity_type = ''document'', km_reasonRequired = False\<rparr>),
     (''DOCUMENT_REVIEWED'', \<lparr>km_action = ''update'', km_entity_type = ''document'', km_reasonRequired = False\<rparr>),
     (''DOCUMENT_SOFT_DELETED'', \<lparr>km_action = ''delete-soft'', km_entity_type = ''document'', km_reasonRequired = True\<rparr>),
     (''OCR_LINK_SNAPSHOTTED'', \<lparr>km_action = ''create'', km_entity_type = ''ocr_link'', km_reasonRequired = False\<rparr>),
     (''OCR_LINK_REFRESHED'', \<lparr>km_action = ''update'', km_entity_type = ''ocr_link'', km_reasonRequired = False\<rparr>),
     (''DEADLINE_REGISTERED'', \<lparr>km_action = ''create'', km_entity_type = ''deadline'', km_reasonRequired = False\<rparr>),
     (''DEADLINE_MET'', \<lparr>km_action = ''update'', km_entity_type = ''deadline'', km_reasonRequired = False\<rparr>),
     (''DEADLINE_MISSED'', \<lparr>km_action = ''update'', km_entity_type = ''deadline'', km_reasonRequired = False\<rparr>),
     (''DEADLINE_WITHDRAWN'', \<lparr>km_action = ''update'', km_entity_type = ''deadline'', km_reasonRequired = False\<rparr>),
     (''DEADLINE_MISSED_TO_MET'', \<lparr>km_action = ''update'', km_entity_type = ''deadline'', km_reasonRequired = True\<rparr>),
     (''EVIDENCE_PROPOSED'', \<lparr>km_action = ''create'', km_entity_type = ''evidence_item'', km_reasonRequired = False\<rparr>),
     (''EVIDENCE_ACCEPTED'', \<lparr>km_action = ''update'', km_entity_type = ''evidence_item'', km_reasonRequired = False\<rparr>),
     (''EVIDENCE_REJECTED'', \<lparr>km_action = ''update'', km_entity_type = ''evidence_item'', km_reasonRequired = False\<rparr>),
     (''EVIDENCE_SUPERSEDED'', \<lparr>km_action = ''update'', km_entity_type = ''evidence_item'', km_reasonRequired = False\<rparr>),
     (''FACT_PROPOSED'', \<lparr>km_action = ''create'', km_entity_type = ''fact'', km_reasonRequired = False\<rparr>),
     (''FACT_REVIEWED'', \<lparr>km_action = ''update'', km_entity_type = ''fact'', km_reasonRequired = False\<rparr>),
     (''FACT_ACCEPTED'', \<lparr>km_action = ''update'', km_entity_type = ''fact'', km_reasonRequired = False\<rparr>),
     (''FACT_REJECTED'', \<lparr>km_action = ''update'', km_entity_type = ''fact'', km_reasonRequired = True\<rparr>),
     (''FACT_REPLACEMENT_ACCEPTED'', \<lparr>km_action = ''create'', km_entity_type = ''fact'', km_reasonRequired = False\<rparr>),
     (''PRIVILEGE_MARKER_PROPOSED'', \<lparr>km_action = ''create'', km_entity_type = ''privilege_marker'', km_reasonRequired = False\<rparr>),
     (''PRIVILEGE_MARKER_CONFIRMED'', \<lparr>km_action = ''update'', km_entity_type = ''privilege_marker'', km_reasonRequired = False\<rparr>),
     (''PRIVILEGE_MARKER_DISMISSED'', \<lparr>km_action = ''update'', km_entity_type = ''privilege_marker'', km_reasonRequired = True\<rparr>),
     (''PRIVILEGE_MARKER_WAIVED'', \<lparr>km_action = ''privilege-waive'', km_entity_type = ''privilege_marker'', km_reasonRequired = True\<rparr>),
     (''EXTERNAL_OCR_AUTHORIZED'', \<lparr>km_action = ''update'', km_entity_type = ''matter'', km_reasonRequired = False\<rparr>),
     (''EXTERNAL_OCR_REVOKED'', \<lparr>km_action = ''update'', km_entity_type = ''matter'', km_reasonRequired = True\<rparr>),
     (''SYNC_GRANT_GRANTED'', \<lparr>km_action = ''update'', km_entity_type = ''matter'', km_reasonRequired = False\<rparr>),
     (''SYNC_GRANT_REVOKED'', \<lparr>km_action = ''update'', km_entity_type = ''matter'', km_reasonRequired = True\<rparr>),
     (''LLM_EXTRACTION_OPT_IN'', \<lparr>km_action = ''update'', km_entity_type = ''matter'', km_reasonRequired = False\<rparr>),
     (''LLM_EXTRACTION_OPT_OUT'', \<lparr>km_action = ''update'', km_entity_type = ''matter'', km_reasonRequired = True\<rparr>),
     (''PRIVILEGE_LOG_EXPORTED'', \<lparr>km_action = ''export'', km_entity_type = ''matter'', km_reasonRequired = False\<rparr>),
     (''CASE_DATA_EXPORTED'', \<lparr>km_action = ''export'', km_entity_type = ''matter'', km_reasonRequired = False\<rparr>),
     (''DOCUMENT_ACCESSED'', \<lparr>km_action = ''access'', km_entity_type = ''document'', km_reasonRequired = False\<rparr>),
     (''DOCUMENT_PRINTED'', \<lparr>km_action = ''print'', km_entity_type = ''document'', km_reasonRequired = False\<rparr>),
     (''DOCUMENT_SHARED'', \<lparr>km_action = ''share'', km_entity_type = ''document'', km_reasonRequired = True\<rparr>),
     (''CLASSIFICATION_SET'', \<lparr>km_action = ''create'', km_entity_type = ''confidentiality_classification'', km_reasonRequired = False\<rparr>),
     (''CLASSIFICATION_UPGRADED'', \<lparr>km_action = ''create'', km_entity_type = ''confidentiality_classification'', km_reasonRequired = False\<rparr>),
     (''CLASSIFICATION_DOWNGRADED'', \<lparr>km_action = ''create'', km_entity_type = ''confidentiality_classification'', km_reasonRequired = True\<rparr>),
     (''CLASSIFICATION_RESET_TO_UNCLASSIFIED'', \<lparr>km_action = ''create'', km_entity_type = ''confidentiality_classification'', km_reasonRequired = True\<rparr>),
     (''DOCKET_ENTRY_PROPOSED'', \<lparr>km_action = ''create'', km_entity_type = ''docket_entry'', km_reasonRequired = False\<rparr>),
     (''DOCKET_ENTRY_CONFIRMED'', \<lparr>km_action = ''update'', km_entity_type = ''docket_entry'', km_reasonRequired = False\<rparr>),
     (''DOCKET_ENTRY_DISMISSED'', \<lparr>km_action = ''update'', km_entity_type = ''docket_entry'', km_reasonRequired = True\<rparr>),
     (''DOCKET_ENTRY_REVISED'', \<lparr>km_action = ''update'', km_entity_type = ''docket_entry'', km_reasonRequired = False\<rparr>),
     (''LINK_UNLINKED'', \<lparr>km_action = ''update'', km_entity_type = ''link'', km_reasonRequired = True\<rparr>),
     (''LINK_RELINKED'', \<lparr>km_action = ''update'', km_entity_type = ''link'', km_reasonRequired = False\<rparr>),
     (''LINK_CREATED'', \<lparr>km_action = ''create'', km_entity_type = ''link'', km_reasonRequired = False\<rparr>),
     (''CLAIM_TRACK_CREATED'', \<lparr>km_action = ''create'', km_entity_type = ''claim_track'', km_reasonRequired = False\<rparr>),
     (''CLAIM_TRACK_UPDATED'', \<lparr>km_action = ''update'', km_entity_type = ''claim_track'', km_reasonRequired = False\<rparr>),
     (''CLAIM_TRACK_WITHDRAWN'', \<lparr>km_action = ''update'', km_entity_type = ''claim_track'', km_reasonRequired = True\<rparr>),
     (''CLAIM_TRACK_RESOLVED'', \<lparr>km_action = ''update'', km_entity_type = ''claim_track'', km_reasonRequired = False\<rparr>),
     (''CLAIM_TRACK_DELETED'', \<lparr>km_action = ''delete-hard'', km_entity_type = ''claim_track'', km_reasonRequired = True\<rparr>),
     (''EVIDENCE_PREPARATION_CREATED'', \<lparr>km_action = ''create'', km_entity_type = ''evidence_preparation'', km_reasonRequired = False\<rparr>),
     (''EVIDENCE_PREPARATION_UPDATED'', \<lparr>km_action = ''update'', km_entity_type = ''evidence_preparation'', km_reasonRequired = False\<rparr>),
     (''EVIDENCE_PREPARATION_DELETED'', \<lparr>km_action = ''delete-hard'', km_entity_type = ''evidence_preparation'', km_reasonRequired = True\<rparr>),
     (''CROSS_EXAM_OPINION_CREATED'', \<lparr>km_action = ''create'', km_entity_type = ''cross_examination_opinion'', km_reasonRequired = False\<rparr>),
     (''CROSS_EXAM_OPINION_UPDATED'', \<lparr>km_action = ''update'', km_entity_type = ''cross_examination_opinion'', km_reasonRequired = False\<rparr>),
     (''CROSS_EXAM_OPINION_DELETED'', \<lparr>km_action = ''delete-hard'', km_entity_type = ''cross_examination_opinion'', km_reasonRequired = True\<rparr>),
     (''LEGAL_OPINION_CARD_CREATED'', \<lparr>km_action = ''create'', km_entity_type = ''legal_opinion_card'', km_reasonRequired = False\<rparr>),
     (''LEGAL_OPINION_CARD_UPDATED'', \<lparr>km_action = ''update'', km_entity_type = ''legal_opinion_card'', km_reasonRequired = False\<rparr>),
     (''LEGAL_OPINION_CARD_DELETED'', \<lparr>km_action = ''delete-hard'', km_entity_type = ''legal_opinion_card'', km_reasonRequired = True\<rparr>),
     (''LEGAL_OPINION_CARD_USED_IN_TRIAL_SET'', \<lparr>km_action = ''update'', km_entity_type = ''legal_opinion_card'', km_reasonRequired = False\<rparr>),
     (''LEGAL_OPINION_CARD_USED_IN_TRIAL_CLEARED'', \<lparr>km_action = ''update'', km_entity_type = ''legal_opinion_card'', km_reasonRequired = False\<rparr>),
     (''LEGAL_OPINION_CARD_FOLLOW_UP_SET'', \<lparr>km_action = ''update'', km_entity_type = ''legal_opinion_card'', km_reasonRequired = False\<rparr>),
     (''LEGAL_OPINION_CARD_FOLLOW_UP_CLEARED'', \<lparr>km_action = ''update'', km_entity_type = ''legal_opinion_card'', km_reasonRequired = False\<rparr>)]"

text \<open>The library the contract package is built on.\<close>

record AuditLib =
  al_sha256 :: "string \<Rightarrow> string"
  al_validateAuditEvent :: "jval \<Rightarrow> string option"

subsection \<open>Hashes\<close>

definition SHA256_HEX_RE :: "string \<Rightarrow> bool" where
  "SHA256_HEX_RE s \<longleftrightarrow> length s = 64 \<and> (\<forall>c\<in>set s. is_digit c \<or> c \<in> set ''abcdef'')"

definition asAuditEventHash :: "string \<Rightarrow> string + string" where
  "asAuditEventHash v =
     (if SHA256_HEX_RE v then Inr v
      else Inl (''not a valid lowercase SHA-256 hex digest (64 chars): '' @ quote v))"

definition undefined_field :: "(string \<times> jval) list \<Rightarrow> string option" where
  "undefined_field kvs = map_option fst (List.find (\<lambda>kv. snd kv = JUndef) kvs)"

definition event_present :: "jval \<Rightarrow> bool" where
  "event_present v \<longleftrightarrow> v \<noteq> JUndef \<and> v \<noteq> JNull"

text \<open>The two literal objects, in source order.\<close>

definition canonical_v1 :: "jval \<Rightarrow> (string \<times> jval) list" where
  "canonical_v1 event =
     [(''action'', jget event ''action''),
      (''actor_user_id'', jget event ''actor_user_id''),
      (''after_state_hash'', jget event ''after_state_hash''),
      (''before_state_hash'', jget event ''before_state_hash''),
      (''entity_id'', jget event ''entity_id''),
      (''entity_type'', jget event ''entity_type''),
      (''id'', jget event ''id''),
      (''matter_id'', jget event ''matter_id''),
      (''prev_event_hash'', jget event ''prev_event_hash''),
      (''reason'', or_default (jget event ''reason'') JNull),
      (''tenant_id'', jget event ''tenant_id''),
      (''timestamp'', jget event ''timestamp'')]"

definition canonical_v2 :: "jval \<Rightarrow> (string \<times> jval) list" where
  "canonical_v2 event =
     [(''action'', jget event ''action''),
      (''actor_user_id'', jget event ''actor_user_id''),
      (''after_state_hash'', jget event ''after_state_hash''),
      (''audit_schema_version'', jget event ''audit_schema_version''),
      (''before_state_hash'', jget event ''before_state_hash'')] @
     (if jget event ''changed_fields'' \<noteq> JUndef then [(''changed_fields'', jget event ''changed_fields'')] else []) @
     [(''entity_id'', jget event ''entity_id''),
      (''entity_type'', jget event ''entity_type''),
      (''event_kind'', jget event ''event_kind''),
      (''id'', jget event ''id''),
      (''matter_id'', jget event ''matter_id''),
      (''prev_event_hash'', jget event ''prev_event_hash''),
      (''reason'', or_default (jget event ''reason'') JNull),
      (''tenant_id'', jget event ''tenant_id''),
      (''timestamp'', jget event ''timestamp'')]"

definition print_canonical :: "(string \<times> jval) list \<Rightarrow> string + string" where
  "print_canonical canonical =
     (case undefined_field canonical of
        Some k \<Rightarrow> Inl (''canonicalAuditEventHashInput: required field '' @ quote k @ '' is undefined'')
      | None \<Rightarrow> Inr (stringify (JObj canonical)))"

definition known_kind :: "jval \<Rightarrow> bool" where
  "known_kind k = (case k of JStr s \<Rightarrow> map_of CASE_BOX_AUDIT_EVENT_KINDS s \<noteq> None | _ \<Rightarrow> False)"

definition canonicalAuditEventHashInput :: "jval \<Rightarrow> string + string" where
  "canonicalAuditEventHashInput event =
     (let hasVer = event_present (jget event ''audit_schema_version'');
          hasKind = event_present (jget event ''event_kind'') in
      if jget event ''changed_fields'' \<noteq> JUndef \<and> jget event ''event_kind'' \<noteq> JStr ''MATTER_DETAILS_UPDATED''
      then Inl ''canonicalAuditEventHashInput: changed_fields is only allowed on MATTER_DETAILS_UPDATED v2 events''
      else if hasVer \<or> hasKind
      then if \<not> (hasVer \<and> hasKind)
           then Inl (''canonicalAuditEventHashInput: partial v2 pair - audit_schema_version and event_kind ''
                  @ ''must be both present or both absent'')
           else if jget event ''audit_schema_version'' \<noteq> JInt 2
           then Inl (''canonicalAuditEventHashInput: unsupported audit_schema_version ''
                  @ stringify (jget event ''audit_schema_version''))
           else if \<not> known_kind (jget event ''event_kind'')
           then Inl (''canonicalAuditEventHashInput: unknown event_kind '' @ stringify (jget event ''event_kind''))
           else print_canonical (canonical_v2 event)
      else print_canonical (canonical_v1 event))"

text \<open>\<open>eventHashFn\<close> of \<open>services/case-box-persistence/src/auditChain.ts\<close>.\<close>

definition eventHashFn :: "AuditLib \<Rightarrow> jval \<Rightarrow> string + string" where
  "eventHashFn L event =
     bindR (canonicalAuditEventHashInput event) (\<lambda>input. asAuditEventHash (al_sha256 L input))"

subsection \<open>The builder\<close>

record BuildAuditEventInput =
  be_kind :: string
  be_id :: string
  be_tenant_id :: jval
  be_actor_user_id :: jval
  be_matter_id :: jval
  be_entity_id :: jval
  be_before_state_hash :: jval
  be_after_state_hash :: string
  be_prev_event_hash :: "string option"
  be_timestamp :: string
  be_reason :: jval

definition nonempty_string :: "jval \<Rightarrow> bool" where
  "nonempty_string v = (case v of JStr s \<Rightarrow> s \<noteq> [] | _ \<Rightarrow> False)"

definition opt_str :: "string option \<Rightarrow> jval" where
  "opt_str h = (case h of Some s \<Rightarrow> JStr s | None \<Rightarrow> JNull)"

definition auditCandidate :: "AuditKindMeta \<Rightarrow> BuildAuditEventInput \<Rightarrow> jval" where
  "auditCandidate meta i = JObj
     ([(''id'', JStr (be_id i)), (''tenant_id'', be_tenant_id i), (''actor_user_id'', be_actor_user_id i),
       (''matter_id'', be_matter_id i), (''action'', JStr (km_action meta)),
       (''entity_type'', JStr (km_entity_type meta)), (''entity_id'', be_entity_id i),
       (''before_state_hash'', be_before_state_hash i), (''after_state_hash'', JStr (be_after_state_hash i)),
       (''prev_event_hash'', opt_str (be_prev_event_hash i)), (''timestamp'', JStr (be_timestamp i)),
       (''audit_schema_version'', JInt 2), (''event_kind'', JStr (be_kind i))] @
      (if be_reason i \<noteq> JUndef then [(''reason'', be_reason i)] else []))"

definition buildCaseBoxAuditEvent :: "AuditLib \<Rightarrow> BuildAuditEventInput \<Rightarrow> string + jval" where
  "buildCaseBoxAuditEvent L i =
     (case map_of CASE_BOX_AUDIT_EVENT_KINDS (be_kind i) of
        None \<Rightarrow> Inl (''/kind unknown audit event kind '' @ quote (be_kind i))
      | Some meta \<Rightarrow>
          if km_reasonRequired meta \<and> \<not> nonempty_string (be_reason i)
          then Inl (''/reason audit event kind '' @ quote (be_kind i) @ '' requires a non-empty reason'')
          else case al_validateAuditEvent L (auditCandidate meta i) of
                 None \<Rightarrow> Inr (auditCandidate meta i)
               | Some summary \<Rightarrow> Inl summary)"

subsection \<open>The verifier\<close>

datatype ChainVerifyErrorReason =
    Missing_genesis_event
  | Prev_event_hash_mismatch
  | Prev_event_hash_non_null_for_first_event
  | Before_state_hash_not_null_on_create
  | Missing_after_state_hash
  | Event_schema_invalid
  | Event_kind_inconsistent
  | Tenant_id_mismatch
  | Matter_id_mismatch

datatype ChainVerifyResult =
    ChainVerifyOk nat "string option"
  | ChainVerifyErr nat ChainVerifyErrorReason string

definition kind_inconsistent :: "jval \<Rightarrow> bool" where
  "kind_inconsistent e \<longleftrightarrow>
     event_present (jget e ''event_kind'') \<and>
     (case (case jget e ''event_kind'' of JStr s \<Rightarrow> map_of CASE_BOX_AUDIT_EVENT_KINDS s | _ \<Rightarrow> None) of
        None \<Rightarrow> True
      | Some meta \<Rightarrow>
          JStr (km_action meta) \<noteq> jget e ''action'' \<or> JStr (km_entity_type meta) \<noteq> jget e ''entity_type'' \<or>
          (km_reasonRequired meta \<and> \<not> nonempty_string (jget e ''reason'')))"

text \<open>What an event must satisfy at its place: the first offence, if any.\<close>

definition eventOffence ::
  "AuditLib \<Rightarrow> nat \<Rightarrow> string option \<Rightarrow> jval \<Rightarrow> jval \<Rightarrow> jval \<Rightarrow> (ChainVerifyErrorReason \<times> string) option" where
  "eventOffence L i priorHash priorTenant priorMatter e =
     (case al_validateAuditEvent L e of
        Some summary \<Rightarrow> Some (Event_schema_invalid, summary)
      | None \<Rightarrow>
      let at_i = ''event['' @ show_nat i @ '']'' in
      if \<not> nonempty_string (jget e ''after_state_hash'')
      then Some (Missing_after_state_hash, at_i @ '' has empty or missing after_state_hash'')
      else if i = 0 \<and> jget e ''prev_event_hash'' \<noteq> JNull
      then Some (Prev_event_hash_non_null_for_first_event,
                 ''first event must have prev_event_hash === null (got '' @ stringify (jget e ''prev_event_hash'') @ '')'')
      else if i \<noteq> 0 \<and> jget e ''tenant_id'' \<noteq> priorTenant
      then Some (Tenant_id_mismatch, at_i @ ''.tenant_id ('' @ stringify (jget e ''tenant_id'')
                 @ '') does not match prior chain tenant_id ('' @ stringify priorTenant @ '')'')
      else if i \<noteq> 0 \<and> jget e ''matter_id'' \<noteq> priorMatter
      then Some (Matter_id_mismatch, at_i @ ''.matter_id ('' @ stringify (jget e ''matter_id'')
                 @ '') does not match prior chain matter_id ('' @ stringify priorMatter @ '')'')
      else if i \<noteq> 0 \<and> jget e ''prev_event_hash'' \<noteq> opt_str priorHash
      then Some (Prev_event_hash_mismatch, at_i @ ''.prev_event_hash ('' @ stringify (jget e ''prev_event_hash'')
                 @ '') does not match prior event hash ('' @ stringify (opt_str priorHash) @ '')'')
      else if jget e ''action'' = JStr ''create'' \<and> jget e ''before_state_hash'' \<noteq> JNull
      then Some (Before_state_hash_not_null_on_create,
                 ''create-action '' @ at_i @ '' must have before_state_hash === null (got ''
                 @ stringify (jget e ''before_state_hash'') @ '')'')
      else if kind_inconsistent e
      then Some (Event_kind_inconsistent, at_i @ ''.event_kind ('' @ stringify (jget e ''event_kind'')
                 @ '') is inconsistent with its declared {action, entity_type, reasonRequired} metadata vs the event (action=''
                 @ stringify (jget e ''action'') @ '', entity_type='' @ stringify (jget e ''entity_type'') @ '', reason_present=''
                 @ (if nonempty_string (jget e ''reason'') then ''true'' else ''false'') @ '')'')
      else None)"

fun verifyFrom ::
  "AuditLib \<Rightarrow> nat \<Rightarrow> string option \<Rightarrow> jval \<Rightarrow> jval \<Rightarrow> jval list \<Rightarrow> string + ChainVerifyResult" where
  "verifyFrom L i priorHash priorTenant priorMatter [] = Inr (ChainVerifyOk i priorHash)"
| "verifyFrom L i priorHash priorTenant priorMatter (e # es) =
     (case eventOffence L i priorHash priorTenant priorMatter e of
        Some (reason, detail) \<Rightarrow> Inr (ChainVerifyErr i reason detail)
      | None \<Rightarrow>
          bindR (eventHashFn L e) (\<lambda>h.
          if i = 0 then verifyFrom L (Suc i) (Some h) (jget e ''tenant_id'') (jget e ''matter_id'') es
          else verifyFrom L (Suc i) (Some h) priorTenant priorMatter es))"

definition verifyAuditChain :: "AuditLib \<Rightarrow> jval list \<Rightarrow> string + ChainVerifyResult" where
  "verifyAuditChain L events = verifyFrom L 0 None JNull JNull events"


subsection \<open>What the schema accepts\<close>

definition is_str :: "jval \<Rightarrow> bool" where
  "is_str v \<longleftrightarrow> jstr v \<noteq> None"

definition required_event_fields :: "string list" where
  "required_event_fields =
     [''id'', ''tenant_id'', ''actor_user_id'', ''matter_id'', ''action'', ''entity_type'', ''entity_id'',
      ''after_state_hash'', ''timestamp'']"

definition optional_event_fields :: "string list" where
  "optional_event_fields =
     [''before_state_hash'', ''prev_event_hash'', ''reason'', ''event_kind'', ''audit_schema_version'', ''changed_fields'']"

definition event_shape :: "jval \<Rightarrow> bool" where
  "event_shape e \<longleftrightarrow>
     (\<forall>k\<in>set required_event_fields. is_str (jget e k)) \<and>
     (\<forall>k\<in>set [''before_state_hash'', ''prev_event_hash'']. jget e k \<in> {JUndef, JNull} \<or> is_str (jget e k)) \<and>
     (\<forall>k\<in>set [''reason'', ''event_kind'']. jget e k = JUndef \<or> is_str (jget e k)) \<and>
     jget e ''audit_schema_version'' \<in> {JUndef, JInt 2} \<and>
     (jget e ''changed_fields'' = JUndef \<or>
      jget e ''event_kind'' = JStr ''MATTER_DETAILS_UPDATED'' \<and>
      (case jget e ''changed_fields'' of JArr xs \<Rightarrow> \<forall>x\<in>set xs. is_str x | _ \<Rightarrow> False)) \<and>
     (case e of JObj kvs \<Rightarrow> set (map fst kvs) \<subseteq> set (required_event_fields @ optional_event_fields) | _ \<Rightarrow> False)"

definition audit_schema_ok :: "AuditLib \<Rightarrow> bool" where
  "audit_schema_ok L \<longleftrightarrow> (\<forall>e. al_validateAuditEvent L e = None \<longrightarrow> event_shape e)"

lemma is_str_iff: "is_str v \<longleftrightarrow> (\<exists>s. v = JStr s)"
  by (cases v) (auto simp: is_str_def)

lemma event_shape_unknown_field:
  assumes "event_shape e" and "k \<notin> set (required_event_fields @ optional_event_fields)"
  shows "jget e k = JUndef"
proof (cases e)
  case (JObj kvs)
  with assms(1) have "set (map fst kvs) \<subseteq> set (required_event_fields @ optional_event_fields)"
    by (simp only: event_shape_def jval.case)
  with assms(2) have "k \<notin> fst ` set kvs" by (simp only: set_map) blast
  with JObj show ?thesis by (simp add: map_of_eq_None_iff [THEN iffD2])
qed simp_all

lemma undefined_field_None: "undefined_field kvs = None \<longleftrightarrow> (\<forall>(k, v)\<in>set kvs. v \<noteq> JUndef)"
  by (auto simp: undefined_field_def find_None_iff_all)

lemma print_canonical_Inr:
  "print_canonical kvs = Inr s \<longleftrightarrow> (\<forall>(k, v)\<in>set kvs. v \<noteq> JUndef) \<and> s = stringify (JObj kvs)"
  unfolding print_canonical_def undefined_field_None [symmetric]
  by (cases "undefined_field kvs") (auto simp del: stringify.simps)

subsection \<open>The canonical text determines the event\<close>

lemma shape_str: "event_shape e \<Longrightarrow> k \<in> set required_event_fields \<Longrightarrow> \<exists>s. jget e k = JStr s"
  by (simp only: event_shape_def is_str_iff)

lemma shape_nullable:
  "event_shape e \<Longrightarrow> k \<in> {''before_state_hash'', ''prev_event_hash''} \<Longrightarrow>
   jget e k \<noteq> JUndef \<Longrightarrow> jget e k = JNull \<or> (\<exists>s. jget e k = JStr s)"
  by (auto simp: event_shape_def is_str_iff)

lemma shape_optional:
  "event_shape e \<Longrightarrow> k \<in> {''reason'', ''event_kind''} \<Longrightarrow> jget e k = JUndef \<or> (\<exists>s. jget e k = JStr s)"
  by (auto simp: event_shape_def is_str_iff)

lemma shape_version: "event_shape e \<Longrightarrow> jget e ''audit_schema_version'' \<in> {JUndef, JInt 2}"
  by (simp only: event_shape_def)

lemma shape_changed:
  "event_shape e \<Longrightarrow> jget e ''changed_fields'' = JUndef \<or>
     jget e ''event_kind'' = JStr ''MATTER_DETAILS_UPDATED'' \<and>
     (\<exists>xs. jget e ''changed_fields'' = JArr (map JStr xs))"
proof -
  assume e: "event_shape e"
  have "\<exists>ys. xs = map JStr ys" if "\<forall>x\<in>set xs. is_str x" for xs
    using that by (induction xs) (auto simp: is_str_iff, metis list.simps(9))
  with e show ?thesis by (simp only: event_shape_def) (auto split: jval.splits)
qed

definition plain :: "jval \<Rightarrow> bool" where
  "plain v \<longleftrightarrow> v = JNull \<or> (\<exists>s. v = JStr s) \<or> v = JInt 2 \<or> (\<exists>xs. v = JArr (map JStr xs))"

lemma plain_sound: "plain v \<Longrightarrow> sound_json v"
  by (auto simp: plain_def)

lemma shape_plain:
  assumes "event_shape e" and "jget e k \<noteq> JUndef"
  shows "plain (jget e k)"
proof -
  consider "k \<in> set required_event_fields" | "k \<in> {''before_state_hash'', ''prev_event_hash''}"
    | "k \<in> {''reason'', ''event_kind''}" | "k = ''audit_schema_version''" | "k = ''changed_fields''"
    | "k \<notin> set (required_event_fields @ optional_event_fields)"
    by (auto simp: optional_event_fields_def)
  then show ?thesis
  proof cases
    case 1 with shape_str [OF assms(1)] show ?thesis by (auto simp: plain_def)
  next
    case 2 with shape_nullable [OF assms(1) _ assms(2)] show ?thesis by (auto simp: plain_def)
  next
    case 3 with shape_optional [OF assms(1)] assms(2) show ?thesis by (auto simp: plain_def)
  next
    case 4 with shape_version [OF assms(1)] assms(2) show ?thesis by (auto simp: plain_def)
  next
    case 5 with shape_changed [OF assms(1)] assms(2) show ?thesis by (auto simp: plain_def)
  next
    case 6 with event_shape_unknown_field [OF assms(1)] assms(2) show ?thesis by blast
  qed
qed

lemma plain_reason: "event_shape e \<Longrightarrow> plain (or_default (jget e ''reason'') JNull)"
  using shape_plain [of e "''reason''"] by (auto simp: or_default_def plain_def)

text \<open>The fields of a canonical object, \<open>reason\<close> aside, are the event's.\<close>

definition canonical_of :: "jval \<Rightarrow> (string \<times> jval) list" where
  "canonical_of e = (if event_present (jget e ''event_kind'') then canonical_v2 e else canonical_v1 e)"

lemma canonical_Inr:
  assumes "canonicalAuditEventHashInput e = Inr s"
  shows "(\<forall>(k, v)\<in>set (canonical_of e). v \<noteq> JUndef) \<and> s = stringify (JObj (canonical_of e))"
  using assms
  by (auto simp only: canonicalAuditEventHashInput_def canonical_of_def Let_def print_canonical_Inr
      split: if_splits)

lemma canonical_keys_distinct: "distinct (map fst (canonical_of e))"
  by (simp add: canonical_of_def canonical_v1_def canonical_v2_def)

lemma canonical_entry:
  "(k, v) \<in> set (canonical_of e) \<Longrightarrow>
   v = (if k = ''reason'' then or_default (jget e ''reason'') JNull else jget e k)"
  by (auto simp: canonical_of_def canonical_v1_def canonical_v2_def split: if_splits)

lemma canonical_sound:
  assumes "event_shape e" and "canonicalAuditEventHashInput e = Inr s"
  shows "sound_json (JObj (canonical_of e))"
proof -
  have "sound_json v" if kv: "(k, v) \<in> set (canonical_of e)" for k v
  proof (rule plain_sound)
    have "v \<noteq> JUndef" using canonical_Inr [OF assms(2)] kv by auto
    with canonical_entry [OF kv] shape_plain [OF assms(1)] plain_reason [OF assms(1)]
    show "plain v" by (cases "k = ''reason''") simp_all
  qed
  with canonical_keys_distinct show ?thesis by auto
qed

lemma canonical_absent:
  assumes "event_shape e" and "canonicalAuditEventHashInput e = Inr s" and "k \<notin> set (map fst (canonical_of e))"
  shows "jget e k = JUndef"
proof (cases "k \<in> set (required_event_fields @ optional_event_fields)")
  case False
  with event_shape_unknown_field [OF assms(1)] show ?thesis .
next
  case True
  have "k = ''changed_fields'' \<or> k \<in> {''event_kind'', ''audit_schema_version''} \<and> \<not> event_present (jget e ''event_kind'')"
    using True assms(3)
    by (auto simp: canonical_of_def canonical_v1_def canonical_v2_def required_event_fields_def optional_event_fields_def
        split: if_splits)
  moreover have "jget e ''changed_fields'' = JUndef" if "k = ''changed_fields''"
    using assms that by (auto simp: canonical_of_def canonical_v2_def canonicalAuditEventHashInput_def event_present_def
        split: if_splits)
  moreover have "jget e k = JUndef"
    if "k \<in> {''event_kind'', ''audit_schema_version''}" "\<not> event_present (jget e ''event_kind'')"
    using assms(1,2) that shape_optional [of e "''event_kind''"] shape_version [of e]
    by (auto simp: canonicalAuditEventHashInput_def event_present_def Let_def split: if_splits)
  ultimately show ?thesis by blast
qed

lemma canonical_present:
  assumes "k \<in> set (map fst (canonical_of e))"
  shows "(k, if k = ''reason'' then or_default (jget e ''reason'') JNull else jget e k) \<in> set (canonical_of e)"
  using assms canonical_entry by fastforce

lemma canonical_determines:
  assumes "event_shape e" "event_shape e'"
    and "canonicalAuditEventHashInput e = Inr s" "canonicalAuditEventHashInput e' = Inr s"
  shows "jget e k = jget e' k"
proof -
  have "stringify (JObj (canonical_of e)) = stringify (JObj (canonical_of e'))"
    using canonical_Inr assms(3,4) by metis
  then have same: "canonical_of e = canonical_of e'"
    using stringify_inj canonical_sound assms by blast
  show ?thesis
  proof (cases "k \<in> set (map fst (canonical_of e))")
    case False
    with canonical_absent assms same show ?thesis by metis
  next
    case True
    have "(k, if k = ''reason'' then or_default (jget e ''reason'') JNull else jget e k) \<in> set (canonical_of e')"
      using canonical_present [OF True] unfolding same .
    note eq = canonical_entry [OF this]
    from eq show ?thesis
      using shape_optional [OF assms(1), of "''reason''"] shape_optional [OF assms(2), of "''reason''"]
      by (auto simp: or_default_def split: if_splits)
  qed
qed

subsection \<open>Chains that verify\<close>

abbreviation chain_tenant :: "jval list \<Rightarrow> jval" where
  "chain_tenant es \<equiv> (case es of [] \<Rightarrow> JNull | e # _ \<Rightarrow> jget e ''tenant_id'')"

abbreviation chain_matter :: "jval list \<Rightarrow> jval" where
  "chain_matter es \<equiv> (case es of [] \<Rightarrow> JNull | e # _ \<Rightarrow> jget e ''matter_id'')"

lemma verifyFrom_append:
  "verifyFrom L i h t m (xs @ ys) =
     bindR (verifyFrom L i h t m xs) (\<lambda>r. case r of
       ChainVerifyErr j reason d \<Rightarrow> Inr (ChainVerifyErr j reason d)
     | ChainVerifyOk n h' \<Rightarrow>
         verifyFrom L n h' (if i = 0 \<and> xs \<noteq> [] then chain_tenant xs else t)
           (if i = 0 \<and> xs \<noteq> [] then chain_matter xs else m) ys)"
proof (induction xs arbitrary: i h t m)
  case (Cons e xs)
  show ?case
    by (cases "eventHashFn L e") (auto simp: Cons.IH split: option.splits list.splits)
qed simp

lemma verifyFrom_count: "verifyFrom L i h t m xs = Inr (ChainVerifyOk n h') \<Longrightarrow> n = i + length xs"
proof (induction xs arbitrary: i h t m)
  case (Cons e xs)
  then obtain h1 ta ma where "verifyFrom L (Suc i) h1 ta ma xs = Inr (ChainVerifyOk n h')"
    by (auto simp: result_simps split: option.splits if_splits)
  with Cons.IH show ?case by fastforce
qed simp

lemma verify_snoc:
  "verifyAuditChain L (xs @ [e]) = Inr (ChainVerifyOk n h) \<longleftrightarrow>
     (\<exists>h0 he. verifyAuditChain L xs = Inr (ChainVerifyOk (length xs) h0) \<and>
        eventOffence L (length xs) h0 (chain_tenant xs) (chain_matter xs) e = None \<and>
        eventHashFn L e = Inr he \<and> n = Suc (length xs) \<and> h = Some he)"
proof -
  have last: "verifyFrom L j h0 t m [e] = Inr (ChainVerifyOk n h) \<longleftrightarrow>
      eventOffence L j h0 t m e = None \<and> (\<exists>he. eventHashFn L e = Inr he \<and> n = Suc j \<and> h = Some he)" for j h0 t m
    by (auto simp: result_simps split: option.splits)
  have "(if xs \<noteq> [] then chain_tenant xs else JNull) = chain_tenant xs"
    "(if xs \<noteq> [] then chain_matter xs else JNull) = chain_matter xs" by (auto split: list.splits)
  then have *: "verifyAuditChain L (xs @ [e]) = bindR (verifyAuditChain L xs) (\<lambda>r. case r of
       ChainVerifyErr j reason d \<Rightarrow> Inr (ChainVerifyErr j reason d)
     | ChainVerifyOk n h' \<Rightarrow> verifyFrom L n h' (chain_tenant xs) (chain_matter xs) [e])"
    by (simp only: verifyAuditChain_def verifyFrom_append simp_thms)
  show ?thesis
  proof (cases "verifyAuditChain L xs")
    case (Inl msg)
    then show ?thesis by (simp add: *)
  next
    case (Inr r)
    show ?thesis
    proof (cases r)
      case (ChainVerifyOk j h0)
      with Inr have "j = length xs"
        using verifyFrom_count [of L 0 None JNull JNull xs] by (simp add: verifyAuditChain_def)
      with ChainVerifyOk Inr show ?thesis by (simp only: * bindR.simps ChainVerifyResult.case last) auto
    next
      case (ChainVerifyErr j reason d)
      with Inr show ?thesis by (simp add: *)
    qed
  qed
qed

lemma verify_Nil [simp]: "verifyAuditChain L [] = Inr (ChainVerifyOk 0 None)"
  by (simp add: verifyAuditChain_def)

lemma if_Some_None: "(if b then Some x else y) = None \<longleftrightarrow> \<not> b \<and> y = None"
  by simp

lemma eventOffence_None:
  "eventOffence L i h t m e = None \<longleftrightarrow>
     al_validateAuditEvent L e = None \<and> nonempty_string (jget e ''after_state_hash'') \<and>
     (i = 0 \<longrightarrow> jget e ''prev_event_hash'' = JNull) \<and>
     (i \<noteq> 0 \<longrightarrow> jget e ''tenant_id'' = t \<and> jget e ''matter_id'' = m \<and> jget e ''prev_event_hash'' = opt_str h) \<and>
     (jget e ''action'' = JStr ''create'' \<longrightarrow> jget e ''before_state_hash'' = JNull) \<and> \<not> kind_inconsistent e"
  by (cases "al_validateAuditEvent L e")
     (simp_all only: eventOffence_def Let_def option.case if_Some_None option.simps simp_thms, blast)

lemma opt_str_inj [simp]: "opt_str a = opt_str b \<longleftrightarrow> a = b"
  by (auto simp: opt_str_def split: option.splits)

lemma verify_head_None: "verifyAuditChain L xs = Inr (ChainVerifyOk n None) \<Longrightarrow> xs = []"
  by (cases xs rule: rev_cases) (auto simp: verify_snoc)

lemma verify_link:
  assumes "verifyAuditChain L (xs @ [e]) = Inr (ChainVerifyOk n h)"
    and "verifyAuditChain L xs = Inr (ChainVerifyOk m h0)"
  shows "jget e ''prev_event_hash'' = opt_str h0"
proof -
  from assms have off: "eventOffence L (length xs) h0 (chain_tenant xs) (chain_matter xs) e = None"
    by (auto simp: verify_snoc)
  show ?thesis
  proof (cases "xs = []")
    case True
    with assms(2) off show ?thesis by (simp add: eventOffence_None opt_str_def)
  next
    case False
    with off show ?thesis by (simp add: eventOffence_None)
  qed
qed

definition same_event :: "jval \<Rightarrow> jval \<Rightarrow> bool" where
  "same_event e e' \<longleftrightarrow> (\<forall>k. jget e k = jget e' k)"

abbreviation hash_inputs :: "jval list \<Rightarrow> string set" where
  "hash_inputs es \<equiv> {s. \<exists>e\<in>set es. canonicalAuditEventHashInput e = Inr s}"

text \<open>The hash of the last event commits to the whole history: two chains that verify to the same head
  are the same events, unless two of their canonical texts collide.\<close>

lemma head_commits:
  assumes "audit_schema_ok L" and "inj_on (al_sha256 L) (hash_inputs (es @ es'))"
    and "verifyAuditChain L es = Inr (ChainVerifyOk n h)" and "verifyAuditChain L es' = Inr (ChainVerifyOk n' h)"
  shows "list_all2 same_event es es'"
  using assms(2-4)
proof (induction es arbitrary: es' n n' h rule: rev_induct)
  case Nil
  then have "es' = []" using verify_head_None by auto
  then show ?case by simp
next
  case (snoc e xs)
  from snoc.prems(2) obtain h0 he where x: "verifyAuditChain L xs = Inr (ChainVerifyOk (length xs) h0)"
      "eventOffence L (length xs) h0 (chain_tenant xs) (chain_matter xs) e = None" "eventHashFn L e = Inr he" "h = Some he"
    by (auto simp: verify_snoc)
  obtain ys e' where es': "es' = ys @ [e']"
    using snoc.prems(3) x(4) by (cases es' rule: rev_cases) auto
  from snoc.prems(3) x(4) es' obtain h1 where y: "verifyAuditChain L ys = Inr (ChainVerifyOk (length ys) h1)"
      "eventOffence L (length ys) h1 (chain_tenant ys) (chain_matter ys) e' = None" "eventHashFn L e' = Inr he"
    by (auto simp: verify_snoc)
  from x(3) y(3) obtain s s' where c: "canonicalAuditEventHashInput e = Inr s" "canonicalAuditEventHashInput e' = Inr s'"
      "al_sha256 L s = al_sha256 L s'"
    by (auto simp: eventHashFn_def asAuditEventHash_def result_simps split: if_splits)
  have eq: "s = s'"
    by (rule inj_onD [OF snoc.prems(1) c(3)]) (use c(1,2) es' in auto)
  have "event_shape e" "event_shape e'"
    using assms(1) x(2) y(2) by (auto simp: audit_schema_ok_def eventOffence_None)
  from canonical_determines [OF this c(1) c(2) [folded eq]] have same: "same_event e e'"
    unfolding same_event_def by blast
  have "h0 = h1"
    using verify_link [OF snoc.prems(2) x(1)] verify_link [OF snoc.prems(3) [unfolded es'] y(1)] same
    by (simp add: same_event_def)
  moreover have "inj_on (al_sha256 L) (hash_inputs (xs @ ys))"
    using snoc.prems(1) by (rule inj_on_subset) (auto simp: es')
  ultimately have "list_all2 same_event xs ys" using snoc.IH x(1) y(1) by blast
  with same es' show ?case by (simp add: list_all2_appendI)
qed

text \<open>Events the builder made.\<close>

lemma build_Inr:
  assumes "buildCaseBoxAuditEvent L i = Inr e"
  obtains meta where "map_of CASE_BOX_AUDIT_EVENT_KINDS (be_kind i) = Some meta" "e = auditCandidate meta i"
    "al_validateAuditEvent L e = None" "km_reasonRequired meta \<Longrightarrow> nonempty_string (be_reason i)"
  using assms by (auto simp: buildCaseBoxAuditEvent_def split: option.splits if_splits)

lemma auditCandidate_fields [audit_simps]:
  "jget (auditCandidate meta i) ''id'' = JStr (be_id i)"
  "jget (auditCandidate meta i) ''tenant_id'' = be_tenant_id i"
  "jget (auditCandidate meta i) ''matter_id'' = be_matter_id i"
  "jget (auditCandidate meta i) ''action'' = JStr (km_action meta)"
  "jget (auditCandidate meta i) ''entity_type'' = JStr (km_entity_type meta)"
  "jget (auditCandidate meta i) ''entity_id'' = be_entity_id i"
  "jget (auditCandidate meta i) ''before_state_hash'' = be_before_state_hash i"
  "jget (auditCandidate meta i) ''after_state_hash'' = JStr (be_after_state_hash i)"
  "jget (auditCandidate meta i) ''prev_event_hash'' = opt_str (be_prev_event_hash i)"
  "jget (auditCandidate meta i) ''event_kind'' = JStr (be_kind i)"
  "jget (auditCandidate meta i) ''audit_schema_version'' = JInt 2"
  "jget (auditCandidate meta i) ''changed_fields'' = JUndef"
  "jget (auditCandidate meta i) ''reason'' = be_reason i"
  by (simp_all add: auditCandidate_def)

lemma built_kind_consistent:
  assumes "map_of CASE_BOX_AUDIT_EVENT_KINDS (be_kind i) = Some meta" and "km_reasonRequired meta \<Longrightarrow> nonempty_string (be_reason i)"
  shows "\<not> kind_inconsistent (auditCandidate meta i)"
  using assms by (simp add: kind_inconsistent_def audit_simps)

end
