(* ===== verification/CaseBoxAudit.thy ===== *)
theory CaseBoxAudit
  imports CaseBoxAuditLog
begin

text \<open>
  \<open>services/case-box-persistence/src/{errors,auditChain,auditHeadAnchor,auditChainInvariant,inMemoryAudit}.ts\<close>:
  the per-matter audit log with its head anchor, and its reads. Keys of a JavaScript \<open>Map\<close> are dynamic
  values, so an entity's id is one here.
\<close>

datatype CaseBoxPersistenceErrorCode =
    Duplicate_id | Unknown_matter | Unknown_document | Tenant_mismatch | Matter_id_mismatched
  | Illegal_transition | Local_only_external_flag_rejected | Invalid_payload | Invalid_initial_state
  | Invalid_argument | Anchor_referenced | Audit_chain_desync | Unknown_party | Database_corrupt
  | Database_not_case_box | Database_locked | Database_unavailable | Database_empty | Audit_chain_erased
  | Matter_archived | No_editable_change | Not_implemented

text \<open>What a call may throw: the package's typed error, or a plain one of the contract package.\<close>

datatype case_exn = CaseBoxPersistenceError CaseBoxPersistenceErrorCode string | PlainError string

fun plainly :: "string + 'a \<Rightarrow> case_exn + 'a" where
  "plainly (Inl m) = Inl (PlainError m)"
| "plainly (Inr x) = Inr x"

lemma plainly_Inr [result_simps, simp]: "plainly r = Inr x \<longleftrightarrow> r = Inr x"
  by (cases r) auto

fun rethrow :: "CaseBoxPersistenceErrorCode \<Rightarrow> string + 'a \<Rightarrow> case_exn + 'a" where
  "rethrow code (Inl m) = Inl (CaseBoxPersistenceError code m)"
| "rethrow code (Inr x) = Inr x"

lemma rethrow_Inr [result_simps, simp]: "rethrow code r = Inr x \<longleftrightarrow> r = Inr x"
  by (cases r) auto

subsection \<open>Hashes and the log\<close>

text \<open>\<open>canonicalize\<close> assigns the fields to a fresh object in the order of their names. JavaScript enumerates
  the fields named like an array index first, by number, and the assignment to \<open>__proto__\<close> makes no field.\<close>

definition index_like :: "string \<Rightarrow> bool" where
  "index_like k \<longleftrightarrow> k = ''0'' \<or> k \<noteq> [] \<and> hd k \<noteq> CHR ''0'' \<and> (\<forall>c\<in>set k. is_digit c) \<and> length k \<le> 10 \<and>
     foldl (\<lambda>n c. 10 * n + (of_char c - 48)) 0 k < (4294967295 :: nat)"

definition field_order :: "(string \<times> 'a) list \<Rightarrow> (string \<times> 'a) list" where
  "field_order kvs =
     sort_key (\<lambda>kv. foldl (\<lambda>n c. 10 * n + (of_char c - 48)) (0 :: nat) (fst kv)) (filter (\<lambda>kv. index_like (fst kv)) kvs)
     @ sort_key fst (filter (\<lambda>kv. \<not> index_like (fst kv)) kvs)"

fun canonicalize :: "jval \<Rightarrow> jval" where
  "canonicalize (JArr xs) = JArr (map canonicalize xs)"
| "canonicalize (JObj kvs) =
     JObj (field_order (map (\<lambda>(k, v). (k, canonicalize v)) (filter (\<lambda>(k, v). v \<noteq> JUndef \<and> k \<noteq> ''__proto__'') kvs)))"
| "canonicalize v = v"

definition canonicalEntityHashInput :: "jval \<Rightarrow> string" where
  "canonicalEntityHashInput v = stringify (canonicalize v)"

definition entityStateHash :: "AuditLib \<Rightarrow> jval \<Rightarrow> string" where
  "entityStateHash L v = al_sha256 L (canonicalEntityHashInput v)"

record StoredAuditEvent =
  sa_sequence :: nat
  sa_event :: jval

definition priorHeadOf :: "AuditLib \<Rightarrow> StoredAuditEvent list \<Rightarrow> string + string option" where
  "priorHeadOf L stored =
     (if stored = [] then Inr None
      else bindR (eventHashFn L (sa_event (last stored))) (\<lambda>h. Inr (Some h)))"

record AuditHeadAnchor =
  ah_headHash :: string
  ah_count :: nat

record InMemoryAuditLog =
  il_events :: "(jval, StoredAuditEvent list) jmap"
  il_heads :: "(jval, AuditHeadAnchor) jmap"

definition emptyAuditLog :: InMemoryAuditLog where
  "emptyAuditLog = \<lparr>il_events = [], il_heads = []\<rparr>"

definition log_get :: "InMemoryAuditLog \<Rightarrow> jval \<Rightarrow> StoredAuditEvent list" where
  "log_get a m = (case mget (il_events a) m of Some es \<Rightarrow> es | None \<Rightarrow> [])"

text \<open>The event is pushed before the anchor is computed; were the hash to throw, the event would stay.\<close>

definition log_append ::
  "AuditLib \<Rightarrow> jval \<Rightarrow> StoredAuditEvent \<Rightarrow> InMemoryAuditLog \<Rightarrow> (case_exn + unit) \<times> InMemoryAuditLog" where
  "log_append L m ev a =
     (let es = log_get a m @ [ev];
          a1 = a\<lparr>il_events := mset_kv m es (il_events a)\<rparr> in
      case eventHashFn L (sa_event ev) of
        Inl msg \<Rightarrow> (Inl (PlainError msg), a1)
      | Inr h \<Rightarrow> (Inr (), a1\<lparr>il_heads := mset_kv m \<lparr>ah_headHash = h, ah_count = length es\<rparr> (il_heads a1)\<rparr>))"

fun log_appendAll ::
  "AuditLib \<Rightarrow> jval \<Rightarrow> StoredAuditEvent list \<Rightarrow> InMemoryAuditLog \<Rightarrow> (case_exn + unit) \<times> InMemoryAuditLog" where
  "log_appendAll L m [] a = (Inr (), a)"
| "log_appendAll L m (e # es) a =
     (case log_append L m e a of
        (Inl x, a1) \<Rightarrow> (Inl x, a1)
      | (Inr _, a1) \<Rightarrow> log_appendAll L m es a1)"

definition log_reset ::
  "AuditLib \<Rightarrow> jval \<Rightarrow> StoredAuditEvent list \<Rightarrow> InMemoryAuditLog \<Rightarrow> (case_exn + unit) \<times> InMemoryAuditLog" where
  "log_reset L m es a =
     log_appendAll L m es (a\<lparr>il_events := mset_kv m [] (il_events a), il_heads := mdel m (il_heads a)\<rparr>)"

definition log_anchor :: "InMemoryAuditLog \<Rightarrow> jval \<Rightarrow> AuditHeadAnchor option" where
  "log_anchor a m = mget (il_heads a) m"

text \<open>Every write builds its event over the stored chain: the head hash, the builder, the next sequence
  number. (The chain is empty only when a matter is created.)\<close>

definition emitEvent ::
  "AuditLib \<Rightarrow> StoredAuditEvent list \<Rightarrow> (string option \<Rightarrow> BuildAuditEventInput) \<Rightarrow> case_exn + StoredAuditEvent" where
  "emitEvent L stored mk =
     bindR (plainly (priorHeadOf L stored)) (\<lambda>prevHash.
     case buildCaseBoxAuditEvent L (mk prevHash) of
       Inl summary \<Rightarrow> Inl (CaseBoxPersistenceError Invalid_payload (''audit-event builder rejected: '' @ summary))
     | Inr ev \<Rightarrow> Inr \<lparr>sa_sequence = length stored + 1, sa_event = ev\<rparr>)"

subsection \<open>Reads\<close>

definition unknown_matter :: "jval \<Rightarrow> case_exn" where
  "unknown_matter m = CaseBoxPersistenceError Unknown_matter (''unknown matter: '' @ js_String m)"

definition assertAuditChainNotErased :: "jval \<Rightarrow> nat \<Rightarrow> case_exn + unit" where
  "assertAuditChainNotErased m eventCount =
     requireR (0 < eventCount)
       (CaseBoxPersistenceError Audit_chain_erased
          (''refusing to report an empty audit history for matter '' @ js_String m @ '': the matter exists, so ''
           @ ''it must have a MATTER_REGISTERED genesis event. Zero events means the audit history ''
           @ ''was deleted. Run a chain verification and restore from a backup; do not treat this as ''
           @ ''a matter with no activity yet.''))"

record AuditChainHead =
  hd_headHash :: string
  hd_lastEventId :: jval
  hd_count :: nat

definition getAuditChainHeadHelper ::
  "AuditLib \<Rightarrow> (jval, jval) jmap \<Rightarrow> InMemoryAuditLog \<Rightarrow> jval \<Rightarrow> case_exn + AuditChainHead" where
  "getAuditChainHeadHelper L matters audit m =
     (if mget matters m = None then Inl (unknown_matter m)
      else let stored = log_get audit m in
      bindR (assertAuditChainNotErased m (length stored)) (\<lambda>_.
      bindR (plainly (eventHashFn L (sa_event (last stored)))) (\<lambda>h.
      Inr \<lparr>hd_headHash = h, hd_lastEventId = jget (sa_event (last stored)) ''id'', hd_count = length stored\<rparr>)))"

definition verifyAuditChainForMatterHelper ::
  "AuditLib \<Rightarrow> (jval, jval) jmap \<Rightarrow> InMemoryAuditLog \<Rightarrow> jval \<Rightarrow> case_exn + ChainVerifyResult" where
  "verifyAuditChainForMatterHelper L matters audit m =
     (if mget matters m = None then Inl (unknown_matter m)
      else let events = map sa_event (log_get audit m) in
      case events of
        [] \<Rightarrow> Inr (ChainVerifyErr 0 Missing_genesis_event
               (''matter '' @ js_String m @ '' exists but holds zero audit events; its MATTER_REGISTERED genesis event ''
                @ ''is missing, which means the audit history was deleted''))
      | first # _ \<Rightarrow>
          if jget first ''action'' \<noteq> JStr ''create'' \<or> jget first ''entity_type'' \<noteq> JStr ''matter''
             \<or> or_default (jget first ''before_state_hash'') JNull \<noteq> JNull
          then Inr (ChainVerifyErr 0 Missing_genesis_event
                 (''matter '' @ js_String m @ '': the chain does not begin with a matter-create genesis event (first event action=''
                  @ js_String (jget first ''action'') @ '', entity_type='' @ js_String (jget first ''entity_type'')
                  @ ''), which means the original genesis was removed''))
          else bindR (plainly (verifyAuditChain L events)) (\<lambda>result.
            case result of
              ChainVerifyErr _ _ _ \<Rightarrow> Inr result
            | ChainVerifyOk verifiedCount headHash \<Rightarrow>
                (let persistedHead = map_option ah_headHash (log_anchor audit m) in
                 if persistedHead \<noteq> headHash
                 then Inr (ChainVerifyErr (verifiedCount - 1) Prev_event_hash_mismatch
                        (''head-anchor mismatch: recorded head anchor ('' @ js_String (opt_str persistedHead)
                         @ '') does not equal verifier headHash ('' @ js_String (opt_str headHash)
                         @ ''); last-event payload likely tampered''))
                 else Inr result)))"

subsection \<open>Chains built by the store\<close>

text \<open>SHA-256 gives 64 lower-case hexadecimal digits.\<close>

definition hash_ok :: "AuditLib \<Rightarrow> bool" where
  "hash_ok L \<longleftrightarrow> (\<forall>s. SHA256_HEX_RE (al_sha256 L s))"

abbreviation audit_lib_ok :: "AuditLib \<Rightarrow> bool" where
  "audit_lib_ok L \<equiv> hash_ok L \<and> audit_schema_ok L"

definition genesis_event :: "jval \<Rightarrow> bool" where
  "genesis_event e \<longleftrightarrow> jget e ''action'' = JStr ''create'' \<and> jget e ''entity_type'' = JStr ''matter'' \<and>
     jget e ''before_state_hash'' = JNull"

text \<open>What the stored chain of a matter satisfies: it verifies, its anchor is the head the verifier
  finds, it starts with the genesis of this matter, and its sequence numbers count from 1.\<close>

definition chain_inv :: "AuditLib \<Rightarrow> jval \<Rightarrow> jval \<Rightarrow> StoredAuditEvent list \<Rightarrow> AuditHeadAnchor option \<Rightarrow> bool" where
  "chain_inv L m t stored anchor \<longleftrightarrow>
     (\<exists>h. verifyAuditChain L (map sa_event stored) = Inr (ChainVerifyOk (length stored) (Some h)) \<and>
          anchor = Some \<lparr>ah_headHash = h, ah_count = length stored\<rparr>) \<and>
     stored \<noteq> [] \<and> genesis_event (sa_event (hd stored)) \<and>
     chain_tenant (map sa_event stored) = t \<and> chain_matter (map sa_event stored) = m \<and>
     map sa_sequence stored = [1..<Suc (length stored)]"

text \<open>An event that may be appended: accepted by the schema, of this matter and tenant, consistent with
  its kind, linked to the head.\<close>

definition next_event :: "AuditLib \<Rightarrow> jval \<Rightarrow> jval \<Rightarrow> string option \<Rightarrow> jval \<Rightarrow> bool" where
  "next_event L m t prev e \<longleftrightarrow>
     al_validateAuditEvent L e = None \<and> nonempty_string (jget e ''after_state_hash'') \<and>
     jget e ''tenant_id'' = t \<and> jget e ''matter_id'' = m \<and> jget e ''prev_event_hash'' = opt_str prev \<and>
     (jget e ''action'' = JStr ''create'' \<longrightarrow> jget e ''before_state_hash'' = JNull) \<and>
     jget e ''before_state_hash'' \<noteq> JUndef \<and> \<not> kind_inconsistent e \<and>
     jget e ''audit_schema_version'' = JInt 2 \<and> event_present (jget e ''event_kind'')"

lemma eventHashFn_hex:
  "eventHashFn L e = Inr h \<Longrightarrow> SHA256_HEX_RE h"
  by (auto simp: eventHashFn_def asAuditEventHash_def result_simps split: if_splits)

lemma next_event_hash:
  assumes "audit_lib_ok L" and "next_event L m t prev e"
  obtains h where "eventHashFn L e = Inr h"
proof -
  have shape: "event_shape e" using assms by (auto simp: audit_schema_ok_def next_event_def)
  have kind: "known_kind (jget e ''event_kind'')"
    using assms(2) by (auto simp: next_event_def kind_inconsistent_def known_kind_def split: jval.splits option.splits)
  have "\<forall>k\<in>set required_event_fields. jget e k \<noteq> JUndef" using shape_str [OF shape] by fastforce
  moreover have "jget e ''before_state_hash'' \<noteq> JUndef" "jget e ''prev_event_hash'' \<noteq> JUndef"
      "jget e ''audit_schema_version'' \<noteq> JUndef" "jget e ''event_kind'' \<noteq> JUndef"
    using assms(2) by (auto simp: next_event_def event_present_def opt_str_def split: option.splits)
  moreover have "or_default (jget e ''reason'') JNull \<noteq> JUndef" by (simp add: or_default_def)
  ultimately have "\<forall>(k, v)\<in>set (canonical_v2 e). v \<noteq> JUndef"
    by (simp add: required_event_fields_def canonical_v2_def)
  then have "print_canonical (canonical_v2 e) = Inr (stringify (JObj (canonical_v2 e)))"
    by (simp only: print_canonical_Inr simp_thms)
  moreover have "jget e ''changed_fields'' = JUndef \<or> jget e ''event_kind'' = JStr ''MATTER_DETAILS_UPDATED''"
    using shape_changed [OF shape] by blast
  ultimately have "canonicalAuditEventHashInput e = Inr (stringify (JObj (canonical_v2 e)))"
    using assms(2) kind by (auto simp: canonicalAuditEventHashInput_def next_event_def event_present_def Let_def simp del: stringify.simps)
  with assms(1) that show thesis by (simp add: eventHashFn_def asAuditEventHash_def hash_ok_def del: stringify.simps)
qed

lemma chain_inv_head:
  assumes "chain_inv L m t stored anchor"
  obtains h where "priorHeadOf L stored = Inr (Some h)" "anchor = Some \<lparr>ah_headHash = h, ah_count = length stored\<rparr>"
    "verifyAuditChain L (map sa_event stored) = Inr (ChainVerifyOk (length stored) (Some h))"
proof -
  from assms obtain h where h: "verifyAuditChain L (map sa_event stored) = Inr (ChainVerifyOk (length stored) (Some h))"
      "anchor = Some \<lparr>ah_headHash = h, ah_count = length stored\<rparr>" "stored \<noteq> []"
    by (auto simp: chain_inv_def)
  from h(3) obtain xs ev where "stored = xs @ [ev]" by (cases stored rule: rev_cases) auto
  with h(1) have "priorHeadOf L stored = Inr (Some h)" by (auto simp: verify_snoc priorHeadOf_def)
  with h that show thesis by blast
qed

lemma chain_inv_append:
  assumes "audit_lib_ok L" and "chain_inv L m t stored anchor" and "priorHeadOf L stored = Inr prev"
    and "next_event L m t prev (sa_event ev)" and "sa_sequence ev = length stored + 1"
  shows "\<exists>h. eventHashFn L (sa_event ev) = Inr h \<and>
    chain_inv L m t (stored @ [ev]) (Some \<lparr>ah_headHash = h, ah_count = Suc (length stored)\<rparr>)"
proof -
  from chain_inv_head [OF assms(2)] obtain h0 where h0: "prev = Some h0"
    "verifyAuditChain L (map sa_event stored) = Inr (ChainVerifyOk (length stored) (Some h0))"
    using assms(3) by auto
  from next_event_hash [OF assms(1,4)] obtain h where h: "eventHashFn L (sa_event ev) = Inr h" .
  have "verifyAuditChain L (map sa_event stored @ [sa_event ev]) = Inr (ChainVerifyOk (Suc (length stored)) (Some h))"
    using assms(2,4) h h0 by (auto simp: verify_snoc eventOffence_None chain_inv_def next_event_def)
  with assms(2,5) h show ?thesis by (cases stored) (auto simp: chain_inv_def)
qed

lemma chain_inv_genesis:
  assumes "audit_lib_ok L" and "next_event L m t None (sa_event ev)" and "genesis_event (sa_event ev)" and "sa_sequence ev = 1"
  shows "\<exists>h. eventHashFn L (sa_event ev) = Inr h \<and> chain_inv L m t [ev] (Some \<lparr>ah_headHash = h, ah_count = 1\<rparr>)"
proof -
  from next_event_hash [OF assms(1,2)] obtain h where h: "eventHashFn L (sa_event ev) = Inr h" .
  have "verifyAuditChain L ([] @ [sa_event ev]) = Inr (ChainVerifyOk 1 (Some h))"
    using assms(2) h by (simp only: verify_snoc) (simp add: eventOffence_None next_event_def opt_str_def)
  with assms h show ?thesis by (auto simp: chain_inv_def next_event_def)
qed

end
