(* ===== verification/CaseBoxTransitions.thy ===== *)
theory CaseBoxTransitions
  imports Json
begin

text \<open>
  \<open>docs/contracts/case-box-contract/src/transitions.ts\<close>: the state machines of the seven case-box
  entities. A status is read from a stored record at run time, so states are strings here, as they
  are in the code; an actor is one of four. Every edge is owned by the actors it names.
\<close>

datatype CaseBoxActor = Lawyer | Ingestion | Coordinator | Reviewer

record AllowedCaseEdge =
  ce_from :: string
  ce_to :: string
  ce_by :: "CaseBoxActor list"
  ce_reason_required :: bool

abbreviation edge :: "string \<Rightarrow> string \<Rightarrow> CaseBoxActor \<Rightarrow> AllowedCaseEdge" where
  "edge f t a \<equiv> \<lparr>ce_from = f, ce_to = t, ce_by = [a], ce_reason_required = False\<rparr>"

abbreviation edge_with_reason :: "string \<Rightarrow> string \<Rightarrow> CaseBoxActor \<Rightarrow> AllowedCaseEdge" where
  "edge_with_reason f t a \<equiv> \<lparr>ce_from = f, ce_to = t, ce_by = [a], ce_reason_required = True\<rparr>"

subsection \<open>States and edges\<close>

definition TERMINAL_MATTER_STATES :: "string list" where "TERMINAL_MATTER_STATES = []"

definition TERMINAL_DOCUMENT_STATES :: "string list" where "TERMINAL_DOCUMENT_STATES = []"

definition TERMINAL_EVIDENCE_STATES :: "string list" where
  "TERMINAL_EVIDENCE_STATES = [''rejected'', ''superseded'']"

definition TERMINAL_FACT_STATES :: "string list" where
  "TERMINAL_FACT_STATES = [''accepted'', ''rejected'']"

definition TERMINAL_DOCKET_ENTRY_STATES :: "string list" where
  "TERMINAL_DOCKET_ENTRY_STATES = [''confirmed'', ''dismissed'']"

definition TERMINAL_PRIVILEGE_MARKER_STATES :: "string list" where
  "TERMINAL_PRIVILEGE_MARKER_STATES = [''dismissed'', ''waived'']"

definition TERMINAL_DEADLINE_STATES :: "string list" where
  "TERMINAL_DEADLINE_STATES = [''withdrawn'']"

definition ALLOWED_MATTER_EDGES :: "AllowedCaseEdge list" where
  "ALLOWED_MATTER_EDGES =
     [edge ''active'' ''archived'' Lawyer,
      edge ''archived'' ''active'' Lawyer]"

definition ALLOWED_DOCUMENT_EDGES :: "AllowedCaseEdge list" where
  "ALLOWED_DOCUMENT_EDGES =
     [edge ''registered'' ''ocr_pending'' Ingestion,
      edge ''registered'' ''triaged'' Lawyer,
      edge ''ocr_pending'' ''ocr_complete'' Coordinator,
      edge ''ocr_pending'' ''ocr_failed'' Coordinator,
      edge ''ocr_complete'' ''triaged'' Lawyer,
      edge ''ocr_failed'' ''triaged'' Lawyer,
      edge ''triaged'' ''tagged'' Lawyer,
      edge ''tagged'' ''reviewed'' Lawyer]"

definition ALLOWED_EVIDENCE_EDGES :: "AllowedCaseEdge list" where
  "ALLOWED_EVIDENCE_EDGES =
     [edge ''proposed'' ''accepted'' Lawyer,
      edge ''proposed'' ''rejected'' Lawyer,
      edge ''accepted'' ''superseded'' Lawyer]"

definition ALLOWED_DOCKET_ENTRY_EDGES :: "AllowedCaseEdge list" where
  "ALLOWED_DOCKET_ENTRY_EDGES =
     [edge ''proposed'' ''confirmed'' Lawyer,
      edge_with_reason ''proposed'' ''dismissed'' Lawyer]"

definition ALLOWED_PRIVILEGE_MARKER_EDGES :: "AllowedCaseEdge list" where
  "ALLOWED_PRIVILEGE_MARKER_EDGES =
     [edge ''proposed'' ''confirmed'' Lawyer,
      edge_with_reason ''proposed'' ''dismissed'' Lawyer,
      edge_with_reason ''confirmed'' ''waived'' Lawyer]"

definition ALLOWED_FACT_EDGES :: "AllowedCaseEdge list" where
  "ALLOWED_FACT_EDGES =
     [edge ''candidate'' ''reviewed'' Lawyer,
      edge ''candidate'' ''rejected'' Lawyer,
      edge ''reviewed'' ''accepted'' Lawyer,
      edge ''reviewed'' ''rejected'' Lawyer]"

definition ALLOWED_DEADLINE_EDGES :: "AllowedCaseEdge list" where
  "ALLOWED_DEADLINE_EDGES =
     [edge ''pending'' ''met'' Lawyer,
      edge ''pending'' ''missed'' Lawyer,
      edge ''pending'' ''withdrawn'' Lawyer,
      edge_with_reason ''missed'' ''met'' Lawyer]"

subsection \<open>The checks\<close>

definition isAllowed :: "AllowedCaseEdge list \<Rightarrow> string \<Rightarrow> string \<Rightarrow> CaseBoxActor \<Rightarrow> bool" where
  "isAllowed edges f t by \<longleftrightarrow> (\<exists>e\<in>set edges. ce_from e = f \<and> ce_to e = t \<and> by \<in> set (ce_by e))"

definition edgeRequiresReason :: "AllowedCaseEdge list \<Rightarrow> string \<Rightarrow> string \<Rightarrow> bool" where
  "edgeRequiresReason edges f t =
     (case List.find (\<lambda>e. ce_from e = f \<and> ce_to e = t) edges of
        Some e \<Rightarrow> ce_reason_required e | None \<Rightarrow> False)"

definition actor_name :: "CaseBoxActor \<Rightarrow> string" where
  "actor_name a = (case a of Lawyer \<Rightarrow> ''lawyer'' | Ingestion \<Rightarrow> ''ingestion''
     | Coordinator \<Rightarrow> ''coordinator'' | Reviewer \<Rightarrow> ''review'')"

definition IllegalTransitionError :: "string \<Rightarrow> string \<Rightarrow> CaseBoxActor \<Rightarrow> string" where
  "IllegalTransitionError f t by =
     ''illegal transition '' @ quoted f @ '' -> '' @ quoted t @ '' by '' @ quoted (actor_name by)"

definition assertNonTerminal :: "string list \<Rightarrow> string \<Rightarrow> string + unit" where
  "assertNonTerminal terminals f =
     requireR (f \<notin> set terminals) (''cannot transition from terminal state '' @ quoted f)"

text \<open>The common body of the assertions, with the entity's terminal states and edge table.\<close>

definition assertTransition ::
  "string list \<Rightarrow> AllowedCaseEdge list \<Rightarrow> string \<Rightarrow> string \<Rightarrow> CaseBoxActor \<Rightarrow> string + unit" where
  "assertTransition terminals edges f t by =
     bindR (assertNonTerminal terminals f) (\<lambda>_.
     bindR (requireR (f \<noteq> t) ''self-transition rejected'') (\<lambda>_.
     requireR (isAllowed edges f t by) (IllegalTransitionError f t by)))"

definition assertTransitionWithReason ::
  "string list \<Rightarrow> AllowedCaseEdge list \<Rightarrow> string \<Rightarrow> string \<Rightarrow> CaseBoxActor \<Rightarrow> jval \<Rightarrow> string + unit" where
  "assertTransitionWithReason terminals edges f t by reason =
     bindR (assertTransition terminals edges f t by) (\<lambda>_.
     requireR (edgeRequiresReason edges f t \<longrightarrow> (case reason of JStr s \<Rightarrow> s \<noteq> [] | _ \<Rightarrow> False))
       (''transition '' @ quoted f @ '' -> '' @ quoted t @ '' requires a non-empty reason''))"

definition assertValidMatterTransition :: "string \<Rightarrow> string \<Rightarrow> CaseBoxActor \<Rightarrow> string + unit" where
  "assertValidMatterTransition = assertTransition TERMINAL_MATTER_STATES ALLOWED_MATTER_EDGES"

definition assertValidDocumentTransition :: "string \<Rightarrow> string \<Rightarrow> CaseBoxActor \<Rightarrow> string + unit" where
  "assertValidDocumentTransition = assertTransition TERMINAL_DOCUMENT_STATES ALLOWED_DOCUMENT_EDGES"

definition assertValidEvidenceTransition :: "string \<Rightarrow> string \<Rightarrow> CaseBoxActor \<Rightarrow> string + unit" where
  "assertValidEvidenceTransition = assertTransition TERMINAL_EVIDENCE_STATES ALLOWED_EVIDENCE_EDGES"

definition assertValidFactTransition :: "string \<Rightarrow> string \<Rightarrow> CaseBoxActor \<Rightarrow> string + unit" where
  "assertValidFactTransition = assertTransition TERMINAL_FACT_STATES ALLOWED_FACT_EDGES"

definition assertValidDeadlineTransition :: "string \<Rightarrow> string \<Rightarrow> CaseBoxActor \<Rightarrow> jval \<Rightarrow> string + unit" where
  "assertValidDeadlineTransition = assertTransitionWithReason TERMINAL_DEADLINE_STATES ALLOWED_DEADLINE_EDGES"

definition assertValidPrivilegeMarkerTransition :: "string \<Rightarrow> string \<Rightarrow> CaseBoxActor \<Rightarrow> jval \<Rightarrow> string + unit" where
  "assertValidPrivilegeMarkerTransition =
     assertTransitionWithReason TERMINAL_PRIVILEGE_MARKER_STATES ALLOWED_PRIVILEGE_MARKER_EDGES"

definition assertValidDocketEntryTransition :: "string \<Rightarrow> string \<Rightarrow> CaseBoxActor \<Rightarrow> jval \<Rightarrow> string + unit" where
  "assertValidDocketEntryTransition =
     assertTransitionWithReason TERMINAL_DOCKET_ENTRY_STATES ALLOWED_DOCKET_ENTRY_EDGES"

subsection \<open>Who may do what\<close>

lemma assertTransition_Inr:
  "assertTransition terminals edges f t by = Inr () \<longleftrightarrow>
     f \<notin> set terminals \<and> f \<noteq> t \<and> isAllowed edges f t by"
  by (auto simp: assertTransition_def assertNonTerminal_def result_simps)

lemma assertTransitionWithReason_Inr:
  "assertTransitionWithReason terminals edges f t by reason = Inr () \<longleftrightarrow>
     assertTransition terminals edges f t by = Inr () \<and>
     (edgeRequiresReason edges f t \<longrightarrow> (\<exists>s. reason = JStr s \<and> s \<noteq> []))"
  unfolding assertTransitionWithReason_def
  by (cases reason) (auto simp: result_simps)

lemmas case_edge_tables =
  ALLOWED_MATTER_EDGES_def ALLOWED_DOCUMENT_EDGES_def ALLOWED_EVIDENCE_EDGES_def
  ALLOWED_DOCKET_ENTRY_EDGES_def ALLOWED_PRIVILEGE_MARKER_EDGES_def ALLOWED_FACT_EDGES_def
  ALLOWED_DEADLINE_EDGES_def

lemmas case_terminal_states =
  TERMINAL_MATTER_STATES_def TERMINAL_DOCUMENT_STATES_def TERMINAL_EVIDENCE_STATES_def
  TERMINAL_FACT_STATES_def TERMINAL_DOCKET_ENTRY_STATES_def TERMINAL_PRIVILEGE_MARKER_STATES_def
  TERMINAL_DEADLINE_STATES_def

lemma only_lawyers:
  "edges \<in> {ALLOWED_MATTER_EDGES, ALLOWED_EVIDENCE_EDGES, ALLOWED_DOCKET_ENTRY_EDGES,
      ALLOWED_PRIVILEGE_MARKER_EDGES, ALLOWED_FACT_EDGES, ALLOWED_DEADLINE_EDGES} \<Longrightarrow>
   isAllowed edges f t by \<Longrightarrow> by = Lawyer"
  by (auto simp: isAllowed_def case_edge_tables)

end
