(* ===== verification/CaseBoxMatter.thy ===== *)
theory CaseBoxMatter
  imports CaseBoxAudit CaseBoxTransitions
begin

text \<open>
  \<open>services/case-box-persistence/src/inMemoryMatter.ts\<close> and the matter half of
  \<open>docs/contracts/case-box-contract/src/matter-type-invariants.ts\<close>: the preparation of every matter write. A
  preparation changes nothing; it returns the next record and the one event to append, or throws.
  The identifiers the injected generator returns in the course of a call are a function from the
  number of earlier calls, and the clock reading is an argument.
\<close>

text \<open>What the package takes from elsewhere: the validators compiled from the schemas, \<open>String.prototype.trim\<close>,
  \<open>Date.parse\<close> (\<open>None\<close> for \<open>NaN\<close>) and the time zones the runtime knows.\<close>

record CaseBoxLib = AuditLib +
  cl_validateMatter :: "jval \<Rightarrow> string option"
  cl_validateDocument :: "jval \<Rightarrow> string option"
  cl_validateClaimTrack :: "jval \<Rightarrow> string option"
  cl_validateEvidenceItem :: "jval \<Rightarrow> string option"
  cl_validateFact :: "jval \<Rightarrow> string option"
  cl_validateDeadline :: "jval \<Rightarrow> string option"
  cl_validateDocketEntry :: "jval \<Rightarrow> string option"
  cl_validatePrivilegeMarker :: "jval \<Rightarrow> string option"
  cl_validateClassification :: "jval \<Rightarrow> string option"
  cl_validateOcrLink :: "jval \<Rightarrow> string option"
  cl_trim :: "string \<Rightarrow> string"
  cl_dateParse :: "string \<Rightarrow> int option"
  cl_timezone :: "string \<Rightarrow> bool"

abbreviation audit_lib :: "CaseBoxLib \<Rightarrow> AuditLib" where
  "audit_lib L \<equiv> AuditLib.truncate L"

record CallInputs =
  ci_id :: "nat \<Rightarrow> string"
  ci_now :: string

definition jdel :: "string \<Rightarrow> jval \<Rightarrow> jval" where
  "jdel k v = (case v of JObj kvs \<Rightarrow> JObj (mdel k kvs) | _ \<Rightarrow> v)"

definition case_error :: "CaseBoxPersistenceErrorCode \<Rightarrow> string \<Rightarrow> case_exn + 'a" where
  "case_error code m = Inl (CaseBoxPersistenceError code m)"

definition check :: "bool \<Rightarrow> CaseBoxPersistenceErrorCode \<Rightarrow> string \<Rightarrow> case_exn + unit" where
  "check b code m = requireR b (CaseBoxPersistenceError code m)"

definition schema_check :: "string option \<Rightarrow> string \<Rightarrow> case_exn + unit" where
  "schema_check verdict prefix =
     (case verdict of None \<Rightarrow> Inr () | Some summary \<Rightarrow> case_error Invalid_payload (prefix @ summary))"

lemma check_Inr [result_simps]: "check b code m = Inr u \<longleftrightarrow> b"
  by (simp add: check_def result_simps)

lemma check_Inl [result_simps]: "check b code m = Inl e \<longleftrightarrow> \<not> b \<and> e = CaseBoxPersistenceError code m"
  by (simp add: check_def result_simps)

lemma case_error_Inl [result_simps, simp]: "case_error code m = Inl e \<longleftrightarrow> e = CaseBoxPersistenceError code m"
  by (auto simp: case_error_def)

lemma schema_check_Inl [result_simps]:
  "schema_check v p = Inl e \<longleftrightarrow> (\<exists>summary. v = Some summary \<and> e = CaseBoxPersistenceError Invalid_payload (p @ summary))"
  by (auto simp: schema_check_def split: option.splits)

lemma schema_check_Inr [result_simps]: "schema_check v p = Inr u \<longleftrightarrow> v = None"
  by (simp add: schema_check_def case_error_def split: option.splits)

lemma case_error_Inr [result_simps, simp]: "case_error code m \<noteq> Inr x"
  by (simp add: case_error_def)

subsection \<open>The successor invariant\<close>

definition assertValidMatterSuccessor :: "jval \<Rightarrow> jval option \<Rightarrow> string + unit" where
  "assertValidMatterSuccessor original successor =
     (let r = or_default (jget original ''successor_matter_id'') JNull in
      if r = JNull then Inr ()
      else if r = jget original ''id'' then Inl ''successor_matter_id must not equal the matter's own id''
      else case successor of
        None \<Rightarrow> Inl (''successor_matter_id '' @ js_String r @ '' does not resolve to an existing matter'')
      | Some s \<Rightarrow>
          if jget s ''id'' \<noteq> r
          then Inl (''successor matter id '' @ js_String (jget s ''id'') @ '' does not match successor_matter_id '' @ js_String r)
          else if jget s ''tenant_id'' \<noteq> jget original ''tenant_id''
          then Inl ''successor matter tenant_id must equal the original matter's tenant_id''
          else if jget s ''matter_type'' = jget original ''matter_type''
          then Inl (''successor matter_type must differ from original matter_type ''
                 @ [CHR 0x22] @ js_String (jget original ''matter_type'') @ [CHR 0x22]
                 @ '' (matter-type immutability workaround)'')
          else Inr ())"

subsection \<open>Party identities\<close>

definition MAX_PARTY_ID_GENERATION_ATTEMPTS :: nat where
  "MAX_PARTY_ID_GENERATION_ATTEMPTS = 1000"

fun collectPartyIds :: "jval \<Rightarrow> string list \<Rightarrow> jval list \<Rightarrow> case_exn + string list" where
  "collectPartyIds matter seen [] = Inr seen"
| "collectPartyIds matter seen (party # ps) =
     (case jget party ''id'' of
        JStr s \<Rightarrow>
          if s = [] then collectPartyIds matter seen ps
          else if s \<in> set seen
          then case_error Invalid_payload (''duplicate party id within matter '' @ js_String (jget matter ''id'')
                 @ '': '' @ quote s)
          else collectPartyIds matter (s # seen) ps
      | _ \<Rightarrow> collectPartyIds matter seen ps)"

text \<open>Draw identifiers until one is new; \<open>n\<close> counts the calls of the generator so far.\<close>

function drawPartyId :: "(nat \<Rightarrow> string) \<Rightarrow> string list \<Rightarrow> nat \<Rightarrow> nat \<Rightarrow> case_exn + (string \<times> nat)" where
  "drawPartyId gen seen attempts n =
     (if gen n \<notin> set seen then Inr (gen n, Suc n)
      else if Suc attempts > MAX_PARTY_ID_GENERATION_ATTEMPTS
      then case_error Invalid_argument (''party id generator failed to produce a unique id after ''
             @ show_nat MAX_PARTY_ID_GENERATION_ATTEMPTS @ '' attempts'')
      else drawPartyId gen seen (Suc attempts) (Suc n))"
  by pat_completeness auto

termination
  by (relation "measure (\<lambda>(gen, seen, attempts, n). MAX_PARTY_ID_GENERATION_ATTEMPTS - attempts)")
     (auto simp: MAX_PARTY_ID_GENERATION_ATTEMPTS_def)

declare drawPartyId.simps [simp del]

text \<open>The parties with their identities, the calls made so far and the number assigned.\<close>

fun assignPartyIds ::
  "(nat \<Rightarrow> string) \<Rightarrow> string list \<Rightarrow> nat \<Rightarrow> jval list \<Rightarrow> case_exn + (jval list \<times> nat \<times> nat)" where
  "assignPartyIds gen seen n [] = Inr ([], n, 0)"
| "assignPartyIds gen seen n (party # ps) =
     (if nonempty_string (jget party ''id'')
      then bindR (assignPartyIds gen seen n ps) (\<lambda>(qs, n', k). Inr (party # qs, n', k))
      else bindR (drawPartyId gen seen 0 n) (\<lambda>(fresh, n1).
           bindR (assignPartyIds gen (fresh # seen) n1 ps) (\<lambda>(qs, n', k).
           Inr (jset party ''id'' (JStr fresh) # qs, n', Suc k))))"

definition assignMatterPartyIdsInPlace ::
  "(nat \<Rightarrow> string) \<Rightarrow> jval \<Rightarrow> case_exn + (jval \<times> nat \<times> nat)" where
  "assignMatterPartyIdsInPlace gen matter =
     (case jget matter ''parties'' of
        JArr parties \<Rightarrow>
          bindR (collectPartyIds matter [] parties) (\<lambda>seen.
          bindR (assignPartyIds gen seen 0 parties) (\<lambda>(parties', n, assigned).
          Inr (jset matter ''parties'' (JArr parties'), n, assigned)))
      | _ \<Rightarrow> Inr (matter, 0, 0))"

subsection \<open>Creation\<close>

text \<open>\<open>getMatterById\<close> and \<open>hasExistingId\<close> read the store's map of matters.\<close>

definition prepareCreateMatter ::
  "CaseBoxLib \<Rightarrow> CallInputs \<Rightarrow> (jval, jval) jmap \<Rightarrow> jval \<Rightarrow> case_exn + (jval \<times> StoredAuditEvent)" where
  "prepareCreateMatter L ci matters input =
     bindR (schema_check (cl_validateMatter L input) ''invalid matter submission: '') (\<lambda>_.
     bindR (check (jget input ''status'' = JStr ''active'') Invalid_initial_state
              (''matter must be created with status=\"active\" (got '' @ stringify (jget input ''status'') @ '')'')) (\<lambda>_.
     bindR (check (jget input ''archived_at'' = JUndef) Invalid_initial_state
              ''matter must be created with archived_at unset'') (\<lambda>_.
     bindR (check (jget input ''external_ocr_authorized'' \<noteq> JBool True \<and> jget input ''sync_grant_present'' \<noteq> JBool True
                   \<and> jget input ''llm_extraction_opt_in'' \<noteq> JBool True) Local_only_external_flag_rejected
              (''matter cannot be created with any of external_ocr_authorized, sync_grant_present, ''
               @ ''llm_extraction_opt_in set true; opt-in must happen via a future audited write API'')) (\<lambda>_.
     bindR (rethrow Invalid_payload
              (if event_present (jget input ''successor_matter_id'')
               then assertValidMatterSuccessor input (mget matters (jget input ''successor_matter_id''))
               else Inr ())) (\<lambda>_.
     bindR (check (mget matters (jget input ''id'') = None) Duplicate_id
              (''matter already exists: '' @ js_String (jget input ''id''))) (\<lambda>_.
     bindR (assignMatterPartyIdsInPlace (ci_id ci) input) (\<lambda>(matter, n, assigned).
     bindR (emitEvent (audit_lib L) [] (\<lambda>prevHash.
              \<lparr>be_kind = ''MATTER_REGISTERED'', be_id = ci_id ci n, be_tenant_id = jget matter ''tenant_id'',
               be_actor_user_id = jget matter ''actor_user_id'', be_matter_id = jget matter ''id'',
               be_entity_id = jget matter ''id'', be_before_state_hash = JNull,
               be_after_state_hash = entityStateHash (audit_lib L) matter, be_prev_event_hash = prevHash,
               be_timestamp = ci_now ci, be_reason = JUndef\<rparr>)) (\<lambda>ev.
     Inr (matter, ev)))))))))"

subsection \<open>Archive and unarchive\<close>

record ArchiveMatterOpts =
  am_actor_user_id :: jval
  am_reason :: jval

definition trimmed_nonempty :: "CaseBoxLib \<Rightarrow> jval \<Rightarrow> bool" where
  "trimmed_nonempty L v = (case v of JStr s \<Rightarrow> cl_trim L s \<noteq> [] | _ \<Rightarrow> False)"

definition nextMatter :: "jval \<Rightarrow> string \<Rightarrow> string \<Rightarrow> jval" where
  "nextMatter matter to stamp =
     (let next = jset matter ''status'' (JStr to) in
      if to = ''archived'' then jset next ''archived_at'' (JStr stamp)
      else if to = ''active'' then jdel ''archived_at'' next else next)"

definition prepareMatterTransition ::
  "CaseBoxLib \<Rightarrow> CallInputs \<Rightarrow> jval \<Rightarrow> ArchiveMatterOpts \<Rightarrow> string \<Rightarrow> string \<Rightarrow> StoredAuditEvent list \<Rightarrow>
   case_exn + (jval \<times> StoredAuditEvent)" where
  "prepareMatterTransition L ci matter opts to kind stored =
     bindR (check (trimmed_nonempty L (am_reason opts)) Invalid_argument ''reason must be a non-empty string'') (\<lambda>_.
     bindR (check (nonempty_string (am_actor_user_id opts)) Invalid_argument ''actor_user_id must be a non-empty string'') (\<lambda>_.
     bindR (rethrow Illegal_transition
              (assertValidMatterTransition (js_String (jget matter ''status'')) to Lawyer)) (\<lambda>_.
     let next = nextMatter matter to (ci_now ci) in
     bindR (schema_check (cl_validateMatter L next) ''post-transition matter invalid: '') (\<lambda>_.
     bindR (emitEvent (audit_lib L) stored (\<lambda>prevHash.
              \<lparr>be_kind = kind, be_id = ci_id ci 0, be_tenant_id = jget matter ''tenant_id'',
               be_actor_user_id = am_actor_user_id opts, be_matter_id = jget matter ''id'',
               be_entity_id = jget matter ''id'',
               be_before_state_hash = JStr (entityStateHash (audit_lib L) matter),
               be_after_state_hash = entityStateHash (audit_lib L) next, be_prev_event_hash = prevHash,
               be_timestamp = ci_now ci, be_reason = am_reason opts\<rparr>)) (\<lambda>ev.
     Inr (next, ev))))))"

subsection \<open>Party-identity backfill\<close>

text \<open>\<open>None\<close> when every party already carries an identity. The continuity check reads the last event of
  the whole chain, whatever entity it is about.\<close>

definition prepareEnsureMatterPartyIds ::
  "CaseBoxLib \<Rightarrow> CallInputs \<Rightarrow> jval \<Rightarrow> jval \<Rightarrow> StoredAuditEvent list \<Rightarrow>
   case_exn + (jval \<times> StoredAuditEvent) option" where
  "prepareEnsureMatterPartyIds L ci matter actorUserId stored =
     bindR (check (nonempty_string actorUserId) Invalid_argument ''actorUserId must be a non-empty string'') (\<lambda>_.
     bindR (assignMatterPartyIdsInPlace (ci_id ci) matter) (\<lambda>(next, n, assigned).
     if assigned = 0 then Inr None
     else if stored = []
     then case_error Audit_chain_desync
            (''cannot backfill party ids: matter '' @ js_String (jget matter ''id'') @ '' has no prior audit event'')
     else let priorAfterHash = jget (sa_event (last stored)) ''after_state_hash'' in
     bindR (check (priorAfterHash = JStr (entityStateHash (audit_lib L) matter)) Audit_chain_desync
              (''cannot backfill party ids: stored matter '' @ js_String (jget matter ''id'')
               @ '' payload is out of sync with the audit chain ''
               @ ''(last event after_state_hash != current payload hash)'')) (\<lambda>_.
     bindR (emitEvent (audit_lib L) stored (\<lambda>prevHash.
              \<lparr>be_kind = ''MATTER_PARTY_IDS_ASSIGNED'', be_id = ci_id ci n, be_tenant_id = jget matter ''tenant_id'',
               be_actor_user_id = actorUserId, be_matter_id = jget matter ''id'',
               be_entity_id = jget matter ''id'', be_before_state_hash = priorAfterHash,
               be_after_state_hash = entityStateHash (audit_lib L) next, be_prev_event_hash = prevHash,
               be_timestamp = ci_now ci, be_reason = JUndef\<rparr>)) (\<lambda>ev.
     Inr (Some (next, ev))))))"

subsection \<open>Editing the descriptive fields\<close>

definition EDITABLE_MATTER_DETAIL_FIELDS :: "string list" where
  "EDITABLE_MATTER_DETAIL_FIELDS =
     [''name'', ''retainer_scope'', ''case_type_text'', ''case_progress_text'', ''court_contact_text'',
      ''contention_summary_text'']"

record UpdateMatterDetailsOpts =
  ud_patch :: jval
  ud_actor_user_id :: jval
  ud_reason :: jval

text \<open>The loop over the editable fields: the record so far and the fields changed, in order.\<close>

fun applyPatch ::
  "CaseBoxLib \<Rightarrow> jval \<Rightarrow> (string \<times> jval) list \<Rightarrow> string list \<Rightarrow> jval \<Rightarrow> case_exn + (jval \<times> string list)" where
  "applyPatch L matter patch [] next = Inr (next, [])"
| "applyPatch L matter patch (field # fs) next =
     (case map_of patch field of
        None \<Rightarrow> applyPatch L matter patch fs next
      | Some raw \<Rightarrow>
          if raw = JUndef then applyPatch L matter patch fs next
          else bindR (case raw of JNull \<Rightarrow> Inr [] | JStr s \<Rightarrow> Inr (cl_trim L s)
                 | _ \<Rightarrow> case_error Invalid_payload (''patch field '' @ quote field @ '' must be a string, null, or undefined''))
               (\<lambda>desired.
               bindR (check (field = ''name'' \<longrightarrow> desired \<noteq> []) Invalid_payload ''name is required and cannot be cleared'') (\<lambda>_.
               if JStr desired = (if field = ''name'' then jget matter ''name'' else or_default (jget matter field) (JStr []))
               then applyPatch L matter patch fs next
               else bindR (applyPatch L matter patch fs (jset next field (JStr desired))) (\<lambda>(next', changed).
                    Inr (next', field # changed)))))"

definition foreignKey :: "(string \<times> jval) list \<Rightarrow> string option" where
  "foreignKey patch = List.find (\<lambda>k. k \<notin> set EDITABLE_MATTER_DETAIL_FIELDS) (map fst patch)"

definition withChangedFields :: "AuditLib \<Rightarrow> string list \<Rightarrow> StoredAuditEvent \<Rightarrow> case_exn + StoredAuditEvent" where
  "withChangedFields L changedFields ev =
     (let e = jset (sa_event ev) ''changed_fields'' (JArr (map JStr changedFields)) in
      case al_validateAuditEvent L e of
        None \<Rightarrow> Inr (ev\<lparr>sa_event := e\<rparr>)
      | Some summary \<Rightarrow> case_error Invalid_payload
          (''MATTER_DETAILS_UPDATED event with changed_fields rejected: '' @ summary))"

definition prepareMatterDetailsUpdate ::
  "CaseBoxLib \<Rightarrow> CallInputs \<Rightarrow> jval \<Rightarrow> UpdateMatterDetailsOpts \<Rightarrow> StoredAuditEvent list \<Rightarrow> StoredAuditEvent option \<Rightarrow>
   case_exn + (jval \<times> StoredAuditEvent)" where
  "prepareMatterDetailsUpdate L ci matter opts stored latestPriorMatterEvent =
     bindR (check (nonempty_string (ud_actor_user_id opts)) Invalid_argument ''actor_user_id must be a non-empty string'') (\<lambda>_.
     bindR (check (trimmed_nonempty L (ud_reason opts)) Invalid_payload
              ''reason must be a non-empty string for a matter-details edit'') (\<lambda>_.
     bindR (check (jget matter ''status'' = JStr ''active'') Matter_archived
              (''cannot edit matter '' @ js_String (jget matter ''id'') @ '': status is ''
               @ stringify (jget matter ''status'') @ '' (unarchive before editing)'')) (\<lambda>_.
     case ud_patch opts of
       JObj patch \<Rightarrow>
         (case foreignKey patch of
            Some key \<Rightarrow> case_error Invalid_payload
              (''patch contains a non-editable or unknown field: '' @ quote key)
          | None \<Rightarrow>
         bindR (applyPatch L matter patch EDITABLE_MATTER_DETAIL_FIELDS matter) (\<lambda>(next, changed).
         bindR (check (changed \<noteq> []) No_editable_change ''matter-details edit changed no editable field'') (\<lambda>_.
         bindR (schema_check (cl_validateMatter L next) ''post-edit matter invalid: '') (\<lambda>_.
         (case latestPriorMatterEvent of
            None \<Rightarrow> case_error Audit_chain_desync
              (''cannot edit matter '' @ js_String (jget matter ''id'')
               @ '': no prior matter audit event (a matter always has MATTER_REGISTERED)'')
          | Some prior \<Rightarrow>
         let priorAfterHash = jget (sa_event prior) ''after_state_hash'' in
         bindR (check (nonempty_string priorAfterHash) Audit_chain_desync
                  (''cannot edit matter '' @ js_String (jget matter ''id'')
                   @ '': latest prior matter event has a null/malformed after_state_hash'')) (\<lambda>_.
         bindR (check (priorAfterHash = JStr (entityStateHash (audit_lib L) matter)) Audit_chain_desync
                  (''cannot edit matter '' @ js_String (jget matter ''id'')
                   @ '': stored payload is out of sync with the latest prior matter event ''
                   @ ''(after_state_hash != current payload hash)'')) (\<lambda>_.
         bindR (emitEvent (audit_lib L) stored (\<lambda>prevHash.
                  \<lparr>be_kind = ''MATTER_DETAILS_UPDATED'', be_id = ci_id ci 0, be_tenant_id = jget matter ''tenant_id'',
                   be_actor_user_id = ud_actor_user_id opts, be_matter_id = jget matter ''id'',
                   be_entity_id = jget matter ''id'', be_before_state_hash = priorAfterHash,
                   be_after_state_hash = entityStateHash (audit_lib L) next, be_prev_event_hash = prevHash,
                   be_timestamp = ci_now ci, be_reason = ud_reason opts\<rparr>)) (\<lambda>built.
         bindR (withChangedFields (audit_lib L) (sort changed) built) (\<lambda>ev.
         Inr (next, ev))))))))))
     | _ \<Rightarrow> case_error Invalid_payload ''patch must be a plain object of editable matter fields'')))"

end
