(* ===== verification/CaseBoxTable.thy ===== *)
theory CaseBoxTable
  imports CaseBoxMatter
begin

text \<open>
  The storage shape the entity modules of \<open>services/case-box-persistence/src\<close> share: rows per matter in
  insertion order and the set of ids (\<open>ClassificationState\<close>), with an index from id to matter
  (\<open>PrivilegeState\<close>), with an index from id to row (\<open>EvidenceState\<close>, \<open>FactState\<close>, \<open>DocketState\<close>, \<open>DeadlineState\<close>,
  \<open>ClaimTrackState\<close>); and the steps their preparations share: finding a stored row with its matter, checking
  a patched row against its schema, the two forms of event they emit.
\<close>

subsection \<open>Tables\<close>

record RowTable =
  rt_byMatter :: "(jval, jval list) jmap"
  rt_ids :: "jval list"

record IndexedTable = RowTable +
  rt_index :: "(jval, jval) jmap"

record EntityTable = IndexedTable +
  rt_byId :: "(jval, jval) jmap"

definition emptyRowTable :: RowTable where
  "emptyRowTable = \<lparr>rt_byMatter = [], rt_ids = []\<rparr>"

definition emptyIndexedTable :: IndexedTable where
  "emptyIndexedTable = \<lparr>rt_byMatter = [], rt_ids = [], rt_index = []\<rparr>"

definition emptyEntityTable :: EntityTable where
  "emptyEntityTable = \<lparr>rt_byMatter = [], rt_ids = [], rt_index = [], rt_byId = []\<rparr>"

definition rows_of :: "'a RowTable_scheme \<Rightarrow> jval \<Rightarrow> jval list" where
  "rows_of t m = (case mget (rt_byMatter t) m of Some rows \<Rightarrow> rows | None \<Rightarrow> [])"

text \<open>Pushing a row: the matter's array and the id set; then the index; then the row map.\<close>

definition pushRow :: "jval \<Rightarrow> jval \<Rightarrow> 'a RowTable_scheme \<Rightarrow> 'a RowTable_scheme" where
  "pushRow m row t =
     t\<lparr>rt_byMatter := mset_kv m (rows_of t m @ [row]) (rt_byMatter t),
       rt_ids := List.insert (jget row ''id'') (rt_ids t)\<rparr>"

definition pushIndexed :: "jval \<Rightarrow> jval \<Rightarrow> 'a IndexedTable_scheme \<Rightarrow> 'a IndexedTable_scheme" where
  "pushIndexed m row t = (pushRow m row t)\<lparr>rt_index := mset_kv (jget row ''id'') m (rt_index t)\<rparr>"

definition pushEntity :: "jval \<Rightarrow> jval \<Rightarrow> 'a EntityTable_scheme \<Rightarrow> 'a EntityTable_scheme" where
  "pushEntity m row t = (pushIndexed m row t)\<lparr>rt_byId := mset_kv (jget row ''id'') row (rt_byId t)\<rparr>"

text \<open>\<open>arr[arr.findIndex(r => r.id === id)] = next\<close>.\<close>

fun replaceRow :: "jval \<Rightarrow> jval \<Rightarrow> jval list \<Rightarrow> jval list" where
  "replaceRow k nx [] = []"
| "replaceRow k nx (r # rs) = (if jget r ''id'' = k then nx # rs else r # replaceRow k nx rs)"

definition putRow :: "jval \<Rightarrow> jval \<Rightarrow> jval \<Rightarrow> 'a RowTable_scheme \<Rightarrow> 'a RowTable_scheme" where
  "putRow m k nx t = t\<lparr>rt_byMatter := mset_kv m (replaceRow k nx (rows_of t m)) (rt_byMatter t)\<rparr>"

definition putEntity :: "jval \<Rightarrow> jval \<Rightarrow> jval \<Rightarrow> 'a EntityTable_scheme \<Rightarrow> 'a EntityTable_scheme" where
  "putEntity m k nx t = (putRow m k nx t)\<lparr>rt_byId := mset_kv k nx (rt_byId t)\<rparr>"

subsection \<open>Well-formed tables\<close>

definition row_table_ok :: "'a RowTable_scheme \<Rightarrow> bool" where
  "row_table_ok t \<longleftrightarrow>
     (\<forall>m row. row \<in> set (rows_of t m) \<longrightarrow> jget row ''matter_id'' = m \<and> jget row ''id'' \<in> set (rt_ids t)) \<and>
     (\<forall>m. distinct (map (\<lambda>r. jget r ''id'') (rows_of t m))) \<and>
     (\<forall>m m' row row'. row \<in> set (rows_of t m) \<longrightarrow> row' \<in> set (rows_of t m') \<longrightarrow>
        jget row ''id'' = jget row' ''id'' \<longrightarrow> m = m')"

definition indexed_table_ok :: "'a IndexedTable_scheme \<Rightarrow> bool" where
  "indexed_table_ok t \<longleftrightarrow> row_table_ok t \<and>
     (\<forall>k m. mget (rt_index t) k = Some m \<longleftrightarrow> (\<exists>row\<in>set (rows_of t m). jget row ''id'' = k))"

definition entity_table_ok :: "'a EntityTable_scheme \<Rightarrow> bool" where
  "entity_table_ok t \<longleftrightarrow> indexed_table_ok t \<and>
     (\<forall>k row. mget (rt_byId t) k = Some row \<longleftrightarrow> jget row ''id'' = k \<and> row \<in> set (rows_of t (jget row ''matter_id'')))"

lemma empty_tables_ok [simp]:
  "row_table_ok emptyRowTable" "indexed_table_ok emptyIndexedTable" "entity_table_ok emptyEntityTable"
  "rows_of emptyRowTable m = []" "rows_of emptyIndexedTable m = []" "rows_of emptyEntityTable m = []"
  by (simp_all add: row_table_ok_def indexed_table_ok_def entity_table_ok_def rows_of_def emptyRowTable_def
      emptyIndexedTable_def emptyEntityTable_def)

lemma rows_of_push [simp]:
  "rows_of (pushRow m row t) k = (if k = m then rows_of t m @ [row] else rows_of t k)"
  "rows_of (pushIndexed m row t') k = (if k = m then rows_of t' m @ [row] else rows_of t' k)"
  "rows_of (pushEntity m row t'') k = (if k = m then rows_of t'' m @ [row] else rows_of t'' k)"
  by (simp_all add: rows_of_def pushRow_def pushIndexed_def pushEntity_def)

lemma rows_of_put [simp]:
  "rows_of (putRow m k nx t) m' = (if m' = m then replaceRow k nx (rows_of t m) else rows_of t m')"
  "rows_of (putEntity m k nx t') m' = (if m' = m then replaceRow k nx (rows_of t' m) else rows_of t' m')"
  by (simp_all add: rows_of_def putRow_def putEntity_def)

lemma table_fields [simp]:
  "rt_ids (pushRow m row t) = List.insert (jget row ''id'') (rt_ids t)"
  "rt_ids (pushIndexed m row t') = List.insert (jget row ''id'') (rt_ids t')"
  "rt_ids (pushEntity m row t'') = List.insert (jget row ''id'') (rt_ids t'')"
  "rt_index (pushIndexed m row t') = mset_kv (jget row ''id'') m (rt_index t')"
  "rt_index (pushEntity m row t'') = mset_kv (jget row ''id'') m (rt_index t'')"
  "rt_byId (pushEntity m row t'') = mset_kv (jget row ''id'') row (rt_byId t'')"
  "rt_ids (putRow m k nx t) = rt_ids t" "rt_index (putRow m k nx t') = rt_index t'"
  "rt_ids (putEntity m k nx t'') = rt_ids t''" "rt_index (putEntity m k nx t'') = rt_index t''"
  "rt_byId (putEntity m k nx t'') = mset_kv k nx (rt_byId t'')"
  by (simp_all add: pushRow_def pushIndexed_def pushEntity_def putRow_def putEntity_def)

subsection \<open>Pushing and replacing keep tables well formed\<close>

lemma row_table_okD:
  assumes "row_table_ok t" and "row \<in> set (rows_of t m)"
  shows "jget row ''matter_id'' = m" "jget row ''id'' \<in> set (rt_ids t)"
    "\<And>m' row'. row' \<in> set (rows_of t m') \<Longrightarrow> jget row' ''id'' = jget row ''id'' \<Longrightarrow> m' = m \<and> row' = row"
proof -
  from assms show "jget row ''matter_id'' = m" "jget row ''id'' \<in> set (rt_ids t)"
    unfolding row_table_ok_def by blast+
  fix m' row'
  assume r: "row' \<in> set (rows_of t m')" "jget row' ''id'' = jget row ''id''"
  with assms have "m' = m" unfolding row_table_ok_def by metis
  moreover have "distinct (map (\<lambda>r. jget r ''id'') (rows_of t m))" using assms(1) by (simp add: row_table_ok_def)
  ultimately show "m' = m \<and> row' = row"
    using r assms(2) by (auto simp: distinct_map inj_on_def)
qed

lemma pushRow_ok:
  assumes "row_table_ok t" and "jget row ''id'' \<notin> set (rt_ids t)" and "jget row ''matter_id'' = m"
  shows "row_table_ok (pushRow m row t)"
proof -
  have "jget r ''id'' \<noteq> jget row ''id''" if "r \<in> set (rows_of t m')" for r m'
    using row_table_okD(2) [OF assms(1) that] assms(2) by metis
  with assms show ?thesis unfolding row_table_ok_def by (auto split: if_splits)
qed

lemma ids_of_replaceRow:
  "jget nx ''id'' = k \<Longrightarrow> map (\<lambda>r. jget r ''id'') (replaceRow k nx rs) = map (\<lambda>r. jget r ''id'') rs"
  by (induction rs) auto

lemma set_replaceRow:
  assumes "distinct (map (\<lambda>r. jget r ''id'') rs)" and "prior \<in> set rs" and "jget prior ''id'' = k"
  shows "set (replaceRow k nx rs) = insert nx (set rs - {prior})"
  using assms by (induction rs) (auto simp: image_iff)

lemma replaceRow_subset: "set (replaceRow k nx rs) \<subseteq> insert nx (set rs)"
  by (induction rs) auto

lemma putRow_ok:
  assumes "row_table_ok t" and "prior \<in> set (rows_of t m)" and "jget prior ''id'' = k"
    and "jget nx ''id'' = k" and "jget nx ''matter_id'' = m"
  shows "row_table_ok (putRow m k nx t)"
proof -
  have d: "distinct (map (\<lambda>r. jget r ''id'') (rows_of t m'))" for m' using assms(1) by (simp add: row_table_ok_def)
  have s: "set (replaceRow k nx (rows_of t m)) = insert nx (set (rows_of t m) - {prior})"
    by (rule set_replaceRow [OF d assms(2,3)])
  have in_t: "\<exists>r'\<in>set (rows_of t m'). jget r' ''id'' = jget r ''id''"
    if "r \<in> set (rows_of (putRow m k nx t) m')" for r m'
    using that assms(2-4) s by (auto split: if_splits)
  show ?thesis
    unfolding row_table_ok_def
  proof (intro conjI allI impI)
    fix m' r assume r: "r \<in> set (rows_of (putRow m k nx t) m')"
    then show "jget r ''matter_id'' = m'"
      using row_table_okD(1) [OF assms(1)] assms(5) s by (auto split: if_splits)
    from in_t [OF r] show "jget r ''id'' \<in> set (rt_ids (putRow m k nx t))"
      using row_table_okD(2) [OF assms(1)] by fastforce
  next
    fix m' show "distinct (map (\<lambda>r. jget r ''id'') (rows_of (putRow m k nx t) m'))"
      using d assms(4) by (simp add: ids_of_replaceRow)
  next
    fix m' m'' r r' assume r: "r \<in> set (rows_of (putRow m k nx t) m')" "r' \<in> set (rows_of (putRow m k nx t) m'')"
      "jget r ''id'' = jget r' ''id''"
    from in_t [OF r(1)] in_t [OF r(2)] r(3) show "m' = m''"
      using row_table_okD(3) [OF assms(1)] by metis
  qed
qed

lemma pushIndexed_ok:
  assumes "indexed_table_ok t" and "jget row ''id'' \<notin> set (rt_ids t)" and "jget row ''matter_id'' = m"
  shows "indexed_table_ok (pushIndexed m row t)"
proof -
  have ok: "row_table_ok t" and ix: "\<And>k m. mget (rt_index t) k = Some m \<longleftrightarrow> (\<exists>row\<in>set (rows_of t m). jget row ''id'' = k)"
    using assms(1) by (auto simp: indexed_table_ok_def)
  have "row_table_ok (pushRow m row t)" by (rule pushRow_ok [OF ok assms(2,3)])
  then have "row_table_ok (pushIndexed m row t)" unfolding row_table_ok_def rows_of_push table_fields .
  moreover have fresh: "jget r ''id'' \<noteq> jget row ''id''" if "r \<in> set (rows_of t m')" for r m'
    using row_table_okD(2) [OF ok that] assms(2) by metis
  moreover have "mget (rt_index (pushIndexed m row t)) k = Some m' \<longleftrightarrow>
      (\<exists>r\<in>set (rows_of (pushIndexed m row t) m'). jget r ''id'' = k)" for k m'
  proof (cases "k = jget row ''id''")
    case True
    with fresh show ?thesis by auto
  next
    case False
    then show ?thesis by (simp add: ix)
  qed
  ultimately show ?thesis by (simp add: indexed_table_ok_def)
qed

lemma putRow_indexed_ok:
  assumes "indexed_table_ok t" and "prior \<in> set (rows_of t m)" and "jget prior ''id'' = k"
    and "jget nx ''id'' = k" and "jget nx ''matter_id'' = m"
  shows "indexed_table_ok (putRow m k nx t)"
proof -
  have ok: "row_table_ok t" and ix: "\<And>k m. mget (rt_index t) k = Some m \<longleftrightarrow> (\<exists>row\<in>set (rows_of t m). jget row ''id'' = k)"
    using assms(1) by (auto simp: indexed_table_ok_def)
  have "distinct (map (\<lambda>r. jget r ''id'') (rows_of t m))" using ok by (simp add: row_table_ok_def)
  note set_replaceRow [OF this assms(2,3), of nx]
  then have "(\<exists>r\<in>set (rows_of (putRow m k nx t) m'). jget r ''id'' = k') \<longleftrightarrow> (\<exists>r\<in>set (rows_of t m'). jget r ''id'' = k')" for m' k'
    using assms(2-4) by (cases "m' = m") auto
  then have "\<forall>k' m'. mget (rt_index (putRow m k nx t)) k' = Some m' \<longleftrightarrow>
      (\<exists>r\<in>set (rows_of (putRow m k nx t) m'). jget r ''id'' = k')"
    by (simp only: table_fields ix simp_thms)
  with putRow_ok [OF ok assms(2-5)] show ?thesis by (simp only: indexed_table_ok_def simp_thms)
qed

lemma pushEntity_ok:
  assumes "entity_table_ok t" and "jget row ''id'' \<notin> set (rt_ids t)" and "jget row ''matter_id'' = m"
  shows "entity_table_ok (pushEntity m row t)"
proof -
  have ok: "indexed_table_ok t"
    and by_id: "\<And>k row. mget (rt_byId t) k = Some row \<longleftrightarrow> jget row ''id'' = k \<and> row \<in> set (rows_of t (jget row ''matter_id''))"
    using assms(1) by (auto simp: entity_table_ok_def)
  have "indexed_table_ok (pushIndexed m row t)" by (rule pushIndexed_ok [OF ok assms(2,3)])
  then have "indexed_table_ok (pushEntity m row t)"
    unfolding indexed_table_ok_def row_table_ok_def rows_of_push table_fields .
  moreover have fresh: "jget r ''id'' \<noteq> jget row ''id''" if "r \<in> set (rows_of t m')" for r m'
    using row_table_okD(2) [OF _ that] ok assms(2) unfolding indexed_table_ok_def by metis
  moreover have "mget (rt_byId (pushEntity m row t)) k = Some r \<longleftrightarrow>
      jget r ''id'' = k \<and> r \<in> set (rows_of (pushEntity m row t) (jget r ''matter_id''))" for k r
  proof (cases "k = jget row ''id''")
    case True
    with fresh assms(3) show ?thesis by auto
  next
    case False
    then have "r \<noteq> row" if "jget r ''id'' = k" using that by auto
    with False show ?thesis by (auto simp: by_id)
  qed
  ultimately show ?thesis by (simp add: entity_table_ok_def)
qed

lemma putEntity_ok:
  assumes "entity_table_ok t" and "prior \<in> set (rows_of t m)" and "jget prior ''id'' = k"
    and "jget nx ''id'' = k" and "jget nx ''matter_id'' = m"
  shows "entity_table_ok (putEntity m k nx t)"
proof -
  have ok: "indexed_table_ok t"
    and by_id: "\<And>k row. mget (rt_byId t) k = Some row \<longleftrightarrow> jget row ''id'' = k \<and> row \<in> set (rows_of t (jget row ''matter_id''))"
    using assms(1) by (auto simp: entity_table_ok_def)
  have row: "row_table_ok t" using ok by (simp add: indexed_table_ok_def)
  have "indexed_table_ok (putRow m k nx t)" by (rule putRow_indexed_ok [OF ok assms(2-5)])
  then have "indexed_table_ok (putEntity m k nx t)"
    unfolding indexed_table_ok_def row_table_ok_def rows_of_put table_fields .
  have "distinct (map (\<lambda>r. jget r ''id'') (rows_of t m))" using row by (simp add: row_table_ok_def)
  note set_nx = set_replaceRow [OF this assms(2,3), of nx]
  have same: "r = prior" if "r \<in> set (rows_of t m')" "jget r ''id'' = k" for r m'
    using row_table_okD(3) [OF row assms(2) that(1)] that(2) assms(3) by simp
  have "mget (rt_byId (putEntity m k nx t)) k' = Some r \<longleftrightarrow>
      jget r ''id'' = k' \<and> r \<in> set (rows_of (putEntity m k nx t) (jget r ''matter_id''))" for k' r
  proof (cases "k' = k")
    case True
    show ?thesis
    proof (cases "jget r ''matter_id'' = m")
      case True
      with \<open>k' = k\<close> set_nx same [of r m] assms(4) show ?thesis by auto
    next
      case False
      with \<open>k' = k\<close> same [of r "jget r ''matter_id''"] row_table_okD(1) [OF row assms(2)] assms(5) show ?thesis by auto
    qed
  next
    case False
    then have "r \<noteq> nx" "r \<noteq> prior" if "jget r ''id'' = k'" using that assms(3,4) by auto
    with False set_nx show ?thesis by (auto simp: by_id)
  qed
  with \<open>indexed_table_ok (putEntity m k nx t)\<close> show ?thesis by (simp add: entity_table_ok_def)
qed

lemma entity_lookup:
  assumes "entity_table_ok t" and "mget (rt_byId t) k = Some row"
  shows "jget row ''id'' = k" "row \<in> set (rows_of t (jget row ''matter_id''))"
    "mget (rt_index t) k = Some m \<Longrightarrow> jget row ''matter_id'' = m"
proof -
  from assms show r: "jget row ''id'' = k" "row \<in> set (rows_of t (jget row ''matter_id''))"
    by (auto simp: entity_table_ok_def)
  from assms(1) have ok: "row_table_ok t" and
    ix: "\<And>k m. mget (rt_index t) k = Some m \<longleftrightarrow> (\<exists>row\<in>set (rows_of t m). jget row ''id'' = k)"
    by (auto simp: entity_table_ok_def indexed_table_ok_def)
  assume "mget (rt_index t) k = Some m"
  then obtain row' where "row' \<in> set (rows_of t m)" "jget row' ''id'' = k" by (auto simp: ix)
  with row_table_okD(3) [OF ok r(2), of row' m] r(1) show "jget row ''matter_id'' = m" by simp
qed

subsection \<open>Steps of the preparations\<close>

text \<open>The matter of a stored row and the row, with the messages of the module.\<close>

definition lookupEntity :: "string \<Rightarrow> string \<Rightarrow> EntityTable \<Rightarrow> jval \<Rightarrow> case_exn + (jval \<times> jval)" where
  "lookupEntity label rowMap t k =
     (case mget (rt_index t) k of
        None \<Rightarrow> case_error Invalid_argument (''unknown '' @ label @ '': '' @ js_String k)
      | Some matterId \<Rightarrow>
          (case mget (rt_byId t) k of
             None \<Rightarrow> case_error Invalid_argument (''unknown '' @ label @ '' ('' @ rowMap @ '' miss): '' @ js_String k)
           | Some prior \<Rightarrow> Inr (matterId, prior)))"

definition recheck :: "string option \<Rightarrow> string \<Rightarrow> case_exn + unit" where
  "recheck verdict prefix =
     (case verdict of None \<Rightarrow> Inr () | Some summary \<Rightarrow> case_error Invalid_argument (prefix @ summary))"

definition createdEvent :: "CaseBoxLib \<Rightarrow> CallInputs \<Rightarrow> string \<Rightarrow> jval \<Rightarrow> jval \<Rightarrow> string option \<Rightarrow> BuildAuditEventInput" where
  "createdEvent L ci kind row reason prevHash =
     \<lparr>be_kind = kind, be_id = ci_id ci 0, be_tenant_id = jget row ''tenant_id'',
      be_actor_user_id = jget row ''actor_user_id'', be_matter_id = jget row ''matter_id'',
      be_entity_id = jget row ''id'', be_before_state_hash = JNull,
      be_after_state_hash = entityStateHash (audit_lib L) row, be_prev_event_hash = prevHash,
      be_timestamp = ci_now ci, be_reason = reason\<rparr>"

definition updatedEvent ::
  "CaseBoxLib \<Rightarrow> CallInputs \<Rightarrow> string \<Rightarrow> jval \<Rightarrow> jval \<Rightarrow> jval \<Rightarrow> jval \<Rightarrow> jval \<Rightarrow> string option \<Rightarrow> BuildAuditEventInput" where
  "updatedEvent L ci kind matterId actor before nx reason prevHash =
     \<lparr>be_kind = kind, be_id = ci_id ci 0, be_tenant_id = jget nx ''tenant_id'',
      be_actor_user_id = actor, be_matter_id = matterId,
      be_entity_id = jget nx ''id'', be_before_state_hash = before,
      be_after_state_hash = entityStateHash (audit_lib L) nx, be_prev_event_hash = prevHash,
      be_timestamp = ci_now ci, be_reason = reason\<rparr>"

text \<open>The fields of a list that hold a value, and their names joined by a comma.\<close>

definition offenders :: "string list \<Rightarrow> jval \<Rightarrow> string list" where
  "offenders ks row = filter (\<lambda>k. event_present (jget row k)) ks"

fun join_names :: "string list \<Rightarrow> string" where
  "join_names [] = []"
| "join_names [x] = x"
| "join_names (x # y # ys) = x @ '', '' @ join_names (y # ys)"

lemma lookupEntity_Inr [result_simps]:
  "lookupEntity label rowMap t k = Inr (m, prior) \<longleftrightarrow> mget (rt_index t) k = Some m \<and> mget (rt_byId t) k = Some prior"
  by (auto simp: lookupEntity_def split: option.splits)

lemma recheck_Inr [result_simps]: "recheck v p = Inr u \<longleftrightarrow> v = None"
  by (simp add: recheck_def split: option.splits)

lemmas event_input_simps = createdEvent_def updatedEvent_def

end
