(* ===== verification/CaseBoxDocument.thy ===== *)
theory CaseBoxDocument
  imports CaseBoxTable
begin

text \<open>
  \<open>services/case-box-persistence/src/inMemoryDocument.ts\<close>, \<open>inMemoryClaimTrack.ts\<close> and the document half of
  \<open>docs/contracts/case-box-contract/src/matter-type-invariants.ts\<close>: registering documents and creating claim
  tracks.
\<close>

subsection \<open>Documents\<close>

text \<open>\<open>documents\<close> maps an id to the record and the matter it was registered under.\<close>

type_synonym document_map = "(jval, jval \<times> jval) jmap"

definition assertValidDocumentSupersession :: "jval \<Rightarrow> (jval \<times> jval) option \<Rightarrow> string + unit" where
  "assertValidDocumentSupersession doc prior =
     (let r = or_default (jget doc ''supersedes_document_id'') JNull in
      if r = JNull then Inr ()
      else if r = jget doc ''id'' then Inl ''supersedes_document_id must not equal the document's own id''
      else case prior of
        None \<Rightarrow> Inl (''supersedes_document_id '' @ js_String r @ '' does not resolve to an existing document'')
      | Some (d, matterId) \<Rightarrow>
          if jget d ''id'' \<noteq> r
          then Inl (''prior document id '' @ js_String (jget d ''id'') @ '' does not match supersedes_document_id '' @ js_String r)
          else if jget d ''tenant_id'' \<noteq> jget doc ''tenant_id''
          then Inl ''prior document tenant_id must equal the new document's tenant_id''
          else if matterId \<noteq> jget doc ''matter_id''
          then Inl ''prior document matter_id must equal the new document's matter_id''
          else Inr ())"

definition prepareRegisterDocument ::
  "CaseBoxLib \<Rightarrow> CallInputs \<Rightarrow> jval \<Rightarrow> jval \<Rightarrow> document_map \<Rightarrow> StoredAuditEvent list \<Rightarrow> jval \<Rightarrow>
   case_exn + (jval \<times> StoredAuditEvent)" where
  "prepareRegisterDocument L ci matterId matter documents stored input =
     bindR (schema_check (cl_validateDocument L input) ''invalid document submission: '') (\<lambda>_.
     bindR (check (jget input ''matter_id'' = matterId) Matter_id_mismatched
              (''document.matter_id ('' @ js_String (jget input ''matter_id'') @ '') does not match matterId argument (''
               @ js_String matterId @ '')'')) (\<lambda>_.
     bindR (check (jget input ''tenant_id'' = jget matter ''tenant_id'') Tenant_mismatch
              (''document.tenant_id ('' @ js_String (jget input ''tenant_id'') @ '') does not match matter.tenant_id (''
               @ js_String (jget matter ''tenant_id'') @ '')'')) (\<lambda>_.
     bindR (check (jget input ''status'' = JStr ''registered'') Invalid_initial_state
              (''document must be created with status=\"registered\" (got '' @ stringify (jget input ''status'') @ '')'')) (\<lambda>_.
     bindR (rethrow Invalid_payload
              (if event_present (jget input ''supersedes_document_id'')
               then assertValidDocumentSupersession input (mget documents (jget input ''supersedes_document_id''))
               else Inr ())) (\<lambda>_.
     bindR (check (mget documents (jget input ''id'') = None) Duplicate_id
              (''document already exists: '' @ js_String (jget input ''id''))) (\<lambda>_.
     bindR (emitEvent (audit_lib L) stored (\<lambda>prevHash.
              \<lparr>be_kind = ''DOCUMENT_REGISTERED'', be_id = ci_id ci 0, be_tenant_id = jget input ''tenant_id'',
               be_actor_user_id = jget input ''actor_user_id'', be_matter_id = matterId,
               be_entity_id = jget input ''id'', be_before_state_hash = JNull,
               be_after_state_hash = entityStateHash (audit_lib L) input, be_prev_event_hash = prevHash,
               be_timestamp = ci_now ci, be_reason = JUndef\<rparr>)) (\<lambda>ev.
     Inr (input, ev))))))))"

subsection \<open>Document targets\<close>

text \<open>\<open>resolveTarget.ts\<close>.\<close>

definition resolveDocumentTarget :: "document_map \<Rightarrow> jval \<Rightarrow> jval \<Rightarrow> jval \<Rightarrow> case_exn + unit" where
  "resolveDocumentTarget documents tenant matterId target =
     (case mget documents target of
        None \<Rightarrow> case_error Unknown_document (''unknown document: '' @ js_String target)
      | Some (document, _) \<Rightarrow>
          bindR (check (jget document ''tenant_id'' = tenant) Tenant_mismatch
                   (''document.tenant_id ('' @ js_String (jget document ''tenant_id'') @ '') does not match query.tenant_id (''
                    @ js_String tenant @ '')'')) (\<lambda>_.
          check (jget document ''matter_id'' = matterId) Matter_id_mismatched
            (''document.matter_id ('' @ js_String (jget document ''matter_id'') @ '') does not match query.matter_id (''
             @ js_String matterId @ '')'')))"

lemma resolveDocumentTarget_Inr [result_simps]:
  "resolveDocumentTarget documents tenant m target = Inr () \<longleftrightarrow>
     (\<exists>doc k. mget documents target = Some (doc, k) \<and> jget doc ''tenant_id'' = tenant \<and> jget doc ''matter_id'' = m)"
  by (auto simp: resolveDocumentTarget_def result_simps split: option.splits)

subsection \<open>Claim tracks\<close>

type_synonym ClaimTrackState = EntityTable

definition createClaimTrackState :: ClaimTrackState where
  "createClaimTrackState = emptyEntityTable"

text \<open>The comparator of the list: \<open>sort_order\<close>, then \<open>created_at\<close> (absent as empty), then \<open>id\<close>.\<close>

fun jless :: "jval \<Rightarrow> jval \<Rightarrow> bool" where
  "jless (JStr a) (JStr b) = (a < b)"
| "jless (JInt a) (JInt b) = (a < b)"
| "jless _ _ = False"

definition compareClaimTracks :: "jval \<Rightarrow> jval \<Rightarrow> int" where
  "compareClaimTracks a b =
     (let ao = jget a ''sort_order''; bo = jget b ''sort_order'';
          ac = or_default (jget a ''created_at'') (JStr []); bc = or_default (jget b ''created_at'') (JStr []) in
      if jless ao bo then - 1 else if jless bo ao then 1
      else if jless ac bc then - 1 else if jless bc ac then 1
      else if jless (jget a ''id'') (jget b ''id'') then - 1
      else if jless (jget b ''id'') (jget a ''id'') then 1 else 0)"

definition matterPartyIds :: "jval \<Rightarrow> string list" where
  "matterPartyIds matter =
     concat (map (\<lambda>party. case jget party ''id'' of JStr s \<Rightarrow> if s = [] then [] else [s] | _ \<Rightarrow> [])
       (jelems (or_default (jget matter ''parties'') (JArr []))))"

definition has_party :: "jval \<Rightarrow> jval \<Rightarrow> bool" where
  "has_party matter p = (case p of JStr s \<Rightarrow> s \<in> set (matterPartyIds matter) | _ \<Rightarrow> False)"

definition prepareCreateClaimTrack ::
  "CaseBoxLib \<Rightarrow> CallInputs \<Rightarrow> ClaimTrackState \<Rightarrow> (jval, jval) jmap \<Rightarrow> StoredAuditEvent list \<Rightarrow> jval \<Rightarrow>
   case_exn + (jval \<times> StoredAuditEvent)" where
  "prepareCreateClaimTrack L ci st matters stored input =
     bindR (check (jget input ''status'' = JUndef \<or> jget input ''status'' = JStr ''active'') Invalid_argument
              (''createClaimTrack accepts only status === \"active\" at create (got '' @ stringify (jget input ''status'')
               @ ''); use the update slice for withdrawn/resolved'')) (\<lambda>_.
     bindR (check (\<not> (jstr (jget input ''created_at'') \<noteq> None \<and> jstr (jget input ''updated_at'') \<noteq> None
                       \<and> jget input ''created_at'' \<noteq> jget input ''updated_at'')) Invalid_argument
              (''createClaimTrack requires updated_at === created_at at create (got created_at=''
               @ stringify (jget input ''created_at'') @ '', updated_at='' @ stringify (jget input ''updated_at'') @ '')'')) (\<lambda>_.
     bindR (schema_check (cl_validateClaimTrack L input) ''invalid claim track: '') (\<lambda>_.
     bindR (check (jget input ''id'' \<notin> set (rt_ids st)) Duplicate_id
              (''claim track already exists: '' @ js_String (jget input ''id''))) (\<lambda>_.
     (case mget matters (jget input ''matter_id'') of
        None \<Rightarrow> Inl (unknown_matter (jget input ''matter_id''))
      | Some matter \<Rightarrow>
     bindR (check (jget matter ''tenant_id'' = jget input ''tenant_id'') Tenant_mismatch
              (''claim-track.tenant_id ('' @ js_String (jget input ''tenant_id'') @ '') does not match matter.tenant_id (''
               @ js_String (jget matter ''tenant_id'') @ '')'')) (\<lambda>_.
     bindR (check (has_party matter (jget input ''claimant_party_id'')) Unknown_party
              (''claimant_party_id references a party not present in matter '' @ js_String (jget input ''matter_id'')
               @ '': '' @ js_String (jget input ''claimant_party_id''))) (\<lambda>_.
     bindR (check (has_party matter (jget input ''respondent_party_id'')) Unknown_party
              (''respondent_party_id references a party not present in matter '' @ js_String (jget input ''matter_id'')
               @ '': '' @ js_String (jget input ''respondent_party_id''))) (\<lambda>_.
     bindR (emitEvent (audit_lib L) stored (createdEvent L ci ''CLAIM_TRACK_CREATED'' input JUndef)) (\<lambda>ev.
     Inr (input, ev))))))))))"

definition listClaimTracks :: "ClaimTrackState \<Rightarrow> jval \<Rightarrow> jval \<Rightarrow> jval list" where
  "listClaimTracks st tenant m =
     sort_by (\<lambda>a b. compareClaimTracks a b \<le> 0) (filter (\<lambda>c. jget c ''tenant_id'' = tenant) (rows_of st m))"

end
