(* ===== verification/CaseBoxEvidence.thy ===== *)
theory CaseBoxEvidence
  imports CaseBoxDocument
begin

text \<open>
  \<open>services/case-box-persistence/src/inMemoryEvidence.ts\<close>: appending a proposed evidence item and moving it
  through its states. An item that is superseded names, in \<open>supersedes_evidence_id\<close>, the one replacing it.
\<close>

text \<open>A statement that trims to nothing is stored as absent; any other is kept as it is.\<close>

definition normalizeAppendEvidenceInput :: "CaseBoxLib \<Rightarrow> jval \<Rightarrow> jval" where
  "normalizeAppendEvidenceInput L input =
     (case jget input ''proof_statement'' of
        JStr s \<Rightarrow> if cl_trim L s = [] then jdel ''proof_statement'' input else input
      | _ \<Rightarrow> input)"

definition prepareAppendEvidenceItem ::
  "CaseBoxLib \<Rightarrow> CallInputs \<Rightarrow> EntityTable \<Rightarrow> document_map \<Rightarrow> StoredAuditEvent list \<Rightarrow> jval \<Rightarrow>
   case_exn + (jval \<times> StoredAuditEvent)" where
  "prepareAppendEvidenceItem L ci st documents stored input =
     bindR (check (jget input ''status'' = JUndef \<or> jget input ''status'' = JStr ''proposed'') Invalid_argument
              (''appendEvidenceItem accepts only status === \"proposed\" (got '' @ stringify (jget input ''status'')
               @ ''); use transitionEvidenceItem for promotion'')) (\<lambda>_.
     bindR (check (\<not> event_present (jget input ''supersedes_evidence_id'')) Invalid_payload
              ''supersedes_evidence_id must be null or absent on a proposed evidence item'') (\<lambda>_.
     let row = normalizeAppendEvidenceInput L input in
     bindR (schema_check (cl_validateEvidenceItem L row) ''invalid evidence item: '') (\<lambda>_.
     bindR (check (jget row ''id'' \<notin> set (rt_ids st)) Duplicate_id
              (''evidence item already exists: '' @ js_String (jget row ''id''))) (\<lambda>_.
     bindR (if event_present (jget row ''source_document_id'')
            then resolveDocumentTarget documents (jget row ''tenant_id'') (jget row ''matter_id'') (jget row ''source_document_id'')
            else Inr ()) (\<lambda>_.
     bindR (emitEvent (audit_lib L) stored (createdEvent L ci ''EVIDENCE_PROPOSED'' row JUndef)) (\<lambda>ev.
     Inr (row, ev)))))))"

record EvidenceTransitionOpts =
  et_to :: string
  et_actor_user_id :: jval
  et_replacement_evidence_id :: jval

text \<open>The replacement named when an item is superseded.\<close>

definition checkReplacement :: "EntityTable \<Rightarrow> jval \<Rightarrow> jval \<Rightarrow> jval \<Rightarrow> case_exn + unit" where
  "checkReplacement st evidenceId prior replacementId =
     bindR (check (nonempty_string replacementId) Invalid_argument
              ''accepted -> superseded requires a non-empty replacement_evidence_id'') (\<lambda>_.
     bindR (check (replacementId \<noteq> evidenceId) Invalid_argument
              (''evidence '' @ js_String evidenceId @ '' cannot supersede itself (self-cycle)'')) (\<lambda>_.
     (case mget (rt_byId st) replacementId of
        None \<Rightarrow> case_error Invalid_argument
          (''replacement_evidence_id references unknown evidence: '' @ js_String replacementId)
      | Some replacement \<Rightarrow>
          bindR (check (jget replacement ''matter_id'' = jget prior ''matter_id'') Matter_id_mismatched
                   (''replacement_evidence_id references evidence in a different matter: '' @ js_String replacementId)) (\<lambda>_.
          check (jget replacement ''tenant_id'' = jget prior ''tenant_id'') Tenant_mismatch
            (''replacement_evidence_id references evidence in a different tenant: '' @ js_String replacementId)))))"

definition nextEvidence :: "jval \<Rightarrow> EvidenceTransitionOpts \<Rightarrow> jval" where
  "nextEvidence prior opts =
     (let next = jset prior ''status'' (JStr (et_to opts)) in
      if et_to opts = ''superseded'' then jset next ''supersedes_evidence_id'' (et_replacement_evidence_id opts) else next)"

definition prepareTransitionEvidenceItem ::
  "CaseBoxLib \<Rightarrow> CallInputs \<Rightarrow> EntityTable \<Rightarrow> jval \<Rightarrow> EvidenceTransitionOpts \<Rightarrow> (jval \<Rightarrow> StoredAuditEvent list) \<Rightarrow>
   case_exn + (jval \<times> StoredAuditEvent \<times> jval)" where
  "prepareTransitionEvidenceItem L ci st evidenceId opts storedOf =
     bindR (check (nonempty_string evidenceId) Invalid_argument ''evidenceId must be a non-empty string'') (\<lambda>_.
     bindR (check (nonempty_string (et_actor_user_id opts)) Invalid_argument
              ''actor_user_id must be a non-empty string'') (\<lambda>_.
     bindR (lookupEntity ''evidence item'' ''evidenceById'' st evidenceId) (\<lambda>(matterId, prior).
     bindR (if et_to opts = ''superseded'' then checkReplacement st evidenceId prior (et_replacement_evidence_id opts)
            else Inr ()) (\<lambda>_.
     bindR (rethrow Illegal_transition
              (assertValidEvidenceTransition (js_String (jget prior ''status'')) (et_to opts) Lawyer)) (\<lambda>_.
     let next = nextEvidence prior opts in
     bindR (recheck (cl_validateEvidenceItem L next) ''transition would produce schema-invalid evidence item: '') (\<lambda>_.
     bindR (emitEvent (audit_lib L) (storedOf matterId)
              (updatedEvent L ci
                 (if et_to opts = ''accepted'' then ''EVIDENCE_ACCEPTED''
                  else if et_to opts = ''rejected'' then ''EVIDENCE_REJECTED'' else ''EVIDENCE_SUPERSEDED'')
                 matterId (et_actor_user_id opts) (JStr (entityStateHash (audit_lib L) prior)) next JUndef)) (\<lambda>ev.
     Inr (next, ev, matterId))))))))"

end
