(* ===== verification/CaseBoxFact.thy ===== *)
theory CaseBoxFact
  imports CaseBoxDocument
begin

text \<open>
  \<open>services/case-box-persistence/src/inMemoryFact.ts\<close> and
  \<open>docs/contracts/case-box-contract/src/fact-invariants.ts\<close>: appending a candidate fact, its promotion by a
  reviewer, and the walk that keeps the supersession graph free of cycles.
\<close>

subsection \<open>The contract's rules\<close>

definition assertFactPromotionInvariants :: "jval \<Rightarrow> string + unit" where
  "assertFactPromotionInvariants row =
     (let supersedes = or_default (jget row ''supersedes_fact_id'') JNull in
      if supersedes \<noteq> JNull \<and> supersedes = jget row ''id''
      then Inl (''fact '' @ stringify (jget row ''id'') @ '' supersedes itself (self-cycle)'')
      else if supersedes \<noteq> JNull \<and> jget row ''status'' \<noteq> JStr ''accepted''
      then Inl (''supersedes_fact_id may be set only when status === \"accepted\" (got status=''
             @ stringify (jget row ''status'') @ '')'')
      else Inr ())"

definition promotion_fields :: "string list" where
  "promotion_fields = [''reviewer_actor_user_id'', ''reviewed_at'', ''accepted_at'', ''rejected_at'',
     ''rejection_reason'', ''supersedes_fact_id'']"

definition assertValidNewFact :: "jval \<Rightarrow> string + unit" where
  "assertValidNewFact row =
     (if jget row ''status'' \<noteq> JStr ''candidate''
      then Inl (''new fact must be created in status=\"candidate\" (got '' @ stringify (jget row ''status'') @ '')'')
      else if offenders promotion_fields row \<noteq> []
      then Inl (''new fact must have null promotion fields; non-null: '' @ join_names (offenders promotion_fields row))
      else Inr ())"

definition isFactCandidateOnly :: "jval \<Rightarrow> bool" where
  "isFactCandidateOnly row \<longleftrightarrow> jget row ''status'' = JStr ''candidate''"

definition factWasMachineExtracted :: "jval \<Rightarrow> bool" where
  "factWasMachineExtracted row \<longleftrightarrow>
     jget row ''source_type'' \<in> {JStr ''llm_extraction'', JStr ''ocr_excerpt'', JStr ''imported''}"

definition isMachineExtractedCandidate :: "jval \<Rightarrow> bool" where
  "isMachineExtractedCandidate row \<longleftrightarrow> isFactCandidateOnly row \<and> factWasMachineExtracted row"

subsection \<open>Appending\<close>

definition prepareAppendFact ::
  "CaseBoxLib \<Rightarrow> CallInputs \<Rightarrow> EntityTable \<Rightarrow> document_map \<Rightarrow> StoredAuditEvent list \<Rightarrow> jval \<Rightarrow>
   case_exn + (jval \<times> StoredAuditEvent)" where
  "prepareAppendFact L ci st documents stored input =
     bindR (check (jget input ''status'' = JUndef \<or> jget input ''status'' = JStr ''candidate'') Invalid_argument
              (''appendFact accepts only status === \"candidate\" (got '' @ stringify (jget input ''status'')
               @ ''); use transitionFact for promotion'')) (\<lambda>_.
     bindR (schema_check (cl_validateFact L input) ''invalid fact: '') (\<lambda>_.
     bindR (check (jget input ''id'' \<notin> set (rt_ids st)) Duplicate_id
              (''fact already exists: '' @ js_String (jget input ''id''))) (\<lambda>_.
     bindR (rethrow Invalid_payload (assertValidNewFact input)) (\<lambda>_.
     bindR (rethrow Invalid_payload (assertFactPromotionInvariants input)) (\<lambda>_.
     bindR (if jget input ''source_document_id'' \<noteq> JNull
            then resolveDocumentTarget documents (jget input ''tenant_id'') (jget input ''matter_id'')
                   (jget input ''source_document_id'')
            else Inr ()) (\<lambda>_.
     bindR (emitEvent (audit_lib L) stored (createdEvent L ci ''FACT_PROPOSED'' input JUndef)) (\<lambda>ev.
     Inr (input, ev))))))))"

subsection \<open>Promotion\<close>

record FactTransitionOpts =
  ft_to :: string
  ft_reviewer_actor_user_id :: jval
  ft_at :: jval
  ft_rejection_reason :: jval
  ft_supersedes_fact_id :: jval

text \<open>The walk along the \<open>supersedes_fact_id\<close> pointers; \<open>visited\<close> is the set of ids seen, latest first.\<close>

function walkSupersession ::
  "EntityTable \<Rightarrow> jval \<Rightarrow> jval \<Rightarrow> jval list \<Rightarrow> jval \<Rightarrow> case_exn + unit" where
  "walkSupersession st factId start visited cursor =
     (if cursor = JNull then Inr ()
      else if cursor = factId
      then case_error Invalid_argument (''transition would create supersession cycle: '' @ js_String factId @ '' <- ''
             @ js_String start @ '' <- ... <- '' @ js_String factId)
      else if cursor \<in> set visited
      then case_error Invalid_argument (''pre-existing supersession cycle detected starting at '' @ js_String start)
      else case mget (rt_byId st) cursor of
             None \<Rightarrow> Inr ()
           | Some node \<Rightarrow>
               if length (cursor # visited) > length (rt_ids st) + 1
               then case_error Invalid_argument (''supersession walk exceeded fact count; corrupt chain at '' @ js_String start)
               else walkSupersession st factId start (cursor # visited) (or_default (jget node ''supersedes_fact_id'') JNull))"
  by pat_completeness auto

termination
  by (relation "measure (\<lambda>(st, factId, start, visited, cursor). length (rt_ids st) + 2 - length visited)") auto

declare walkSupersession.simps [simp del]

definition checkSupersedes :: "EntityTable \<Rightarrow> jval \<Rightarrow> jval \<Rightarrow> jval \<Rightarrow> case_exn + unit" where
  "checkSupersedes st factId prior target =
     bindR (check (nonempty_string target) Invalid_argument ''supersedes_fact_id must be a non-empty string'') (\<lambda>_.
     bindR (check (target \<noteq> factId) Invalid_argument
              (''fact '' @ js_String factId @ '' cannot supersede itself (self-cycle)'')) (\<lambda>_.
     (case mget (rt_byId st) target of
        None \<Rightarrow> case_error Invalid_argument (''supersedes_fact_id references unknown fact: '' @ js_String target)
      | Some row \<Rightarrow>
          bindR (check (jget row ''matter_id'' = jget prior ''matter_id'') Invalid_argument
                   (''supersedes_fact_id references a fact in a different matter: '' @ js_String target)) (\<lambda>_.
          bindR (check (jget row ''status'' = JStr ''accepted'') Invalid_argument
                   (''supersedes_fact_id must reference an accepted fact (got '' @ stringify (jget row ''status'') @ '')'')) (\<lambda>_.
          walkSupersession st factId target [] target)))))"

definition nextFact :: "jval \<Rightarrow> FactTransitionOpts \<Rightarrow> jval" where
  "nextFact prior opts =
     (let next = jset prior ''status'' (JStr (ft_to opts)) in
      if ft_to opts = ''reviewed''
      then jset (jset next ''reviewer_actor_user_id'' (ft_reviewer_actor_user_id opts)) ''reviewed_at'' (ft_at opts)
      else if ft_to opts = ''rejected''
      then let n1 = (if \<not> event_present (jget next ''reviewer_actor_user_id'')
                     then jset next ''reviewer_actor_user_id'' (ft_reviewer_actor_user_id opts) else next);
               n2 = (if \<not> event_present (jget n1 ''reviewed_at'') then jset n1 ''reviewed_at'' (ft_at opts) else n1)
           in jset (jset n2 ''rejected_at'' (ft_at opts)) ''rejection_reason'' (ft_rejection_reason opts)
      else if ft_to opts = ''accepted''
      then let n1 = jset next ''accepted_at'' (ft_at opts)
           in if ft_supersedes_fact_id opts \<noteq> JUndef then jset n1 ''supersedes_fact_id'' (ft_supersedes_fact_id opts) else n1
      else next)"

definition isReplacement :: "FactTransitionOpts \<Rightarrow> bool" where
  "isReplacement opts \<longleftrightarrow> ft_to opts = ''accepted'' \<and> ft_supersedes_fact_id opts \<noteq> JUndef"

definition prepareTransitionFact ::
  "CaseBoxLib \<Rightarrow> CallInputs \<Rightarrow> EntityTable \<Rightarrow> jval \<Rightarrow> FactTransitionOpts \<Rightarrow> (jval \<Rightarrow> StoredAuditEvent list) \<Rightarrow>
   case_exn + (jval \<times> StoredAuditEvent \<times> jval)" where
  "prepareTransitionFact L ci st factId opts storedOf =
     bindR (check (nonempty_string factId) Invalid_argument ''factId must be a non-empty string'') (\<lambda>_.
     bindR (check (nonempty_string (ft_reviewer_actor_user_id opts)) Invalid_argument
              ''reviewer_actor_user_id must be a non-empty string'') (\<lambda>_.
     bindR (check (nonempty_string (ft_at opts)) Invalid_argument ''at must be a non-empty ISO-8601 timestamp string'') (\<lambda>_.
     bindR (lookupEntity ''fact'' ''factById'' st factId) (\<lambda>(matterId, prior).
     bindR (check (ft_to opts = ''rejected'' \<longrightarrow> trimmed_nonempty L (ft_rejection_reason opts)) Invalid_argument
              ''transition to rejected requires a non-empty rejection_reason'') (\<lambda>_.
     bindR (if isReplacement opts then checkSupersedes st factId prior (ft_supersedes_fact_id opts) else Inr ()) (\<lambda>_.
     bindR (rethrow Illegal_transition
              (assertValidFactTransition (js_String (jget prior ''status'')) (ft_to opts) Lawyer)) (\<lambda>_.
     let next = nextFact prior opts in
     bindR (recheck (cl_validateFact L next) ''transition would produce schema-invalid fact: '') (\<lambda>_.
     bindR (rethrow Invalid_payload (assertFactPromotionInvariants next)) (\<lambda>_.
     bindR (emitEvent (audit_lib L) (storedOf matterId)
              (updatedEvent L ci
                 (if ft_to opts = ''reviewed'' then ''FACT_REVIEWED''
                  else if ft_to opts = ''rejected'' then ''FACT_REJECTED''
                  else if isReplacement opts then ''FACT_REPLACEMENT_ACCEPTED'' else ''FACT_ACCEPTED'')
                 matterId (ft_reviewer_actor_user_id opts)
                 (if isReplacement opts then JNull else JStr (entityStateHash (audit_lib L) prior)) next
                 (if ft_to opts = ''rejected'' then ft_rejection_reason opts else JUndef))) (\<lambda>ev.
     Inr (next, ev, matterId)))))))))))"

subsection \<open>The canonical projection\<close>

text \<open>Key-sorted JSON down to depth 64, \<open>None\<close> where the code throws; the first argument counts the levels left.
  The code also throws on an object it has met before: its \<open>WeakSet\<close> is never popped, so not only a cycle but
  a sub-object shared by two fields is refused. A value here is a tree, in which no object is met twice; what
  holds of a fact beyond depth 64, whose projection is \<open>None\<close>, holds of such a fact. \<open>JSON.stringify(undefined)\<close> is \<open>undefined\<close>,
  which an array prints as nothing and a template literal by its name.\<close>

fun canonicalJsonForFact :: "nat \<Rightarrow> jval \<Rightarrow> string option" where
  "canonicalJsonForFact 0 v = None"
| "canonicalJsonForFact (Suc d) (JArr xs) =
     map_option (\<lambda>ss. ''['' @ join ss @ '']'')
       (those (map (\<lambda>x. if x = JUndef \<and> 0 < d then Some [] else canonicalJsonForFact d x) xs))"
| "canonicalJsonForFact (Suc d) (JObj kvs) =
     map_option (\<lambda>ss. ''{'' @ join ss @ ''}'')
       (those (map (\<lambda>(k, x). map_option (\<lambda>s. quote k @ '':'' @ s) (canonicalJsonForFact d x)) (sort_key fst kvs)))"
| "canonicalJsonForFact (Suc d) JUndef = Some ''undefined''"
| "canonicalJsonForFact (Suc d) v = Some (stringify v)"

definition FACT_CANONICAL_MAX_DEPTH :: nat where
  "FACT_CANONICAL_MAX_DEPTH = 64"

definition factCanonicalProjection :: "jval \<Rightarrow> string option" where
  "factCanonicalProjection v = canonicalJsonForFact (Suc FACT_CANONICAL_MAX_DEPTH) v"

end
