(* ===== verification/CaseBoxDeadline.thy ===== *)
theory CaseBoxDeadline
  imports CaseBoxDocument
begin

text \<open>
  \<open>services/case-box-persistence/src/inMemoryDeadline.ts\<close>: the deadline built from a confirmed docket entry
  and its transitions.
\<close>

definition buildDeadlineRowFromDocketEntry :: "jval \<Rightarrow> jval \<Rightarrow> jval \<Rightarrow> jval" where
  "buildDeadlineRowFromDocketEntry entry deadline_id confirmation_actor_user_id = JObj
     ([(''id'', deadline_id), (''tenant_id'', jget entry ''tenant_id''),
       (''actor_user_id'', confirmation_actor_user_id), (''matter_id'', jget entry ''matter_id''),
       (''kind'', jget entry ''proposed_kind''), (''due_at'', jget entry ''proposed_due_at''),
       (''owner_user_id'', jget entry ''proposed_owner_user_id''), (''status'', JStr ''pending'')] @
      (if nonempty_string (jget entry ''source_rule_citation'')
       then [(''source_rule_citation'', jget entry ''source_rule_citation'')] else []))"

record DeadlineTransitionOpts =
  dt_to :: string
  dt_actor_user_id :: jval
  dt_at :: jval
  dt_transition_reason :: jval

definition isMissedToMet :: "jval \<Rightarrow> DeadlineTransitionOpts \<Rightarrow> bool" where
  "isMissedToMet prior opts \<longleftrightarrow> jget prior ''status'' = JStr ''missed'' \<and> dt_to opts = ''met''"

definition nextDeadline :: "jval \<Rightarrow> DeadlineTransitionOpts \<Rightarrow> jval" where
  "nextDeadline prior opts =
     (let n0 = jset prior ''status'' (JStr (dt_to opts));
          n1 = (if dt_to opts = ''met'' then jset n0 ''met_at'' (dt_at opts) else n0) in
      if isMissedToMet prior opts
      then jset (jset n1 ''previous_status'' (JStr ''missed'')) ''transition_reason'' (dt_transition_reason opts)
      else n1)"

definition prepareTransitionDeadline ::
  "CaseBoxLib \<Rightarrow> CallInputs \<Rightarrow> EntityTable \<Rightarrow> jval \<Rightarrow> DeadlineTransitionOpts \<Rightarrow> (jval \<Rightarrow> StoredAuditEvent list) \<Rightarrow>
   case_exn + (jval \<times> StoredAuditEvent \<times> jval)" where
  "prepareTransitionDeadline L ci st deadlineId opts storedOf =
     bindR (check (nonempty_string deadlineId) Invalid_argument ''deadlineId must be a non-empty string'') (\<lambda>_.
     bindR (check (nonempty_string (dt_actor_user_id opts)) Invalid_argument ''actor_user_id must be a non-empty string'') (\<lambda>_.
     bindR (check (nonempty_string (dt_at opts)) Invalid_argument ''at must be a non-empty ISO-8601 timestamp'') (\<lambda>_.
     bindR (lookupEntity ''deadline'' ''deadlineById'' st deadlineId) (\<lambda>(matterId, prior).
     bindR (check (isMissedToMet prior opts \<longrightarrow> trimmed_nonempty L (dt_transition_reason opts)) Invalid_argument
              ''missed -> met transition requires non-empty transition_reason'') (\<lambda>_.
     bindR (rethrow Illegal_transition
              (assertValidDeadlineTransition (js_String (jget prior ''status'')) (dt_to opts) Lawyer
                 (dt_transition_reason opts))) (\<lambda>_.
     let next = nextDeadline prior opts in
     bindR (recheck (cl_validateDeadline L next) ''transition would produce schema-invalid deadline: '') (\<lambda>_.
     bindR (emitEvent (audit_lib L) (storedOf matterId)
              (updatedEvent L ci
                 (if isMissedToMet prior opts then ''DEADLINE_MISSED_TO_MET''
                  else if dt_to opts = ''met'' then ''DEADLINE_MET''
                  else if dt_to opts = ''missed'' then ''DEADLINE_MISSED'' else ''DEADLINE_WITHDRAWN'')
                 matterId (dt_actor_user_id opts) (JStr (entityStateHash (audit_lib L) prior)) next
                 (if isMissedToMet prior opts then dt_transition_reason opts else JUndef))) (\<lambda>ev.
     Inr (next, ev, matterId)))))))))"

end
