(* ===== verification/CaseBoxDocket.thy ===== *)
theory CaseBoxDocket
  imports CaseBoxDeadline
begin

text \<open>
  \<open>services/case-box-persistence/src/inMemoryDocket.ts\<close> and
  \<open>docs/contracts/case-box-contract/src/docket-invariants.ts\<close>: proposing a docket entry, confirming it (which also
  creates a deadline), dismissing it, and editing a proposed one.
\<close>

subsection \<open>The contract's rules\<close>

definition DEPRECATED_TZ_DENYLIST :: "string list" where
  "DEPRECATED_TZ_DENYLIST = [''America/Buenos_Aires'']"

text \<open>\<open>cl_timezone\<close> is membership in the set built from the runtime's zones when the module is loaded.\<close>

definition assertValidIanaTimezone :: "CaseBoxLib \<Rightarrow> jval \<Rightarrow> string + unit" where
  "assertValidIanaTimezone L tz =
     requireR (case tz of JStr s \<Rightarrow> s \<noteq> [] \<and> s \<notin> set DEPRECATED_TZ_DENYLIST \<and> cl_timezone L s | _ \<Rightarrow> False)
       (''not a valid IANA timezone (v1 strict): '' @ quote (js_String tz))"

definition isDocketEntryProposalOnly :: "jval \<Rightarrow> bool" where
  "isDocketEntryProposalOnly entry \<longleftrightarrow> jget entry ''confirmation_state'' = JStr ''proposed''"

definition docketEntryWasMachineExtracted :: "jval \<Rightarrow> bool" where
  "docketEntryWasMachineExtracted entry \<longleftrightarrow>
     jget entry ''source_type'' \<in> {JStr ''llm_extraction'', JStr ''imported'', JStr ''court_order_excerpt''}"

definition requiresHumanConfirmation :: "jval \<Rightarrow> bool" where
  "requiresHumanConfirmation entry \<longleftrightarrow> isDocketEntryProposalOnly entry \<and> docketEntryWasMachineExtracted entry"

definition decision_fields :: "string list" where
  "decision_fields = [''confirmation_actor_user_id'', ''confirmed_at'', ''confirmed_deadline_id'',
     ''dismissal_actor_user_id'', ''dismissed_at'', ''dismissal_reason'']"

definition assertValidNewDocketEntry :: "jval \<Rightarrow> string + unit" where
  "assertValidNewDocketEntry entry =
     bindR (requireR (jget entry ''confirmation_state'' = JStr ''proposed'')
              (''new docket entry must be created in confirmation_state=\"proposed\" (got ''
               @ stringify (jget entry ''confirmation_state'') @ '')'')) (\<lambda>_.
     requireR (offenders decision_fields entry = [])
       (''new docket entry must have null confirmation + dismissal fields; non-null: ''
        @ join_names (offenders decision_fields entry)))"

text \<open>The two errors a confirmation may raise, with the code the store gives each.\<close>

definition assertValidDocketEntryConfirmation :: "jval \<Rightarrow> CaseBoxActor \<Rightarrow> case_exn + unit" where
  "assertValidDocketEntryConfirmation entry controlled_by =
     (let f = js_String (jget entry ''confirmation_state'') in
      bindR (check (f \<notin> set TERMINAL_DOCKET_ENTRY_STATES) Illegal_transition
               (''cannot transition from terminal state '' @ quoted f)) (\<lambda>_.
      bindR (check (jget entry ''confirmation_state'' = JStr ''proposed'') Illegal_transition
               (IllegalTransitionError f ''confirmed'' controlled_by)) (\<lambda>_.
      bindR (check (isAllowed ALLOWED_DOCKET_ENTRY_EDGES ''proposed'' ''confirmed'' controlled_by) Illegal_transition
               (IllegalTransitionError ''proposed'' ''confirmed'' controlled_by)) (\<lambda>_.
      check (jget entry ''proposed_due_at_kind'' \<noteq> JStr ''date_only'') Invalid_argument
        (''confirming a date_only docket entry is forbidden in v1 (no jurisdiction/timezone resolver). ''
         @ ''Upgrade to datetime + supply an IANA timezone before confirming.'')))))"

definition EDITABLE_DOCKET_ENTRY_FIELDS :: "string list" where
  "EDITABLE_DOCKET_ENTRY_FIELDS =
     [''proposed_kind'', ''proposed_due_at'', ''proposed_due_at_kind'', ''proposed_due_at_timezone'',
      ''proposed_owner_user_id'', ''reminder_offsets'', ''revised_at'']"

definition isPlainRecord :: "jval \<Rightarrow> bool" where
  "isPlainRecord v \<longleftrightarrow> (case v of JObj _ \<Rightarrow> True | _ \<Rightarrow> False)"

fun persistedShape :: "jval \<Rightarrow> jval" where
  "persistedShape (JNonFin _) = JUndef"
| "persistedShape (JArr xs) = JArr (map (\<lambda>x. let pv = persistedShape x in if pv = JUndef then JNull else pv) xs)"
| "persistedShape (JObj kvs) =
     JObj (filter (\<lambda>(k, v). v \<noteq> JUndef) (map (\<lambda>(k, v). (k, persistedShape v)) kvs))"
| "persistedShape v = v"

text \<open>\<open>isDeepStrictEqual\<close> on persisted shapes: equality up to the order of an object's fields.\<close>

definition isDeepStrictEqual :: "jval \<Rightarrow> jval \<Rightarrow> bool" where
  "isDeepStrictEqual a b \<longleftrightarrow> jnorm a = jnorm b"

definition object_keys :: "jval \<Rightarrow> string list" where
  "object_keys v = (case v of JObj kvs \<Rightarrow> map fst kvs | _ \<Rightarrow> [])"

definition changedImmutable :: "jval \<Rightarrow> jval \<Rightarrow> string option" where
  "changedImmutable pOwn rOwn =
     List.find (\<lambda>k. k \<notin> set EDITABLE_DOCKET_ENTRY_FIELDS \<and> \<not> isDeepStrictEqual (jget pOwn k) (jget rOwn k))
       (object_keys pOwn @ object_keys rOwn)"

definition assertValidDocketEntryEdit :: "CaseBoxLib \<Rightarrow> jval \<Rightarrow> jval \<Rightarrow> case_exn + unit" where
  "assertValidDocketEntryEdit L prior revised =
     bindR (check (isPlainRecord prior \<and> isPlainRecord revised) Invalid_payload
              ''docket entry edit requires plain prior/revised objects (own properties only)'') (\<lambda>_.
     bindR (check (jget prior ''confirmation_state'' = JStr ''proposed'') Illegal_transition
              (''illegal transition '' @ quoted (js_String (jget prior ''confirmation_state'')) @ '' -> '' @ quoted ''proposed''
               @ '' by '' @ quoted ''edit'')) (\<lambda>_.
     let pOwn = persistedShape prior; rOwn = persistedShape revised in
     (case changedImmutable pOwn rOwn of
        Some k \<Rightarrow> case_error Invalid_payload (''docket entry edit may not change immutable field '' @ quote k)
      | None \<Rightarrow> schema_check (cl_validateDocketEntry L rOwn) ''revised docket entry is not schema-valid: '')))"

datatype DocketEntryDueAtInterpretation =
    Due_datetime jval jval
  | Due_date_only string jval

definition interpretDocketEntryDueAt ::
  "CaseBoxLib \<Rightarrow> jval \<Rightarrow> jval \<Rightarrow> string + DocketEntryDueAtInterpretation" where
  "interpretDocketEntryDueAt L entry jurisdictionHint =
     (if jget entry ''proposed_due_at_kind'' = JStr ''datetime''
      then if \<not> event_present (jget entry ''proposed_due_at_timezone'')
           then Inl (''not a valid IANA timezone (v1 strict): '' @ quote ''(null timezone with datetime kind)'')
           else bindR (assertValidIanaTimezone L (jget entry ''proposed_due_at_timezone'')) (\<lambda>_.
                Inr (Due_datetime (jget entry ''proposed_due_at'') (jget entry ''proposed_due_at_timezone'')))
      else if jget entry ''proposed_due_at_kind'' = JStr ''date_only''
      then Inr (Due_date_only (take 10 (js_String (jget entry ''proposed_due_at''))) (or_default jurisdictionHint JNull))
      else Inl (''unrecognized proposed_due_at_kind: '' @ stringify (jget entry ''proposed_due_at_kind'')))"

subsection \<open>Proposing\<close>

definition prepareAppendDocketEntry ::
  "CaseBoxLib \<Rightarrow> CallInputs \<Rightarrow> EntityTable \<Rightarrow> document_map \<Rightarrow> StoredAuditEvent list \<Rightarrow> jval \<Rightarrow>
   case_exn + (jval \<times> StoredAuditEvent)" where
  "prepareAppendDocketEntry L ci st documents stored input =
     bindR (check (jget input ''confirmation_state'' = JUndef \<or> jget input ''confirmation_state'' = JStr ''proposed'') Invalid_argument
              (''appendDocketEntry accepts only confirmation_state === \"proposed\" (got ''
               @ stringify (jget input ''confirmation_state'')
               @ ''); use confirmDocketEntry or dismissDocketEntry for transitions'')) (\<lambda>_.
     bindR (schema_check (cl_validateDocketEntry L input) ''invalid docket entry: '') (\<lambda>_.
     bindR (check (jget input ''id'' \<notin> set (rt_ids st)) Duplicate_id
              (''docket entry already exists: '' @ js_String (jget input ''id''))) (\<lambda>_.
     bindR (rethrow Invalid_payload (assertValidNewDocketEntry input)) (\<lambda>_.
     bindR (rethrow Invalid_payload
              (if jget input ''proposed_due_at_timezone'' \<noteq> JNull
               then assertValidIanaTimezone L (jget input ''proposed_due_at_timezone'') else Inr ())) (\<lambda>_.
     bindR (if jget input ''source_document_id'' \<noteq> JNull
            then resolveDocumentTarget documents (jget input ''tenant_id'') (jget input ''matter_id'')
                   (jget input ''source_document_id'')
            else Inr ()) (\<lambda>_.
     bindR (emitEvent (audit_lib L) stored (createdEvent L ci ''DOCKET_ENTRY_PROPOSED'' input JUndef)) (\<lambda>ev.
     Inr (input, ev))))))))"

subsection \<open>Confirming\<close>

record ConfirmDocketEntryOpts =
  co_confirmation_actor_user_id :: jval
  co_confirmed_at :: jval
  co_deadline_id :: jval

record PrepareConfirmResult =
  pc_idempotent :: bool
  pc_entry :: jval
  pc_deadline :: jval
  pc_audits :: "StoredAuditEvent list"
  pc_matterId :: jval

definition confirmedEntry :: "jval \<Rightarrow> ConfirmDocketEntryOpts \<Rightarrow> jval" where
  "confirmedEntry prior opts =
     jset (jset (jset (jset prior ''confirmation_state'' (JStr ''confirmed''))
       ''confirmation_actor_user_id'' (co_confirmation_actor_user_id opts))
       ''confirmed_at'' (co_confirmed_at opts)) ''confirmed_deadline_id'' (co_deadline_id opts)"

text \<open>The deadline an earlier confirmation made, when the entry is already confirmed.\<close>

definition existingConfirmation :: "EntityTable \<Rightarrow> jval \<Rightarrow> jval option" where
  "existingConfirmation deadlines prior =
     (if jget prior ''confirmation_state'' = JStr ''confirmed'' \<and> nonempty_string (jget prior ''confirmed_deadline_id'')
      then mget (rt_byId deadlines) (jget prior ''confirmed_deadline_id'') else None)"

text \<open>The second event is built on the hash of the first, with the second identifier drawn.\<close>

definition emitConfirmation ::
  "CaseBoxLib \<Rightarrow> CallInputs \<Rightarrow> StoredAuditEvent list \<Rightarrow> jval \<Rightarrow> jval \<Rightarrow> jval \<Rightarrow> jval \<Rightarrow> jval \<Rightarrow>
   case_exn + StoredAuditEvent list" where
  "emitConfirmation L ci stored matterId actor prior next deadline =
     bindR (emitEvent (audit_lib L) stored
              (updatedEvent L ci ''DOCKET_ENTRY_CONFIRMED'' matterId actor
                 (JStr (entityStateHash (audit_lib L) prior)) next JUndef)) (\<lambda>audit1.
     bindR (emitEvent (audit_lib L) (stored @ [audit1])
              (\<lambda>prevHash. (updatedEvent L ci ''DEADLINE_REGISTERED'' matterId actor JNull deadline JUndef prevHash)
                 \<lparr>be_id := ci_id ci 1\<rparr>)) (\<lambda>audit2.
     Inr [audit1, audit2]))"

definition prepareConfirmDocketEntry ::
  "CaseBoxLib \<Rightarrow> CallInputs \<Rightarrow> EntityTable \<Rightarrow> EntityTable \<Rightarrow> jval \<Rightarrow> ConfirmDocketEntryOpts \<Rightarrow>
   (jval \<Rightarrow> StoredAuditEvent list) \<Rightarrow> case_exn + PrepareConfirmResult" where
  "prepareConfirmDocketEntry L ci docket deadlines entryId opts storedOf =
     bindR (check (nonempty_string entryId) Invalid_argument ''entryId must be a non-empty string'') (\<lambda>_.
     bindR (check (nonempty_string (co_confirmation_actor_user_id opts)) Invalid_argument
              ''confirmation_actor_user_id must be a non-empty string'') (\<lambda>_.
     bindR (check (nonempty_string (co_confirmed_at opts)) Invalid_argument
              ''confirmed_at must be a non-empty ISO-8601 timestamp'') (\<lambda>_.
     bindR (check (nonempty_string (co_deadline_id opts)) Invalid_argument ''deadline_id must be a non-empty string'') (\<lambda>_.
     bindR (lookupEntity ''docket entry'' ''docketById'' docket entryId) (\<lambda>(matterId, prior).
     (case existingConfirmation deadlines prior of
        Some existing \<Rightarrow> Inr \<lparr>pc_idempotent = True, pc_entry = prior, pc_deadline = existing, pc_audits = [], pc_matterId = matterId\<rparr>
      | None \<Rightarrow>
     bindR (assertValidDocketEntryConfirmation prior Lawyer) (\<lambda>_.
     let next = confirmedEntry prior opts in
     bindR (recheck (cl_validateDocketEntry L next) ''confirm would produce schema-invalid docket entry: '') (\<lambda>_.
     bindR (check (co_deadline_id opts \<notin> set (rt_ids deadlines)) Duplicate_id
              (''deadline_id already exists: '' @ js_String (co_deadline_id opts))) (\<lambda>_.
     let deadline = buildDeadlineRowFromDocketEntry next (co_deadline_id opts) (co_confirmation_actor_user_id opts) in
     bindR (recheck (cl_validateDeadline L deadline) ''confirm would produce schema-invalid deadline: '') (\<lambda>_.
     bindR (emitConfirmation L ci (storedOf matterId) matterId (co_confirmation_actor_user_id opts) prior next deadline) (\<lambda>audits.
     Inr \<lparr>pc_idempotent = False, pc_entry = next, pc_deadline = deadline, pc_audits = audits, pc_matterId = matterId\<rparr>)))))))))))"

subsection \<open>Dismissing\<close>

record DismissDocketEntryOpts =
  di_dismissal_actor_user_id :: jval
  di_dismissed_at :: jval
  di_dismissal_reason :: jval

definition dismissedEntry :: "jval \<Rightarrow> DismissDocketEntryOpts \<Rightarrow> jval" where
  "dismissedEntry prior opts =
     jset (jset (jset (jset prior ''confirmation_state'' (JStr ''dismissed''))
       ''dismissal_actor_user_id'' (di_dismissal_actor_user_id opts))
       ''dismissed_at'' (di_dismissed_at opts)) ''dismissal_reason'' (di_dismissal_reason opts)"

definition prepareDismissDocketEntry ::
  "CaseBoxLib \<Rightarrow> CallInputs \<Rightarrow> EntityTable \<Rightarrow> jval \<Rightarrow> DismissDocketEntryOpts \<Rightarrow> (jval \<Rightarrow> StoredAuditEvent list) \<Rightarrow>
   case_exn + (jval \<times> StoredAuditEvent \<times> jval)" where
  "prepareDismissDocketEntry L ci st entryId opts storedOf =
     bindR (check (nonempty_string entryId) Invalid_argument ''entryId must be a non-empty string'') (\<lambda>_.
     bindR (check (nonempty_string (di_dismissal_actor_user_id opts)) Invalid_argument
              ''dismissal_actor_user_id must be a non-empty string'') (\<lambda>_.
     bindR (check (nonempty_string (di_dismissed_at opts)) Invalid_argument
              ''dismissed_at must be a non-empty ISO-8601 timestamp'') (\<lambda>_.
     bindR (check (trimmed_nonempty L (di_dismissal_reason opts)) Invalid_argument
              ''dismissal_reason must be a non-empty string'') (\<lambda>_.
     bindR (lookupEntity ''docket entry'' ''docketById'' st entryId) (\<lambda>(matterId, prior).
     bindR (rethrow Illegal_transition
              (assertValidDocketEntryTransition (js_String (jget prior ''confirmation_state'')) ''dismissed'' Lawyer
                 (di_dismissal_reason opts))) (\<lambda>_.
     let next = dismissedEntry prior opts in
     bindR (recheck (cl_validateDocketEntry L next) ''dismiss would produce schema-invalid docket entry: '') (\<lambda>_.
     bindR (emitEvent (audit_lib L) (storedOf matterId)
              (updatedEvent L ci ''DOCKET_ENTRY_DISMISSED'' matterId (di_dismissal_actor_user_id opts)
                 (JStr (entityStateHash (audit_lib L) prior)) next (di_dismissal_reason opts))) (\<lambda>ev.
     Inr (next, ev, matterId)))))))))"

subsection \<open>Editing\<close>

record EditDocketEntryOpts =
  ed_tenant_id :: jval
  ed_matter_id :: jval
  ed_entry_id :: jval
  ed_editor_actor_user_id :: jval
  ed_proposed_kind :: jval
  ed_proposed_due_at :: jval
  ed_proposed_due_at_kind :: jval
  ed_proposed_due_at_timezone :: jval
  ed_proposed_owner_user_id :: jval
  ed_reminder_offsets :: jval

definition editedEntry :: "CallInputs \<Rightarrow> jval \<Rightarrow> EditDocketEntryOpts \<Rightarrow> jval" where
  "editedEntry ci prior opts =
     jset (jset (jset (jset (jset (jset (jset prior
       ''proposed_kind'' (ed_proposed_kind opts))
       ''proposed_due_at'' (ed_proposed_due_at opts))
       ''proposed_due_at_kind'' (ed_proposed_due_at_kind opts))
       ''proposed_due_at_timezone'' (ed_proposed_due_at_timezone opts))
       ''proposed_owner_user_id'' (ed_proposed_owner_user_id opts))
       ''reminder_offsets'' (ed_reminder_offsets opts))
       ''revised_at'' (JStr (ci_now ci))"

definition prepareEditDocketEntry ::
  "CaseBoxLib \<Rightarrow> CallInputs \<Rightarrow> EntityTable \<Rightarrow> EditDocketEntryOpts \<Rightarrow> (jval \<Rightarrow> StoredAuditEvent list) \<Rightarrow>
   case_exn + (jval \<times> StoredAuditEvent \<times> jval)" where
  "prepareEditDocketEntry L ci st opts storedOf =
     bindR (check (nonempty_string (ed_tenant_id opts)) Invalid_argument ''tenant_id must be a non-empty string'') (\<lambda>_.
     bindR (check (nonempty_string (ed_matter_id opts)) Invalid_argument ''matter_id must be a non-empty string'') (\<lambda>_.
     bindR (check (nonempty_string (ed_entry_id opts)) Invalid_argument ''entry_id must be a non-empty string'') (\<lambda>_.
     bindR (check (nonempty_string (ed_editor_actor_user_id opts)) Invalid_argument
              ''editor_actor_user_id must be a non-empty string'') (\<lambda>_.
     (case mget (rt_byId st) (ed_entry_id opts) of
        None \<Rightarrow> case_error Invalid_argument (''unknown docket entry: '' @ js_String (ed_entry_id opts))
      | Some prior \<Rightarrow>
     bindR (check (jget prior ''tenant_id'' = ed_tenant_id opts) Invalid_argument
              (''unknown docket entry: '' @ js_String (ed_entry_id opts))) (\<lambda>_.
     bindR (check (jget prior ''matter_id'' = ed_matter_id opts) Matter_id_mismatched
              (''docket entry '' @ js_String (ed_entry_id opts) @ '' belongs to matter ''
               @ js_String (jget prior ''matter_id'') @ '', not '' @ js_String (ed_matter_id opts))) (\<lambda>_.
     let next = editedEntry ci prior opts in
     bindR (assertValidDocketEntryEdit L prior next) (\<lambda>_.
     bindR (rethrow Invalid_payload
              (if jget next ''proposed_due_at_timezone'' \<noteq> JNull
               then assertValidIanaTimezone L (jget next ''proposed_due_at_timezone'') else Inr ())) (\<lambda>_.
     let matterId = jget prior ''matter_id'' in
     bindR (emitEvent (audit_lib L) (storedOf matterId)
              (updatedEvent L ci ''DOCKET_ENTRY_REVISED'' matterId (ed_editor_actor_user_id opts)
                 (JStr (entityStateHash (audit_lib L) prior)) next JUndef)) (\<lambda>ev.
     Inr (next, ev, matterId)))))))))))"

end
