(* ===== verification/CaseBoxPrivilege.thy ===== *)
theory CaseBoxPrivilege
  imports CaseBoxDocument
begin

text \<open>
  \<open>services/case-box-persistence/src/inMemoryPrivilege.ts\<close> and
  \<open>docs/contracts/case-box-contract/src/privilege-invariants.ts\<close>: proposing a privilege marker on a document,
  confirming, dismissing and waiving it, and the resolver of a target's privilege.
\<close>

subsection \<open>The contract's rules\<close>

definition null_fields :: "string list \<Rightarrow> string \<Rightarrow> jval \<Rightarrow> string + unit" where
  "null_fields ks prefix row =
     requireR (offenders ks row = []) (prefix @ join_names (offenders ks row))"

definition assertValidNewPrivilegeMarker :: "jval \<Rightarrow> string + unit" where
  "assertValidNewPrivilegeMarker marker =
     (let status = jget marker ''status''; source = jget marker ''source_type'' in
      bindR (requireR (status \<noteq> JStr ''dismissed'' \<and> status \<noteq> JStr ''waived'')
               (''new marker must NOT be created in terminal status '' @ stringify status
                @ '' (terminal states are reached via transitions)'')) (\<lambda>_.
      bindR (requireR (status = JStr ''proposed'' \<or> status = JStr ''confirmed'')
               (''new marker status must be \"proposed\" or \"confirmed\" (got '' @ stringify status @ '')'')) (\<lambda>_.
      bindR (requireR (\<not> (status = JStr ''confirmed'' \<and> source \<noteq> JStr ''lawyer_authored''))
               (''only lawyer_authored markers may be created directly in \"confirmed\" (got source_type=''
                @ stringify source @ '') - machine sources MUST start as \"proposed\" so a lawyer can confirm'')) (\<lambda>_.
      bindR (null_fields [''dismissed_actor_user_id'', ''dismissed_at'', ''dismissal_reason'']
               ''new marker must have null dismissal fields; non-null: '' marker) (\<lambda>_.
      bindR (null_fields [''waiver_actor_user_id'', ''waived_at'', ''waiver_reason'']
               ''new marker must have null waiver fields; non-null: '' marker) (\<lambda>_.
      bindR (if status = JStr ''proposed''
             then null_fields [''confirmed_actor_user_id'', ''confirmed_at'']
                    ''new \"proposed\" marker must have null confirmation fields; non-null: '' marker
             else Inr ()) (\<lambda>_.
      bindR (if status = JStr ''confirmed''
             then bindR (requireR (event_present (jget marker ''confirmed_actor_user_id''))
                           ''new \"confirmed\" marker must have non-null confirmed_actor_user_id'') (\<lambda>_.
                  requireR (event_present (jget marker ''confirmed_at''))
                    ''new \"confirmed\" marker must have non-null confirmed_at'')
             else Inr ()) (\<lambda>_.
      requireR (event_present (jget marker ''proposed_at'')) ''new marker must have non-null proposed_at''))))))))"

text \<open>\<open>Date.parse\<close> of a field; it converts its argument to a string first.\<close>

definition parse_date :: "CaseBoxLib \<Rightarrow> string \<Rightarrow> jval \<Rightarrow> string + int" where
  "parse_date L field marker =
     (case cl_dateParse L (js_String (jget marker field)) of
        None \<Rightarrow> Inl (field @ '' is not a parseable date-time: '' @ stringify (jget marker field))
      | Some t \<Rightarrow> Inr t)"

definition not_before :: "string \<Rightarrow> int \<Rightarrow> string \<Rightarrow> int \<Rightarrow> jval \<Rightarrow> string + unit" where
  "not_before f1 t1 f0 t0 marker =
     requireR (\<not> t1 < t0)
       (f1 @ '' ('' @ js_String (jget marker f1) @ '') must be >= '' @ f0 @ '' ('' @ js_String (jget marker f0) @ '')'')"

definition assertPrivilegeMarkerTimestamps :: "CaseBoxLib \<Rightarrow> jval \<Rightarrow> string + unit" where
  "assertPrivilegeMarkerTimestamps L marker =
     bindR (parse_date L ''proposed_at'' marker) (\<lambda>proposed.
     bindR (if event_present (jget marker ''confirmed_at'')
            then bindR (parse_date L ''confirmed_at'' marker) (\<lambda>confirmed.
                 bindR (not_before ''confirmed_at'' confirmed ''proposed_at'' proposed marker) (\<lambda>_.
                 if event_present (jget marker ''waived_at'')
                 then bindR (parse_date L ''waived_at'' marker) (\<lambda>waived.
                      not_before ''waived_at'' waived ''confirmed_at'' confirmed marker)
                 else Inr ()))
            else Inr ()) (\<lambda>_.
     if event_present (jget marker ''dismissed_at'')
     then bindR (parse_date L ''dismissed_at'' marker) (\<lambda>dismissed.
          not_before ''dismissed_at'' dismissed ''proposed_at'' proposed marker)
     else Inr ()))"

record PrivilegeResolution =
  pr_hasProtectiveAssertion :: bool
  pr_activeConfirmedMarkers :: "jval list"
  pr_history_proposed :: bool
  pr_history_confirmed :: bool
  pr_history_dismissed :: bool
  pr_history_waived :: bool
  pr_allTargetMarkers :: "jval list"

definition has_status :: "string \<Rightarrow> jval \<Rightarrow> bool" where
  "has_status s row \<longleftrightarrow> jget row ''status'' = JStr s"

definition targets :: "jval \<Rightarrow> jval \<Rightarrow> jval \<Rightarrow> bool" where
  "targets targetType targetId row \<longleftrightarrow> jget row ''target_type'' = targetType \<and> jget row ''target_id'' = targetId"

definition effectivePrivilegeStatus :: "jval \<Rightarrow> jval \<Rightarrow> jval list \<Rightarrow> PrivilegeResolution" where
  "effectivePrivilegeStatus targetType targetId markers =
     (let filtered = filter (targets targetType targetId) markers;
          active = filter (has_status ''confirmed'') filtered in
      \<lparr>pr_hasProtectiveAssertion = (0 < length active), pr_activeConfirmedMarkers = active,
       pr_history_proposed = (\<exists>m\<in>set filtered. has_status ''proposed'' m \<or> event_present (jget m ''proposed_at'')),
       pr_history_confirmed = (\<exists>m\<in>set filtered. has_status ''confirmed'' m \<or> event_present (jget m ''confirmed_at'')),
       pr_history_dismissed = (\<exists>m\<in>set filtered. has_status ''dismissed'' m),
       pr_history_waived = (\<exists>m\<in>set filtered. has_status ''waived'' m),
       pr_allTargetMarkers = filtered\<rparr>)"

definition isMarkerProtective :: "jval \<Rightarrow> bool" where
  "isMarkerProtective marker \<longleftrightarrow> jget marker ''status'' = JStr ''confirmed''"

definition isMarkerLifecycleTerminal :: "jval \<Rightarrow> bool" where
  "isMarkerLifecycleTerminal marker \<longleftrightarrow>
     jget marker ''status'' = JStr ''dismissed'' \<or> jget marker ''status'' = JStr ''waived''"

definition isMachineSuggestedMarker :: "jval \<Rightarrow> bool" where
  "isMachineSuggestedMarker marker \<longleftrightarrow> jget marker ''source_type'' \<in> {JStr ''llm_suggested'', JStr ''imported''}"

subsection \<open>Appending\<close>

definition prepareAppendPrivilegeMarker ::
  "CaseBoxLib \<Rightarrow> CallInputs \<Rightarrow> IndexedTable \<Rightarrow> document_map \<Rightarrow> StoredAuditEvent list \<Rightarrow> jval \<Rightarrow>
   case_exn + (jval \<times> StoredAuditEvent)" where
  "prepareAppendPrivilegeMarker L ci st documents stored input =
     bindR (check (jget input ''target_type'' \<noteq> JStr ''matter'') Invalid_argument
              ''target_type \"matter\" is rejected - privilege markers cannot target a matter'') (\<lambda>_.
     bindR (check (jget input ''target_type'' \<noteq> JStr ''fact'') Invalid_argument
              ''target_type \"fact\" is not yet supported (facts ship in Phase A4)'') (\<lambda>_.
     bindR (check (jget input ''status'' = JUndef \<or> jget input ''status'' = JStr ''proposed'') Invalid_argument
              (''appendPrivilegeMarker accepts only status === \"proposed\" (got '' @ stringify (jget input ''status'')
               @ ''); use transitionPrivilegeMarker to reach confirmed'')) (\<lambda>_.
     bindR (schema_check (cl_validatePrivilegeMarker L input) ''invalid privilege marker: '') (\<lambda>_.
     bindR (check (jget input ''id'' \<notin> set (rt_ids st)) Duplicate_id
              (''privilege marker already exists: '' @ js_String (jget input ''id''))) (\<lambda>_.
     bindR (rethrow Invalid_payload (assertValidNewPrivilegeMarker input)) (\<lambda>_.
     bindR (rethrow Invalid_payload (assertPrivilegeMarkerTimestamps L input)) (\<lambda>_.
     bindR (check (jget input ''target_type'' = JStr ''document'') Invalid_argument
              (''unexpected target_type '' @ stringify (jget input ''target_type''))) (\<lambda>_.
     bindR (resolveDocumentTarget documents (jget input ''tenant_id'') (jget input ''matter_id'') (jget input ''target_id'')) (\<lambda>_.
     bindR (emitEvent (audit_lib L) stored (createdEvent L ci ''PRIVILEGE_MARKER_PROPOSED'' input JUndef)) (\<lambda>ev.
     Inr (input, ev)))))))))))"

subsection \<open>Transitions\<close>

record PrivilegeTransitionOpts =
  pt_to :: string
  pt_actor_user_id :: jval
  pt_at :: jval
  pt_reason :: jval

text \<open>The loop over the matter's markers before a confirmation: another confirmed marker of the same target and kind.\<close>

definition rivalMarker :: "jval \<Rightarrow> jval \<Rightarrow> bool" where
  "rivalMarker prior other \<longleftrightarrow>
     jget other ''id'' \<noteq> jget prior ''id'' \<and> has_status ''confirmed'' other \<and>
     jget other ''target_type'' = jget prior ''target_type'' \<and>
     jget other ''target_id'' = jget prior ''target_id'' \<and> jget other ''kind'' = jget prior ''kind''"

definition nextMarker :: "jval \<Rightarrow> PrivilegeTransitionOpts \<Rightarrow> jval" where
  "nextMarker prior opts =
     (let next = jset prior ''status'' (JStr (pt_to opts)) in
      if pt_to opts = ''confirmed''
      then jset (jset next ''confirmed_actor_user_id'' (pt_actor_user_id opts)) ''confirmed_at'' (pt_at opts)
      else if pt_to opts = ''dismissed''
      then jset (jset (jset next ''dismissed_actor_user_id'' (pt_actor_user_id opts)) ''dismissed_at'' (pt_at opts))
             ''dismissal_reason'' (pt_reason opts)
      else if pt_to opts = ''waived''
      then jset (jset (jset next ''waiver_actor_user_id'' (pt_actor_user_id opts)) ''waived_at'' (pt_at opts))
             ''waiver_reason'' (pt_reason opts)
      else next)"

definition prepareTransitionPrivilegeMarker ::
  "CaseBoxLib \<Rightarrow> CallInputs \<Rightarrow> IndexedTable \<Rightarrow> jval \<Rightarrow> PrivilegeTransitionOpts \<Rightarrow> (jval \<Rightarrow> StoredAuditEvent list) \<Rightarrow>
   case_exn + (jval \<times> StoredAuditEvent \<times> jval)" where
  "prepareTransitionPrivilegeMarker L ci st markerId opts storedOf =
     bindR (check (nonempty_string markerId) Invalid_argument ''markerId must be a non-empty string'') (\<lambda>_.
     bindR (check (nonempty_string (pt_actor_user_id opts)) Invalid_argument ''actor_user_id must be a non-empty string'') (\<lambda>_.
     bindR (check (nonempty_string (pt_at opts)) Invalid_argument ''at must be a non-empty ISO-8601 timestamp string'') (\<lambda>_.
     (case mget (rt_index st) markerId of
        None \<Rightarrow> case_error Invalid_argument (''unknown privilege marker: '' @ js_String markerId)
      | Some matterId \<Rightarrow>
     (case List.find (\<lambda>m. jget m ''id'' = markerId) (rows_of st matterId) of
        None \<Rightarrow> case_error Invalid_argument (''unknown privilege marker (index miss): '' @ js_String markerId)
      | Some prior \<Rightarrow>
     bindR (check (pt_to opts = ''dismissed'' \<or> pt_to opts = ''waived'' \<longrightarrow> trimmed_nonempty L (pt_reason opts)) Invalid_argument
              (''transition to '' @ pt_to opts @ '' requires a non-empty reason'')) (\<lambda>_.
     bindR (rethrow Illegal_transition
              (assertValidPrivilegeMarkerTransition (js_String (jget prior ''status'')) (pt_to opts) Lawyer (pt_reason opts))) (\<lambda>_.
     bindR (check (\<not> (pt_to opts = ''confirmed'' \<and> (\<exists>other\<in>set (rows_of st matterId). rivalMarker prior other))) Invalid_argument
              (''another confirmed privilege marker already exists for (target_type='' @ js_String (jget prior ''target_type'')
               @ '', target_id='' @ js_String (jget prior ''target_id'') @ '', kind='' @ js_String (jget prior ''kind'')
               @ ''); waive it first'')) (\<lambda>_.
     let next = nextMarker prior opts in
     bindR (recheck (cl_validatePrivilegeMarker L next) ''transition would produce schema-invalid marker: '') (\<lambda>_.
     bindR (rethrow Invalid_payload (assertPrivilegeMarkerTimestamps L next)) (\<lambda>_.
     bindR (emitEvent (audit_lib L) (storedOf matterId)
              (updatedEvent L ci
                 (if pt_to opts = ''confirmed'' then ''PRIVILEGE_MARKER_CONFIRMED''
                  else if pt_to opts = ''dismissed'' then ''PRIVILEGE_MARKER_DISMISSED'' else ''PRIVILEGE_MARKER_WAIVED'')
                 matterId (pt_actor_user_id opts) (JStr (entityStateHash (audit_lib L) prior)) next
                 (if pt_to opts = ''dismissed'' \<or> pt_to opts = ''waived'' then pt_reason opts else JUndef))) (\<lambda>ev.
     Inr (next, ev, matterId))))))))))))"

definition getEffectivePrivilege :: "IndexedTable \<Rightarrow> jval \<Rightarrow> jval \<Rightarrow> jval \<Rightarrow> PrivilegeResolution" where
  "getEffectivePrivilege st matterId targetType targetId =
     effectivePrivilegeStatus targetType targetId (rows_of st matterId)"

end
