(* ===== verification/CaseBoxClassification.thy ===== *)
theory CaseBoxClassification
  imports CaseBoxDocument
begin

text \<open>
  \<open>services/case-box-persistence/src/inMemoryClassification.ts\<close> and
  \<open>docs/contracts/case-box-contract/src/confidentiality-invariants.ts\<close>: the lattice of confidentiality levels,
  appending a classification of a document, the latest classification of a target (computed in three
  places), and the decision whether material may leave the machine. A level read from a record is a
  dynamic value; \<open>JNull\<close> is \<open>null\<close>.
\<close>

subsection \<open>Levels and their changes\<close>

definition CONFIDENTIALITY_LEVELS :: "string list" where
  "CONFIDENTIALITY_LEVELS = [''unclassified'', ''normal'', ''confidential'', ''highly_confidential'', ''restricted'']"

definition LATTICE_ORDINAL :: "(jval \<times> nat) list" where
  "LATTICE_ORDINAL = [(JStr ''normal'', 1), (JStr ''confidential'', 2), (JStr ''highly_confidential'', 3), (JStr ''restricted'', 4)]"

definition isFirstClassification :: "jval \<Rightarrow> jval \<Rightarrow> bool" where
  "isFirstClassification prior next \<longleftrightarrow> prior = JNull \<and> next \<noteq> JNull"

definition isResetToUnclassified :: "jval \<Rightarrow> jval \<Rightarrow> bool" where
  "isResetToUnclassified prior next \<longleftrightarrow> prior \<noteq> JNull \<and> prior \<noteq> JStr ''unclassified'' \<and> next = JStr ''unclassified''"

definition isDowngrade :: "jval \<Rightarrow> jval \<Rightarrow> bool" where
  "isDowngrade prior next \<longleftrightarrow>
     prior \<noteq> JNull \<and> prior \<noteq> JStr ''unclassified'' \<and> next \<noteq> JStr ''unclassified'' \<and>
     (case (map_of LATTICE_ORDINAL prior, map_of LATTICE_ORDINAL next) of
        (Some priorOrdinal, Some nextOrdinal) \<Rightarrow> nextOrdinal < priorOrdinal
      | _ \<Rightarrow> False)"

definition assertValidConfidentialityTransition :: "jval \<Rightarrow> jval \<Rightarrow> jval \<Rightarrow> string + unit" where
  "assertValidConfidentialityTransition prior next change_reason_code =
     bindR (requireR (\<not> (isDowngrade prior next \<and> change_reason_code = JNull))
              (''downgrade '' @ stringify prior @ '' -> '' @ stringify next @ '' requires non-null change_reason_code'')) (\<lambda>_.
     requireR (\<not> (isResetToUnclassified prior next \<and> change_reason_code = JNull))
       (''reset to unclassified from '' @ stringify prior @ '' requires non-null change_reason_code''))"

definition assertValidNewConfidentialityClassification :: "jval \<Rightarrow> jval option \<Rightarrow> string + unit" where
  "assertValidNewConfidentialityClassification row priorRow =
     bindR (case priorRow of
              None \<Rightarrow> requireR (jget row ''prior_level'' = JNull)
                (''first classification row for target must have prior_level === null (got ''
                 @ stringify (jget row ''prior_level'') @ '')'')
            | Some p \<Rightarrow> requireR (jget row ''prior_level'' = jget p ''level'')
                (''row.prior_level ('' @ stringify (jget row ''prior_level'') @ '') must equal priorRow.level (''
                 @ stringify (jget p ''level'') @ '')'')) (\<lambda>_.
     assertValidConfidentialityTransition (jget row ''prior_level'') (jget row ''level'') (jget row ''change_reason_code''))"

subsection \<open>The latest classification\<close>

definition compareClassificationLatestFirst :: "jval \<Rightarrow> jval \<Rightarrow> int" where
  "compareClassificationLatestFirst a b =
     (if jless (jget a ''set_at'') (jget b ''set_at'') then 1
      else if jless (jget b ''set_at'') (jget a ''set_at'') then - 1
      else if jless (jget a ''id'') (jget b ''id'') then - 1
      else if jless (jget b ''id'') (jget a ''id'') then 1 else 0)"

definition classifies :: "jval \<Rightarrow> jval \<Rightarrow> jval \<Rightarrow> bool" where
  "classifies targetType targetId row \<longleftrightarrow> jget row ''target_type'' = targetType \<and> jget row ''target_id'' = targetId"

definition later_of :: "jval \<Rightarrow> jval \<Rightarrow> jval \<Rightarrow> jval option \<Rightarrow> jval option" where
  "later_of targetType targetId row latest =
     (if \<not> classifies targetType targetId row then latest
      else case latest of
        None \<Rightarrow> Some row
      | Some l \<Rightarrow> if compareClassificationLatestFirst row l < 0 then Some row else Some l)"

definition findLatestForTarget :: "'a RowTable_scheme \<Rightarrow> jval \<Rightarrow> jval \<Rightarrow> jval \<Rightarrow> jval option" where
  "findLatestForTarget st matterId targetType targetId =
     fold (later_of targetType targetId) (rows_of st matterId) None"

definition computeEffectiveLevel :: "'a RowTable_scheme \<Rightarrow> jval \<Rightarrow> jval \<Rightarrow> jval \<Rightarrow> jval \<times> jval list" where
  "computeEffectiveLevel st matterId targetType targetId =
     (case sort_by (\<lambda>a b. compareClassificationLatestFirst a b \<le> 0)
             (filter (classifies targetType targetId) (rows_of st matterId)) of
        [] \<Rightarrow> (JStr ''unclassified'', [])
      | m # ms \<Rightarrow> (jget m ''level'', m # ms))"

text \<open>The contract's own resolver, with a comparator of its own.\<close>

definition compareSetAt :: "jval \<Rightarrow> jval \<Rightarrow> int" where
  "compareSetAt a b =
     (if jget a ''set_at'' \<noteq> jget b ''set_at''
      then (if jless (jget b ''set_at'') (jget a ''set_at'') then - 1 else 1)
      else if jless (jget a ''id'') (jget b ''id'') then - 1
      else if jless (jget b ''id'') (jget a ''id'') then 1 else 0)"

definition effectiveConfidentialityLevel :: "jval \<Rightarrow> jval \<Rightarrow> jval list \<Rightarrow> jval" where
  "effectiveConfidentialityLevel targetType targetId classifications =
     (let filtered = filter (classifies targetType targetId) classifications in
      if length filtered = 0 then JStr ''unclassified''
      else jget (hd (sort_by (\<lambda>a b. compareSetAt a b \<le> 0) filtered)) ''level'')"

subsection \<open>Appending\<close>

definition selectAuditKind :: "jval \<Rightarrow> jval \<Rightarrow> string" where
  "selectAuditKind prior next =
     (if prior = JNull then ''CLASSIFICATION_SET''
      else if isResetToUnclassified prior next then ''CLASSIFICATION_RESET_TO_UNCLASSIFIED''
      else if isDowngrade prior next then ''CLASSIFICATION_DOWNGRADED''
      else ''CLASSIFICATION_UPGRADED'')"

definition reasonRequired :: "string \<Rightarrow> bool" where
  "reasonRequired kind \<longleftrightarrow> kind = ''CLASSIFICATION_DOWNGRADED'' \<or> kind = ''CLASSIFICATION_RESET_TO_UNCLASSIFIED''"

definition prepareAppendClassification ::
  "CaseBoxLib \<Rightarrow> CallInputs \<Rightarrow> RowTable \<Rightarrow> document_map \<Rightarrow> StoredAuditEvent list \<Rightarrow> jval \<Rightarrow>
   case_exn + (jval \<times> StoredAuditEvent)" where
  "prepareAppendClassification L ci st documents stored input =
     bindR (check (jget input ''target_type'' \<noteq> JStr ''matter'') Invalid_argument
              (''target_type \"matter\" is rejected - matter-level confidentiality lives on the matter row, ''
               @ ''not on a classification entity'')) (\<lambda>_.
     bindR (check (jget input ''target_type'' \<noteq> JStr ''fact'') Invalid_argument
              ''target_type \"fact\" is not yet supported (facts ship in Phase A4); A2 accepts target_type \"document\" only'') (\<lambda>_.
     bindR (schema_check (cl_validateClassification L input) ''invalid classification: '') (\<lambda>_.
     bindR (check (jget input ''change_reason_code'' = JStr ''other'' \<longrightarrow> trimmed_nonempty L (jget input ''change_reason_text''))
              Invalid_payload ''change_reason_code === \"other\" requires non-blank change_reason_text'') (\<lambda>_.
     bindR (check (jget input ''id'' \<notin> set (rt_ids st)) Duplicate_id
              (''classification already exists: '' @ js_String (jget input ''id''))) (\<lambda>_.
     bindR (check (jget input ''target_type'' = JStr ''document'') Invalid_argument
              (''unexpected target_type '' @ stringify (jget input ''target_type''))) (\<lambda>_.
     bindR (resolveDocumentTarget documents (jget input ''tenant_id'') (jget input ''matter_id'') (jget input ''target_id'')) (\<lambda>_.
     bindR (check (\<not> (jget input ''prior_level'' \<noteq> JNull \<and> jget input ''prior_level'' = jget input ''level'')) Invalid_argument
              (''same-level write rejected (prior='' @ js_String (jget input ''prior_level'') @ '', next=''
               @ js_String (jget input ''level'') @ ''); A2 declines no-op classifications'')) (\<lambda>_.
     bindR (rethrow Invalid_payload
              (assertValidNewConfidentialityClassification input
                 (findLatestForTarget st (jget input ''matter_id'') (jget input ''target_type'') (jget input ''target_id'')))) (\<lambda>_.
     let kind = selectAuditKind (jget input ''prior_level'') (jget input ''level'') in
     bindR (check (reasonRequired kind \<longrightarrow> jget input ''change_reason_code'' \<noteq> JNull) Invalid_payload
              (kind @ '' requires non-null change_reason_code'')) (\<lambda>_.
     bindR (emitEvent (audit_lib L) stored
              (createdEvent L ci kind input
                 (if reasonRequired kind then jget input ''change_reason_code'' else JUndef))) (\<lambda>ev.
     Inr (input, ev))))))))))))"

subsection \<open>External handling\<close>

record HandlingEvidence =
  he_effectiveLevel :: jval
  he_matterConfidentialityClass :: jval
  he_privilegeReviewState :: jval
  he_externalAction :: string
  he_optInForAction :: bool

record HandlingDecision =
  hd_allowed :: bool
  hd_denialReasons :: "string list"
  hd_evidence :: HandlingEvidence

record AssertExternalHandlingInput =
  ah_matter :: jval
  ah_classifications :: "jval list"
  ah_privilegeReviewState :: jval
  ah_targetType :: jval
  ah_targetId :: jval
  ah_externalAction :: string
  ah_externalOcrAuthorized :: bool
  ah_syncGrantPresent :: bool
  ah_llmExtractionOptIn :: bool

definition KNOWN_EXTERNAL_ACTIONS :: "string list" where
  "KNOWN_EXTERNAL_ACTIONS = [''external_ocr'', ''sync_transmit'', ''llm_extraction'']"

definition optInForAction :: "AssertExternalHandlingInput \<Rightarrow> bool" where
  "optInForAction i =
     (if ah_externalAction i = ''external_ocr'' then ah_externalOcrAuthorized i
      else if ah_externalAction i = ''sync_transmit'' then ah_syncGrantPresent i
      else if ah_externalAction i = ''llm_extraction'' then ah_llmExtractionOptIn i
      else False)"

definition push_if :: "bool \<Rightarrow> string \<Rightarrow> string list" where
  "push_if b x = (if b then [x] else [])"

definition denialReasons :: "AssertExternalHandlingInput \<Rightarrow> jval \<Rightarrow> string list" where
  "denialReasons i level =
     push_if (level = JStr ''unclassified'') ''unclassified_default_denies_external''
     @ push_if (level = JStr ''restricted'') ''classification_restricted''
     @ push_if (level = JStr ''highly_confidential'') ''classification_highly_confidential''
     @ push_if (level = JStr ''confidential'') ''classification_confidential_disallows_action''
     @ push_if (jget (ah_matter i) ''confidentiality_class'' = JStr ''sealed'') ''matter_sealed''
     @ push_if (jget (ah_matter i) ''confidentiality_class'' = JStr ''heightened'') ''matter_heightened''
     @ (if ah_privilegeReviewState i = JStr ''not_reviewed'' then [''privilege_not_reviewed'']
        else push_if (ah_privilegeReviewState i = JStr ''privileged_protected'' \<or> ah_privilegeReviewState i = JStr ''privileged_with_waiver'')
               ''privilege_protected'')
     @ push_if (\<not> optInForAction i) ''missing_action_specific_opt_in''"

definition assertExternalHandlingAllowed :: "AssertExternalHandlingInput \<Rightarrow> HandlingDecision" where
  "assertExternalHandlingAllowed i =
     (let level = effectiveConfidentialityLevel (ah_targetType i) (ah_targetId i) (ah_classifications i);
          evidence = \<lparr>he_effectiveLevel = level, he_matterConfidentialityClass = jget (ah_matter i) ''confidentiality_class'',
            he_privilegeReviewState = ah_privilegeReviewState i, he_externalAction = ah_externalAction i,
            he_optInForAction = optInForAction i\<rparr> in
      if ah_externalAction i \<notin> set KNOWN_EXTERNAL_ACTIONS
      then \<lparr>hd_allowed = False, hd_denialReasons = [''external_action_not_recognized''], hd_evidence = evidence\<rparr>
      else \<lparr>hd_allowed = (length (denialReasons i level) = 0), hd_denialReasons = denialReasons i level,
            hd_evidence = evidence\<rparr>)"

end
