(* ===== verification/CaseBoxOcrLink.thy ===== *)
theory CaseBoxOcrLink
  imports CaseBoxDocument
begin

text \<open>
  \<open>services/case-box-persistence/src/inMemoryOcrLink.ts\<close>: the snapshot of an OCR job's state, one per
  document, created by the first upsert, refreshed by one that differs, left alone by one that does not.
\<close>

record OcrLinkState =
  linksByDocumentId :: "(jval, jval) jmap"
  linksByMatter :: "(jval, jval list) jmap"

definition createOcrLinkState :: OcrLinkState where
  "createOcrLinkState = \<lparr>linksByDocumentId = [], linksByMatter = []\<rparr>"

text \<open>Key-sorted JSON without any special case for \<open>undefined\<close>, which prints as nothing in an array and by its
  name in a template literal.\<close>

fun canonicalJson :: "jval \<Rightarrow> string" where
  "canonicalJson (JArr xs) = ''['' @ join (map (\<lambda>x. if x = JUndef then [] else canonicalJson x) xs) @ '']''"
| "canonicalJson (JObj kvs) =
     ''{'' @ join (map (\<lambda>(k, s). quote k @ '':'' @ s) (sort_key fst (map (\<lambda>(k, x). (k, canonicalJson x)) kvs))) @ ''}''"
| "canonicalJson JUndef = ''undefined''"
| "canonicalJson v = stringify v"

definition deepEqualLink :: "jval \<Rightarrow> jval \<Rightarrow> bool" where
  "deepEqualLink a b \<longleftrightarrow> canonicalJson a = canonicalJson b"

definition assertCaseBoxIsSubordinateToOcr :: "jval \<Rightarrow> string + unit" where
  "assertCaseBoxIsSubordinateToOcr link =
     requireR (jget link ''direction'' = JStr ''read-only'')
       (''CaseBoxOcrLink.direction must be \"read-only\" (got '' @ stringify (jget link ''direction'')
        @ ''). OCR is a subordinate data feed; case-box never writes to ocr-persistence.'')"

record PrepareUpsertOcrLinkResult =
  pu_link :: jval
  pu_audit :: "StoredAuditEvent option"
  pu_created :: bool
  pu_matterId :: jval

definition prepareUpsertOcrLink ::
  "CaseBoxLib \<Rightarrow> CallInputs \<Rightarrow> OcrLinkState \<Rightarrow> (jval, jval) jmap \<Rightarrow> document_map \<Rightarrow> InMemoryAuditLog \<Rightarrow> jval \<Rightarrow>
   case_exn + PrepareUpsertOcrLinkResult" where
  "prepareUpsertOcrLink L ci st matters documents audit link =
     bindR (schema_check (cl_validateOcrLink L link) ''invalid OCR link: '') (\<lambda>_.
     bindR (rethrow Invalid_payload (assertCaseBoxIsSubordinateToOcr link)) (\<lambda>_.
     (case mget documents (jget link ''document_id'') of
        None \<Rightarrow> case_error Unknown_document (''unknown document: '' @ js_String (jget link ''document_id''))
      | Some (document, matterId) \<Rightarrow>
     bindR (check (jget document ''tenant_id'' = jget link ''tenant_id'') Tenant_mismatch
              (''link.tenant_id ('' @ js_String (jget link ''tenant_id'') @ '') does not match document.tenant_id (''
               @ js_String (jget document ''tenant_id'') @ '')'')) (\<lambda>_.
     bindR (requireR (mget matters matterId \<noteq> None) (unknown_matter matterId)) (\<lambda>_.
     let prior = mget (linksByDocumentId st) (jget link ''document_id'') in
     case prior of
       Some p \<Rightarrow>
         if deepEqualLink p link
         then Inr \<lparr>pu_link = p, pu_audit = None, pu_created = False, pu_matterId = matterId\<rparr>
         else bindR (emitEvent (audit_lib L) (log_get audit matterId) (\<lambda>prevHash.
                (updatedEvent L ci ''OCR_LINK_REFRESHED'' matterId (jget link ''actor_user_id'')
                   (JStr (entityStateHash (audit_lib L) p)) link JUndef prevHash)\<lparr>be_entity_id := jget link ''document_id''\<rparr>)) (\<lambda>ev.
              Inr \<lparr>pu_link = link, pu_audit = Some ev, pu_created = False, pu_matterId = matterId\<rparr>)
     | None \<Rightarrow>
         bindR (emitEvent (audit_lib L) (log_get audit matterId) (\<lambda>prevHash.
           (updatedEvent L ci ''OCR_LINK_SNAPSHOTTED'' matterId (jget link ''actor_user_id'') JNull link JUndef prevHash)
             \<lparr>be_entity_id := jget link ''document_id''\<rparr>)) (\<lambda>ev.
         Inr \<lparr>pu_link = link, pu_audit = Some ev, pu_created = True, pu_matterId = matterId\<rparr>))))))"

text \<open>Storing a prepared link: the row of its document, and the document in the matter's set.\<close>

definition storeOcrLink :: "jval \<Rightarrow> jval \<Rightarrow> OcrLinkState \<Rightarrow> OcrLinkState" where
  "storeOcrLink matterId link st =
     st\<lparr>linksByDocumentId := mset_kv (jget link ''document_id'') link (linksByDocumentId st),
        linksByMatter := mset_kv matterId
          (List.insert (jget link ''document_id'')
             (case mget (linksByMatter st) matterId of Some ds \<Rightarrow> ds | None \<Rightarrow> [])) (linksByMatter st)\<rparr>"

end
