(* ===== verification/CaseBoxStore.thy ===== *)
theory CaseBoxStore
  imports CaseBoxEvidence CaseBoxFact CaseBoxDocket CaseBoxPrivilege CaseBoxClassification CaseBoxOcrLink
begin

text \<open>
  \<open>services/case-box-persistence/src/inMemoryRepo.ts\<close>: the in-memory case-box store, its writes and its scoped
  reads of one record. A write prepares the next record and its audit event, then stores both. The bodies
  that the delegates of the entity modules repeat are definitions of their own.
\<close>

record CaseBoxState =
  cs_matters :: "(jval, jval) jmap"
  cs_documents :: document_map
  cs_audit :: InMemoryAuditLog
  cs_classification :: RowTable
  cs_privilege :: IndexedTable
  cs_fact :: EntityTable
  cs_docket :: EntityTable
  cs_deadline :: EntityTable
  cs_evidence :: EntityTable
  cs_ocrLink :: OcrLinkState
  cs_claimTrack :: ClaimTrackState

definition newCaseBoxPersistence :: CaseBoxState where
  "newCaseBoxPersistence =
     \<lparr>cs_matters = [], cs_documents = [], cs_audit = emptyAuditLog, cs_classification = emptyRowTable,
      cs_privilege = emptyIndexedTable, cs_fact = emptyEntityTable, cs_docket = emptyEntityTable,
      cs_deadline = emptyEntityTable, cs_evidence = emptyEntityTable, cs_ocrLink = createOcrLinkState,
      cs_claimTrack = createClaimTrackState\<rparr>"

type_synonym 'a case_result = "(case_exn + 'a) \<times> CaseBoxState"

text \<open>The last step of every write: append the event; the call then returns \<open>x\<close>.\<close>

definition commitEvent :: "CaseBoxLib \<Rightarrow> jval \<Rightarrow> StoredAuditEvent \<Rightarrow> 'a \<Rightarrow> CaseBoxState \<Rightarrow> 'a case_result" where
  "commitEvent L m ev x s =
     (case log_append (audit_lib L) m ev (cs_audit s) of
        (Inl e, a) \<Rightarrow> (Inl e, s\<lparr>cs_audit := a\<rparr>)
      | (Inr _, a) \<Rightarrow> (Inr x, s\<lparr>cs_audit := a\<rparr>))"

definition commitEvents :: "CaseBoxLib \<Rightarrow> jval \<Rightarrow> StoredAuditEvent list \<Rightarrow> 'a \<Rightarrow> CaseBoxState \<Rightarrow> 'a case_result" where
  "commitEvents L m evs x s =
     (case log_appendAll (audit_lib L) m evs (cs_audit s) of
        (Inl e, a) \<Rightarrow> (Inl e, s\<lparr>cs_audit := a\<rparr>)
      | (Inr _, a) \<Rightarrow> (Inr x, s\<lparr>cs_audit := a\<rparr>))"

subsection \<open>Matters\<close>

definition createMatter :: "CaseBoxLib \<Rightarrow> CallInputs \<Rightarrow> jval \<Rightarrow> CaseBoxState \<Rightarrow> jval case_result" where
  "createMatter L ci input s =
     (case prepareCreateMatter L ci (cs_matters s) input of
        Inl e \<Rightarrow> (Inl e, s)
      | Inr (matter, ev) \<Rightarrow>
          (let s1 = s\<lparr>cs_matters := mset_kv (jget matter ''id'') matter (cs_matters s)\<rparr> in
           case log_reset (audit_lib L) (jget matter ''id'') [ev] (cs_audit s1) of
             (Inl e, a) \<Rightarrow> (Inl e, s1\<lparr>cs_audit := a\<rparr>)
           | (Inr _, a) \<Rightarrow> (Inr matter, s1\<lparr>cs_audit := a\<rparr>)))"

definition applyMatterTransition ::
  "CaseBoxLib \<Rightarrow> CallInputs \<Rightarrow> jval \<Rightarrow> ArchiveMatterOpts \<Rightarrow> string \<Rightarrow> string \<Rightarrow> CaseBoxState \<Rightarrow> jval case_result" where
  "applyMatterTransition L ci matterId opts to kind s =
     (case mget (cs_matters s) matterId of
        None \<Rightarrow> (Inl (unknown_matter matterId), s)
      | Some matter \<Rightarrow>
          (case prepareMatterTransition L ci matter opts to kind (log_get (cs_audit s) matterId) of
             Inl e \<Rightarrow> (Inl e, s)
           | Inr (next, ev) \<Rightarrow>
               commitEvent L matterId ev next (s\<lparr>cs_matters := mset_kv matterId next (cs_matters s)\<rparr>)))"

definition archiveMatter :: "CaseBoxLib \<Rightarrow> CallInputs \<Rightarrow> jval \<Rightarrow> ArchiveMatterOpts \<Rightarrow> CaseBoxState \<Rightarrow> jval case_result" where
  "archiveMatter L ci matterId opts = applyMatterTransition L ci matterId opts ''archived'' ''MATTER_ARCHIVED''"

definition unarchiveMatter :: "CaseBoxLib \<Rightarrow> CallInputs \<Rightarrow> jval \<Rightarrow> ArchiveMatterOpts \<Rightarrow> CaseBoxState \<Rightarrow> jval case_result" where
  "unarchiveMatter L ci matterId opts = applyMatterTransition L ci matterId opts ''active'' ''MATTER_UNARCHIVED''"

definition ensureMatterPartyIds :: "CaseBoxLib \<Rightarrow> CallInputs \<Rightarrow> jval \<Rightarrow> jval \<Rightarrow> CaseBoxState \<Rightarrow> jval case_result" where
  "ensureMatterPartyIds L ci matterId actorUserId s =
     (case mget (cs_matters s) matterId of
        None \<Rightarrow> (Inl (unknown_matter matterId), s)
      | Some matter \<Rightarrow>
          (case prepareEnsureMatterPartyIds L ci matter actorUserId (log_get (cs_audit s) matterId) of
             Inl e \<Rightarrow> (Inl e, s)
           | Inr None \<Rightarrow> (Inr matter, s)
           | Inr (Some (next, ev)) \<Rightarrow>
               commitEvent L matterId ev next (s\<lparr>cs_matters := mset_kv matterId next (cs_matters s)\<rparr>)))"

definition latestPriorMatterEvent :: "jval \<Rightarrow> StoredAuditEvent list \<Rightarrow> StoredAuditEvent option" where
  "latestPriorMatterEvent matterId events =
     List.find (\<lambda>ev. jget (sa_event ev) ''entity_type'' = JStr ''matter'' \<and> jget (sa_event ev) ''entity_id'' = matterId)
       (rev events)"

definition updateMatterDetails ::
  "CaseBoxLib \<Rightarrow> CallInputs \<Rightarrow> jval \<Rightarrow> UpdateMatterDetailsOpts \<Rightarrow> CaseBoxState \<Rightarrow> jval case_result" where
  "updateMatterDetails L ci matterId opts s =
     (case mget (cs_matters s) matterId of
        None \<Rightarrow> (Inl (unknown_matter matterId), s)
      | Some matter \<Rightarrow>
          (let stored = log_get (cs_audit s) matterId in
           case prepareMatterDetailsUpdate L ci matter opts stored (latestPriorMatterEvent matterId stored) of
             Inl e \<Rightarrow> (Inl e, s)
           | Inr (next, ev) \<Rightarrow>
               commitEvent L matterId ev next (s\<lparr>cs_matters := mset_kv matterId next (cs_matters s)\<rparr>)))"

definition getMatter :: "jval \<Rightarrow> CaseBoxState \<Rightarrow> jval option" where
  "getMatter matterId s = mget (cs_matters s) matterId"

subsection \<open>Documents and claim tracks\<close>

definition registerDocument :: "CaseBoxLib \<Rightarrow> CallInputs \<Rightarrow> jval \<Rightarrow> jval \<Rightarrow> CaseBoxState \<Rightarrow> jval case_result" where
  "registerDocument L ci matterId input s =
     (case mget (cs_matters s) matterId of
        None \<Rightarrow> (Inl (unknown_matter matterId), s)
      | Some matter \<Rightarrow>
          (case prepareRegisterDocument L ci matterId matter (cs_documents s) (log_get (cs_audit s) matterId) input of
             Inl e \<Rightarrow> (Inl e, s)
           | Inr (document, ev) \<Rightarrow>
               commitEvent L matterId ev document
                 (s\<lparr>cs_documents := mset_kv (jget document ''id'') (document, matterId) (cs_documents s)\<rparr>)))"

definition getDocument :: "jval \<Rightarrow> CaseBoxState \<Rightarrow> jval option" where
  "getDocument documentId s = map_option fst (mget (cs_documents s) documentId)"

definition createClaimTrack :: "CaseBoxLib \<Rightarrow> CallInputs \<Rightarrow> jval \<Rightarrow> CaseBoxState \<Rightarrow> jval case_result" where
  "createClaimTrack L ci input s =
     (let stored = (if is_str (jget input ''matter_id'') then log_get (cs_audit s) (jget input ''matter_id'') else []) in
      case prepareCreateClaimTrack L ci (cs_claimTrack s) (cs_matters s) stored input of
        Inl e \<Rightarrow> (Inl e, s)
      | Inr (row, ev) \<Rightarrow>
          commitEvent L (jget row ''matter_id'') ev row (s\<lparr>cs_claimTrack := pushEntity (jget row ''matter_id'') row (cs_claimTrack s)\<rparr>))"

subsection \<open>The bodies of the entity delegates\<close>

text \<open>Appending: the matter named by the input must exist; the row is prepared over that matter's events; its own
  matter must exist and, for the modules that check it (they pass a label), have the row's tenant; then the
  row is stored and its event appended.\<close>

definition appendBody ::
  "CaseBoxLib \<Rightarrow> string option \<Rightarrow> (jval \<Rightarrow> jval \<Rightarrow> CaseBoxState \<Rightarrow> CaseBoxState) \<Rightarrow>
   (StoredAuditEvent list \<Rightarrow> case_exn + (jval \<times> StoredAuditEvent)) \<Rightarrow> jval \<Rightarrow> CaseBoxState \<Rightarrow> jval case_result" where
  "appendBody L label store prepare input s =
     (let m = jget input ''matter_id'' in
      if is_str m \<and> mget (cs_matters s) m = None then (Inl (unknown_matter m), s)
      else case prepare (if is_str m then log_get (cs_audit s) m else []) of
        Inl e \<Rightarrow> (Inl e, s)
      | Inr (row, ev) \<Rightarrow>
          (case mget (cs_matters s) (jget row ''matter_id'') of
             None \<Rightarrow> (Inl (unknown_matter (jget row ''matter_id'')), s)
           | Some matter \<Rightarrow>
               (case label of
                  Some l \<Rightarrow>
                    if jget matter ''tenant_id'' \<noteq> jget row ''tenant_id''
                    then (Inl (CaseBoxPersistenceError Tenant_mismatch
                            (l @ ''.tenant_id ('' @ js_String (jget row ''tenant_id'') @ '') does not match matter.tenant_id (''
                             @ js_String (jget matter ''tenant_id'') @ '')'')), s)
                    else commitEvent L (jget row ''matter_id'') ev row (store (jget row ''matter_id'') row s)
                | None \<Rightarrow> commitEvent L (jget row ''matter_id'') ev row (store (jget row ''matter_id'') row s))))"

text \<open>A transition: store the next row in place of the old one and append its event.\<close>

definition replaceBody ::
  "CaseBoxLib \<Rightarrow> (jval \<Rightarrow> jval \<Rightarrow> CaseBoxState \<Rightarrow> CaseBoxState) \<Rightarrow>
   case_exn + (jval \<times> StoredAuditEvent \<times> jval) \<Rightarrow> CaseBoxState \<Rightarrow> jval case_result" where
  "replaceBody L store prepared s =
     (case prepared of
        Inl e \<Rightarrow> (Inl e, s)
      | Inr (next, ev, matterId) \<Rightarrow> commitEvent L matterId ev next (store matterId next s))"

subsection \<open>Evidence, facts, deadlines\<close>

definition appendEvidenceItem :: "CaseBoxLib \<Rightarrow> CallInputs \<Rightarrow> jval \<Rightarrow> CaseBoxState \<Rightarrow> jval case_result" where
  "appendEvidenceItem L ci input s =
     appendBody L (Some ''evidence'') (\<lambda>m row s. s\<lparr>cs_evidence := pushEntity m row (cs_evidence s)\<rparr>)
       (\<lambda>stored. prepareAppendEvidenceItem L ci (cs_evidence s) (cs_documents s) stored input) input s"

definition transitionEvidenceItem ::
  "CaseBoxLib \<Rightarrow> CallInputs \<Rightarrow> jval \<Rightarrow> EvidenceTransitionOpts \<Rightarrow> CaseBoxState \<Rightarrow> jval case_result" where
  "transitionEvidenceItem L ci k opts s =
     replaceBody L (\<lambda>m nx s. s\<lparr>cs_evidence := putEntity m k nx (cs_evidence s)\<rparr>)
       (prepareTransitionEvidenceItem L ci (cs_evidence s) k opts (log_get (cs_audit s))) s"

definition appendFact :: "CaseBoxLib \<Rightarrow> CallInputs \<Rightarrow> jval \<Rightarrow> CaseBoxState \<Rightarrow> jval case_result" where
  "appendFact L ci input s =
     appendBody L (Some ''fact'') (\<lambda>m row s. s\<lparr>cs_fact := pushEntity m row (cs_fact s)\<rparr>)
       (\<lambda>stored. prepareAppendFact L ci (cs_fact s) (cs_documents s) stored input) input s"

text \<open>The replay-safe variant: the stored row is returned when the input projects to the same text.\<close>

definition appendFactOnce :: "CaseBoxLib \<Rightarrow> CallInputs \<Rightarrow> jval \<Rightarrow> CaseBoxState \<Rightarrow> jval case_result" where
  "appendFactOnce L ci input s =
     (case (if nonempty_string (jget input ''id'') then mget (rt_byId (cs_fact s)) (jget input ''id'') else None) of
        None \<Rightarrow> appendFact L ci input s
      | Some stored \<Rightarrow>
          if is_str (jget input ''tenant_id'') \<and> jget input ''tenant_id'' \<noteq> jget stored ''tenant_id''
          then appendFact L ci input s
          else case (factCanonicalProjection stored, factCanonicalProjection input) of
            (Some a, Some b) \<Rightarrow> if a = b then (Inr stored, s) else appendFact L ci input s
          | _ \<Rightarrow> appendFact L ci input s)"

definition transitionFact :: "CaseBoxLib \<Rightarrow> CallInputs \<Rightarrow> jval \<Rightarrow> FactTransitionOpts \<Rightarrow> CaseBoxState \<Rightarrow> jval case_result" where
  "transitionFact L ci k opts s =
     replaceBody L (\<lambda>m nx s. s\<lparr>cs_fact := putEntity m k nx (cs_fact s)\<rparr>)
       (prepareTransitionFact L ci (cs_fact s) k opts (log_get (cs_audit s))) s"

definition transitionDeadline ::
  "CaseBoxLib \<Rightarrow> CallInputs \<Rightarrow> jval \<Rightarrow> DeadlineTransitionOpts \<Rightarrow> CaseBoxState \<Rightarrow> jval case_result" where
  "transitionDeadline L ci k opts s =
     replaceBody L (\<lambda>m nx s. s\<lparr>cs_deadline := putEntity m k nx (cs_deadline s)\<rparr>)
       (prepareTransitionDeadline L ci (cs_deadline s) k opts (log_get (cs_audit s))) s"

subsection \<open>Docket entries\<close>

definition appendDocketEntry :: "CaseBoxLib \<Rightarrow> CallInputs \<Rightarrow> jval \<Rightarrow> CaseBoxState \<Rightarrow> jval case_result" where
  "appendDocketEntry L ci input s =
     appendBody L (Some ''entry'') (\<lambda>m row s. s\<lparr>cs_docket := pushEntity m row (cs_docket s)\<rparr>)
       (\<lambda>stored. prepareAppendDocketEntry L ci (cs_docket s) (cs_documents s) stored input) input s"

record ConfirmDocketEntryResult =
  cr_entry :: jval
  cr_deadline :: jval
  cr_idempotent :: bool

definition confirmDocketEntry ::
  "CaseBoxLib \<Rightarrow> CallInputs \<Rightarrow> jval \<Rightarrow> ConfirmDocketEntryOpts \<Rightarrow> CaseBoxState \<Rightarrow> ConfirmDocketEntryResult case_result" where
  "confirmDocketEntry L ci entryId opts s =
     (case prepareConfirmDocketEntry L ci (cs_docket s) (cs_deadline s) entryId opts (log_get (cs_audit s)) of
        Inl e \<Rightarrow> (Inl e, s)
      | Inr p \<Rightarrow>
          if pc_idempotent p
          then (Inr \<lparr>cr_entry = pc_entry p, cr_deadline = pc_deadline p, cr_idempotent = True\<rparr>, s)
          else commitEvents L (pc_matterId p) (pc_audits p)
                 \<lparr>cr_entry = pc_entry p, cr_deadline = pc_deadline p, cr_idempotent = False\<rparr>
                 (s\<lparr>cs_docket := putEntity (pc_matterId p) entryId (pc_entry p) (cs_docket s),
                    cs_deadline := pushEntity (pc_matterId p) (pc_deadline p) (cs_deadline s)\<rparr>))"

definition dismissDocketEntry ::
  "CaseBoxLib \<Rightarrow> CallInputs \<Rightarrow> jval \<Rightarrow> DismissDocketEntryOpts \<Rightarrow> CaseBoxState \<Rightarrow> jval case_result" where
  "dismissDocketEntry L ci k opts s =
     replaceBody L (\<lambda>m nx s. s\<lparr>cs_docket := putEntity m k nx (cs_docket s)\<rparr>)
       (prepareDismissDocketEntry L ci (cs_docket s) k opts (log_get (cs_audit s))) s"

definition editDocketEntry :: "CaseBoxLib \<Rightarrow> CallInputs \<Rightarrow> EditDocketEntryOpts \<Rightarrow> CaseBoxState \<Rightarrow> jval case_result" where
  "editDocketEntry L ci opts s =
     (case mget (cs_matters s) (ed_matter_id opts) of
        None \<Rightarrow> (Inl (unknown_matter (ed_matter_id opts)), s)
      | Some matter \<Rightarrow>
          if jget matter ''tenant_id'' \<noteq> ed_tenant_id opts
          then (Inl (CaseBoxPersistenceError Tenant_mismatch
                  (''opts.tenant_id ('' @ js_String (ed_tenant_id opts) @ '') does not match matter.tenant_id (''
                   @ js_String (jget matter ''tenant_id'') @ '')'')), s)
          else replaceBody L (\<lambda>m nx s. s\<lparr>cs_docket := putEntity m (ed_entry_id opts) nx (cs_docket s)\<rparr>)
                 (prepareEditDocketEntry L ci (cs_docket s) opts (log_get (cs_audit s))) s)"

subsection \<open>Privilege markers, classifications, OCR links\<close>

definition appendPrivilegeMarker :: "CaseBoxLib \<Rightarrow> CallInputs \<Rightarrow> jval \<Rightarrow> CaseBoxState \<Rightarrow> jval case_result" where
  "appendPrivilegeMarker L ci input s =
     appendBody L None (\<lambda>m row s. s\<lparr>cs_privilege := pushIndexed m row (cs_privilege s)\<rparr>)
       (\<lambda>stored. prepareAppendPrivilegeMarker L ci (cs_privilege s) (cs_documents s) stored input) input s"

definition transitionPrivilegeMarker ::
  "CaseBoxLib \<Rightarrow> CallInputs \<Rightarrow> jval \<Rightarrow> PrivilegeTransitionOpts \<Rightarrow> CaseBoxState \<Rightarrow> jval case_result" where
  "transitionPrivilegeMarker L ci k opts s =
     replaceBody L (\<lambda>m nx s. s\<lparr>cs_privilege := putRow m k nx (cs_privilege s)\<rparr>)
       (prepareTransitionPrivilegeMarker L ci (cs_privilege s) k opts (log_get (cs_audit s))) s"

definition appendClassification :: "CaseBoxLib \<Rightarrow> CallInputs \<Rightarrow> jval \<Rightarrow> CaseBoxState \<Rightarrow> jval case_result" where
  "appendClassification L ci input s =
     appendBody L None (\<lambda>m row s. s\<lparr>cs_classification := pushRow m row (cs_classification s)\<rparr>)
       (\<lambda>stored. prepareAppendClassification L ci (cs_classification s) (cs_documents s) stored input) input s"

definition upsertOcrLink :: "CaseBoxLib \<Rightarrow> CallInputs \<Rightarrow> jval \<Rightarrow> CaseBoxState \<Rightarrow> (jval \<times> bool) case_result" where
  "upsertOcrLink L ci input s =
     (case prepareUpsertOcrLink L ci (cs_ocrLink s) (cs_matters s) (cs_documents s) (cs_audit s) input of
        Inl e \<Rightarrow> (Inl e, s)
      | Inr p \<Rightarrow>
          (case pu_audit p of
             None \<Rightarrow> (Inr (pu_link p, False), s)
           | Some ev \<Rightarrow>
               commitEvent L (pu_matterId p) ev (pu_link p, pu_created p)
                 (s\<lparr>cs_ocrLink := storeOcrLink (pu_matterId p) (pu_link p) (cs_ocrLink s)\<rparr>)))"

subsection \<open>Scoped reads\<close>

definition tenant_mismatch :: "jval \<Rightarrow> jval \<Rightarrow> case_exn" where
  "tenant_mismatch queried actual =
     CaseBoxPersistenceError Tenant_mismatch
       (''query.tenant_id ('' @ js_String queried @ '') does not match matter.tenant_id ('' @ js_String actual @ '')'')"

text \<open>A record is returned only in the scope of its own matter and tenant; elsewhere it is as if absent.\<close>

definition scopedGet :: "(jval, jval) jmap \<Rightarrow> jval \<Rightarrow> jval \<Rightarrow> jval \<Rightarrow> CaseBoxState \<Rightarrow> case_exn + jval option" where
  "scopedGet byId tenant matterId k s =
     (case mget (cs_matters s) matterId of
        None \<Rightarrow> Inr None
      | Some matter \<Rightarrow>
          if jget matter ''tenant_id'' \<noteq> tenant then Inl (tenant_mismatch tenant (jget matter ''tenant_id''))
          else case mget byId k of
            None \<Rightarrow> Inr None
          | Some row \<Rightarrow>
              if jget row ''matter_id'' \<noteq> matterId then Inr None
              else if jget row ''tenant_id'' \<noteq> tenant then Inr None
              else Inr (Some row))"

definition getClaimTrack :: "jval \<Rightarrow> jval \<Rightarrow> jval \<Rightarrow> CaseBoxState \<Rightarrow> case_exn + jval option" where
  "getClaimTrack tenant matterId k s = scopedGet (rt_byId (cs_claimTrack s)) tenant matterId k s"

definition getEvidenceItem :: "jval \<Rightarrow> jval \<Rightarrow> jval \<Rightarrow> CaseBoxState \<Rightarrow> case_exn + jval option" where
  "getEvidenceItem tenant matterId k s = scopedGet (rt_byId (cs_evidence s)) tenant matterId k s"

definition getFact :: "jval \<Rightarrow> jval \<Rightarrow> jval \<Rightarrow> CaseBoxState \<Rightarrow> case_exn + jval option" where
  "getFact tenant matterId k s = scopedGet (rt_byId (cs_fact s)) tenant matterId k s"

definition getDocketEntry :: "jval \<Rightarrow> jval \<Rightarrow> jval \<Rightarrow> CaseBoxState \<Rightarrow> case_exn + jval option" where
  "getDocketEntry tenant matterId k s = scopedGet (rt_byId (cs_docket s)) tenant matterId k s"

definition getDeadline :: "jval \<Rightarrow> jval \<Rightarrow> jval \<Rightarrow> CaseBoxState \<Rightarrow> case_exn + jval option" where
  "getDeadline tenant matterId k s = scopedGet (rt_byId (cs_deadline s)) tenant matterId k s"

definition getOcrLink :: "jval \<Rightarrow> jval \<Rightarrow> jval \<Rightarrow> CaseBoxState \<Rightarrow> case_exn + jval option" where
  "getOcrLink tenant matterId documentId s =
     (case mget (cs_matters s) matterId of
        None \<Rightarrow> Inr None
      | Some matter \<Rightarrow>
          if jget matter ''tenant_id'' \<noteq> tenant then Inl (tenant_mismatch tenant (jget matter ''tenant_id''))
          else case mget (cs_documents s) documentId of
            None \<Rightarrow> Inr None
          | Some (document, m) \<Rightarrow>
              if m \<noteq> matterId then Inr None
              else if jget document ''tenant_id'' \<noteq> tenant then Inr None
              else Inr (mget (linksByDocumentId (cs_ocrLink s)) documentId))"

text \<open>The guard before a matter's records are listed.\<close>

definition requireMatterScope :: "jval \<Rightarrow> jval \<Rightarrow> CaseBoxState \<Rightarrow> case_exn + jval" where
  "requireMatterScope tenant matterId s =
     (case mget (cs_matters s) matterId of
        None \<Rightarrow> Inl (unknown_matter matterId)
      | Some matter \<Rightarrow>
          if jget matter ''tenant_id'' \<noteq> tenant then Inl (tenant_mismatch tenant (jget matter ''tenant_id''))
          else Inr matter)"

definition listClaimTracksOf :: "jval \<Rightarrow> jval \<Rightarrow> CaseBoxState \<Rightarrow> case_exn + jval list" where
  "listClaimTracksOf tenant matterId s =
     bindR (requireMatterScope tenant matterId s) (\<lambda>_.
     Inr (listClaimTracks (cs_claimTrack s) tenant matterId))"

text \<open>The scope checks of the two resolvers of a document's standing.\<close>

definition requireDocumentTarget :: "string \<Rightarrow> jval \<Rightarrow> jval \<Rightarrow> jval \<Rightarrow> jval \<Rightarrow> CaseBoxState \<Rightarrow> case_exn + unit" where
  "requireDocumentTarget reader tenant matterId targetType targetId s =
     bindR (requireMatterScope tenant matterId s) (\<lambda>_.
     bindR (check (targetType = JStr ''document'') Invalid_argument
              (reader @ '' (got '' @ stringify targetType @ '')'')) (\<lambda>_.
     (case mget (cs_documents s) targetId of
        None \<Rightarrow> case_error Unknown_document (''unknown document target: '' @ js_String targetId)
      | Some (document, _) \<Rightarrow>
          bindR (check (jget document ''tenant_id'' = tenant) Tenant_mismatch
                   (''document.tenant_id ('' @ js_String (jget document ''tenant_id'') @ '') does not match query.tenant_id (''
                    @ js_String tenant @ '')'')) (\<lambda>_.
          check (jget document ''matter_id'' = matterId) Matter_id_mismatched
            (''document.matter_id ('' @ js_String (jget document ''matter_id'') @ '') does not match query.matter_id (''
             @ js_String matterId @ '')'')))))"

definition getPrivilegeStatus :: "jval \<Rightarrow> jval \<Rightarrow> jval \<Rightarrow> jval \<Rightarrow> CaseBoxState \<Rightarrow> case_exn + PrivilegeResolution" where
  "getPrivilegeStatus tenant matterId targetType targetId s =
     bindR (requireDocumentTarget ''getPrivilegeStatus accepts target_type \"document\" only in A3''
              tenant matterId targetType targetId s) (\<lambda>_.
     Inr (getEffectivePrivilege (cs_privilege s) matterId targetType targetId))"

definition getEffectiveClassification :: "jval \<Rightarrow> jval \<Rightarrow> jval \<Rightarrow> jval \<Rightarrow> CaseBoxState \<Rightarrow> case_exn + (jval \<times> jval list)" where
  "getEffectiveClassification tenant matterId targetType targetId s =
     bindR (requireDocumentTarget ''getEffectiveClassification accepts target_type \"document\" only in A2''
              tenant matterId targetType targetId s) (\<lambda>_.
     Inr (computeEffectiveLevel (cs_classification s) matterId targetType targetId))"

subsection \<open>The audit trail of the store\<close>

definition verifyAuditChainForMatter :: "CaseBoxLib \<Rightarrow> jval \<Rightarrow> CaseBoxState \<Rightarrow> case_exn + ChainVerifyResult" where
  "verifyAuditChainForMatter L matterId s =
     verifyAuditChainForMatterHelper (audit_lib L) (cs_matters s) (cs_audit s) matterId"

definition getAuditChainHead :: "CaseBoxLib \<Rightarrow> jval \<Rightarrow> CaseBoxState \<Rightarrow> case_exn + AuditChainHead" where
  "getAuditChainHead L matterId s =
     getAuditChainHeadHelper (audit_lib L) (cs_matters s) (cs_audit s) matterId"

text \<open>Histories: any sequence of writes, whatever they return. The generator of identifiers gives no empty one.\<close>

definition ids_ok :: "CallInputs \<Rightarrow> bool" where
  "ids_ok ci \<longleftrightarrow> [] \<notin> range (ci_id ci)"

inductive case_step :: "CaseBoxLib \<Rightarrow> CaseBoxState \<Rightarrow> CaseBoxState \<Rightarrow> bool" for L where
  case_create: "ids_ok ci \<Longrightarrow> createMatter L ci input s = (r, s') \<Longrightarrow> case_step L s s'"
| case_archive: "archiveMatter L ci m opts s = (r, s') \<Longrightarrow> case_step L s s'"
| case_unarchive: "unarchiveMatter L ci m opts s = (r, s') \<Longrightarrow> case_step L s s'"
| case_party_ids: "ensureMatterPartyIds L ci m actor s = (r, s') \<Longrightarrow> case_step L s s'"
| case_details: "updateMatterDetails L ci m uopts s = (r, s') \<Longrightarrow> case_step L s s'"
| case_document: "registerDocument L ci m input s = (r, s') \<Longrightarrow> case_step L s s'"
| case_claim_track: "createClaimTrack L ci input s = (r, s') \<Longrightarrow> case_step L s s'"
| case_evidence: "appendEvidenceItem L ci input s = (r, s') \<Longrightarrow> case_step L s s'"
| case_evidence_transition: "transitionEvidenceItem L ci k eopts s = (r, s') \<Longrightarrow> case_step L s s'"
| case_fact: "appendFact L ci input s = (r, s') \<Longrightarrow> case_step L s s'"
| case_fact_once: "appendFactOnce L ci input s = (r, s') \<Longrightarrow> case_step L s s'"
| case_fact_transition: "transitionFact L ci k fopts s = (r, s') \<Longrightarrow> case_step L s s'"
| case_deadline_transition: "transitionDeadline L ci k dopts s = (r, s') \<Longrightarrow> case_step L s s'"
| case_docket: "appendDocketEntry L ci input s = (r, s') \<Longrightarrow> case_step L s s'"
| case_docket_confirm: "confirmDocketEntry L ci k copts s = (cr, s') \<Longrightarrow> case_step L s s'"
| case_docket_dismiss: "dismissDocketEntry L ci k diopts s = (r, s') \<Longrightarrow> case_step L s s'"
| case_docket_edit: "editDocketEntry L ci edopts s = (r, s') \<Longrightarrow> case_step L s s'"
| case_privilege: "appendPrivilegeMarker L ci input s = (r, s') \<Longrightarrow> case_step L s s'"
| case_privilege_transition: "transitionPrivilegeMarker L ci k popts s = (r, s') \<Longrightarrow> case_step L s s'"
| case_classification: "appendClassification L ci input s = (r, s') \<Longrightarrow> case_step L s s'"
| case_ocr_link: "upsertOcrLink L ci input s = (lr, s') \<Longrightarrow> case_step L s s'"

end
