(* ===== verification/CaseBoxInvariant.thy ===== *)
theory CaseBoxInvariant
  imports CaseBoxStore "HOL-Library.Sublist"
begin

text \<open>
  What every write of the case-box store keeps: each matter's chain verifies under its anchor; the events of a
  matter and of every stored record form an unbroken sequence of state hashes that ends in the record, and
  the statuses they announce are a path of the contract's state machine that ends in the record's status; an
  event names only records the store knows; parties are identified.
\<close>

subsection \<open>The log\<close>

lemma log_append_run:
  assumes "eventHashFn L (sa_event ev) = Inr h"
  shows "\<exists>a'. log_append L m ev a = (Inr (), a') \<and>
    (\<forall>k. log_get a' k = (if k = m then log_get a m @ [ev] else log_get a k)) \<and>
    (\<forall>k. log_anchor a' k = (if k = m then Some \<lparr>ah_headHash = h, ah_count = Suc (length (log_get a m))\<rparr> else log_anchor a k))"
  using assms by (simp add: log_append_def log_get_def log_anchor_def Let_def)

lemma log_reset_run:
  assumes "eventHashFn L (sa_event ev) = Inr h"
  shows "\<exists>a'. log_reset L m [ev] a = (Inr (), a') \<and>
    (\<forall>k. log_get a' k = (if k = m then [ev] else log_get a k)) \<and>
    (\<forall>k. log_anchor a' k = (if k = m then Some \<lparr>ah_headHash = h, ah_count = 1\<rparr> else log_anchor a k))"
  using assms by (simp add: log_reset_def log_append_def log_get_def log_anchor_def Let_def)

subsection \<open>The events of a record\<close>

definition is_event_of :: "string \<Rightarrow> jval \<Rightarrow> jval \<Rightarrow> bool" where
  "is_event_of name k e \<longleftrightarrow> jget e ''entity_type'' = JStr name \<and> jget e ''entity_id'' = k"

text \<open>Each state hash an event starts from is the one the event before it ended in, with one exception, which is
  the code's (inMemoryFact.ts, \<open>before_state_hash: isReplacement ? null : ...\<close>): the event
  \<open>FACT_REPLACEMENT_ACCEPTED\<close> is a creation, which must start from \<open>null\<close>, although the accepted fact already
  has its candidate and its reviewed state in the log.\<close>

definition starts_from :: "jval \<Rightarrow> jval \<Rightarrow> bool" where
  "starts_from before e \<longleftrightarrow> jget e ''before_state_hash'' =
     (if jget e ''event_kind'' = JStr ''FACT_REPLACEMENT_ACCEPTED'' then JNull else before)"

fun linked_states :: "jval \<Rightarrow> jval list \<Rightarrow> bool" where
  "linked_states before [] = True"
| "linked_states before (e # es) = (starts_from before e \<and> linked_states (jget e ''after_state_hash'') es)"

fun last_state :: "jval \<Rightarrow> jval list \<Rightarrow> jval" where
  "last_state before [] = before"
| "last_state before (e # es) = last_state (jget e ''after_state_hash'') es"

lemma linked_states_snoc:
  "linked_states before (es @ [e]) \<longleftrightarrow> linked_states before es \<and> starts_from (last_state before es) e"
  by (induction es arbitrary: before) auto

lemma last_state_snoc [simp]: "last_state before (es @ [e]) = jget e ''after_state_hash''"
  by (induction es arbitrary: before) auto

definition entity_events :: "string \<Rightarrow> jval \<Rightarrow> StoredAuditEvent list \<Rightarrow> jval list" where
  "entity_events name k stored = filter (is_event_of name k) (map sa_event stored)"

definition record_trail :: "AuditLib \<Rightarrow> string \<Rightarrow> jval \<Rightarrow> jval \<Rightarrow> StoredAuditEvent list \<Rightarrow> bool" where
  "record_trail L name k row stored \<longleftrightarrow>
     linked_states JNull (entity_events name k stored) \<and> entity_events name k stored \<noteq> [] \<and>
     last_state JNull (entity_events name k stored) = JStr (entityStateHash L row)"

abbreviation matter_trail :: "AuditLib \<Rightarrow> jval \<Rightarrow> jval \<Rightarrow> StoredAuditEvent list \<Rightarrow> bool" where
  "matter_trail L m matter stored \<equiv> record_trail L ''matter'' m matter stored"

lemma entity_events_snoc:
  "entity_events name k (stored @ [ev]) =
     entity_events name k stored @ (if is_event_of name k (sa_event ev) then [sa_event ev] else [])"
  by (simp add: entity_events_def)

lemma record_trail_other:
  "\<not> is_event_of name k (sa_event ev) \<Longrightarrow> record_trail L name k row (stored @ [ev]) = record_trail L name k row stored"
  by (simp add: record_trail_def entity_events_snoc)

lemma record_trail_snoc:
  assumes "is_event_of name k (sa_event ev)" and "linked_states JNull (entity_events name k stored)"
    and "starts_from (last_state JNull (entity_events name k stored)) (sa_event ev)"
    and "jget (sa_event ev) ''after_state_hash'' = JStr (entityStateHash L row)"
  shows "record_trail L name k row (stored @ [ev])"
  using assms by (simp add: record_trail_def entity_events_snoc linked_states_snoc)

lemma find_rev_snoc: "List.find P (rev (xs @ [x])) = (if P x then Some x else List.find P (rev xs))"
  by simp

lemma latest_matter_event:
  "latestPriorMatterEvent m stored = Some ev \<Longrightarrow>
   entity_events ''matter'' m stored \<noteq> [] \<and> last_state JNull (entity_events ''matter'' m stored) = jget (sa_event ev) ''after_state_hash''"
  unfolding latestPriorMatterEvent_def is_event_of_def [symmetric]
  by (induction stored rule: rev_induct) (auto simp: entity_events_snoc find_rev_snoc simp: entity_events_def split: if_splits)

subsection \<open>Identified parties\<close>

definition party_ids :: "jval \<Rightarrow> jval list" where
  "party_ids matter = map (\<lambda>party. jget party ''id'') (jelems (jget matter ''parties''))"

definition parties_ok :: "jval \<Rightarrow> bool" where
  "parties_ok matter \<longleftrightarrow> (\<forall>x\<in>set (party_ids matter). nonempty_string x) \<and> distinct (party_ids matter)"

lemma drawPartyId_fresh:
  "drawPartyId gen seen attempts n = Inr (x, n') \<Longrightarrow> x \<notin> set seen \<and> x \<in> range gen"
proof (induction gen seen attempts n rule: drawPartyId.induct)
  case (1 gen seen attempts n)
  then show ?case
    by (cases "gen n \<notin> set seen"; cases "MAX_PARTY_ID_GENERATION_ATTEMPTS < Suc attempts")
       (auto simp: drawPartyId.simps [of gen seen attempts n] case_error_def)
qed

definition given_ids :: "jval list \<Rightarrow> string list" where
  "given_ids ps = concat (map (\<lambda>p. case jget p ''id'' of JStr s \<Rightarrow> if s = [] then [] else [s] | _ \<Rightarrow> []) ps)"

lemma given_ids_simps [simp]:
  "given_ids [] = []"
  "given_ids (p # ps) = (case jget p ''id'' of JStr s \<Rightarrow> if s = [] then [] else [s] | _ \<Rightarrow> []) @ given_ids ps"
  by (simp_all add: given_ids_def)

lemma nonempty_string_iff: "nonempty_string v \<longleftrightarrow> (\<exists>s. v = JStr s \<and> s \<noteq> [])"
  by (cases v) (auto simp: nonempty_string_def)

lemma collectPartyIds_Inr:
  "collectPartyIds matter seen ps = Inr seen' \<Longrightarrow>
   set seen' = set seen \<union> set (given_ids ps) \<and> distinct (given_ids ps) \<and> set (given_ids ps) \<inter> set seen = {}"
proof (induction ps arbitrary: seen)
  case (Cons p ps)
  then show ?case
    by (cases "jget p ''id''") (fastforce simp: case_error_def split: if_splits)+
qed simp

lemma assignPartyIds_Inr:
  assumes "assignPartyIds gen seen n ps = Inr (qs, n', k)" and "set (given_ids ps) \<subseteq> set seen"
    and "distinct (given_ids ps)" and "\<forall>p\<in>set ps. \<exists>kvs. p = JObj kvs" and "[] \<notin> range gen"
  shows "\<exists>xs. map (\<lambda>q. jget q ''id'') qs = map JStr xs \<and> [] \<notin> set xs \<and> distinct xs \<and>
    set xs \<inter> set seen \<subseteq> set (given_ids ps)"
  using assms
proof (induction ps arbitrary: seen n qs n' k)
  case (Cons p ps)
  show ?case
  proof (cases "nonempty_string (jget p ''id'')")
    case True
    then obtain s where s: "jget p ''id'' = JStr s" "s \<noteq> []" by (auto simp: nonempty_string_iff)
    from Cons.prems(1) True obtain qs' k' where r: "assignPartyIds gen seen n ps = Inr (qs', n', k')" "qs = p # qs'"
      by (auto simp: result_simps)
    from Cons.IH [OF r(1)] Cons.prems(2-5) s obtain xs where
      "map (\<lambda>q. jget q ''id'') qs' = map JStr xs" "[] \<notin> set xs" "distinct xs" "set xs \<inter> set seen \<subseteq> set (given_ids ps)"
      by auto
    with Cons.prems(2,3) s r(2) show ?thesis by (intro exI [of _ "s # xs"]) auto
  next
    case False
    then have g: "given_ids (p # ps) = given_ids ps" by (auto simp: nonempty_string_def split: jval.splits)
    from Cons.prems(1) False obtain fresh n1 qs' k' where r: "drawPartyId gen seen 0 n = Inr (fresh, n1)"
      "assignPartyIds gen (fresh # seen) n1 ps = Inr (qs', n', k')" "qs = jset p ''id'' (JStr fresh) # qs'"
      by (auto simp: result_simps)
    have fresh: "fresh \<notin> set seen" "fresh \<noteq> []" using drawPartyId_fresh [OF r(1)] Cons.prems(5) by metis+
    have sub: "set (given_ids ps) \<subseteq> set seen" "distinct (given_ids ps)" "\<forall>p\<in>set ps. \<exists>kvs. p = JObj kvs"
      using Cons.prems(2-4) unfolding g by simp_all
    from sub(1) have "set (given_ids ps) \<subseteq> set (fresh # seen)" by auto
    from Cons.IH [OF r(2) this sub(2,3) Cons.prems(5)] obtain xs where
      x: "map (\<lambda>q. jget q ''id'') qs' = map JStr xs" "[] \<notin> set xs" "distinct xs" "set xs \<inter> set (fresh # seen) \<subseteq> set (given_ids ps)"
      by blast
    moreover have "fresh \<notin> set xs" using x(4) fresh sub(1) by auto
    moreover obtain kvs where "p = JObj kvs" using Cons.prems(4) by auto
    ultimately show ?thesis using r(3) fresh g by (intro exI [of _ "fresh # xs"]) (auto simp: jget_jset)
  qed
qed simp

lemma assignMatterPartyIds_ok:
  assumes "assignMatterPartyIdsInPlace gen matter = Inr (next, n, k)" and "[] \<notin> range gen"
    and "\<forall>p\<in>set (jelems (jget matter ''parties'')). \<exists>kvs. p = JObj kvs"
  shows "parties_ok next \<and> (\<forall>f. f \<noteq> ''parties'' \<longrightarrow> jget next f = jget matter f)"
proof (cases "jget matter ''parties''")
  case (JArr parties)
  then obtain kvs where m: "matter = JObj kvs" by (cases matter) auto
  from assms(1) JArr obtain seen qs where r: "collectPartyIds matter [] parties = Inr seen"
    "assignPartyIds gen seen 0 parties = Inr (qs, n, k)" "next = jset matter ''parties'' (JArr qs)"
    by (auto simp: assignMatterPartyIdsInPlace_def result_simps)
  have "\<exists>xs. map (\<lambda>q. jget q ''id'') qs = map JStr xs \<and> [] \<notin> set xs \<and> distinct xs \<and> set xs \<inter> set seen \<subseteq> set (given_ids parties)"
    using collectPartyIds_Inr [OF r(1)] assms(2,3) JArr by (intro assignPartyIds_Inr [OF r(2)]) auto
  then obtain xs where "party_ids next = map JStr xs" "[] \<notin> set xs" "distinct xs"
    using r(3) m by (auto simp: party_ids_def jget_jset)
  then show ?thesis using r(3) m
    by (auto simp: parties_ok_def nonempty_string_iff distinct_map inj_on_def jget_jset)
qed (use assms(1) in \<open>auto simp: assignMatterPartyIdsInPlace_def parties_ok_def party_ids_def\<close>)

lemma assigned_none:
  assumes "parties_ok matter" and "assignMatterPartyIdsInPlace gen matter = Inr (next, n, k)"
  shows "k = 0"
proof -
  have "k = 0" if "assignPartyIds gen seen n0 ps = Inr (qs, n, k)" "\<forall>p\<in>set ps. nonempty_string (jget p ''id'')" for seen n0 ps qs
    using that by (induction ps arbitrary: seen n0 qs n k) (auto simp: result_simps)
  with assms show ?thesis
    by (cases "jget matter ''parties''")
       (auto simp: assignMatterPartyIdsInPlace_def parties_ok_def party_ids_def result_simps)
qed

subsection \<open>Emitted events\<close>

lemma hash_nonempty: "hash_ok L \<Longrightarrow> nonempty_string (JStr (entityStateHash L v))"
proof -
  assume "hash_ok L"
  then have "length (entityStateHash L v) = 64" by (simp add: hash_ok_def SHA256_HEX_RE_def entityStateHash_def)
  then show ?thesis by (auto simp: nonempty_string_def)
qed

lemma emit_Inr:
  assumes "emitEvent L stored mk = Inr ev"
  obtains prev meta where "priorHeadOf L stored = Inr prev"
    "map_of CASE_BOX_AUDIT_EVENT_KINDS (be_kind (mk prev)) = Some meta" "sa_event ev = auditCandidate meta (mk prev)"
    "sa_sequence ev = length stored + 1" "al_validateAuditEvent L (sa_event ev) = None" "\<not> kind_inconsistent (sa_event ev)"
proof -
  from assms obtain prev where prev: "priorHeadOf L stored = Inr prev"
    by (auto simp: emitEvent_def result_simps)
  with assms obtain e where p: "priorHeadOf L stored = Inr prev" "buildCaseBoxAuditEvent L (mk prev) = Inr e"
    "ev = \<lparr>sa_sequence = length stored + 1, sa_event = e\<rparr>"
    by (cases "buildCaseBoxAuditEvent L (mk prev)") (auto simp: emitEvent_def)
  from build_Inr [OF p(2)] obtain meta where m: "map_of CASE_BOX_AUDIT_EVENT_KINDS (be_kind (mk prev)) = Some meta"
    "e = auditCandidate meta (mk prev)" "al_validateAuditEvent L e = None"
    "km_reasonRequired meta \<Longrightarrow> nonempty_string (be_reason (mk prev))" by metis
  show thesis by (rule that [OF p(1) m(1)]) (use p m built_kind_consistent [OF m(1,4)] in auto)
qed

text \<open>The event built from an input that names this matter and tenant, the head, and sane state hashes.\<close>

definition good_input :: "AuditLib \<Rightarrow> jval \<Rightarrow> jval \<Rightarrow> AuditKindMeta \<Rightarrow> (string option \<Rightarrow> BuildAuditEventInput) \<Rightarrow> bool" where
  "good_input L m t meta mk \<longleftrightarrow> (\<forall>prev.
     map_of CASE_BOX_AUDIT_EVENT_KINDS (be_kind (mk prev)) = Some meta \<and>
     be_tenant_id (mk prev) = t \<and> be_matter_id (mk prev) = m \<and> be_prev_event_hash (mk prev) = prev \<and>
     (km_action meta = ''create'' \<longrightarrow> be_before_state_hash (mk prev) = JNull) \<and>
     be_before_state_hash (mk prev) \<noteq> JUndef \<and> (\<exists>x. be_after_state_hash (mk prev) = entityStateHash L x))"

lemma emit_next_event:
  assumes "hash_ok L" and "emitEvent L stored mk = Inr ev" and "good_input L m t meta mk"
  obtains prev where "priorHeadOf L stored = Inr prev" "sa_event ev = auditCandidate meta (mk prev)"
    "sa_sequence ev = length stored + 1" "next_event L m t prev (sa_event ev)"
proof -
  from emit_Inr [OF assms(2)] obtain prev meta' where e: "priorHeadOf L stored = Inr prev"
    "map_of CASE_BOX_AUDIT_EVENT_KINDS (be_kind (mk prev)) = Some meta'" "sa_event ev = auditCandidate meta' (mk prev)"
    "sa_sequence ev = length stored + 1" "al_validateAuditEvent L (sa_event ev) = None" "\<not> kind_inconsistent (sa_event ev)"
    by metis
  have "meta' = meta" using e(2) assms(3) by (simp add: good_input_def)
  moreover obtain x where "be_after_state_hash (mk prev) = entityStateHash L x"
    using assms(3) unfolding good_input_def by blast
  ultimately have "next_event L m t prev (sa_event ev)"
    using assms(3) e(3,5,6) hash_nonempty [OF assms(1), of x]
    by (simp add: next_event_def good_input_def audit_simps event_present_def)
  with e \<open>meta' = meta\<close> that show thesis by blast
qed

lemma audit_kinds [audit_simps]:
  "map_of CASE_BOX_AUDIT_EVENT_KINDS ''MATTER_REGISTERED'' =
     Some \<lparr>km_action = ''create'', km_entity_type = ''matter'', km_reasonRequired = False\<rparr>"
  "map_of CASE_BOX_AUDIT_EVENT_KINDS ''MATTER_ARCHIVED'' =
     Some \<lparr>km_action = ''update'', km_entity_type = ''matter'', km_reasonRequired = False\<rparr>"
  "map_of CASE_BOX_AUDIT_EVENT_KINDS ''MATTER_UNARCHIVED'' =
     Some \<lparr>km_action = ''update'', km_entity_type = ''matter'', km_reasonRequired = False\<rparr>"
  "map_of CASE_BOX_AUDIT_EVENT_KINDS ''MATTER_PARTY_IDS_ASSIGNED'' =
     Some \<lparr>km_action = ''update'', km_entity_type = ''matter'', km_reasonRequired = False\<rparr>"
  "map_of CASE_BOX_AUDIT_EVENT_KINDS ''MATTER_DETAILS_UPDATED'' =
     Some \<lparr>km_action = ''update'', km_entity_type = ''matter'', km_reasonRequired = True\<rparr>"
  "map_of CASE_BOX_AUDIT_EVENT_KINDS ''DOCUMENT_REGISTERED'' =
     Some \<lparr>km_action = ''create'', km_entity_type = ''document'', km_reasonRequired = False\<rparr>"
  "map_of CASE_BOX_AUDIT_EVENT_KINDS ''CLAIM_TRACK_CREATED'' =
     Some \<lparr>km_action = ''create'', km_entity_type = ''claim_track'', km_reasonRequired = False\<rparr>"
  "map_of CASE_BOX_AUDIT_EVENT_KINDS ''OCR_LINK_SNAPSHOTTED'' =
     Some \<lparr>km_action = ''create'', km_entity_type = ''ocr_link'', km_reasonRequired = False\<rparr>"
  "map_of CASE_BOX_AUDIT_EVENT_KINDS ''OCR_LINK_REFRESHED'' =
     Some \<lparr>km_action = ''update'', km_entity_type = ''ocr_link'', km_reasonRequired = False\<rparr>"
  "map_of CASE_BOX_AUDIT_EVENT_KINDS ''DEADLINE_REGISTERED'' =
     Some \<lparr>km_action = ''create'', km_entity_type = ''deadline'', km_reasonRequired = False\<rparr>"
  "map_of CASE_BOX_AUDIT_EVENT_KINDS ''DEADLINE_MET'' =
     Some \<lparr>km_action = ''update'', km_entity_type = ''deadline'', km_reasonRequired = False\<rparr>"
  "map_of CASE_BOX_AUDIT_EVENT_KINDS ''DEADLINE_MISSED'' =
     Some \<lparr>km_action = ''update'', km_entity_type = ''deadline'', km_reasonRequired = False\<rparr>"
  "map_of CASE_BOX_AUDIT_EVENT_KINDS ''DEADLINE_WITHDRAWN'' =
     Some \<lparr>km_action = ''update'', km_entity_type = ''deadline'', km_reasonRequired = False\<rparr>"
  "map_of CASE_BOX_AUDIT_EVENT_KINDS ''DEADLINE_MISSED_TO_MET'' =
     Some \<lparr>km_action = ''update'', km_entity_type = ''deadline'', km_reasonRequired = True\<rparr>"
  "map_of CASE_BOX_AUDIT_EVENT_KINDS ''EVIDENCE_PROPOSED'' =
     Some \<lparr>km_action = ''create'', km_entity_type = ''evidence_item'', km_reasonRequired = False\<rparr>"
  "map_of CASE_BOX_AUDIT_EVENT_KINDS ''EVIDENCE_ACCEPTED'' =
     Some \<lparr>km_action = ''update'', km_entity_type = ''evidence_item'', km_reasonRequired = False\<rparr>"
  "map_of CASE_BOX_AUDIT_EVENT_KINDS ''EVIDENCE_REJECTED'' =
     Some \<lparr>km_action = ''update'', km_entity_type = ''evidence_item'', km_reasonRequired = False\<rparr>"
  "map_of CASE_BOX_AUDIT_EVENT_KINDS ''EVIDENCE_SUPERSEDED'' =
     Some \<lparr>km_action = ''update'', km_entity_type = ''evidence_item'', km_reasonRequired = False\<rparr>"
  "map_of CASE_BOX_AUDIT_EVENT_KINDS ''FACT_PROPOSED'' =
     Some \<lparr>km_action = ''create'', km_entity_type = ''fact'', km_reasonRequired = False\<rparr>"
  "map_of CASE_BOX_AUDIT_EVENT_KINDS ''FACT_REVIEWED'' =
     Some \<lparr>km_action = ''update'', km_entity_type = ''fact'', km_reasonRequired = False\<rparr>"
  "map_of CASE_BOX_AUDIT_EVENT_KINDS ''FACT_ACCEPTED'' =
     Some \<lparr>km_action = ''update'', km_entity_type = ''fact'', km_reasonRequired = False\<rparr>"
  "map_of CASE_BOX_AUDIT_EVENT_KINDS ''FACT_REJECTED'' =
     Some \<lparr>km_action = ''update'', km_entity_type = ''fact'', km_reasonRequired = True\<rparr>"
  "map_of CASE_BOX_AUDIT_EVENT_KINDS ''FACT_REPLACEMENT_ACCEPTED'' =
     Some \<lparr>km_action = ''create'', km_entity_type = ''fact'', km_reasonRequired = False\<rparr>"
  "map_of CASE_BOX_AUDIT_EVENT_KINDS ''PRIVILEGE_MARKER_PROPOSED'' =
     Some \<lparr>km_action = ''create'', km_entity_type = ''privilege_marker'', km_reasonRequired = False\<rparr>"
  "map_of CASE_BOX_AUDIT_EVENT_KINDS ''PRIVILEGE_MARKER_CONFIRMED'' =
     Some \<lparr>km_action = ''update'', km_entity_type = ''privilege_marker'', km_reasonRequired = False\<rparr>"
  "map_of CASE_BOX_AUDIT_EVENT_KINDS ''PRIVILEGE_MARKER_DISMISSED'' =
     Some \<lparr>km_action = ''update'', km_entity_type = ''privilege_marker'', km_reasonRequired = True\<rparr>"
  "map_of CASE_BOX_AUDIT_EVENT_KINDS ''PRIVILEGE_MARKER_WAIVED'' =
     Some \<lparr>km_action = ''privilege-waive'', km_entity_type = ''privilege_marker'', km_reasonRequired = True\<rparr>"
  "map_of CASE_BOX_AUDIT_EVENT_KINDS ''CLASSIFICATION_SET'' =
     Some \<lparr>km_action = ''create'', km_entity_type = ''confidentiality_classification'', km_reasonRequired = False\<rparr>"
  "map_of CASE_BOX_AUDIT_EVENT_KINDS ''CLASSIFICATION_UPGRADED'' =
     Some \<lparr>km_action = ''create'', km_entity_type = ''confidentiality_classification'', km_reasonRequired = False\<rparr>"
  "map_of CASE_BOX_AUDIT_EVENT_KINDS ''CLASSIFICATION_DOWNGRADED'' =
     Some \<lparr>km_action = ''create'', km_entity_type = ''confidentiality_classification'', km_reasonRequired = True\<rparr>"
  "map_of CASE_BOX_AUDIT_EVENT_KINDS ''CLASSIFICATION_RESET_TO_UNCLASSIFIED'' =
     Some \<lparr>km_action = ''create'', km_entity_type = ''confidentiality_classification'', km_reasonRequired = True\<rparr>"
  "map_of CASE_BOX_AUDIT_EVENT_KINDS ''DOCKET_ENTRY_PROPOSED'' =
     Some \<lparr>km_action = ''create'', km_entity_type = ''docket_entry'', km_reasonRequired = False\<rparr>"
  "map_of CASE_BOX_AUDIT_EVENT_KINDS ''DOCKET_ENTRY_CONFIRMED'' =
     Some \<lparr>km_action = ''update'', km_entity_type = ''docket_entry'', km_reasonRequired = False\<rparr>"
  "map_of CASE_BOX_AUDIT_EVENT_KINDS ''DOCKET_ENTRY_DISMISSED'' =
     Some \<lparr>km_action = ''update'', km_entity_type = ''docket_entry'', km_reasonRequired = True\<rparr>"
  "map_of CASE_BOX_AUDIT_EVENT_KINDS ''DOCKET_ENTRY_REVISED'' =
     Some \<lparr>km_action = ''update'', km_entity_type = ''docket_entry'', km_reasonRequired = False\<rparr>"
  by code_simp+

subsection \<open>The invariant\<close>

text \<open>What the schema files say beyond the audit events: a matter's parties are objects, an evidence item has a status.\<close>

definition case_lib_ok :: "CaseBoxLib \<Rightarrow> bool" where
  "case_lib_ok L \<longleftrightarrow> audit_lib_ok (audit_lib L) \<and>
     (\<forall>v. cl_validateMatter L v = None \<longrightarrow> (\<forall>p\<in>set (jelems (jget v ''parties'')). \<exists>kvs. p = JObj kvs)) \<and>
     (\<forall>v. cl_validateEvidenceItem L v = None \<longrightarrow> jget v ''status'' \<noteq> JUndef)"

definition matters_ok :: "CaseBoxLib \<Rightarrow> CaseBoxState \<Rightarrow> bool" where
  "matters_ok L s \<longleftrightarrow> (\<forall>m matter. mget (cs_matters s) m = Some matter \<longrightarrow>
     jget matter ''id'' = m \<and>
     chain_inv (audit_lib L) m (jget matter ''tenant_id'') (log_get (cs_audit s) m) (log_anchor (cs_audit s) m) \<and>
     matter_trail (audit_lib L) m matter (log_get (cs_audit s) m) \<and> parties_ok matter)"

subsection \<open>Records of the nine kinds\<close>

datatype case_entity =
    E_document | E_claim_track | E_evidence | E_fact | E_docket | E_deadline | E_privilege | E_classification | E_ocr_link

fun entity_name :: "case_entity \<Rightarrow> string" where
  "entity_name E_document = ''document''"
| "entity_name E_claim_track = ''claim_track''"
| "entity_name E_evidence = ''evidence_item''"
| "entity_name E_fact = ''fact''"
| "entity_name E_docket = ''docket_entry''"
| "entity_name E_deadline = ''deadline''"
| "entity_name E_privilege = ''privilege_marker''"
| "entity_name E_classification = ''confidentiality_classification''"
| "entity_name E_ocr_link = ''ocr_link''"

definition key_of :: "case_entity \<Rightarrow> jval \<Rightarrow> jval" where
  "key_of k row = jget row (if k = E_ocr_link then ''document_id'' else ''id'')"

lemma entity_name_inj [simp]:
  "entity_name k = entity_name k' \<longleftrightarrow> k = k'" "entity_name k \<noteq> ''matter''" "''matter'' \<noteq> entity_name k"
  by (cases k; cases k'; simp) (cases k; simp)+

text \<open>The rows stored under a matter, and the ids in use.\<close>

fun stored_rows :: "CaseBoxState \<Rightarrow> case_entity \<Rightarrow> jval \<Rightarrow> jval set" where
  "stored_rows s E_document m = {doc. \<exists>d. mget (cs_documents s) d = Some (doc, m)}"
| "stored_rows s E_claim_track m = set (rows_of (cs_claimTrack s) m)"
| "stored_rows s E_evidence m = set (rows_of (cs_evidence s) m)"
| "stored_rows s E_fact m = set (rows_of (cs_fact s) m)"
| "stored_rows s E_docket m = set (rows_of (cs_docket s) m)"
| "stored_rows s E_deadline m = set (rows_of (cs_deadline s) m)"
| "stored_rows s E_privilege m = set (rows_of (cs_privilege s) m)"
| "stored_rows s E_classification m = set (rows_of (cs_classification s) m)"
| "stored_rows s E_ocr_link m =
     {link. \<exists>d ds. mget (linksByMatter (cs_ocrLink s)) m = Some ds \<and> d \<in> set ds \<and>
        mget (linksByDocumentId (cs_ocrLink s)) d = Some link}"

fun known_ids :: "CaseBoxState \<Rightarrow> case_entity \<Rightarrow> jval set" where
  "known_ids s E_document = {d. mget (cs_documents s) d \<noteq> None}"
| "known_ids s E_claim_track = set (rt_ids (cs_claimTrack s))"
| "known_ids s E_evidence = set (rt_ids (cs_evidence s))"
| "known_ids s E_fact = set (rt_ids (cs_fact s))"
| "known_ids s E_docket = set (rt_ids (cs_docket s))"
| "known_ids s E_deadline = set (rt_ids (cs_deadline s))"
| "known_ids s E_privilege = set (rt_ids (cs_privilege s))"
| "known_ids s E_classification = set (rt_ids (cs_classification s))"
| "known_ids s E_ocr_link = {d. mget (linksByDocumentId (cs_ocrLink s)) d \<noteq> None}"

subsection \<open>Lifecycles\<close>

text \<open>The status an event leaves its record in; kinds outside the list leave the status alone.\<close>

definition announced_status :: "(string \<times> string) list" where
  "announced_status =
     [(''DOCUMENT_REGISTERED'', ''registered''),
      (''EVIDENCE_PROPOSED'', ''proposed''), (''EVIDENCE_ACCEPTED'', ''accepted''),
      (''EVIDENCE_REJECTED'', ''rejected''), (''EVIDENCE_SUPERSEDED'', ''superseded''),
      (''FACT_PROPOSED'', ''candidate''), (''FACT_REVIEWED'', ''reviewed''), (''FACT_REJECTED'', ''rejected''),
      (''FACT_ACCEPTED'', ''accepted''), (''FACT_REPLACEMENT_ACCEPTED'', ''accepted''),
      (''DOCKET_ENTRY_PROPOSED'', ''proposed''), (''DOCKET_ENTRY_CONFIRMED'', ''confirmed''),
      (''DOCKET_ENTRY_DISMISSED'', ''dismissed''),
      (''DEADLINE_REGISTERED'', ''pending''), (''DEADLINE_MET'', ''met''), (''DEADLINE_MISSED'', ''missed''),
      (''DEADLINE_WITHDRAWN'', ''withdrawn''), (''DEADLINE_MISSED_TO_MET'', ''met''),
      (''PRIVILEGE_MARKER_PROPOSED'', ''proposed''), (''PRIVILEGE_MARKER_CONFIRMED'', ''confirmed''),
      (''PRIVILEGE_MARKER_DISMISSED'', ''dismissed''), (''PRIVILEGE_MARKER_WAIVED'', ''waived'')]"

fun statuses :: "jval list \<Rightarrow> string list" where
  "statuses [] = []"
| "statuses (e # es) =
     (case jstr (jget e ''event_kind'') of
        None \<Rightarrow> statuses es
      | Some kind \<Rightarrow> (case map_of announced_status kind of None \<Rightarrow> statuses es | Some st \<Rightarrow> st # statuses es))"

text \<open>Where a record keeps its status, the first status, and the edges a lawyer may take.\<close>

fun status_field :: "case_entity \<Rightarrow> string option" where
  "status_field E_claim_track = None"
| "status_field E_classification = None"
| "status_field E_ocr_link = None"
| "status_field E_docket = Some ''confirmation_state''"
| "status_field _ = Some ''status''"

fun first_status :: "case_entity \<Rightarrow> string" where
  "first_status E_document = ''registered''"
| "first_status E_fact = ''candidate''"
| "first_status E_deadline = ''pending''"
| "first_status _ = ''proposed''"

fun edges_of :: "case_entity \<Rightarrow> AllowedCaseEdge list" where
  "edges_of E_document = ALLOWED_DOCUMENT_EDGES"
| "edges_of E_evidence = ALLOWED_EVIDENCE_EDGES"
| "edges_of E_fact = ALLOWED_FACT_EDGES"
| "edges_of E_docket = ALLOWED_DOCKET_ENTRY_EDGES"
| "edges_of E_deadline = ALLOWED_DEADLINE_EDGES"
| "edges_of E_privilege = ALLOWED_PRIVILEGE_MARKER_EDGES"
| "edges_of _ = []"

fun status_path :: "AllowedCaseEdge list \<Rightarrow> string list \<Rightarrow> bool" where
  "status_path edges (a # b # ss) = (isAllowed edges a b Lawyer \<and> status_path edges (b # ss))"
| "status_path edges ss = True"

definition lifecycle_ok :: "case_entity \<Rightarrow> jval \<Rightarrow> jval list \<Rightarrow> bool" where
  "lifecycle_ok k row es \<longleftrightarrow>
     (case status_field k of
        None \<Rightarrow> True
      | Some f \<Rightarrow> statuses es \<noteq> [] \<and> hd (statuses es) = first_status k \<and> status_path (edges_of k) (statuses es) \<and>
          jget row f = JStr (last (statuses es)))"

lemma statuses_append [simp]: "statuses (es @ fs) = statuses es @ statuses fs"
  by (induction es) (auto split: option.splits)

lemma status_path_snoc:
  "ss \<noteq> [] \<Longrightarrow> status_path edges (ss @ [b]) \<longleftrightarrow> status_path edges ss \<and> isAllowed edges (last ss) b Lawyer"
  by (induction edges ss rule: status_path.induct) auto

lemma lifecycle_create:
  assumes "\<And>f. status_field k = Some f \<Longrightarrow> statuses [e] = [first_status k] \<and> jget row f = JStr (first_status k)"
  shows "lifecycle_ok k row [e]"
  using assms by (auto simp: lifecycle_ok_def simp del: statuses.simps split: option.splits)

lemma lifecycle_move:
  assumes "lifecycle_ok k prior es"
    and "\<And>f. status_field k = Some f \<Longrightarrow> statuses [e] = [to] \<and> isAllowed (edges_of k) (js_String (jget prior f)) to Lawyer \<and>
      jget row f = JStr to"
  shows "lifecycle_ok k row (es @ [e])"
  using assms by (auto simp: lifecycle_ok_def status_path_snoc simp del: statuses.simps split: option.splits)

lemma lifecycle_keep:
  assumes "lifecycle_ok k prior es" and "statuses [e] = []" and "\<And>f. status_field k = Some f \<Longrightarrow> jget row f = jget prior f"
  shows "lifecycle_ok k row (es @ [e])"
  using assms by (auto simp: lifecycle_ok_def simp del: statuses.simps split: option.splits)

subsection \<open>The invariant of the records\<close>

definition tracked :: "CaseBoxLib \<Rightarrow> CaseBoxState \<Rightarrow> case_entity \<Rightarrow> jval \<Rightarrow> jval \<Rightarrow> bool" where
  "tracked L s k m row \<longleftrightarrow>
     (\<exists>matter. mget (cs_matters s) m = Some matter \<and> jget matter ''tenant_id'' = jget row ''tenant_id'') \<and>
     record_trail (audit_lib L) (entity_name k) (key_of k row) row (log_get (cs_audit s) m) \<and>
     lifecycle_ok k row (entity_events (entity_name k) (key_of k row) (log_get (cs_audit s) m))"

definition records_ok :: "CaseBoxLib \<Rightarrow> CaseBoxState \<Rightarrow> bool" where
  "records_ok L s \<longleftrightarrow>
     (\<forall>k m row. row \<in> stored_rows s k m \<longrightarrow> key_of k row \<in> known_ids s k \<and> tracked L s k m row) \<and>
     (\<forall>k m ev. ev \<in> set (log_get (cs_audit s) m) \<longrightarrow> jget (sa_event ev) ''entity_type'' = JStr (entity_name k) \<longrightarrow>
        jget (sa_event ev) ''entity_id'' \<in> known_ids s k)"

definition trails_ok :: "CaseBoxLib \<Rightarrow> CaseBoxState \<Rightarrow> bool" where
  "trails_ok L s \<longleftrightarrow> matters_ok L s \<and> records_ok L s"

lemma unknown_no_entity_events:
  assumes "records_ok L s" and "x \<notin> known_ids s k"
  shows "entity_events (entity_name k) x (log_get (cs_audit s) m) = []"
  using assms by (auto simp: records_ok_def entity_events_def is_event_of_def filter_empty_conv)

text \<open>Matters stay, with their tenant, and their logs only grow.\<close>

definition grows :: "CaseBoxState \<Rightarrow> CaseBoxState \<Rightarrow> bool" where
  "grows s s' \<longleftrightarrow> (\<forall>m matter. mget (cs_matters s) m = Some matter \<longrightarrow>
     (\<exists>matter'. mget (cs_matters s') m = Some matter' \<and> jget matter' ''tenant_id'' = jget matter ''tenant_id'') \<and>
     prefix (log_get (cs_audit s) m) (log_get (cs_audit s') m))"

lemma grows_refl [simp]: "grows s s"
  by (auto simp: grows_def)

lemma growsD:
  assumes "grows s s'" and "mget (cs_matters s) m = Some matter"
  obtains matter' where "mget (cs_matters s') m = Some matter'" "jget matter' ''tenant_id'' = jget matter ''tenant_id''"
    "prefix (log_get (cs_audit s) m) (log_get (cs_audit s') m)"
  using assms unfolding grows_def by blast

lemma grows_trans:
  assumes "grows s s'" and "grows s' s''"
  shows "grows s s''"
  unfolding grows_def
proof (intro allI impI)
  fix m matter
  assume "mget (cs_matters s) m = Some matter"
  from growsD [OF assms(1) this] obtain x where x: "mget (cs_matters s') m = Some x"
    "jget x ''tenant_id'' = jget matter ''tenant_id''" "prefix (log_get (cs_audit s) m) (log_get (cs_audit s') m)" .
  from growsD [OF assms(2) x(1)] obtain y where y: "mget (cs_matters s'') m = Some y"
    "jget y ''tenant_id'' = jget x ''tenant_id''" "prefix (log_get (cs_audit s') m) (log_get (cs_audit s'') m)" .
  from x y show "(\<exists>y. mget (cs_matters s'') m = Some y \<and> jget y ''tenant_id'' = jget matter ''tenant_id'') \<and>
      prefix (log_get (cs_audit s) m) (log_get (cs_audit s'') m)"
    using prefix_order.trans by auto
qed

text \<open>The step all writes on an existing matter share.\<close>

lemma commit_run:
  assumes "case_lib_ok L" and "matters_ok L s" and "mget (cs_matters s) m = Some matter"
    and "jget nx ''id'' = m" and "jget nx ''tenant_id'' = jget matter ''tenant_id''" and "parties_ok nx"
    and "priorHeadOf (audit_lib L) (log_get (cs_audit s) m) = Inr prev"
    and "next_event (audit_lib L) m (jget matter ''tenant_id'') prev (sa_event ev)"
    and "sa_sequence ev = length (log_get (cs_audit s) m) + 1"
    and "if is_event_of ''matter'' m (sa_event ev)
      then starts_from (JStr (entityStateHash (audit_lib L) matter)) (sa_event ev) \<and>
           jget (sa_event ev) ''after_state_hash'' = JStr (entityStateHash (audit_lib L) nx)
      else nx = matter"
    and "\<And>k. mget (cs_matters s1) k = (if k = m then Some nx else mget (cs_matters s) k)"
    and "cs_audit s1 = cs_audit s"
  shows "\<exists>a. commitEvent L m ev x s1 = (Inr x, s1\<lparr>cs_audit := a\<rparr>) \<and> matters_ok L (s1\<lparr>cs_audit := a\<rparr>) \<and>
    grows s (s1\<lparr>cs_audit := a\<rparr>) \<and>
    (\<forall>k. log_get a k = (if k = m then log_get (cs_audit s) m @ [ev] else log_get (cs_audit s) k))"
proof -
  let ?L = "audit_lib L" and ?log = "log_get (cs_audit s) m"
  from assms(2,3) have old: "chain_inv ?L m (jget matter ''tenant_id'') ?log (log_anchor (cs_audit s) m)"
    "matter_trail ?L m matter ?log" by (auto simp: matters_ok_def)
  have "audit_lib_ok ?L" using assms(1) by (simp add: case_lib_ok_def)
  from chain_inv_append [OF this old(1) assms(7,8,9)] obtain h where h: "eventHashFn ?L (sa_event ev) = Inr h"
    "chain_inv ?L m (jget matter ''tenant_id'') (?log @ [ev]) (Some \<lparr>ah_headHash = h, ah_count = Suc (length ?log)\<rparr>)"
    by blast
  from log_append_run [OF h(1), of m "cs_audit s"] obtain a where a: "log_append ?L m ev (cs_audit s) = (Inr (), a)"
    "\<And>k. log_get a k = (if k = m then ?log @ [ev] else log_get (cs_audit s) k)"
    "\<And>k. log_anchor a k = (if k = m then Some \<lparr>ah_headHash = h, ah_count = Suc (length ?log)\<rparr> else log_anchor (cs_audit s) k)"
    by blast
  have "matter_trail ?L m nx (?log @ [ev])"
    using old(2) assms(10) by (auto simp: record_trail_def entity_events_snoc linked_states_snoc split: if_splits)
  with assms(2,4,5,6) h(2) a(2,3) assms(11) have "matters_ok L (s1\<lparr>cs_audit := a\<rparr>)"
    by (auto simp: matters_ok_def)
  moreover have "grows s (s1\<lparr>cs_audit := a\<rparr>)"
    using assms(3,5,11) a(2) by (auto simp: grows_def)
  moreover have "commitEvent L m ev x s1 = (Inr x, s1\<lparr>cs_audit := a\<rparr>)"
    using a(1) by (simp add: commitEvent_def assms(12))
  ultimately show ?thesis using a(2) by auto
qed

text \<open>The step all writes of a record share: one row of one kind, under one matter, with its event.\<close>

lemma rows_of_audit [simp]:
  "stored_rows (s\<lparr>cs_audit := a\<rparr>) k m = stored_rows s k m" "known_ids (s\<lparr>cs_audit := a\<rparr>) k = known_ids s k"
  by (cases k; simp)+

lemma write_run:
  assumes "case_lib_ok L" and inv: "trails_ok L s" and m: "mget (cs_matters s) m = Some matter"
    and tenant: "jget row ''tenant_id'' = jget matter ''tenant_id''"
    and "priorHeadOf (audit_lib L) (log_get (cs_audit s) m) = Inr prev"
    and "next_event (audit_lib L) m (jget matter ''tenant_id'') prev (sa_event ev)"
    and "sa_sequence ev = length (log_get (cs_audit s) m) + 1"
    and type: "jget (sa_event ev) ''entity_type'' = JStr (entity_name k)" and key: "jget (sa_event ev) ''entity_id'' = key_of k row"
    and "jget (sa_event ev) ''after_state_hash'' = JStr (entityStateHash (audit_lib L) row)"
    and es: "es = entity_events (entity_name k) (key_of k row) (log_get (cs_audit s) m)"
    and "linked_states JNull es" and "starts_from (last_state JNull es) (sa_event ev)"
    and "lifecycle_ok k row (es @ [sa_event ev])"
    and "cs_matters s1 = cs_matters s" and "cs_audit s1 = cs_audit s"
    and others: "\<And>k' m'. k' \<noteq> k \<Longrightarrow> stored_rows s1 k' m' = stored_rows s k' m'" "\<And>k'. k' \<noteq> k \<Longrightarrow> known_ids s1 k' = known_ids s k'"
    and rows: "\<And>m'. m' \<noteq> m \<Longrightarrow> stored_rows s1 k m' \<subseteq> stored_rows s k m'"
      "stored_rows s1 k m \<subseteq> insert row (stored_rows s k m - {r. key_of k r = key_of k row})"
    and known: "known_ids s1 k = insert (key_of k row) (known_ids s k)"
  shows "\<exists>a. commitEvent L m ev x s1 = (Inr x, s1\<lparr>cs_audit := a\<rparr>) \<and> trails_ok L (s1\<lparr>cs_audit := a\<rparr>) \<and>
    grows s (s1\<lparr>cs_audit := a\<rparr>) \<and>
    (\<forall>k. log_get a k = (if k = m then log_get (cs_audit s) m @ [ev] else log_get (cs_audit s) k))"
proof -
  from inv have mok: "matters_ok L s" and rok: "records_ok L s" by (simp_all add: trails_ok_def)
  have mat: "jget matter ''id'' = m" "parties_ok matter" using mok m by (auto simp: matters_ok_def)
  have "\<not> is_event_of ''matter'' m (sa_event ev)" using type by (simp add: is_event_of_def)
  then have "\<exists>a. commitEvent L m ev x s1 = (Inr x, s1\<lparr>cs_audit := a\<rparr>) \<and> matters_ok L (s1\<lparr>cs_audit := a\<rparr>) \<and>
      grows s (s1\<lparr>cs_audit := a\<rparr>) \<and>
      (\<forall>k. log_get a k = (if k = m then log_get (cs_audit s) m @ [ev] else log_get (cs_audit s) k))"
    using assms(5-7,15,16) m mat by (intro commit_run [where nx = matter, OF assms(1) mok m]) auto
  then obtain a where a: "commitEvent L m ev x s1 = (Inr x, s1\<lparr>cs_audit := a\<rparr>)" "matters_ok L (s1\<lparr>cs_audit := a\<rparr>)"
    "grows s (s1\<lparr>cs_audit := a\<rparr>)"
    and log: "\<And>k. log_get a k = (if k = m then log_get (cs_audit s) m @ [ev] else log_get (cs_audit s) k)" by blast
  let ?s' = "s1\<lparr>cs_audit := a\<rparr>"
  have this_event: "is_event_of (entity_name k') x (sa_event ev) \<longleftrightarrow> k' = k \<and> x = key_of k row" for k' x
    using type key by (auto simp: is_event_of_def)
  have new: "tracked L ?s' k m row"
    unfolding tracked_def
  proof (intro conjI)
    show "\<exists>matter. mget (cs_matters ?s') m = Some matter \<and> jget matter ''tenant_id'' = jget row ''tenant_id''"
      using m tenant assms(15) by simp
    have e: "is_event_of (entity_name k) (key_of k row) (sa_event ev)" using this_event by simp
    show "record_trail (audit_lib L) (entity_name k) (key_of k row) row (log_get (cs_audit ?s') m)"
      using record_trail_snoc [OF e assms(12,13,10) [unfolded es]] log by simp
    show "lifecycle_ok k row (entity_events (entity_name k) (key_of k row) (log_get (cs_audit ?s') m))"
      using assms(14) e log by (simp add: es entity_events_snoc)
  qed
  have old: "tracked L ?s' k' m' r" if "tracked L s k' m' r" "m' \<noteq> m \<or> k' \<noteq> k \<or> key_of k' r \<noteq> key_of k row" for k' m' r
  proof -
    have "m' = m \<Longrightarrow> \<not> is_event_of (entity_name k') (key_of k' r) (sa_event ev)" using that(2) this_event by auto
    then have "record_trail (audit_lib L) (entity_name k') (key_of k' r) r (log_get a m') =
        record_trail (audit_lib L) (entity_name k') (key_of k' r) r (log_get (cs_audit s) m')"
      "entity_events (entity_name k') (key_of k' r) (log_get a m') = entity_events (entity_name k') (key_of k' r) (log_get (cs_audit s) m')"
      by (cases "m' = m"; simp add: log record_trail_other entity_events_snoc)+
    with that(1) assms(15) show ?thesis by (simp add: tracked_def)
  qed
  have "records_ok L ?s'"
    unfolding records_ok_def rows_of_audit
  proof (intro conjI allI impI)
    fix k' m' r assume r: "r \<in> stored_rows s1 k' m'"
    have "r = row \<and> k' = k \<and> m' = m \<or> r \<in> stored_rows s k' m' \<and> (m' \<noteq> m \<or> k' \<noteq> k \<or> key_of k' r \<noteq> key_of k row)"
      using r others(1) [of k' m'] rows by (cases "k' = k"; cases "m' = m") auto
    then consider "r = row" "k' = k" "m' = m" |
      "r \<in> stored_rows s k' m'" "m' \<noteq> m \<or> k' \<noteq> k \<or> key_of k' r \<noteq> key_of k row" by blast
    note cases = this
    have sub: "known_ids s k' \<subseteq> known_ids s1 k'" using others(2) known by (cases "k' = k") auto
    from cases show "key_of k' r \<in> known_ids s1 k'"
    proof cases
      case 1
      then show ?thesis using known by simp
    next
      case 2
      with rok sub show ?thesis unfolding records_ok_def by blast
    qed
    from cases show "tracked L ?s' k' m' r"
    proof cases
      case 1
      then show ?thesis using new by simp
    next
      case 2
      with rok old show ?thesis unfolding records_ok_def by blast
    qed
  next
    fix k' m' e
    assume e: "e \<in> set (log_get (cs_audit ?s') m')" "jget (sa_event e) ''entity_type'' = JStr (entity_name k')"
    then have "e = ev \<or> e \<in> set (log_get (cs_audit s) m')" by (auto simp: log split: if_splits)
    then show "jget (sa_event e) ''entity_id'' \<in> known_ids s1 k'"
    proof
      assume "e = ev"
      with e(2) type key known show ?thesis by simp
    next
      assume "e \<in> set (log_get (cs_audit s) m')"
      with rok e(2) have "jget (sa_event e) ''entity_id'' \<in> known_ids s k'" unfolding records_ok_def by blast
      then show ?thesis using others(2) known by (cases "k' = k") auto
    qed
  qed
  with a(2) have "trails_ok L ?s'" by (simp add: trails_ok_def)
  with a(1,3) log show ?thesis by blast
qed

end
