(* ===== verification/CaseBoxSlots.thy ===== *)
theory CaseBoxSlots
  imports CaseBoxInvariant
begin

text \<open>
  The tables of the case-box store: what each keeps besides the audit trail of its rows, and the interface
  by which the delegates write one of them (\<open>case_slot\<close>), with the two writes proved once for every table.
\<close>

subsection \<open>What the tables keep\<close>

definition documents_ok :: "document_map \<Rightarrow> bool" where
  "documents_ok ds \<longleftrightarrow> (\<forall>d doc m. mget ds d = Some (doc, m) \<longrightarrow> jget doc ''id'' = d \<and> jget doc ''matter_id'' = m)"

text \<open>A superseded item names another item of its matter as the one replacing it.\<close>

definition replacements_ok :: "EntityTable \<Rightarrow> bool" where
  "replacements_ok t \<longleftrightarrow> (\<forall>k row. mget (rt_byId t) k = Some row \<longrightarrow> jget row ''status'' = JStr ''superseded'' \<longrightarrow>
     jget row ''supersedes_evidence_id'' \<noteq> k \<and>
     (\<exists>r. mget (rt_byId t) (jget row ''supersedes_evidence_id'') = Some r \<and> jget r ''matter_id'' = jget row ''matter_id''))"

text \<open>The supersession graph of the facts: only accepted facts supersede, and only accepted facts of their matter; no cycles.\<close>

definition supersedes_rel :: "EntityTable \<Rightarrow> (jval \<times> jval) set" where
  "supersedes_rel t = {(k, x). \<exists>row. mget (rt_byId t) k = Some row \<and> x = jget row ''supersedes_fact_id'' \<and> event_present x}"

definition supersession_ok :: "EntityTable \<Rightarrow> bool" where
  "supersession_ok t \<longleftrightarrow> acyclic (supersedes_rel t) \<and>
     (\<forall>k row. mget (rt_byId t) k = Some row \<longrightarrow> event_present (jget row ''supersedes_fact_id'') \<longrightarrow>
        jget row ''status'' = JStr ''accepted'' \<and>
        (\<exists>r. mget (rt_byId t) (jget row ''supersedes_fact_id'') = Some r \<and> jget r ''status'' = JStr ''accepted'' \<and>
             jget r ''matter_id'' = jget row ''matter_id''))"

text \<open>A confirmed docket entry has the deadline it names, with the entry's kind, due date and owner.\<close>

definition materialized :: "jval \<Rightarrow> jval \<Rightarrow> bool" where
  "materialized entry deadline \<longleftrightarrow>
     jget deadline ''matter_id'' = jget entry ''matter_id'' \<and> jget deadline ''tenant_id'' = jget entry ''tenant_id'' \<and>
     jget deadline ''kind'' = jget entry ''proposed_kind'' \<and> jget deadline ''due_at'' = jget entry ''proposed_due_at'' \<and>
     jget deadline ''owner_user_id'' = jget entry ''proposed_owner_user_id''"

definition docket_backed :: "EntityTable \<Rightarrow> EntityTable \<Rightarrow> bool" where
  "docket_backed docket deadlines \<longleftrightarrow> (\<forall>k e. mget (rt_byId docket) k = Some e \<longrightarrow>
     jget e ''confirmation_state'' = JStr ''confirmed'' \<longrightarrow>
     jget e ''proposed_due_at_kind'' \<noteq> JStr ''date_only'' \<and> nonempty_string (jget e ''confirmed_deadline_id'') \<and>
     (\<exists>d. mget (rt_byId deadlines) (jget e ''confirmed_deadline_id'') = Some d \<and> materialized e d))"

definition one_confirmed :: "IndexedTable \<Rightarrow> bool" where
  "one_confirmed t \<longleftrightarrow> (\<forall>m a b. a \<in> set (rows_of t m) \<longrightarrow> b \<in> set (rows_of t m) \<longrightarrow> has_status ''confirmed'' a \<longrightarrow>
     has_status ''confirmed'' b \<longrightarrow> jget a ''target_type'' = jget b ''target_type'' \<longrightarrow>
     jget a ''target_id'' = jget b ''target_id'' \<longrightarrow> jget a ''kind'' = jget b ''kind'' \<longrightarrow> a = b)"

text \<open>A link is kept under its document, in the set of the document's matter and in no other.\<close>

definition links_ok :: "OcrLinkState \<Rightarrow> document_map \<Rightarrow> bool" where
  "links_ok st documents \<longleftrightarrow>
     (\<forall>d link. mget (linksByDocumentId st) d = Some link \<longrightarrow> jget link ''document_id'' = d \<and>
        (\<exists>doc m ds. mget documents d = Some (doc, m) \<and> mget (linksByMatter st) m = Some ds \<and> d \<in> set ds)) \<and>
     (\<forall>m ds d. mget (linksByMatter st) m = Some ds \<longrightarrow> d \<in> set ds \<longrightarrow> (\<exists>doc. mget documents d = Some (doc, m)))"

definition tables_ok :: "CaseBoxState \<Rightarrow> bool" where
  "tables_ok s \<longleftrightarrow>
     documents_ok (cs_documents s) \<and> entity_table_ok (cs_claimTrack s) \<and>
     entity_table_ok (cs_evidence s) \<and> replacements_ok (cs_evidence s) \<and>
     entity_table_ok (cs_fact s) \<and> supersession_ok (cs_fact s) \<and>
     entity_table_ok (cs_docket s) \<and> entity_table_ok (cs_deadline s) \<and> docket_backed (cs_docket s) (cs_deadline s) \<and>
     indexed_table_ok (cs_privilege s) \<and> one_confirmed (cs_privilege s) \<and>
     row_table_ok (cs_classification s) \<and> links_ok (cs_ocrLink s) (cs_documents s)"

definition case_inv :: "CaseBoxLib \<Rightarrow> CaseBoxState \<Rightarrow> bool" where
  "case_inv L s \<longleftrightarrow> trails_ok L s \<and> tables_ok s"

lemma tables_ok_frame [simp]:
  "tables_ok (s\<lparr>cs_audit := a\<rparr>) = tables_ok s" "tables_ok (s\<lparr>cs_matters := ms\<rparr>) = tables_ok s"
  by (simp_all add: tables_ok_def)

lemma case_inv_matter:
  assumes "case_inv L s" and "mget (cs_matters s) m = Some matter"
  shows "jget matter ''id'' = m" "parties_ok matter" "matters_ok L s" "records_ok L s" "tables_ok s"
  using assms by (auto simp: case_inv_def trails_ok_def matters_ok_def)

text \<open>A stored row's matter, its trail and its lifecycle.\<close>

lemma tracked_row:
  assumes "trails_ok L s" and "row \<in> stored_rows s k m"
  obtains matter where "mget (cs_matters s) m = Some matter" "jget row ''tenant_id'' = jget matter ''tenant_id''"
    "record_trail (audit_lib L) (entity_name k) (key_of k row) row (log_get (cs_audit s) m)"
    "lifecycle_ok k row (entity_events (entity_name k) (key_of k row) (log_get (cs_audit s) m))"
proof -
  from assms have "tracked L s k m row" unfolding trails_ok_def records_ok_def by blast
  then show thesis using that unfolding tracked_def by metis
qed

lemma stored_row:
  assumes "case_inv L s" and "row \<in> stored_rows s k m"
  obtains matter where "mget (cs_matters s) m = Some matter" "jget row ''tenant_id'' = jget matter ''tenant_id''"
    "record_trail (audit_lib L) (entity_name k) (key_of k row) row (log_get (cs_audit s) m)"
    "lifecycle_ok k row (entity_events (entity_name k) (key_of k row) (log_get (cs_audit s) m))"
  using assms tracked_row unfolding case_inv_def by blast

subsection \<open>The interface\<close>

locale case_slot =
  fixes kind :: case_entity
    and get :: "CaseBoxState \<Rightarrow> 'a RowTable_scheme"
    and upd :: "'a RowTable_scheme \<Rightarrow> CaseBoxState \<Rightarrow> CaseBoxState"
    and ok :: "CaseBoxState \<Rightarrow> 'a RowTable_scheme \<Rightarrow> bool"
  assumes plain_key: "kind \<noteq> E_ocr_link"
    and own: "stored_rows s kind m = set (rows_of (get s) m)" "known_ids s kind = set (rt_ids (get s))" "get (upd t s) = t"
    and others: "k \<noteq> kind \<Longrightarrow> stored_rows (upd t s) k m = stored_rows s k m" "k \<noteq> kind \<Longrightarrow> known_ids (upd t s) k = known_ids s k"
    and frame: "cs_matters (upd t s) = cs_matters s" "cs_audit (upd t s) = cs_audit s"
    and tables: "tables_ok s \<Longrightarrow> ok s t \<Longrightarrow> tables_ok (upd t s)" "tables_ok s \<Longrightarrow> row_table_ok (get s)"
begin

lemma key [simp]: "key_of kind row = jget row ''id''"
  using plain_key by (simp add: key_of_def)

lemma finish:
  assumes "tables_ok s" and "ok s t"
    and "\<exists>a. commitEvent L m ev x (upd t s) = (Inr x, (upd t s)\<lparr>cs_audit := a\<rparr>) \<and> trails_ok L ((upd t s)\<lparr>cs_audit := a\<rparr>) \<and>
      grows s ((upd t s)\<lparr>cs_audit := a\<rparr>) \<and> Q a"
  shows "\<exists>a. commitEvent L m ev x (upd t s) = (Inr x, (upd t s)\<lparr>cs_audit := a\<rparr>) \<and> case_inv L ((upd t s)\<lparr>cs_audit := a\<rparr>) \<and>
    grows s ((upd t s)\<lparr>cs_audit := a\<rparr>)"
  using assms tables(1) [OF assms(1,2)] by (auto simp: case_inv_def)

lemma append_trails:
  assumes lib: "case_lib_ok L" and trails: "trails_ok L s" and ok: "row_table_ok (get s)" and m: "mget (cs_matters s) m = Some matter"
    and row: "jget row ''tenant_id'' = jget matter ''tenant_id''" "jget row ''matter_id'' = m" "jget row ''id'' \<notin> set (rt_ids (get s))"
    and emit: "emitEvent (audit_lib L) (log_get (cs_audit s) m) (createdEvent L ci ekind row reason) = Inr ev"
    and meta: "map_of CASE_BOX_AUDIT_EVENT_KINDS ekind =
      Some \<lparr>km_action = ''create'', km_entity_type = entity_name kind, km_reasonRequired = rr\<rparr>"
    and status: "\<And>f. status_field kind = Some f \<Longrightarrow>
      map_of announced_status ekind = Some (first_status kind) \<and> jget row f = JStr (first_status kind)"
    and t: "\<And>k. rows_of t k = (if k = m then rows_of (get s) m @ [row] else rows_of (get s) k)"
      "set (rt_ids t) = insert (jget row ''id'') (set (rt_ids (get s)))"
  shows "\<exists>a. commitEvent L m ev x (upd t s) = (Inr x, (upd t s)\<lparr>cs_audit := a\<rparr>) \<and> trails_ok L ((upd t s)\<lparr>cs_audit := a\<rparr>) \<and>
    grows s ((upd t s)\<lparr>cs_audit := a\<rparr>) \<and>
    (\<forall>k. log_get a k = (if k = m then log_get (cs_audit s) m @ [ev] else log_get (cs_audit s) k))"
proof -
  have records: "records_ok L s" using trails by (simp add: trails_ok_def)
  let ?meta = "\<lparr>km_action = ''create'', km_entity_type = entity_name kind, km_reasonRequired = rr\<rparr>"
  have "good_input (audit_lib L) m (jget matter ''tenant_id'') ?meta (createdEvent L ci ekind row reason)"
    using meta row by (auto simp: good_input_def event_input_simps)
  moreover have "hash_ok (audit_lib L)" using lib by (simp add: case_lib_ok_def)
  ultimately obtain prev where e: "priorHeadOf (audit_lib L) (log_get (cs_audit s) m) = Inr prev"
    "sa_event ev = auditCandidate ?meta (createdEvent L ci ekind row reason prev)"
    "sa_sequence ev = length (log_get (cs_audit s) m) + 1" "next_event (audit_lib L) m (jget matter ''tenant_id'') prev (sa_event ev)"
    using emit_next_event [OF _ emit] by metis
  have none: "[] = entity_events (entity_name kind) (key_of kind row) (log_get (cs_audit s) m)"
    using unknown_no_entity_events [OF records, of "key_of kind row" kind] row(3) by (simp add: own)
  have no_rows: "r \<in> set (rows_of (get s) m') \<Longrightarrow> jget r ''id'' \<noteq> jget row ''id''" for r m'
    using row_table_okD(2) [OF ok] row(3) by metis
  show ?thesis
  proof (rule write_run [OF lib trails m row(1) e(1,4,3) _ _ _ none])
    show "lifecycle_ok kind row ([] @ [sa_event ev])"
      using status by (auto simp: e(2) audit_simps event_input_simps intro!: lifecycle_create)
  qed (use row t no_rows in \<open>auto simp: e(2) audit_simps event_input_simps starts_from_def own others frame\<close>)
qed

lemma append_row:
  assumes lib: "case_lib_ok L" and inv: "case_inv L s" and m: "mget (cs_matters s) m = Some matter"
    and row: "jget row ''tenant_id'' = jget matter ''tenant_id''" "jget row ''matter_id'' = m" "jget row ''id'' \<notin> set (rt_ids (get s))"
    and emit: "emitEvent (audit_lib L) (log_get (cs_audit s) m) (createdEvent L ci ekind row reason) = Inr ev"
    and meta: "map_of CASE_BOX_AUDIT_EVENT_KINDS ekind =
      Some \<lparr>km_action = ''create'', km_entity_type = entity_name kind, km_reasonRequired = rr\<rparr>"
    and status: "\<And>f. status_field kind = Some f \<Longrightarrow>
      map_of announced_status ekind = Some (first_status kind) \<and> jget row f = JStr (first_status kind)"
    and t: "ok s t" "\<And>k. rows_of t k = (if k = m then rows_of (get s) m @ [row] else rows_of (get s) k)"
      "set (rt_ids t) = insert (jget row ''id'') (set (rt_ids (get s)))"
  shows "\<exists>a. commitEvent L m ev x (upd t s) = (Inr x, (upd t s)\<lparr>cs_audit := a\<rparr>) \<and> case_inv L ((upd t s)\<lparr>cs_audit := a\<rparr>) \<and>
    grows s ((upd t s)\<lparr>cs_audit := a\<rparr>)"
proof (rule finish [OF _ t(1)])
  from inv show tok: "tables_ok s" by (simp add: case_inv_def)
  have trails: "trails_ok L s" using inv by (simp add: case_inv_def)
  show "\<exists>a. commitEvent L m ev x (upd t s) = (Inr x, (upd t s)\<lparr>cs_audit := a\<rparr>) \<and> trails_ok L ((upd t s)\<lparr>cs_audit := a\<rparr>) \<and>
      grows s ((upd t s)\<lparr>cs_audit := a\<rparr>) \<and>
      (\<forall>k. log_get a k = (if k = m then log_get (cs_audit s) m @ [ev] else log_get (cs_audit s) k))"
    by (rule append_trails [OF lib trails tables(2) [OF tok] m row emit meta status t(2,3)])
qed

lemma replace_trails:
  assumes lib: "case_lib_ok L" and trails: "trails_ok L s" and ok: "row_table_ok (get s)" and prior: "prior \<in> set (rows_of (get s) m)"
    and nx: "jget nx ''id'' = jget prior ''id''" "jget nx ''tenant_id'' = jget prior ''tenant_id''"
    and emit: "emitEvent (audit_lib L) (log_get (cs_audit s) m) (updatedEvent L ci ekind m actor before nx reason) = Inr ev"
    and meta: "map_of CASE_BOX_AUDIT_EVENT_KINDS ekind =
      Some \<lparr>km_action = act, km_entity_type = entity_name kind, km_reasonRequired = rr\<rparr>"
    and before: "before = (if ekind = ''FACT_REPLACEMENT_ACCEPTED'' then JNull else JStr (entityStateHash (audit_lib L) prior))"
      "act = ''create'' \<Longrightarrow> before = JNull"
    and status: "\<And>es e. lifecycle_ok kind prior es \<Longrightarrow> jget e ''event_kind'' = JStr ekind \<Longrightarrow> lifecycle_ok kind nx (es @ [e])"
    and t: "\<And>k. rows_of t k = (if k = m then replaceRow (jget prior ''id'') nx (rows_of (get s) m) else rows_of (get s) k)"
      "rt_ids t = rt_ids (get s)"
  shows "\<exists>a. commitEvent L m ev x (upd t s) = (Inr x, (upd t s)\<lparr>cs_audit := a\<rparr>) \<and> trails_ok L ((upd t s)\<lparr>cs_audit := a\<rparr>) \<and>
    grows s ((upd t s)\<lparr>cs_audit := a\<rparr>) \<and>
    (\<forall>k. log_get a k = (if k = m then log_get (cs_audit s) m @ [ev] else log_get (cs_audit s) k))"
proof -
  from prior have "prior \<in> stored_rows s kind m" by (simp add: own)
  from tracked_row [OF trails this] obtain matter where m: "mget (cs_matters s) m = Some matter"
    "jget prior ''tenant_id'' = jget matter ''tenant_id''"
    "record_trail (audit_lib L) (entity_name kind) (jget prior ''id'') prior (log_get (cs_audit s) m)"
    "lifecycle_ok kind prior (entity_events (entity_name kind) (jget prior ''id'') (log_get (cs_audit s) m))" by auto
  let ?meta = "\<lparr>km_action = act, km_entity_type = entity_name kind, km_reasonRequired = rr\<rparr>"
  have "good_input (audit_lib L) m (jget matter ''tenant_id'') ?meta (updatedEvent L ci ekind m actor before nx reason)"
    using meta before nx(2) m(2) by (auto simp: good_input_def event_input_simps)
  moreover have "hash_ok (audit_lib L)" using lib by (simp add: case_lib_ok_def)
  ultimately obtain prev where e: "priorHeadOf (audit_lib L) (log_get (cs_audit s) m) = Inr prev"
    "sa_event ev = auditCandidate ?meta (updatedEvent L ci ekind m actor before nx reason prev)"
    "sa_sequence ev = length (log_get (cs_audit s) m) + 1" "next_event (audit_lib L) m (jget matter ''tenant_id'') prev (sa_event ev)"
    using emit_next_event [OF _ emit] by metis
  let ?es = "entity_events (entity_name kind) (key_of kind nx) (log_get (cs_audit s) m)"
  have es: "linked_states JNull ?es" "last_state JNull ?es = JStr (entityStateHash (audit_lib L) prior)"
    using m(3) nx(1) by (simp_all add: record_trail_def)
  have "distinct (map (\<lambda>r. jget r ''id'') (rows_of (get s) m))" using ok by (simp add: row_table_ok_def)
  note rows = set_replaceRow [OF this prior refl, of nx]
  have same: "r = prior" if "r \<in> set (rows_of (get s) m)" "jget r ''id'' = jget prior ''id''" for r
    using row_table_okD(3) [OF ok prior that(1)] that(2) by simp
  have known: "jget prior ''id'' \<in> set (rt_ids (get s))" by (rule row_table_okD(2) [OF ok prior])
  show ?thesis
  proof (rule write_run [OF lib trails m(1) _ e(1,4,3) _ _ _ refl])
    show "lifecycle_ok kind nx (?es @ [sa_event ev])"
      using m(4) nx(1) by (intro status) (simp_all add: e(2) audit_simps event_input_simps)
    show "starts_from (last_state JNull ?es) (sa_event ev)"
      using es(2) by (simp add: starts_from_def e(2) audit_simps event_input_simps before(1))
    show "stored_rows (upd t s) kind m \<subseteq> insert nx (stored_rows s kind m - {r. key_of kind r = key_of kind nx})"
      using same nx(1) by (auto simp: own t(1) rows)
  qed (use nx m(2) es known t in \<open>auto simp: e(2) audit_simps event_input_simps own others frame\<close>)
qed

lemma replace_row:
  assumes lib: "case_lib_ok L" and inv: "case_inv L s" and prior: "prior \<in> set (rows_of (get s) m)"
    and nx: "jget nx ''id'' = jget prior ''id''" "jget nx ''tenant_id'' = jget prior ''tenant_id''"
    and emit: "emitEvent (audit_lib L) (log_get (cs_audit s) m) (updatedEvent L ci ekind m actor before nx reason) = Inr ev"
    and meta: "map_of CASE_BOX_AUDIT_EVENT_KINDS ekind =
      Some \<lparr>km_action = act, km_entity_type = entity_name kind, km_reasonRequired = rr\<rparr>"
    and before: "before = (if ekind = ''FACT_REPLACEMENT_ACCEPTED'' then JNull else JStr (entityStateHash (audit_lib L) prior))"
      "act = ''create'' \<Longrightarrow> before = JNull"
    and status: "\<And>es e. lifecycle_ok kind prior es \<Longrightarrow> jget e ''event_kind'' = JStr ekind \<Longrightarrow> lifecycle_ok kind nx (es @ [e])"
    and t: "ok s t" "\<And>k. rows_of t k = (if k = m then replaceRow (jget prior ''id'') nx (rows_of (get s) m) else rows_of (get s) k)"
      "rt_ids t = rt_ids (get s)"
  shows "\<exists>a. commitEvent L m ev x (upd t s) = (Inr x, (upd t s)\<lparr>cs_audit := a\<rparr>) \<and> case_inv L ((upd t s)\<lparr>cs_audit := a\<rparr>) \<and>
    grows s ((upd t s)\<lparr>cs_audit := a\<rparr>)"
proof (rule finish [OF _ t(1)])
  from inv show tok: "tables_ok s" by (simp add: case_inv_def)
  have trails: "trails_ok L s" using inv by (simp add: case_inv_def)
  show "\<exists>a. commitEvent L m ev x (upd t s) = (Inr x, (upd t s)\<lparr>cs_audit := a\<rparr>) \<and> trails_ok L ((upd t s)\<lparr>cs_audit := a\<rparr>) \<and>
      grows s ((upd t s)\<lparr>cs_audit := a\<rparr>) \<and>
      (\<forall>k. log_get a k = (if k = m then log_get (cs_audit s) m @ [ev] else log_get (cs_audit s) k))"
    by (rule replace_trails [OF lib trails tables(2) [OF tok] prior nx emit meta before status t(2,3)])
qed

end

subsection \<open>The tables of the store\<close>

lemma entity_rows_ok: "entity_table_ok t \<Longrightarrow> row_table_ok t"
  by (simp add: entity_table_ok_def indexed_table_ok_def)

interpretation claim_slot: case_slot E_claim_track cs_claimTrack "\<lambda>t s. s\<lparr>cs_claimTrack := t\<rparr>" "\<lambda>s t. entity_table_ok t"
proof unfold_locales
  show "k \<noteq> E_claim_track \<Longrightarrow> stored_rows (s\<lparr>cs_claimTrack := t\<rparr>) k m = stored_rows s k m" for k t s m by (cases k) auto
  show "k \<noteq> E_claim_track \<Longrightarrow> known_ids (s\<lparr>cs_claimTrack := t\<rparr>) k = known_ids s k" for k t s by (cases k) auto
qed (auto simp: tables_ok_def entity_rows_ok)

interpretation evidence_slot: case_slot E_evidence cs_evidence "\<lambda>t s. s\<lparr>cs_evidence := t\<rparr>"
  "\<lambda>s t. entity_table_ok t \<and> replacements_ok t"
proof unfold_locales
  show "k \<noteq> E_evidence \<Longrightarrow> stored_rows (s\<lparr>cs_evidence := t\<rparr>) k m = stored_rows s k m" for k t s m by (cases k) auto
  show "k \<noteq> E_evidence \<Longrightarrow> known_ids (s\<lparr>cs_evidence := t\<rparr>) k = known_ids s k" for k t s by (cases k) auto
qed (auto simp: tables_ok_def entity_rows_ok)

interpretation fact_slot: case_slot E_fact cs_fact "\<lambda>t s. s\<lparr>cs_fact := t\<rparr>" "\<lambda>s t. entity_table_ok t \<and> supersession_ok t"
proof unfold_locales
  show "k \<noteq> E_fact \<Longrightarrow> stored_rows (s\<lparr>cs_fact := t\<rparr>) k m = stored_rows s k m" for k t s m by (cases k) auto
  show "k \<noteq> E_fact \<Longrightarrow> known_ids (s\<lparr>cs_fact := t\<rparr>) k = known_ids s k" for k t s by (cases k) auto
qed (auto simp: tables_ok_def entity_rows_ok)

interpretation docket_slot: case_slot E_docket cs_docket "\<lambda>t s. s\<lparr>cs_docket := t\<rparr>"
  "\<lambda>s t. entity_table_ok t \<and> docket_backed t (cs_deadline s)"
proof unfold_locales
  show "k \<noteq> E_docket \<Longrightarrow> stored_rows (s\<lparr>cs_docket := t\<rparr>) k m = stored_rows s k m" for k t s m by (cases k) auto
  show "k \<noteq> E_docket \<Longrightarrow> known_ids (s\<lparr>cs_docket := t\<rparr>) k = known_ids s k" for k t s by (cases k) auto
qed (auto simp: tables_ok_def entity_rows_ok)

interpretation deadline_slot: case_slot E_deadline cs_deadline "\<lambda>t s. s\<lparr>cs_deadline := t\<rparr>"
  "\<lambda>s t. entity_table_ok t \<and> docket_backed (cs_docket s) t"
proof unfold_locales
  show "k \<noteq> E_deadline \<Longrightarrow> stored_rows (s\<lparr>cs_deadline := t\<rparr>) k m = stored_rows s k m" for k t s m by (cases k) auto
  show "k \<noteq> E_deadline \<Longrightarrow> known_ids (s\<lparr>cs_deadline := t\<rparr>) k = known_ids s k" for k t s by (cases k) auto
qed (auto simp: tables_ok_def entity_rows_ok)

interpretation privilege_slot: case_slot E_privilege cs_privilege "\<lambda>t s. s\<lparr>cs_privilege := t\<rparr>"
  "\<lambda>s t. indexed_table_ok t \<and> one_confirmed t"
proof unfold_locales
  show "k \<noteq> E_privilege \<Longrightarrow> stored_rows (s\<lparr>cs_privilege := t\<rparr>) k m = stored_rows s k m" for k t s m by (cases k) auto
  show "k \<noteq> E_privilege \<Longrightarrow> known_ids (s\<lparr>cs_privilege := t\<rparr>) k = known_ids s k" for k t s by (cases k) auto
qed (auto simp: tables_ok_def indexed_table_ok_def)

interpretation classification_slot: case_slot E_classification cs_classification "\<lambda>t s. s\<lparr>cs_classification := t\<rparr>"
  "\<lambda>s t. row_table_ok t"
proof unfold_locales
  show "k \<noteq> E_classification \<Longrightarrow> stored_rows (s\<lparr>cs_classification := t\<rparr>) k m = stored_rows s k m" for k t s m by (cases k) auto
  show "k \<noteq> E_classification \<Longrightarrow> known_ids (s\<lparr>cs_classification := t\<rparr>) k = known_ids s k" for k t s by (cases k) auto
qed (auto simp: tables_ok_def)

end
