(* ===== verification/CaseBoxWrites.thy ===== *)
theory CaseBoxWrites
  imports CaseBoxSlots
begin

text \<open>
  The writes on matters and documents keep the invariant, let logs only grow, and either change nothing or
  return the record they stored.
\<close>

text \<open>A write on a matter: the records and their tables stay, and the matter's events end in no record's.\<close>

lemma records_grow:
  assumes "records_ok L s" and "grows s s'"
    and "\<And>k m. stored_rows s' k m = stored_rows s k m" "\<And>k. known_ids s' k = known_ids s k"
    and logs: "\<And>m. \<exists>evs. (\<forall>ev\<in>set evs. jget (sa_event ev) ''entity_type'' = JStr ''matter'') \<and>
      (log_get (cs_audit s') m = log_get (cs_audit s) m @ evs \<or> mget (cs_matters s) m = None \<and> log_get (cs_audit s') m = evs)"
  shows "records_ok L s'"
  unfolding records_ok_def assms(3,4)
proof (intro conjI allI impI)
  fix k m row assume "row \<in> stored_rows s k m"
  with assms(1) have old: "key_of k row \<in> known_ids s k" "tracked L s k m row" unfolding records_ok_def by blast+
  then show "key_of k row \<in> known_ids s k" by simp
  from old(2) obtain matter where m: "mget (cs_matters s) m = Some matter" "jget matter ''tenant_id'' = jget row ''tenant_id''"
    unfolding tracked_def by blast
  from growsD [OF assms(2) m(1)] obtain x where x: "mget (cs_matters s') m = Some x" "jget x ''tenant_id'' = jget matter ''tenant_id''" .
  from logs [of m] m(1) obtain evs where evs: "\<forall>ev\<in>set evs. jget (sa_event ev) ''entity_type'' = JStr ''matter''"
    "log_get (cs_audit s') m = log_get (cs_audit s) m @ evs" by auto
  have "filter (is_event_of (entity_name k) y) (map sa_event evs) = []" for y
    using evs(1) by (auto simp: filter_empty_conv is_event_of_def)
  then have "entity_events (entity_name k) y (log_get (cs_audit s') m) = entity_events (entity_name k) y (log_get (cs_audit s) m)" for y
    by (simp add: entity_events_def evs(2))
  with old(2) x m(2) show "tracked L s' k m row" by (auto simp: tracked_def record_trail_def)
next
  fix k m ev
  assume ev: "ev \<in> set (log_get (cs_audit s') m)" "jget (sa_event ev) ''entity_type'' = JStr (entity_name k)"
  with logs [of m] have "ev \<in> set (log_get (cs_audit s) m)" by fastforce
  with assms(1) ev(2) show "jget (sa_event ev) ''entity_id'' \<in> known_ids s k" unfolding records_ok_def by blast
qed

lemma rows_of_matters [simp]:
  "stored_rows (s\<lparr>cs_matters := ms\<rparr>) k m = stored_rows s k m" "known_ids (s\<lparr>cs_matters := ms\<rparr>) k = known_ids s k"
  by (cases k; simp)+

subsection \<open>What the preparations keep of a matter\<close>

lemma jget_jset_any: "jget (jset v k x) k' = (if k' = k \<and> (\<exists>kvs. v = JObj kvs) then x else jget v k')"
  by (cases v) auto

lemma jget_jdel_other [simp]: "k' \<noteq> k \<Longrightarrow> jget (jdel k v) k' = jget v k'"
  by (cases v) (auto simp: jdel_def)

lemma nextMatter_other:
  "k \<noteq> ''status'' \<Longrightarrow> k \<noteq> ''archived_at'' \<Longrightarrow> jget (nextMatter matter to stamp) k = jget matter k"
  by (simp add: nextMatter_def Let_def jget_jset_any)

lemma parties_ok_cong: "jget x ''parties'' = jget y ''parties'' \<Longrightarrow> parties_ok x = parties_ok y"
  by (simp add: parties_ok_def party_ids_def)

lemma applyPatch_other:
  "applyPatch L matter patch fs cur = Inr (cur', changed) \<Longrightarrow> k \<notin> set fs \<Longrightarrow> jget cur' k = jget cur k"
proof (induction fs arbitrary: cur changed)
  case (Cons f fs)
  then show ?case
    by (auto simp: result_simps jget_jset_any split: option.splits if_splits)
qed simp

lemma detail_fields_other: "k \<in> {''id'', ''tenant_id'', ''parties'', ''status'', ''matter_id''} \<Longrightarrow> k \<notin> set EDITABLE_MATTER_DETAIL_FIELDS"
  by (auto simp: EDITABLE_MATTER_DETAIL_FIELDS_def)

lemma withChangedFields_Inr:
  assumes "withChangedFields L cf ev = Inr ev'" and "sa_event ev = JObj kvs" and "next_event L m t prev (sa_event ev)"
  shows "next_event L m t prev (sa_event ev') \<and> sa_sequence ev' = sa_sequence ev \<and>
    (\<forall>k. k \<noteq> ''changed_fields'' \<longrightarrow> jget (sa_event ev') k = jget (sa_event ev) k)"
proof -
  from assms(1) have ev': "ev' = ev\<lparr>sa_event := jset (sa_event ev) ''changed_fields'' (JArr (map JStr cf))\<rparr>"
    "al_validateAuditEvent L (sa_event ev') = None"
    by (auto simp: withChangedFields_def Let_def split: option.splits)
  then have other: "jget (sa_event ev') k = jget (sa_event ev) k" if "k \<noteq> ''changed_fields''" for k
    using that by (simp add: jget_jset_any)
  have "kind_inconsistent (sa_event ev') = kind_inconsistent (sa_event ev)"
    unfolding kind_inconsistent_def by (simp only: other list.inject char.inject simp_thms)
  with assms(3) ev' other show ?thesis by (simp add: next_event_def)
qed

subsection \<open>Creation\<close>

lemma createMatter_run:
  assumes "case_lib_ok L" and "ids_ok ci" and "case_inv L s" and "createMatter L ci input s = (r, s')"
  shows "case_inv L s' \<and> grows s s' \<and> (case r of Inl e \<Rightarrow> s' = s
    | Inr matter \<Rightarrow> mget (cs_matters s) (jget matter ''id'') = None \<and> cs_documents s' = cs_documents s \<and>
        mget (cs_matters s') (jget matter ''id'') = Some matter \<and> jget matter ''status'' = JStr ''active'')"
proof (cases "prepareCreateMatter L ci (cs_matters s) input")
  case (Inl e)
  with assms(3,4) show ?thesis by (auto simp: createMatter_def)
next
  case (Inr p)
  obtain matter ev where p: "p = (matter, ev)" by (cases p)
  let ?m = "jget matter ''id''" and ?L = "audit_lib L"
  from Inr p obtain n k where pre: "cl_validateMatter L input = None" "mget (cs_matters s) (jget input ''id'') = None"
      "jget input ''status'' = JStr ''active''"
      "assignMatterPartyIdsInPlace (ci_id ci) input = Inr (matter, n, k)"
      "emitEvent ?L [] (\<lambda>prevHash.
         \<lparr>be_kind = ''MATTER_REGISTERED'', be_id = ci_id ci n, be_tenant_id = jget matter ''tenant_id'',
          be_actor_user_id = jget matter ''actor_user_id'', be_matter_id = ?m, be_entity_id = ?m,
          be_before_state_hash = JNull, be_after_state_hash = entityStateHash ?L matter, be_prev_event_hash = prevHash,
          be_timestamp = ci_now ci, be_reason = JUndef\<rparr>) = Inr ev" (is "emitEvent ?L [] ?mk = Inr ev")
    by (auto simp: prepareCreateMatter_def result_simps split: prod.splits)
  have lib: "hash_ok ?L" "audit_lib_ok ?L" using assms(1) by (simp_all add: case_lib_ok_def)
  have matter: "parties_ok matter" "\<And>f. f \<noteq> ''parties'' \<Longrightarrow> jget matter f = jget input f"
    using assignMatterPartyIds_ok [OF pre(4)] assms(1,2) pre(1) by (auto simp: case_lib_ok_def ids_ok_def)
  have fresh: "mget (cs_matters s) ?m = None" using pre(2) matter(2) by simp
  have "good_input ?L ?m (jget matter ''tenant_id'') \<lparr>km_action = ''create'', km_entity_type = ''matter'', km_reasonRequired = False\<rparr> ?mk"
    by (auto simp: good_input_def audit_simps)
  from emit_next_event [OF lib(1) pre(5) this] obtain prev where e: "priorHeadOf ?L [] = Inr prev"
    "sa_event ev = auditCandidate \<lparr>km_action = ''create'', km_entity_type = ''matter'', km_reasonRequired = False\<rparr> (?mk prev)"
    "sa_sequence ev = 1" "next_event ?L ?m (jget matter ''tenant_id'') prev (sa_event ev)" by auto
  have "prev = None" using e(1) by (simp add: priorHeadOf_def)
  moreover have genesis: "genesis_event (sa_event ev)" by (simp add: genesis_event_def e(2) audit_simps)
  ultimately obtain h where h: "eventHashFn ?L (sa_event ev) = Inr h"
    "chain_inv ?L ?m (jget matter ''tenant_id'') [ev] (Some \<lparr>ah_headHash = h, ah_count = 1\<rparr>)"
    using chain_inv_genesis [OF lib(2) _ genesis e(3)] e(4) by blast
  let ?s1 = "s\<lparr>cs_matters := mset_kv ?m matter (cs_matters s)\<rparr>"
  from log_reset_run [OF h(1), of ?m "cs_audit s"] obtain a where a: "log_reset ?L ?m [ev] (cs_audit s) = (Inr (), a)"
    "\<And>k. log_get a k = (if k = ?m then [ev] else log_get (cs_audit s) k)"
    "\<And>k. log_anchor a k = (if k = ?m then Some \<lparr>ah_headHash = h, ah_count = 1\<rparr> else log_anchor (cs_audit s) k)" by blast
  have run: "r = Inr matter" "s' = ?s1\<lparr>cs_audit := a\<rparr>"
    using assms(4) Inr p a(1) by (simp_all add: createMatter_def Let_def)
  have "matter_trail ?L ?m matter [ev]"
    by (simp add: record_trail_def entity_events_def is_event_of_def starts_from_def e(2) audit_simps)
  with assms(3) h(2) a(2,3) matter(1) have "matters_ok L s'"
    by (auto simp: run(2) matters_ok_def case_inv_def trails_ok_def)
  moreover have "grows s s'" using fresh a(2) by (auto simp: grows_def run(2))
  moreover have "records_ok L s'"
  proof (rule records_grow [OF _ \<open>grows s s'\<close>])
    show "records_ok L s" using assms(3) by (simp add: case_inv_def trails_ok_def)
    show "\<exists>evs. (\<forall>ev\<in>set evs. jget (sa_event ev) ''entity_type'' = JStr ''matter'') \<and>
        (log_get (cs_audit s') k = log_get (cs_audit s) k @ evs \<or> mget (cs_matters s) k = None \<and> log_get (cs_audit s') k = evs)" for k
      using fresh a(2) by (intro exI [of _ "if k = ?m then [ev] else []"]) (auto simp: run(2) e(2) audit_simps)
  qed (simp_all add: run(2))
  ultimately show ?thesis using run fresh pre(3) matter(2) assms(3) by (simp add: case_inv_def trails_ok_def)
qed

subsection \<open>Writes on an existing matter\<close>

text \<open>Replacing the record of a matter by one with the same id, tenant and identified parties, under an event
  from the old state's hash to the new one's.\<close>

lemma rewrite_run:
  assumes "case_lib_ok L" and "case_inv L s" and "mget (cs_matters s) m = Some matter"
    and "jget nx ''id'' = jget matter ''id''" and "jget nx ''tenant_id'' = jget matter ''tenant_id''" and "parties_ok nx"
    and "priorHeadOf (audit_lib L) (log_get (cs_audit s) m) = Inr prev"
    and "next_event (audit_lib L) m (jget matter ''tenant_id'') prev (sa_event ev)"
    and "sa_sequence ev = length (log_get (cs_audit s) m) + 1"
    and "is_event_of ''matter'' m (sa_event ev)"
    and "starts_from (JStr (entityStateHash (audit_lib L) matter)) (sa_event ev)"
    and "jget (sa_event ev) ''after_state_hash'' = JStr (entityStateHash (audit_lib L) nx)"
    and "commitEvent L m ev nx (s\<lparr>cs_matters := mset_kv m nx (cs_matters s)\<rparr>) = (r, s')"
  shows "case_inv L s' \<and> grows s s' \<and> r = Inr nx \<and> mget (cs_matters s') m = Some nx \<and>
    log_get (cs_audit s') m = log_get (cs_audit s) m @ [ev]"
proof -
  let ?s1 = "s\<lparr>cs_matters := mset_kv m nx (cs_matters s)\<rparr>"
  note old = case_inv_matter [OF assms(2,3)]
  have "\<exists>a. commitEvent L m ev nx ?s1 = (Inr nx, ?s1\<lparr>cs_audit := a\<rparr>) \<and> matters_ok L (?s1\<lparr>cs_audit := a\<rparr>) \<and>
      grows s (?s1\<lparr>cs_audit := a\<rparr>) \<and>
      (\<forall>k. log_get a k = (if k = m then log_get (cs_audit s) m @ [ev] else log_get (cs_audit s) k))"
    by (rule commit_run [OF assms(1) old(3) assms(3) _ assms(5-9)]) (use assms(4,10-12) old(1) in auto)
  then obtain a where a: "commitEvent L m ev nx ?s1 = (Inr nx, ?s1\<lparr>cs_audit := a\<rparr>)" "matters_ok L (?s1\<lparr>cs_audit := a\<rparr>)"
    "grows s (?s1\<lparr>cs_audit := a\<rparr>)"
    and log: "\<And>k. log_get a k = (if k = m then log_get (cs_audit s) m @ [ev] else log_get (cs_audit s) k)" by blast
  have run: "r = Inr nx" "s' = ?s1\<lparr>cs_audit := a\<rparr>" using assms(13) a(1) by simp_all
  have g: "grows s s'" using a(3) by (simp add: run(2))
  have "records_ok L s'"
  proof (rule records_grow [OF old(4) g])
    show "\<exists>evs. (\<forall>ev\<in>set evs. jget (sa_event ev) ''entity_type'' = JStr ''matter'') \<and>
        (log_get (cs_audit s') k = log_get (cs_audit s) k @ evs \<or> mget (cs_matters s) k = None \<and> log_get (cs_audit s') k = evs)" for k
      using assms(10) log by (intro exI [of _ "if k = m then [ev] else []"]) (auto simp: run(2) is_event_of_def)
  qed (simp_all add: run(2))
  with a run log old(5) show ?thesis by (simp add: case_inv_def trails_ok_def)
qed

lemma matterTransition_run:
  assumes "case_lib_ok L" and "case_inv L s" and "kind \<in> {''MATTER_ARCHIVED'', ''MATTER_UNARCHIVED''}"
    and "applyMatterTransition L ci m opts to kind s = (r, s')"
  shows "case_inv L s' \<and> grows s s' \<and> (case r of Inl e \<Rightarrow> s' = s
    | Inr nx \<Rightarrow> \<exists>matter. mget (cs_matters s) m = Some matter \<and> nx = nextMatter matter to (ci_now ci) \<and>
        mget (cs_matters s') m = Some nx \<and>
        assertValidMatterTransition (js_String (jget matter ''status'')) to Lawyer = Inr ())"
proof (cases "mget (cs_matters s) m")
  case None
  with assms(2,4) show ?thesis by (auto simp: applyMatterTransition_def)
next
  case (Some matter)
  let ?L = "audit_lib L" and ?log = "log_get (cs_audit s) m"
  show ?thesis
  proof (cases "prepareMatterTransition L ci matter opts to kind ?log")
    case (Inl e)
    with Some assms(2,4) show ?thesis by (auto simp: applyMatterTransition_def)
  next
    case (Inr p)
    obtain nx ev where p: "p = (nx, ev)" by (cases p)
    note old = case_inv_matter [OF assms(2) Some]
    let ?mk = "\<lambda>prevHash. \<lparr>be_kind = kind, be_id = ci_id ci 0, be_tenant_id = jget matter ''tenant_id'',
      be_actor_user_id = am_actor_user_id opts, be_matter_id = jget matter ''id'', be_entity_id = jget matter ''id'',
      be_before_state_hash = JStr (entityStateHash ?L matter), be_after_state_hash = entityStateHash ?L nx,
      be_prev_event_hash = prevHash, be_timestamp = ci_now ci, be_reason = am_reason opts\<rparr>"
    from Inr p have pre: "assertValidMatterTransition (js_String (jget matter ''status'')) to Lawyer = Inr ()"
      "nx = nextMatter matter to (ci_now ci)" "emitEvent ?L ?log ?mk = Inr ev"
      by (auto simp: prepareMatterTransition_def result_simps Let_def)
    have lib: "hash_ok ?L" using assms(1) by (simp add: case_lib_ok_def)
    have "good_input ?L m (jget matter ''tenant_id'') \<lparr>km_action = ''update'', km_entity_type = ''matter'', km_reasonRequired = False\<rparr> ?mk"
      using assms(3) old(1) by (auto simp: good_input_def audit_simps)
    from emit_next_event [OF lib pre(3) this] obtain prev where e: "priorHeadOf ?L ?log = Inr prev"
      "sa_event ev = auditCandidate \<lparr>km_action = ''update'', km_entity_type = ''matter'', km_reasonRequired = False\<rparr> (?mk prev)"
      "sa_sequence ev = length ?log + 1" "next_event ?L m (jget matter ''tenant_id'') prev (sa_event ev)" by blast
    have same: "jget nx ''id'' = jget matter ''id''" "jget nx ''tenant_id'' = jget matter ''tenant_id''" "parties_ok nx"
      using old(2) parties_ok_cong [of nx matter] by (simp_all add: pre(2) nextMatter_other)
    have "commitEvent L m ev nx (s\<lparr>cs_matters := mset_kv m nx (cs_matters s)\<rparr>) = (r, s')"
      using assms(4) Some Inr p by (simp add: applyMatterTransition_def)
    from rewrite_run [OF assms(1,2) Some same e(1,4,3) _ _ _ this] Some pre assms(3) show ?thesis
      by (auto simp: is_event_of_def starts_from_def e(2) audit_simps old(1))
  qed
qed

lemma ensureMatterPartyIds_run:
  assumes "case_inv L s" and "ensureMatterPartyIds L ci m actor s = (r, s')"
  shows "s' = s \<and> (\<forall>matter. r = Inr matter \<longrightarrow> mget (cs_matters s) m = Some matter)"
proof (cases "mget (cs_matters s) m")
  case None
  with assms(2) show ?thesis by (auto simp: ensureMatterPartyIds_def)
next
  case (Some matter)
  have "prepareEnsureMatterPartyIds L ci matter actor stored \<noteq> Inr (Some q)" for stored q
    using assigned_none [OF case_inv_matter(2) [OF assms(1) Some]]
    by (auto simp: prepareEnsureMatterPartyIds_def result_simps split: if_splits)
  with Some assms(2) show ?thesis
    by (auto simp: ensureMatterPartyIds_def split: sum.splits option.splits)
qed

lemma matter_trail_latest:
  assumes "matter_trail L m matter stored"
  shows "\<exists>ev. latestPriorMatterEvent m stored = Some ev \<and> jget (sa_event ev) ''after_state_hash'' = JStr (entityStateHash L matter)"
proof (cases "latestPriorMatterEvent m stored")
  case None
  then have "entity_events ''matter'' m stored = []"
    by (auto simp: latestPriorMatterEvent_def find_None_iff_all entity_events_def is_event_of_def filter_empty_conv)
  with assms show ?thesis by (simp add: record_trail_def)
next
  case (Some ev)
  from latest_matter_event [OF this] assms Some show ?thesis by (simp add: record_trail_def)
qed

lemma applyPatch_Inl:
  "applyPatch L matter patch fs cur = Inl e \<Longrightarrow> \<exists>msg. e = CaseBoxPersistenceError Invalid_payload msg"
proof (induction fs arbitrary: cur)
  case (Cons f fs)
  then show ?case
    by (auto simp: result_simps split: option.splits if_splits jval.splits)
qed simp

lemma emit_no_desync: "emitEvent L stored mk = Inl e \<Longrightarrow> e \<noteq> CaseBoxPersistenceError Audit_chain_desync msg"
  by (cases "priorHeadOf L stored") (auto simp: emitEvent_def split: sum.splits)

lemma updateMatterDetails_run:
  assumes "case_lib_ok L" and "case_inv L s" and "updateMatterDetails L ci m opts s = (r, s')"
  shows "case_inv L s' \<and> grows s s' \<and> (case r of
      Inl e \<Rightarrow> s' = s \<and> (\<forall>msg. e \<noteq> CaseBoxPersistenceError Audit_chain_desync msg)
    | Inr nx \<Rightarrow> \<exists>matter. mget (cs_matters s) m = Some matter \<and> jget matter ''status'' = JStr ''active'' \<and>
        mget (cs_matters s') m = Some nx \<and>
        (\<forall>f. f \<notin> set EDITABLE_MATTER_DETAIL_FIELDS \<longrightarrow> jget nx f = jget matter f))"
proof (cases "mget (cs_matters s) m")
  case None
  with assms(2,3) show ?thesis by (auto simp: updateMatterDetails_def unknown_matter_def)
next
  case (Some matter)
  let ?L = "audit_lib L" and ?log = "log_get (cs_audit s) m"
  note old = case_inv_matter [OF assms(2) Some]
  have "matter_trail ?L m matter ?log" using old(3) Some by (simp add: matters_ok_def)
  from matter_trail_latest [OF this] obtain prior where prior: "latestPriorMatterEvent m ?log = Some prior"
    "jget (sa_event prior) ''after_state_hash'' = JStr (entityStateHash ?L matter)" by blast
  have lib: "hash_ok ?L" using assms(1) by (simp add: case_lib_ok_def)
  show ?thesis
  proof (cases "prepareMatterDetailsUpdate L ci matter opts ?log (Some prior)")
    case (Inl e)
    then have "\<forall>msg. e \<noteq> CaseBoxPersistenceError Audit_chain_desync msg"
      using prior(2) hash_nonempty [OF lib, of matter]
      by (auto simp: prepareMatterDetailsUpdate_def result_simps Let_def withChangedFields_def
          split: jval.splits option.splits dest!: applyPatch_Inl dest: emit_no_desync)
    with Some Inl assms(2,3) prior show ?thesis by (auto simp: updateMatterDetails_def)
  next
    case (Inr p)
    obtain nx ev where p: "p = (nx, ev)" by (cases p)
    let ?mk = "\<lambda>prevHash. \<lparr>be_kind = ''MATTER_DETAILS_UPDATED'', be_id = ci_id ci 0, be_tenant_id = jget matter ''tenant_id'',
      be_actor_user_id = ud_actor_user_id opts, be_matter_id = jget matter ''id'', be_entity_id = jget matter ''id'',
      be_before_state_hash = JStr (entityStateHash ?L matter), be_after_state_hash = entityStateHash ?L nx,
      be_prev_event_hash = prevHash, be_timestamp = ci_now ci, be_reason = ud_reason opts\<rparr>"
    from Inr p prior(2) obtain patch changed built where pre: "jget matter ''status'' = JStr ''active''"
      "applyPatch L matter patch EDITABLE_MATTER_DETAIL_FIELDS matter = Inr (nx, changed)"
      "emitEvent ?L ?log ?mk = Inr built" "withChangedFields ?L (sort changed) built = Inr ev"
      by (auto simp: prepareMatterDetailsUpdate_def result_simps Let_def split: jval.splits option.splits)
    let ?meta = "\<lparr>km_action = ''update'', km_entity_type = ''matter'', km_reasonRequired = True\<rparr>"
    have "good_input ?L m (jget matter ''tenant_id'') ?meta ?mk"
      using old(1) by (auto simp: good_input_def audit_simps)
    from emit_next_event [OF lib pre(3) this] obtain prev where e: "priorHeadOf ?L ?log = Inr prev"
      "sa_event built = auditCandidate ?meta (?mk prev)" "sa_sequence built = length ?log + 1"
      "next_event ?L m (jget matter ''tenant_id'') prev (sa_event built)" by blast
    obtain kvs where "sa_event built = JObj kvs" by (simp add: e(2) auditCandidate_def)
    from withChangedFields_Inr [OF pre(4) this e(4)]
    have ev: "next_event ?L m (jget matter ''tenant_id'') prev (sa_event ev)" "sa_sequence ev = length ?log + 1"
      "\<And>k. k \<noteq> ''changed_fields'' \<Longrightarrow> jget (sa_event ev) k = jget (auditCandidate ?meta (?mk prev)) k"
      using e(2,3) by auto
    have other: "\<And>f. f \<notin> set EDITABLE_MATTER_DETAIL_FIELDS \<Longrightarrow> jget nx f = jget matter f"
      using applyPatch_other [OF pre(2)] by blast
    have same: "jget nx ''id'' = jget matter ''id''" "jget nx ''tenant_id'' = jget matter ''tenant_id''" "parties_ok nx"
      using old(2) parties_ok_cong [of nx matter] by (simp_all add: other detail_fields_other)
    have "commitEvent L m ev nx (s\<lparr>cs_matters := mset_kv m nx (cs_matters s)\<rparr>) = (r, s')"
      using assms(3) Some Inr p prior(1) by (simp add: updateMatterDetails_def Let_def)
    from rewrite_run [OF assms(1,2) Some same e(1) ev(1,2) _ _ _ this] Some pre(1) other show ?thesis
      by (simp add: is_event_of_def starts_from_def ev(3) audit_simps old(1))
  qed
qed

lemma registerDocument_run:
  assumes "case_lib_ok L" and "case_inv L s" and "registerDocument L ci m input s = (r, s')"
  shows "case_inv L s' \<and> grows s s' \<and> (case r of Inl e \<Rightarrow> s' = s
    | Inr doc \<Rightarrow> doc = input \<and> mget (cs_documents s) (jget doc ''id'') = None \<and>
        mget (cs_documents s') (jget doc ''id'') = Some (doc, m) \<and> cs_matters s' = cs_matters s)"
proof (cases "mget (cs_matters s) m")
  case None
  with assms(2,3) show ?thesis by (auto simp: registerDocument_def)
next
  case (Some matter)
  let ?L = "audit_lib L" and ?log = "log_get (cs_audit s) m"
  note old = case_inv_matter [OF assms(2) Some]
  have lib: "hash_ok ?L" using assms(1) by (simp add: case_lib_ok_def)
  show ?thesis
  proof (cases "prepareRegisterDocument L ci m matter (cs_documents s) ?log input")
    case (Inl e)
    with Some assms(2,3) show ?thesis by (auto simp: registerDocument_def)
  next
    case (Inr p)
    obtain doc ev where p: "p = (doc, ev)" by (cases p)
    let ?mk = "\<lambda>prevHash. \<lparr>be_kind = ''DOCUMENT_REGISTERED'', be_id = ci_id ci 0, be_tenant_id = jget input ''tenant_id'',
      be_actor_user_id = jget input ''actor_user_id'', be_matter_id = m, be_entity_id = jget input ''id'',
      be_before_state_hash = JNull, be_after_state_hash = entityStateHash ?L input,
      be_prev_event_hash = prevHash, be_timestamp = ci_now ci, be_reason = JUndef\<rparr>"
    from Inr p have pre: "jget input ''matter_id'' = m" "jget input ''tenant_id'' = jget matter ''tenant_id''"
      "mget (cs_documents s) (jget input ''id'') = None" "doc = input" "emitEvent ?L ?log ?mk = Inr ev"
      "jget input ''status'' = JStr ''registered''"
      by (auto simp: prepareRegisterDocument_def result_simps)
    let ?meta = "\<lparr>km_action = ''create'', km_entity_type = ''document'', km_reasonRequired = False\<rparr>"
    have "good_input ?L m (jget matter ''tenant_id'') ?meta ?mk"
      using pre(2) by (auto simp: good_input_def audit_simps)
    from emit_next_event [OF lib pre(5) this] obtain prev where e: "priorHeadOf ?L ?log = Inr prev"
      "sa_event ev = auditCandidate ?meta (?mk prev)" "sa_sequence ev = length ?log + 1"
      "next_event ?L m (jget matter ''tenant_id'') prev (sa_event ev)" by blast
    let ?s1 = "s\<lparr>cs_documents := mset_kv (jget doc ''id'') (doc, m) (cs_documents s)\<rparr>"
    have none: "[] = entity_events (entity_name E_document) (key_of E_document input) ?log"
      using unknown_no_entity_events [OF old(4), of "jget input ''id''" E_document] pre(3) by (simp add: key_of_def)
    have docs: "documents_ok (cs_documents s)" "links_ok (cs_ocrLink s) (cs_documents s)" using old(5) by (simp_all add: tables_ok_def)
    have frame: "k \<noteq> E_document \<Longrightarrow> stored_rows ?s1 k m' = stored_rows s k m'" "k \<noteq> E_document \<Longrightarrow> known_ids ?s1 k = known_ids s k" for k m'
      by (cases k; simp)+
    have "\<exists>a. commitEvent L m ev doc ?s1 = (Inr doc, ?s1\<lparr>cs_audit := a\<rparr>) \<and> trails_ok L (?s1\<lparr>cs_audit := a\<rparr>) \<and>
        grows s (?s1\<lparr>cs_audit := a\<rparr>) \<and> (\<forall>k. log_get a k = (if k = m then ?log @ [ev] else log_get (cs_audit s) k))"
    proof (rule write_run [where k = E_document and row = input, OF assms(1) _ Some pre(2) e(1,4,3) _ _ _ none _ _ _ _ _ frame])
      show "trails_ok L s" using assms(2) by (simp add: case_inv_def)
      show "lifecycle_ok E_document input ([] @ [sa_event ev])"
        using pre(6) by (auto simp: e(2) audit_simps announced_status_def intro!: lifecycle_create)
      show "stored_rows ?s1 E_document m \<subseteq> insert input (stored_rows s E_document m - {r. key_of E_document r = key_of E_document input})"
        using docs(1) pre(3,4) by (auto simp: documents_ok_def key_of_def split: if_splits)
    qed (use pre in \<open>auto simp: e(2) audit_simps starts_from_def key_of_def split: if_splits\<close>)
    then obtain a where a: "commitEvent L m ev doc ?s1 = (Inr doc, ?s1\<lparr>cs_audit := a\<rparr>)" "trails_ok L (?s1\<lparr>cs_audit := a\<rparr>)"
      "grows s (?s1\<lparr>cs_audit := a\<rparr>)" by blast
    have run: "r = Inr doc" "s' = ?s1\<lparr>cs_audit := a\<rparr>"
      using assms(3) Some Inr p a(1) by (simp_all add: registerDocument_def)
    have "documents_ok (cs_documents ?s1)" using docs(1) pre(1,4) by (auto simp: documents_ok_def)
    moreover have "links_ok (cs_ocrLink s) (cs_documents ?s1)"
      using docs(2) pre(3,4) unfolding links_ok_def by (auto simp del: not_None_eq) (metis option.distinct(1))+
    ultimately have "tables_ok ?s1" using old(5) by (simp add: tables_ok_def)
    with a run pre show ?thesis by (simp add: case_inv_def)
  qed
qed

end
