(* ===== verification/CaseBoxEntityWrites.thy ===== *)
theory CaseBoxEntityWrites
  imports CaseBoxWrites
begin

text \<open>
  The writes of the entity modules keep the invariant: the two bodies the delegates share, proved over the
  interface of the tables, and the steps the proofs of the single operations share.
\<close>

lemma emit_matter_str:
  assumes "case_lib_ok L" and "emitEvent (audit_lib L) stored (createdEvent L ci ekind row reason) = Inr ev"
  shows "is_str (jget row ''matter_id'')"
proof -
  from emit_Inr [OF assms(2)] obtain prev meta where e: "sa_event ev = auditCandidate meta (createdEvent L ci ekind row reason prev)"
    "al_validateAuditEvent (audit_lib L) (sa_event ev) = None" by metis
  then have "event_shape (sa_event ev)" using assms(1) by (auto simp: case_lib_ok_def audit_schema_ok_def)
  from shape_str [OF this, of "''matter_id''"] show ?thesis
    by (simp add: e(1) audit_simps event_input_simps required_event_fields_def is_str_iff)
qed

text \<open>What a preparation of a creation must give: a fresh row of the input's matter in the kind's first status, and its event.\<close>

definition creates :: "CaseBoxLib \<Rightarrow> CallInputs \<Rightarrow> case_entity \<Rightarrow> jval list \<Rightarrow> StoredAuditEvent list \<Rightarrow> jval \<Rightarrow> StoredAuditEvent \<Rightarrow> bool" where
  "creates L ci kind ids stored row ev \<longleftrightarrow> jget row ''id'' \<notin> set ids \<and>
     (\<exists>ekind rr reason. emitEvent (audit_lib L) stored (createdEvent L ci ekind row reason) = Inr ev \<and>
        map_of CASE_BOX_AUDIT_EVENT_KINDS ekind =
          Some \<lparr>km_action = ''create'', km_entity_type = entity_name kind, km_reasonRequired = rr\<rparr> \<and>
        (\<forall>f. status_field kind = Some f \<longrightarrow>
           map_of announced_status ekind = Some (first_status kind) \<and> jget row f = JStr (first_status kind)))"

text \<open>What a preparation of a transition must give: the stored row it starts from, and the next one with its event.\<close>

definition moves :: "CaseBoxLib \<Rightarrow> CallInputs \<Rightarrow> case_entity \<Rightarrow> jval \<Rightarrow> StoredAuditEvent list \<Rightarrow> jval \<Rightarrow> jval \<Rightarrow> StoredAuditEvent \<Rightarrow> bool" where
  "moves L ci kind m stored prior nx ev \<longleftrightarrow>
     jget nx ''id'' = jget prior ''id'' \<and> jget nx ''tenant_id'' = jget prior ''tenant_id'' \<and>
     (\<exists>ekind act rr actor before reason.
        emitEvent (audit_lib L) stored (updatedEvent L ci ekind m actor before nx reason) = Inr ev \<and>
        map_of CASE_BOX_AUDIT_EVENT_KINDS ekind =
          Some \<lparr>km_action = act, km_entity_type = entity_name kind, km_reasonRequired = rr\<rparr> \<and>
        before = (if ekind = ''FACT_REPLACEMENT_ACCEPTED'' then JNull else JStr (entityStateHash (audit_lib L) prior)) \<and>
        (act = ''create'' \<longrightarrow> before = JNull) \<and>
        (\<forall>es e. lifecycle_ok kind prior es \<longrightarrow> jget e ''event_kind'' = JStr ekind \<longrightarrow> lifecycle_ok kind nx (es @ [e])))"

context case_slot
begin

lemma append_body:
  assumes lib: "case_lib_ok L" and inv: "case_inv L s"
    and run: "appendBody L label (\<lambda>m row s. upd (push m row (get s)) s) prepare input s = (r, s')"
    and prep: "\<And>stored row ev. prepare stored = Inr (row, ev) \<Longrightarrow>
      creates L ci kind (rt_ids (get s)) stored row ev \<and> jget row ''matter_id'' = jget input ''matter_id'' \<and>
      ok s (push (jget row ''matter_id'') row (get s)) \<and>
      (label = None \<longrightarrow> (\<forall>matter. mget (cs_matters s) (jget row ''matter_id'') = Some matter \<longrightarrow>
         jget row ''tenant_id'' = jget matter ''tenant_id''))"
    and push: "\<And>m row t k. rows_of (push m row t) k = (if k = m then rows_of t m @ [row] else rows_of t k)"
      "\<And>m row t. set (rt_ids (push m row t)) = insert (jget row ''id'') (set (rt_ids t))"
  shows "case_inv L s' \<and> grows s s' \<and> (case r of
      Inl e \<Rightarrow> s' = s
    | Inr row \<Rightarrow> (\<exists>stored ev. prepare stored = Inr (row, ev)) \<and>
        (\<exists>a. s' = (upd (push (jget row ''matter_id'') row (get s)) s)\<lparr>cs_audit := a\<rparr>))"
proof -
  let ?im = "jget input ''matter_id''"
  let ?stored = "if is_str ?im then log_get (cs_audit s) ?im else []"
  show ?thesis
  proof (cases "(is_str ?im \<and> mget (cs_matters s) ?im = None) \<or> (\<exists>e. prepare ?stored = Inl e)")
    case True
    with run inv show ?thesis by (auto simp: appendBody_def Let_def split: if_splits)
  next
    case False
    then obtain row ev where p: "prepare ?stored = Inr (row, ev)" by (metis old.prod.exhaust sum.exhaust)
    let ?m = "jget row ''matter_id''"
    have row: "creates L ci kind (rt_ids (get s)) ?stored row ev" "?m = ?im" "ok s (push ?m row (get s))"
      "label = None \<Longrightarrow> mget (cs_matters s) ?m = Some matter \<Longrightarrow> jget row ''tenant_id'' = jget matter ''tenant_id''" for matter
      using prep [OF p] by blast+
    from row(1) obtain ekind rr reason where c: "jget row ''id'' \<notin> set (rt_ids (get s))"
      "emitEvent (audit_lib L) ?stored (createdEvent L ci ekind row reason) = Inr ev"
      "map_of CASE_BOX_AUDIT_EVENT_KINDS ekind =
        Some \<lparr>km_action = ''create'', km_entity_type = entity_name kind, km_reasonRequired = rr\<rparr>"
      "\<And>f. status_field kind = Some f \<Longrightarrow> map_of announced_status ekind = Some (first_status kind) \<and> jget row f = JStr (first_status kind)"
      unfolding creates_def by blast
    have str: "is_str ?im" using emit_matter_str [OF lib c(2)] row(2) by simp
    with False obtain matter where m: "mget (cs_matters s) ?m = Some matter" using row(2) by auto
    show ?thesis
    proof (cases "jget matter ''tenant_id'' = jget row ''tenant_id''")
      case False
      with row(4) m have "\<exists>l. label = Some l" by (cases label) auto
      with False run inv p m row(2) str show ?thesis by (auto simp: appendBody_def Let_def)
    next
      case True
      have emit: "emitEvent (audit_lib L) (log_get (cs_audit s) ?m) (createdEvent L ci ekind row reason) = Inr ev"
        using c(2) str row(2) by simp
      from append_row [OF lib inv m True [symmetric] refl c(1) emit c(3,4) row(3) push, of row]
      obtain a where a: "commitEvent L ?m ev row (upd (push ?m row (get s)) s) =
          (Inr row, (upd (push ?m row (get s)) s)\<lparr>cs_audit := a\<rparr>)"
        "case_inv L ((upd (push ?m row (get s)) s)\<lparr>cs_audit := a\<rparr>)" "grows s ((upd (push ?m row (get s)) s)\<lparr>cs_audit := a\<rparr>)"
        by blast
      have "r = Inr row" "s' = (upd (push ?m row (get s)) s)\<lparr>cs_audit := a\<rparr>"
        using run p m row(2) str True a(1) by (auto simp: appendBody_def Let_def split: option.splits)
      with a(2,3) p show ?thesis by auto
    qed
  qed
qed

lemma replace_body:
  assumes lib: "case_lib_ok L" and inv: "case_inv L s"
    and run: "replaceBody L (\<lambda>m nx s. upd (put m nx (get s)) s) prepared s = (r, s')"
    and prep: "\<And>nx ev m. prepared = Inr (nx, ev, m) \<Longrightarrow>
      \<exists>prior\<in>set (rows_of (get s) m). moves L ci kind m (log_get (cs_audit s) m) prior nx ev \<and> ok s (put m nx (get s)) \<and>
        (\<forall>k. rows_of (put m nx (get s)) k =
           (if k = m then replaceRow (jget prior ''id'') nx (rows_of (get s) m) else rows_of (get s) k))"
    and put: "\<And>m nx t. rt_ids (put m nx t) = rt_ids t"
  shows "case_inv L s' \<and> grows s s' \<and> (case r of
      Inl e \<Rightarrow> s' = s
    | Inr nx \<Rightarrow> \<exists>ev m. prepared = Inr (nx, ev, m) \<and> (\<exists>a. s' = (upd (put m nx (get s)) s)\<lparr>cs_audit := a\<rparr>))"
proof (cases prepared)
  case (Inl e)
  with run inv show ?thesis by (auto simp: replaceBody_def)
next
  case (Inr q)
  obtain nx ev m where q: "q = (nx, ev, m)" by (cases q) auto
  from prep Inr q obtain prior where pr: "prior \<in> set (rows_of (get s) m)" "ok s (put m nx (get s))"
    "moves L ci kind m (log_get (cs_audit s) m) prior nx ev"
    and rows: "\<And>k. rows_of (put m nx (get s)) k =
      (if k = m then replaceRow (jget prior ''id'') nx (rows_of (get s) m) else rows_of (get s) k)" by blast
  from pr(3) obtain ekind act rr actor before reason where c: "jget nx ''id'' = jget prior ''id''"
    "jget nx ''tenant_id'' = jget prior ''tenant_id''"
    "emitEvent (audit_lib L) (log_get (cs_audit s) m) (updatedEvent L ci ekind m actor before nx reason) = Inr ev"
    "map_of CASE_BOX_AUDIT_EVENT_KINDS ekind =
      Some \<lparr>km_action = act, km_entity_type = entity_name kind, km_reasonRequired = rr\<rparr>"
    "before = (if ekind = ''FACT_REPLACEMENT_ACCEPTED'' then JNull else JStr (entityStateHash (audit_lib L) prior))"
    "act = ''create'' \<Longrightarrow> before = JNull"
    "\<And>es e. lifecycle_ok kind prior es \<Longrightarrow> jget e ''event_kind'' = JStr ekind \<Longrightarrow> lifecycle_ok kind nx (es @ [e])"
    unfolding moves_def by blast
  from replace_row [OF lib inv pr(1) c(1-7) pr(2) rows put, of nx] obtain a
    where a: "commitEvent L m ev nx (upd (put m nx (get s)) s) = (Inr nx, (upd (put m nx (get s)) s)\<lparr>cs_audit := a\<rparr>)"
      "case_inv L ((upd (put m nx (get s)) s)\<lparr>cs_audit := a\<rparr>)" "grows s ((upd (put m nx (get s)) s)\<lparr>cs_audit := a\<rparr>)" by blast
  have "r = Inr nx" "s' = (upd (put m nx (get s)) s)\<lparr>cs_audit := a\<rparr>"
    using run Inr q a(1) by (simp_all add: replaceBody_def)
  with a(2,3) Inr q show ?thesis by auto
qed

end

subsection \<open>Common steps\<close>

lemma announced [audit_simps]:
  "map_of announced_status ''DOCUMENT_REGISTERED'' = Some ''registered''"
  "map_of announced_status ''EVIDENCE_PROPOSED'' = Some ''proposed''"
  "map_of announced_status ''EVIDENCE_ACCEPTED'' = Some ''accepted''"
  "map_of announced_status ''EVIDENCE_REJECTED'' = Some ''rejected''"
  "map_of announced_status ''EVIDENCE_SUPERSEDED'' = Some ''superseded''"
  "map_of announced_status ''FACT_PROPOSED'' = Some ''candidate''"
  "map_of announced_status ''FACT_REVIEWED'' = Some ''reviewed''"
  "map_of announced_status ''FACT_REJECTED'' = Some ''rejected''"
  "map_of announced_status ''FACT_ACCEPTED'' = Some ''accepted''"
  "map_of announced_status ''FACT_REPLACEMENT_ACCEPTED'' = Some ''accepted''"
  "map_of announced_status ''DOCKET_ENTRY_PROPOSED'' = Some ''proposed''"
  "map_of announced_status ''DOCKET_ENTRY_CONFIRMED'' = Some ''confirmed''"
  "map_of announced_status ''DOCKET_ENTRY_DISMISSED'' = Some ''dismissed''"
  "map_of announced_status ''DEADLINE_REGISTERED'' = Some ''pending''"
  "map_of announced_status ''DEADLINE_MET'' = Some ''met''"
  "map_of announced_status ''DEADLINE_MISSED'' = Some ''missed''"
  "map_of announced_status ''DEADLINE_WITHDRAWN'' = Some ''withdrawn''"
  "map_of announced_status ''DEADLINE_MISSED_TO_MET'' = Some ''met''"
  "map_of announced_status ''PRIVILEGE_MARKER_PROPOSED'' = Some ''proposed''"
  "map_of announced_status ''PRIVILEGE_MARKER_CONFIRMED'' = Some ''confirmed''"
  "map_of announced_status ''PRIVILEGE_MARKER_DISMISSED'' = Some ''dismissed''"
  "map_of announced_status ''PRIVILEGE_MARKER_WAIVED'' = Some ''waived''"
  "map_of announced_status ''DOCKET_ENTRY_REVISED'' = None"
  by code_simp+

lemma lookup_row:
  assumes "entity_table_ok t" and "mget (rt_index t) k = Some m" and "mget (rt_byId t) k = Some prior"
  shows "prior \<in> set (rows_of t m)" "jget prior ''id'' = k" "jget prior ''matter_id'' = m"
  using entity_lookup [OF assms(1,3)] assms(2) by auto

lemma putEntity_rows:
  assumes "entity_table_ok t" and "mget (rt_index t) k = Some m" and "mget (rt_byId t) k = Some prior"
    and "jget nx ''id'' = k" and "jget nx ''matter_id'' = m"
  shows "entity_table_ok (putEntity m k nx t)"
    "rows_of (putEntity m k nx t) k' = (if k' = m then replaceRow (jget prior ''id'') nx (rows_of t m) else rows_of t k')"
  using lookup_row [OF assms(1-3)] putEntity_ok [OF assms(1)] assms(4,5) by auto

text \<open>Only an object has a status that an edge starts from.\<close>

lemma allowed_object:
  assumes "isAllowed (edges_of k) (js_String (jget v f)) to by"
  obtains kvs where "v = JObj kvs"
  using assms that by (cases v; cases k) (auto simp: isAllowed_def case_edge_tables)

lemma createsI:
  assumes "jget row ''id'' \<notin> set ids"
    and "emitEvent (audit_lib L) stored (createdEvent L ci ekind row reason) = Inr ev"
    and "map_of CASE_BOX_AUDIT_EVENT_KINDS ekind =
      Some \<lparr>km_action = ''create'', km_entity_type = entity_name kind, km_reasonRequired = rr\<rparr>"
    and "\<And>f. status_field kind = Some f \<Longrightarrow> map_of announced_status ekind = Some (first_status kind) \<and> jget row f = JStr (first_status kind)"
  shows "creates L ci kind ids stored row ev"
  using assms unfolding creates_def by blast

lemma movesI:
  assumes "jget nx ''id'' = jget prior ''id''" and "jget nx ''tenant_id'' = jget prior ''tenant_id''"
    and "emitEvent (audit_lib L) stored (updatedEvent L ci ekind m actor before nx reason) = Inr ev"
    and "map_of CASE_BOX_AUDIT_EVENT_KINDS ekind =
      Some \<lparr>km_action = act, km_entity_type = entity_name kind, km_reasonRequired = rr\<rparr>"
    and "before = (if ekind = ''FACT_REPLACEMENT_ACCEPTED'' then JNull else JStr (entityStateHash (audit_lib L) prior))"
    and "act = ''create'' \<Longrightarrow> before = JNull"
    and "status_field kind = Some f" and "map_of announced_status ekind = Some to"
    and "isAllowed (edges_of kind) (js_String (jget prior f)) to Lawyer" and "jget nx f = JStr to"
  shows "moves L ci kind m stored prior nx ev"
proof -
  have "lifecycle_ok kind nx (es @ [e])" if "lifecycle_ok kind prior es" "jget e ''event_kind'' = JStr ekind" for es e
    using that(2) assms(7-10) by (intro lifecycle_move [where to = to, OF that(1)]) auto
  with assms(1-6) show ?thesis unfolding moves_def by blast
qed

end
