(* ===== verification/CaseBoxEvidenceWrites.thy ===== *)
theory CaseBoxEvidenceWrites
  imports CaseBoxEntityWrites
begin

text \<open>
  Claim tracks, evidence and facts: every write keeps the invariant, changes nothing when it fails and returns
  the record it stored.
\<close>

lemma jget_jset_other: "f \<noteq> k \<Longrightarrow> jget (jset v k x) f = jget v f"
  by (simp add: jget_jset_any)

subsection \<open>Claim tracks\<close>

lemma prepareCreateClaimTrack_Inr:
  assumes "prepareCreateClaimTrack L ci st matters stored input = Inr (row, ev)"
  shows "row = input \<and> jget input ''id'' \<notin> set (rt_ids st) \<and>
    (\<exists>matter. mget matters (jget input ''matter_id'') = Some matter \<and> jget matter ''tenant_id'' = jget input ''tenant_id'' \<and>
       has_party matter (jget input ''claimant_party_id'') \<and> has_party matter (jget input ''respondent_party_id'')) \<and>
    emitEvent (audit_lib L) stored (createdEvent L ci ''CLAIM_TRACK_CREATED'' input JUndef) = Inr ev"
  using assms
  by (cases "mget matters (jget input ''matter_id'')")
     (auto simp only: prepareCreateClaimTrack_def bindR_Inr_iff check_Inr schema_check_Inr option.case sum.inject prod.inject
       option.inject sum.distinct)

lemma createClaimTrack_run:
  assumes "case_lib_ok L" and "case_inv L s" and "createClaimTrack L ci input s = (r, s')"
  shows "case_inv L s' \<and> grows s s' \<and> (case r of Inl e \<Rightarrow> s' = s
    | Inr row \<Rightarrow> row = input \<and> (\<exists>matter. mget (cs_matters s) (jget row ''matter_id'') = Some matter \<and>
        has_party matter (jget row ''claimant_party_id'') \<and> has_party matter (jget row ''respondent_party_id'')) \<and>
        row \<in> set (rows_of (cs_claimTrack s') (jget row ''matter_id'')))"
proof -
  let ?m = "jget input ''matter_id''"
  let ?stored = "if is_str ?m then log_get (cs_audit s) ?m else []"
  have tok: "entity_table_ok (cs_claimTrack s)" using assms(2) by (simp add: case_inv_def tables_ok_def)
  show ?thesis
  proof (cases "prepareCreateClaimTrack L ci (cs_claimTrack s) (cs_matters s) ?stored input")
    case (Inl e)
    with assms(2,3) show ?thesis by (auto simp: createClaimTrack_def Let_def)
  next
    case (Inr p)
    obtain row ev where p: "p = (row, ev)" by (cases p)
    from prepareCreateClaimTrack_Inr [OF Inr [unfolded p]] obtain matter where pre: "row = input"
      "jget input ''id'' \<notin> set (rt_ids (cs_claimTrack s))" "mget (cs_matters s) ?m = Some matter"
      "jget input ''tenant_id'' = jget matter ''tenant_id''" "has_party matter (jget input ''claimant_party_id'')"
      "has_party matter (jget input ''respondent_party_id'')"
      "emitEvent (audit_lib L) ?stored (createdEvent L ci ''CLAIM_TRACK_CREATED'' input JUndef) = Inr ev" by auto
    from emit_matter_str [OF assms(1) pre(7)] have emit:
      "emitEvent (audit_lib L) (log_get (cs_audit s) ?m) (createdEvent L ci ''CLAIM_TRACK_CREATED'' input JUndef) = Inr ev"
      using pre(7) by simp
    let ?t = "pushEntity ?m input (cs_claimTrack s)"
    have "\<exists>a. commitEvent L ?m ev input (s\<lparr>cs_claimTrack := ?t\<rparr>) = (Inr input, (s\<lparr>cs_claimTrack := ?t\<rparr>)\<lparr>cs_audit := a\<rparr>) \<and>
        case_inv L ((s\<lparr>cs_claimTrack := ?t\<rparr>)\<lparr>cs_audit := a\<rparr>) \<and> grows s ((s\<lparr>cs_claimTrack := ?t\<rparr>)\<lparr>cs_audit := a\<rparr>)"
      using pushEntity_ok [OF tok pre(2) refl]
      by (intro claim_slot.append_row [OF assms(1,2) pre(3,4) refl pre(2) emit]) (auto simp: audit_simps)
    then obtain a where a: "commitEvent L ?m ev input (s\<lparr>cs_claimTrack := ?t\<rparr>) =
        (Inr input, (s\<lparr>cs_claimTrack := ?t\<rparr>)\<lparr>cs_audit := a\<rparr>)"
      "case_inv L ((s\<lparr>cs_claimTrack := ?t\<rparr>)\<lparr>cs_audit := a\<rparr>)" "grows s ((s\<lparr>cs_claimTrack := ?t\<rparr>)\<lparr>cs_audit := a\<rparr>)" by blast
    have "r = Inr input" "s' = (s\<lparr>cs_claimTrack := ?t\<rparr>)\<lparr>cs_audit := a\<rparr>"
      using assms(3) Inr a(1) by (simp_all add: p pre(1) createClaimTrack_def Let_def)
    with a(2,3) pre show ?thesis by auto
  qed
qed

subsection \<open>Evidence\<close>

lemma normalize_other: "f \<noteq> ''proof_statement'' \<Longrightarrow> jget (normalizeAppendEvidenceInput L input) f = jget input f"
  by (simp add: normalizeAppendEvidenceInput_def split: jval.split)

lemma prepareAppendEvidenceItem_Inr:
  assumes "prepareAppendEvidenceItem L ci st documents stored input = Inr (row, ev)"
  shows "row = normalizeAppendEvidenceInput L input \<and> cl_validateEvidenceItem L row = None \<and> jget row ''id'' \<notin> set (rt_ids st) \<and>
    (jget input ''status'' = JUndef \<or> jget input ''status'' = JStr ''proposed'') \<and>
    emitEvent (audit_lib L) stored (createdEvent L ci ''EVIDENCE_PROPOSED'' row JUndef) = Inr ev"
  using assms by (auto simp: prepareAppendEvidenceItem_def result_simps Let_def)

lemma replacements_push:
  assumes "entity_table_ok t" and "replacements_ok t" and "jget row ''id'' \<notin> set (rt_ids t)" and "jget row ''status'' \<noteq> JStr ''superseded''"
  shows "replacements_ok (pushEntity m row t)"
proof -
  have old: "k \<noteq> jget row ''id''" if "mget (rt_byId t) k = Some r" for k r
    using row_table_okD(2) [OF entity_rows_ok [OF assms(1)] entity_lookup(2) [OF assms(1) that]]
      entity_lookup(1) [OF assms(1) that] assms(3) by auto
  show ?thesis
    unfolding replacements_ok_def
  proof (intro allI impI)
    fix k r assume "mget (rt_byId (pushEntity m row t)) k = Some r" and st: "jget r ''status'' = JStr ''superseded''"
    then have "mget (rt_byId t) k = Some r" using assms(4) by (auto split: if_splits)
    with assms(2) st obtain x where "jget r ''supersedes_evidence_id'' \<noteq> k"
      "mget (rt_byId t) (jget r ''supersedes_evidence_id'') = Some x" "jget x ''matter_id'' = jget r ''matter_id''"
      unfolding replacements_ok_def by blast
    with old show "jget r ''supersedes_evidence_id'' \<noteq> k \<and>
        (\<exists>x. mget (rt_byId (pushEntity m row t)) (jget r ''supersedes_evidence_id'') = Some x \<and>
           jget x ''matter_id'' = jget r ''matter_id'')" by auto
  qed
qed

lemma appendEvidenceItem_run:
  assumes "case_lib_ok L" and "case_inv L s" and "appendEvidenceItem L ci input s = (r, s')"
  shows "case_inv L s' \<and> grows s s' \<and> (case r of
      Inl e \<Rightarrow> s' = s
    | Inr row \<Rightarrow> row = normalizeAppendEvidenceInput L input \<and> jget row ''status'' = JStr ''proposed'' \<and>
        (\<exists>a. s' = s\<lparr>cs_evidence := pushEntity (jget row ''matter_id'') row (cs_evidence s), cs_audit := a\<rparr>))"
proof -
  have tok: "entity_table_ok (cs_evidence s)" "replacements_ok (cs_evidence s)"
    using assms(2) by (simp_all add: case_inv_def tables_ok_def)
  have row: "row = normalizeAppendEvidenceInput L input \<and> jget row ''status'' = JStr ''proposed'' \<and>
      creates L ci E_evidence (rt_ids (cs_evidence s)) stored row ev \<and> jget row ''matter_id'' = jget input ''matter_id'' \<and>
      entity_table_ok (pushEntity (jget row ''matter_id'') row (cs_evidence s)) \<and>
      replacements_ok (pushEntity (jget row ''matter_id'') row (cs_evidence s))"
    if "prepareAppendEvidenceItem L ci (cs_evidence s) (cs_documents s) stored input = Inr (row, ev)" for stored row ev
  proof -
    note p = prepareAppendEvidenceItem_Inr [OF that]
    have "cl_validateEvidenceItem L v = None \<Longrightarrow> jget v ''status'' \<noteq> JUndef" for v using assms(1) by (simp add: case_lib_ok_def)
    with p have "jget row ''status'' \<noteq> JUndef" by blast
    moreover have "jget row ''status'' = jget input ''status''" using p normalize_other by simp
    ultimately have st: "jget row ''status'' = JStr ''proposed''" using p by simp
    from p have fresh: "jget row ''id'' \<notin> set (rt_ids (cs_evidence s))" by blast
    have "creates L ci E_evidence (rt_ids (cs_evidence s)) stored row ev"
      using p st by (auto intro!: createsI simp: audit_simps)
    moreover have "jget row ''matter_id'' = jget input ''matter_id''" using p normalize_other by simp
    moreover have "entity_table_ok (pushEntity (jget row ''matter_id'') row (cs_evidence s))"
      by (rule pushEntity_ok [OF tok(1) fresh refl])
    moreover have "replacements_ok (pushEntity (jget row ''matter_id'') row (cs_evidence s))"
      by (rule replacements_push [OF tok fresh]) (simp add: st)
    ultimately show ?thesis using p st by blast
  qed
  note run = evidence_slot.append_body [where push = pushEntity, OF assms(1,2) assms(3) [unfolded appendEvidenceItem_def]]
  have "case_inv L s' \<and> grows s s' \<and> (case r of Inl e \<Rightarrow> s' = s
      | Inr row \<Rightarrow> (\<exists>stored ev. prepareAppendEvidenceItem L ci (cs_evidence s) (cs_documents s) stored input = Inr (row, ev)) \<and>
          (\<exists>a. s' = (s\<lparr>cs_evidence := pushEntity (jget row ''matter_id'') row (cs_evidence s)\<rparr>)\<lparr>cs_audit := a\<rparr>))"
    by (rule run, use row in blast, simp_all)
  with row show ?thesis by (fastforce split: sum.splits)
qed

lemma nextEvidence_other:
  "f \<noteq> ''status'' \<Longrightarrow> f \<noteq> ''supersedes_evidence_id'' \<Longrightarrow> jget (nextEvidence prior opts) f = jget prior f"
  by (simp add: nextEvidence_def Let_def jget_jset_any)

lemma checkReplacement_Inr:
  "checkReplacement st k prior x = Inr () \<longleftrightarrow> nonempty_string x \<and> x \<noteq> k \<and>
     (\<exists>r. mget (rt_byId st) x = Some r \<and> jget r ''matter_id'' = jget prior ''matter_id'' \<and>
        jget r ''tenant_id'' = jget prior ''tenant_id'')"
  by (auto simp: checkReplacement_def result_simps split: option.splits)

lemma prepareTransitionEvidenceItem_Inr:
  assumes "prepareTransitionEvidenceItem L ci st k opts storedOf = Inr (nx, ev, m)"
  obtains prior where "mget (rt_index st) k = Some m" "mget (rt_byId st) k = Some prior" "nx = nextEvidence prior opts"
    "et_to opts = ''superseded'' \<Longrightarrow> checkReplacement st k prior (et_replacement_evidence_id opts) = Inr ()"
    "isAllowed ALLOWED_EVIDENCE_EDGES (js_String (jget prior ''status'')) (et_to opts) Lawyer"
    "emitEvent (audit_lib L) (storedOf m) (updatedEvent L ci
       (if et_to opts = ''accepted'' then ''EVIDENCE_ACCEPTED''
        else if et_to opts = ''rejected'' then ''EVIDENCE_REJECTED'' else ''EVIDENCE_SUPERSEDED'')
       m (et_actor_user_id opts) (JStr (entityStateHash (audit_lib L) prior)) nx JUndef) = Inr ev"
  using assms
  by (auto simp: prepareTransitionEvidenceItem_def result_simps Let_def assertValidEvidenceTransition_def assertTransition_Inr
      split: if_splits)

text \<open>Where an edge of the evidence machine leads, and the event of each.\<close>

lemma evidence_edge_to:
  "isAllowed ALLOWED_EVIDENCE_EDGES f to by \<Longrightarrow> to = ''accepted'' \<or> to = ''rejected'' \<or> to = ''superseded''"
  by (auto simp: isAllowed_def case_edge_tables)

lemma replacements_put:
  assumes "entity_table_ok t" and "replacements_ok t" and "mget (rt_byId t) k = Some prior"
    and "jget nx ''matter_id'' = jget prior ''matter_id''"
    and "jget nx ''status'' = JStr ''superseded'' \<Longrightarrow> jget nx ''supersedes_evidence_id'' \<noteq> k \<and>
      (\<exists>r. mget (rt_byId t) (jget nx ''supersedes_evidence_id'') = Some r \<and> jget r ''matter_id'' = jget nx ''matter_id'')"
  shows "replacements_ok (putEntity m k nx t)"
  unfolding replacements_ok_def
proof (intro allI impI)
  fix x r assume x: "mget (rt_byId (putEntity m k nx t)) x = Some r" "jget r ''status'' = JStr ''superseded''"
  have "jget r ''supersedes_evidence_id'' \<noteq> x \<and>
      (\<exists>y. mget (rt_byId t) (jget r ''supersedes_evidence_id'') = Some y \<and> jget y ''matter_id'' = jget r ''matter_id'')"
    using x assms(2,5) by (cases "x = k") (auto simp: replacements_ok_def)
  with assms(3,4) show "jget r ''supersedes_evidence_id'' \<noteq> x \<and>
      (\<exists>y. mget (rt_byId (putEntity m k nx t)) (jget r ''supersedes_evidence_id'') = Some y \<and>
         jget y ''matter_id'' = jget r ''matter_id'')" by auto
qed

lemma transitionEvidenceItem_run:
  assumes "case_lib_ok L" and "case_inv L s" and "transitionEvidenceItem L ci k opts s = (r, s')"
  shows "case_inv L s' \<and> grows s s' \<and> (case r of
      Inl e \<Rightarrow> s' = s
    | Inr nx \<Rightarrow> \<exists>prior. mget (rt_byId (cs_evidence s)) k = Some prior \<and> nx = nextEvidence prior opts \<and>
        isAllowed ALLOWED_EVIDENCE_EDGES (js_String (jget prior ''status'')) (et_to opts) Lawyer \<and>
        (\<exists>a. s' = s\<lparr>cs_evidence := putEntity (jget prior ''matter_id'') k nx (cs_evidence s), cs_audit := a\<rparr>))"
proof -
  have tok: "entity_table_ok (cs_evidence s)" "replacements_ok (cs_evidence s)"
    using assms(2) by (simp_all add: case_inv_def tables_ok_def)
  let ?p = "prepareTransitionEvidenceItem L ci (cs_evidence s) k opts (log_get (cs_audit s))"
  note run = evidence_slot.replace_body [where put = "\<lambda>m. putEntity m k", OF assms(1,2) assms(3) [unfolded transitionEvidenceItem_def]]
  have "case_inv L s' \<and> grows s s' \<and> (case r of Inl e \<Rightarrow> s' = s
      | Inr nx \<Rightarrow> \<exists>ev m. ?p = Inr (nx, ev, m) \<and> (\<exists>a. s' = (s\<lparr>cs_evidence := putEntity m k nx (cs_evidence s)\<rparr>)\<lparr>cs_audit := a\<rparr>))"
  proof (rule run)
    fix nx ev m assume "?p = Inr (nx, ev, m)"
    then obtain prior where p: "mget (rt_index (cs_evidence s)) k = Some m" "mget (rt_byId (cs_evidence s)) k = Some prior"
      "nx = nextEvidence prior opts"
      "et_to opts = ''superseded'' \<Longrightarrow> checkReplacement (cs_evidence s) k prior (et_replacement_evidence_id opts) = Inr ()"
      "isAllowed ALLOWED_EVIDENCE_EDGES (js_String (jget prior ''status'')) (et_to opts) Lawyer"
      "emitEvent (audit_lib L) (log_get (cs_audit s) m) (updatedEvent L ci
         (if et_to opts = ''accepted'' then ''EVIDENCE_ACCEPTED''
          else if et_to opts = ''rejected'' then ''EVIDENCE_REJECTED'' else ''EVIDENCE_SUPERSEDED'')
         m (et_actor_user_id opts) (JStr (entityStateHash (audit_lib L) prior)) nx JUndef) = Inr ev"
      by (rule prepareTransitionEvidenceItem_Inr) blast
    note row = lookup_row [OF tok(1) p(1,2)]
    obtain kvs where o: "prior = JObj kvs" by (rule allowed_object [where k = E_evidence, unfolded edges_of.simps, OF p(5)])
    have st: "jget nx ''status'' = JStr (et_to opts)" by (simp add: p(3) o nextEvidence_def Let_def jget_jset_any)
    have same: "jget nx ''id'' = k" "jget nx ''matter_id'' = m" "jget nx ''tenant_id'' = jget prior ''tenant_id''"
      using row by (simp_all add: p(3) nextEvidence_other)
    have "moves L ci E_evidence m (log_get (cs_audit s) m) prior nx ev"
      by (rule movesI [OF _ same(3) p(6), where to = "et_to opts"])
         (use evidence_edge_to [OF p(5)] same(1) row(2) p(5) st in \<open>auto simp: audit_simps\<close>)
    moreover have "replacements_ok (putEntity m k nx (cs_evidence s))"
    proof (rule replacements_put [OF tok p(2)])
      show "jget nx ''matter_id'' = jget prior ''matter_id''" using same(2) row(3) by simp
      assume "jget nx ''status'' = JStr ''superseded''"
      with st have to: "et_to opts = ''superseded''" by simp
      with p(4) same(2) row(3) show "jget nx ''supersedes_evidence_id'' \<noteq> k \<and>
          (\<exists>r. mget (rt_byId (cs_evidence s)) (jget nx ''supersedes_evidence_id'') = Some r \<and> jget r ''matter_id'' = jget nx ''matter_id'')"
        by (auto simp: checkReplacement_Inr p(3) o nextEvidence_def Let_def jget_jset_any)
    qed
    ultimately show "\<exists>prior\<in>set (rows_of (cs_evidence s) m). moves L ci E_evidence m (log_get (cs_audit s) m) prior nx ev \<and>
        (entity_table_ok (putEntity m k nx (cs_evidence s)) \<and> replacements_ok (putEntity m k nx (cs_evidence s))) \<and>
        (\<forall>k'. rows_of (putEntity m k nx (cs_evidence s)) k' =
           (if k' = m then replaceRow (jget prior ''id'') nx (rows_of (cs_evidence s) m) else rows_of (cs_evidence s) k'))"
      using row(1) putEntity_rows [OF tok(1) p(1,2) same(1,2)] by blast
  qed simp
  moreover have "\<exists>prior. mget (rt_byId (cs_evidence s)) k = Some prior \<and> nx = nextEvidence prior opts \<and> jget prior ''matter_id'' = m \<and>
      isAllowed ALLOWED_EVIDENCE_EDGES (js_String (jget prior ''status'')) (et_to opts) Lawyer"
    if "?p = Inr (nx, ev, m)" for nx ev m
    using that by (rule prepareTransitionEvidenceItem_Inr) (use lookup_row(3) [OF tok(1)] in blast)
  ultimately show ?thesis by (fastforce split: sum.splits)
qed

end
