(* ===== verification/CaseBoxFactWrites.thy ===== *)
theory CaseBoxFactWrites
  imports CaseBoxEvidenceWrites
begin

text \<open>
  Facts: the writes keep the invariant, the supersession graph stays free of cycles, and so the walk before an
  acceptance never meets one.
\<close>

subsection \<open>The supersession graph\<close>

lemma supersession_push:
  assumes "entity_table_ok t" and "supersession_ok t" and "jget row ''id'' \<notin> set (rt_ids t)"
    and "\<not> event_present (jget row ''supersedes_fact_id'')"
  shows "supersession_ok (pushEntity m row t)"
proof -
  have old: "k \<noteq> jget row ''id''" if "mget (rt_byId t) k = Some r" for k r
    using row_table_okD(2) [OF entity_rows_ok [OF assms(1)] entity_lookup(2) [OF assms(1) that]]
      entity_lookup(1) [OF assms(1) that] assms(3) by auto
  have "supersedes_rel (pushEntity m row t) \<subseteq> supersedes_rel t"
    using assms(4) by (auto simp: supersedes_rel_def split: if_splits)
  then have "acyclic (supersedes_rel (pushEntity m row t))"
    using assms(2) acyclic_subset by (auto simp: supersession_ok_def)
  moreover have "jget r ''status'' = JStr ''accepted'' \<and>
      (\<exists>x. mget (rt_byId (pushEntity m row t)) (jget r ''supersedes_fact_id'') = Some x \<and> jget x ''status'' = JStr ''accepted'' \<and>
         jget x ''matter_id'' = jget r ''matter_id'')"
    if "mget (rt_byId (pushEntity m row t)) k = Some r" "event_present (jget r ''supersedes_fact_id'')" for k r
  proof -
    from that assms(4) have "mget (rt_byId t) k = Some r" by (auto split: if_splits)
    with assms(2) that(2) obtain x where "jget r ''status'' = JStr ''accepted''"
      "mget (rt_byId t) (jget r ''supersedes_fact_id'') = Some x" "jget x ''status'' = JStr ''accepted''"
      "jget x ''matter_id'' = jget r ''matter_id''" unfolding supersession_ok_def by blast
    with old show ?thesis by auto
  qed
  ultimately show ?thesis unfolding supersession_ok_def by blast
qed

text \<open>A fact that is not accepted neither supersedes nor is superseded.\<close>

lemma unaccepted_isolated:
  assumes "supersession_ok t" and "mget (rt_byId t) k = Some prior" and "jget prior ''status'' \<noteq> JStr ''accepted''"
  shows "(y, k) \<notin> supersedes_rel t" "(k, y) \<notin> supersedes_rel t"
proof -
  show "(y, k) \<notin> supersedes_rel t"
  proof
    assume "(y, k) \<in> supersedes_rel t"
    then obtain row where "mget (rt_byId t) y = Some row" "k = jget row ''supersedes_fact_id''" "event_present k"
      by (auto simp: supersedes_rel_def)
    with assms(1) have "\<exists>r. mget (rt_byId t) k = Some r \<and> jget r ''status'' = JStr ''accepted''"
      unfolding supersession_ok_def by blast
    with assms(2,3) show False by auto
  qed
  show "(k, y) \<notin> supersedes_rel t"
    using assms by (auto simp: supersession_ok_def supersedes_rel_def)
qed

lemma supersession_put:
  assumes "supersession_ok t" and k: "mget (rt_byId t) k = Some prior" "jget prior ''status'' \<noteq> JStr ''accepted''"
    and nx: "event_present (jget nx ''supersedes_fact_id'') \<Longrightarrow> jget nx ''status'' = JStr ''accepted'' \<and>
      jget nx ''supersedes_fact_id'' \<noteq> k \<and> (\<exists>x. mget (rt_byId t) (jget nx ''supersedes_fact_id'') = Some x \<and>
        jget x ''status'' = JStr ''accepted'' \<and> jget x ''matter_id'' = jget nx ''matter_id'')"
  shows "supersession_ok (putEntity m k nx t)"
proof -
  let ?x = "jget nx ''supersedes_fact_id''"
  note isolated = unaccepted_isolated [OF assms(1-3)]
  have rel: "supersedes_rel (putEntity m k nx t) \<subseteq> (if event_present ?x then insert (k, ?x) (supersedes_rel t) else supersedes_rel t)"
    by (auto simp: supersedes_rel_def split: if_splits)
  have "acyclic (supersedes_rel t)" using assms(1) by (simp add: supersession_ok_def)
  moreover have "(?x, k) \<notin> (supersedes_rel t)\<^sup>*" if "event_present ?x"
    using nx [OF that] isolated(1) by (metis rtranclE)
  ultimately have "acyclic (if event_present ?x then insert (k, ?x) (supersedes_rel t) else supersedes_rel t)"
    by (simp add: acyclic_insert)
  then have "acyclic (supersedes_rel (putEntity m k nx t))" using rel by (rule acyclic_subset)
  moreover have "jget r ''status'' = JStr ''accepted'' \<and>
      (\<exists>x. mget (rt_byId (putEntity m k nx t)) (jget r ''supersedes_fact_id'') = Some x \<and> jget x ''status'' = JStr ''accepted'' \<and>
         jget x ''matter_id'' = jget r ''matter_id'')"
    if r: "mget (rt_byId (putEntity m k nx t)) y = Some r" "event_present (jget r ''supersedes_fact_id'')" for y r
  proof -
    have "jget r ''status'' = JStr ''accepted'' \<and> jget r ''supersedes_fact_id'' \<noteq> k \<and>
      (\<exists>x. mget (rt_byId t) (jget r ''supersedes_fact_id'') = Some x \<and> jget x ''status'' = JStr ''accepted'' \<and>
         jget x ''matter_id'' = jget r ''matter_id'')"
    proof (cases "y = k")
      case True
      with r nx show ?thesis by simp
    next
      case False
      with r have y: "mget (rt_byId t) y = Some r" by simp
      then have "(y, jget r ''supersedes_fact_id'') \<in> supersedes_rel t" using r(2) by (simp add: supersedes_rel_def)
      with isolated(1) have "jget r ''supersedes_fact_id'' \<noteq> k" by metis
      with assms(1) y r(2) show ?thesis unfolding supersession_ok_def by blast
    qed
    then show ?thesis by auto
  qed
  ultimately show ?thesis unfolding supersession_ok_def by blast
qed

subsection \<open>The walk\<close>

lemma walk_ends:
  assumes "entity_table_ok t" and "supersession_ok t" and "\<And>y. (y, k) \<notin> supersedes_rel t" and "start \<noteq> k"
  shows "cursor = JNull \<or> (start, cursor) \<in> (supersedes_rel t)\<^sup>* \<Longrightarrow> cursor \<noteq> JNull \<Longrightarrow> mget (rt_byId t) cursor \<noteq> None \<Longrightarrow>
    \<forall>v\<in>set visited. (v, cursor) \<in> (supersedes_rel t)\<^sup>+ \<and> v \<in> set (rt_ids t) \<Longrightarrow> distinct visited \<Longrightarrow>
    walkSupersession t k start visited cursor = Inr ()"
proof (induction "length (rt_ids t) - length visited" arbitrary: visited cursor rule: less_induct)
  case less
  let ?r = "supersedes_rel t"
  have acyc: "(x, x) \<notin> ?r\<^sup>+" for x using assms(2) by (simp add: supersession_ok_def acyclic_def)
  from less.prems obtain node where node: "mget (rt_byId t) cursor = Some node" by auto
  have "cursor \<noteq> k"
    using less.prems(1,2) assms(3,4) by (metis rtranclE)
  moreover have new: "cursor \<notin> set visited" using less.prems(4) acyc by metis
  moreover have "cursor \<in> set (rt_ids t)"
    using row_table_okD(2) [OF entity_rows_ok [OF assms(1)] entity_lookup(2) [OF assms(1) node]] entity_lookup(1) [OF assms(1) node] by simp
  with less.prems(4,5) new have sub: "set (cursor # visited) \<subseteq> set (rt_ids t)" "distinct (cursor # visited)" by auto
  then have "length (cursor # visited) \<le> length (rt_ids t)"
    by (metis card_mono distinct_card finite_set card_length le_trans)
  then have len: "Suc (length visited) \<le> length (rt_ids t)" by simp
  moreover have "walkSupersession t k start (cursor # visited) (or_default (jget node ''supersedes_fact_id'') JNull) = Inr ()"
  proof (cases "event_present (jget node ''supersedes_fact_id'')")
    case False
    then have "or_default (jget node ''supersedes_fact_id'') JNull = JNull"
      by (auto simp: event_present_def or_default_def)
    then show ?thesis by (simp add: walkSupersession.simps)
  next
    case True
    let ?x = "jget node ''supersedes_fact_id''"
    have x: "or_default ?x JNull = ?x" "?x \<noteq> JNull" using True by (auto simp: event_present_def or_default_def)
    have edge: "(cursor, ?x) \<in> ?r" using node True by (simp add: supersedes_rel_def)
    have "mget (rt_byId t) ?x \<noteq> None" using assms(2) node True unfolding supersession_ok_def by fastforce
    moreover have "(start, ?x) \<in> ?r\<^sup>*" using less.prems(1,2) edge by auto
    moreover have "\<forall>v\<in>set (cursor # visited). (v, ?x) \<in> ?r\<^sup>+ \<and> v \<in> set (rt_ids t)"
      using less.prems(4) edge sub(1) by auto
    ultimately have "walkSupersession t k start (cursor # visited) ?x = Inr ()"
      using len x(2) sub(2) by (intro less.hyps) auto
    then show ?thesis by (simp only: x(1))
  qed
  ultimately show ?case
    using node less.prems(2) by (simp add: walkSupersession.simps [of t k start visited cursor])
qed

text \<open>So a supersession is refused only for the fields it names.\<close>

lemma checkSupersedes_iff:
  assumes "entity_table_ok t" and "supersession_ok t" and "mget (rt_byId t) k = Some prior" and "jget prior ''status'' \<noteq> JStr ''accepted''"
  shows "checkSupersedes t k prior x = Inr () \<longleftrightarrow> nonempty_string x \<and> x \<noteq> k \<and>
    (\<exists>row. mget (rt_byId t) x = Some row \<and> jget row ''matter_id'' = jget prior ''matter_id'' \<and> jget row ''status'' = JStr ''accepted'')"
proof -
  have "walkSupersession t k x [] x = Inr ()" if "nonempty_string x" "x \<noteq> k" "mget (rt_byId t) x = Some row" for row
    using that by (intro walk_ends [OF assms(1,2)] unaccepted_isolated(1) [OF assms(2-4)]) (auto simp: nonempty_string_def)
  then show ?thesis
    by (cases "mget (rt_byId t) x") (auto simp: checkSupersedes_def result_simps)
qed

subsection \<open>Appending\<close>

lemma offenders_none: "offenders ks row = [] \<longleftrightarrow> (\<forall>k\<in>set ks. \<not> event_present (jget row k))"
  by (simp add: offenders_def filter_empty_conv)

lemma prepareAppendFact_Inr:
  assumes "prepareAppendFact L ci st documents stored input = Inr (row, ev)"
  shows "row = input \<and> jget row ''id'' \<notin> set (rt_ids st) \<and> jget row ''status'' = JStr ''candidate'' \<and>
    \<not> event_present (jget row ''supersedes_fact_id'') \<and>
    emitEvent (audit_lib L) stored (createdEvent L ci ''FACT_PROPOSED'' row JUndef) = Inr ev"
  using assms
  by (auto simp: prepareAppendFact_def result_simps assertValidNewFact_def offenders_none promotion_fields_def split: if_splits)

lemma appendFact_run:
  assumes "case_lib_ok L" and "case_inv L s" and "appendFact L ci input s = (r, s')"
  shows "case_inv L s' \<and> grows s s' \<and> (case r of
      Inl e \<Rightarrow> s' = s
    | Inr row \<Rightarrow> row = input \<and> jget row ''status'' = JStr ''candidate'' \<and>
        (\<exists>a. s' = s\<lparr>cs_fact := pushEntity (jget row ''matter_id'') row (cs_fact s), cs_audit := a\<rparr>))"
proof -
  have tok: "entity_table_ok (cs_fact s)" "supersession_ok (cs_fact s)"
    using assms(2) by (simp_all add: case_inv_def tables_ok_def)
  let ?p = "\<lambda>stored. prepareAppendFact L ci (cs_fact s) (cs_documents s) stored input"
  have row: "row = input \<and> jget row ''status'' = JStr ''candidate'' \<and> creates L ci E_fact (rt_ids (cs_fact s)) stored row ev \<and>
      entity_table_ok (pushEntity (jget row ''matter_id'') row (cs_fact s)) \<and>
      supersession_ok (pushEntity (jget row ''matter_id'') row (cs_fact s))" if "?p stored = Inr (row, ev)" for stored row ev
  proof -
    note p = prepareAppendFact_Inr [OF that]
    then have fresh: "jget row ''id'' \<notin> set (rt_ids (cs_fact s))" by blast
    have "creates L ci E_fact (rt_ids (cs_fact s)) stored row ev"
      using p by (auto intro!: createsI simp: audit_simps)
    with p pushEntity_ok [OF tok(1) fresh refl] supersession_push [OF tok fresh] show ?thesis by blast
  qed
  note run = fact_slot.append_body [where push = pushEntity, OF assms(1,2) assms(3) [unfolded appendFact_def]]
  have "case_inv L s' \<and> grows s s' \<and> (case r of Inl e \<Rightarrow> s' = s
      | Inr row \<Rightarrow> (\<exists>stored ev. ?p stored = Inr (row, ev)) \<and>
          (\<exists>a. s' = (s\<lparr>cs_fact := pushEntity (jget row ''matter_id'') row (cs_fact s)\<rparr>)\<lparr>cs_audit := a\<rparr>))"
    by (rule run, use row in blast, simp_all)
  with row show ?thesis by (fastforce split: sum.splits)
qed

text \<open>The replay: the stored row and no change, or what \<open>appendFact\<close> does.\<close>

lemma appendFactOnce_cases:
  assumes "appendFactOnce L ci input s = (r, s')"
  obtains stored where "mget (rt_byId (cs_fact s)) (jget input ''id'') = Some stored"
      "factCanonicalProjection stored = factCanonicalProjection input" "r = Inr stored" "s' = s"
    | "appendFact L ci input s = (r, s')"
proof (cases "appendFact L ci input s = (r, s')")
  case False
  with assms obtain stored where stored: "mget (rt_byId (cs_fact s)) (jget input ''id'') = Some stored"
    by (cases "mget (rt_byId (cs_fact s)) (jget input ''id'')") (simp_all add: appendFactOnce_def split: if_splits)
  with assms False obtain a b where "factCanonicalProjection stored = Some a" "factCanonicalProjection input = Some b"
    by (cases "factCanonicalProjection stored"; cases "factCanonicalProjection input")
       (simp_all add: appendFactOnce_def split: if_splits)
  with assms False stored that(1) show thesis by (simp add: appendFactOnce_def split: if_splits)
qed (rule that(2))

subsection \<open>Promotion\<close>

lemma jget_if: "jget (if b then v else w) f = (if b then jget v f else jget w f)"
  by simp

lemma if_branches: "x = u \<Longrightarrow> y = v \<Longrightarrow> (if b then x else y) = (if b then u else v)"
  by simp

lemma nextFact_other:
  assumes "f \<notin> {''status'', ''reviewer_actor_user_id'', ''reviewed_at'', ''accepted_at'', ''rejected_at'', ''rejection_reason'', ''supersedes_fact_id''}"
  shows "jget (nextFact prior opts) f = jget prior f"
proof -
  from assms have "f \<noteq> ''status''" "f \<noteq> ''reviewer_actor_user_id''" "f \<noteq> ''reviewed_at''" "f \<noteq> ''accepted_at''"
    "f \<noteq> ''rejected_at''" "f \<noteq> ''rejection_reason''" "f \<noteq> ''supersedes_fact_id''" by simp_all
  note other = this [THEN jget_jset_other]
  show ?thesis unfolding nextFact_def Let_def by (simp only: jget_if other if_cancel cong: if_branches)
qed

lemma nextFact_status: "jget (nextFact (JObj kvs) opts) ''status'' = JStr (ft_to opts)"
proof -
  have other: "jget (jset v k x) ''status'' = jget v ''status''"
    if "k \<in> {''reviewer_actor_user_id'', ''reviewed_at'', ''accepted_at'', ''rejected_at'', ''rejection_reason'', ''supersedes_fact_id''}" for v k x
    using that by (intro jget_jset_other) auto
  show ?thesis unfolding nextFact_def Let_def
    by (simp only: jget_if other insert_iff simp_thms jget_jset if_cancel cong: if_branches) simp
qed

lemma nextFact_supersedes:
  "jget (nextFact (JObj kvs) opts) ''supersedes_fact_id'' =
     (if isReplacement opts then ft_supersedes_fact_id opts else jget (JObj kvs) ''supersedes_fact_id'')"
proof (cases "ft_to opts = ''accepted''")
  case True
  then show ?thesis by (simp add: nextFact_def isReplacement_def Let_def jget_jset_any)
next
  case False
  then show ?thesis by (simp add: nextFact_def isReplacement_def Let_def jget_jset_other)
qed

lemma fact_edge:
  assumes "isAllowed ALLOWED_FACT_EDGES (js_String (jget row ''status'')) to by"
  shows "to = ''reviewed'' \<or> to = ''rejected'' \<or> to = ''accepted''" "jget row ''status'' \<noteq> JStr ''accepted''"
    "jget row ''status'' \<noteq> JStr ''rejected''"
  using assms by (auto simp: isAllowed_def case_edge_tables)

lemma prepareTransitionFact_Inr:
  assumes "prepareTransitionFact L ci st k opts storedOf = Inr (nx, ev, m)"
  obtains prior where "mget (rt_index st) k = Some m" "mget (rt_byId st) k = Some prior" "nx = nextFact prior opts"
    "isReplacement opts \<Longrightarrow> checkSupersedes st k prior (ft_supersedes_fact_id opts) = Inr ()"
    "isAllowed ALLOWED_FACT_EDGES (js_String (jget prior ''status'')) (ft_to opts) Lawyer"
    "emitEvent (audit_lib L) (storedOf m) (updatedEvent L ci
       (if ft_to opts = ''reviewed'' then ''FACT_REVIEWED''
        else if ft_to opts = ''rejected'' then ''FACT_REJECTED''
        else if isReplacement opts then ''FACT_REPLACEMENT_ACCEPTED'' else ''FACT_ACCEPTED'')
       m (ft_reviewer_actor_user_id opts)
       (if isReplacement opts then JNull else JStr (entityStateHash (audit_lib L) prior)) nx
       (if ft_to opts = ''rejected'' then ft_rejection_reason opts else JUndef)) = Inr ev"
  using assms
  by (auto simp: prepareTransitionFact_def result_simps Let_def assertValidFactTransition_def assertTransition_Inr
      split: if_splits)

lemma transitionFact_run:
  assumes "case_lib_ok L" and "case_inv L s" and "transitionFact L ci k opts s = (r, s')"
  shows "case_inv L s' \<and> grows s s' \<and> (case r of
      Inl e \<Rightarrow> s' = s
    | Inr nx \<Rightarrow> \<exists>prior. mget (rt_byId (cs_fact s)) k = Some prior \<and> nx = nextFact prior opts \<and>
        isAllowed ALLOWED_FACT_EDGES (js_String (jget prior ''status'')) (ft_to opts) Lawyer \<and>
        (\<exists>a. s' = s\<lparr>cs_fact := putEntity (jget prior ''matter_id'') k nx (cs_fact s), cs_audit := a\<rparr>))"
proof -
  have tok: "entity_table_ok (cs_fact s)" "supersession_ok (cs_fact s)"
    using assms(2) by (simp_all add: case_inv_def tables_ok_def)
  let ?p = "prepareTransitionFact L ci (cs_fact s) k opts (log_get (cs_audit s))"
  note run = fact_slot.replace_body [where put = "\<lambda>m. putEntity m k", OF assms(1,2) assms(3) [unfolded transitionFact_def]]
  have "case_inv L s' \<and> grows s s' \<and> (case r of Inl e \<Rightarrow> s' = s
      | Inr nx \<Rightarrow> \<exists>ev m. ?p = Inr (nx, ev, m) \<and> (\<exists>a. s' = (s\<lparr>cs_fact := putEntity m k nx (cs_fact s)\<rparr>)\<lparr>cs_audit := a\<rparr>))"
  proof (rule run)
    fix nx ev m assume "?p = Inr (nx, ev, m)"
    then obtain prior where p: "mget (rt_index (cs_fact s)) k = Some m" "mget (rt_byId (cs_fact s)) k = Some prior"
      "nx = nextFact prior opts"
      "isReplacement opts \<Longrightarrow> checkSupersedes (cs_fact s) k prior (ft_supersedes_fact_id opts) = Inr ()"
      "isAllowed ALLOWED_FACT_EDGES (js_String (jget prior ''status'')) (ft_to opts) Lawyer"
      "emitEvent (audit_lib L) (log_get (cs_audit s) m) (updatedEvent L ci
         (if ft_to opts = ''reviewed'' then ''FACT_REVIEWED''
          else if ft_to opts = ''rejected'' then ''FACT_REJECTED''
          else if isReplacement opts then ''FACT_REPLACEMENT_ACCEPTED'' else ''FACT_ACCEPTED'')
         m (ft_reviewer_actor_user_id opts)
         (if isReplacement opts then JNull else JStr (entityStateHash (audit_lib L) prior)) nx
         (if ft_to opts = ''rejected'' then ft_rejection_reason opts else JUndef)) = Inr ev"
      by (rule prepareTransitionFact_Inr) blast
    note row = lookup_row [OF tok(1) p(1,2)]
    note edge = fact_edge [OF p(5)]
    obtain kvs where o: "prior = JObj kvs" by (rule allowed_object [where k = E_fact, unfolded edges_of.simps, OF p(5)])
    have st: "jget nx ''status'' = JStr (ft_to opts)" by (simp add: p(3) o nextFact_status)
    have same: "jget nx ''id'' = k" "jget nx ''matter_id'' = m" "jget nx ''tenant_id'' = jget prior ''tenant_id''"
      using row by (simp_all add: p(3) nextFact_other)
    have accepted: "isReplacement opts \<Longrightarrow> ft_to opts = ''accepted''" by (simp add: isReplacement_def)
    have "moves L ci E_fact m (log_get (cs_audit s) m) prior nx ev"
      by (rule movesI [OF _ same(3) p(6), where to = "ft_to opts" and act = "if isReplacement opts then ''create'' else ''update''"
            and rr = "ft_to opts = ''rejected''"])
         (use edge(1) accepted same(1) row(2) p(5) st in \<open>auto simp: audit_simps split: if_splits\<close>)
    moreover have "supersession_ok (putEntity m k nx (cs_fact s))"
    proof (rule supersession_put [OF tok(2) p(2) edge(2)])
      assume x: "event_present (jget nx ''supersedes_fact_id'')"
      have "\<not> event_present (jget prior ''supersedes_fact_id'')"
        using tok(2) p(2) edge(2) unfolding supersession_ok_def by blast
      with x have rep: "isReplacement opts" "jget nx ''supersedes_fact_id'' = ft_supersedes_fact_id opts"
        by (auto simp: p(3) o nextFact_supersedes split: if_splits)
      with p(4) [OF rep(1)] st accepted same(2) row(3) show "jget nx ''status'' = JStr ''accepted'' \<and>
          jget nx ''supersedes_fact_id'' \<noteq> k \<and> (\<exists>x. mget (rt_byId (cs_fact s)) (jget nx ''supersedes_fact_id'') = Some x \<and>
            jget x ''status'' = JStr ''accepted'' \<and> jget x ''matter_id'' = jget nx ''matter_id'')"
        unfolding checkSupersedes_iff [OF tok p(2) edge(2)] by auto
    qed
    ultimately show "\<exists>prior\<in>set (rows_of (cs_fact s) m). moves L ci E_fact m (log_get (cs_audit s) m) prior nx ev \<and>
        (entity_table_ok (putEntity m k nx (cs_fact s)) \<and> supersession_ok (putEntity m k nx (cs_fact s))) \<and>
        (\<forall>k'. rows_of (putEntity m k nx (cs_fact s)) k' =
           (if k' = m then replaceRow (jget prior ''id'') nx (rows_of (cs_fact s) m) else rows_of (cs_fact s) k'))"
      using row(1) putEntity_rows [OF tok(1) p(1,2) same(1,2)] by blast
  qed simp
  moreover have "\<exists>prior. mget (rt_byId (cs_fact s)) k = Some prior \<and> nx = nextFact prior opts \<and> jget prior ''matter_id'' = m \<and>
      isAllowed ALLOWED_FACT_EDGES (js_String (jget prior ''status'')) (ft_to opts) Lawyer"
    if "?p = Inr (nx, ev, m)" for nx ev m
    using that by (rule prepareTransitionFact_Inr) (use lookup_row(3) [OF tok(1)] in blast)
  ultimately show ?thesis by (fastforce split: sum.splits)
qed

end
