(* ===== verification/CaseBoxDocketWrites.thy ===== *)
theory CaseBoxDocketWrites
  imports CaseBoxFactWrites
begin

text \<open>
  Docket entries and deadlines: the writes keep the invariant; a confirmation stores the entry, its deadline and
  both events, or nothing.
\<close>

subsection \<open>Entries and their deadlines\<close>

lemma docket_put_open:
  assumes "docket_backed d dl" and "jget nx ''confirmation_state'' \<noteq> JStr ''confirmed''"
  shows "docket_backed (pushEntity m nx d) dl" "docket_backed (putEntity m k nx d) dl"
  using assms by (auto simp: docket_backed_def split: if_splits)

lemma deadline_put:
  assumes "docket_backed d dl" and "mget (rt_byId dl) k = Some prior" and "\<And>e. materialized e prior \<Longrightarrow> materialized e nx"
  shows "docket_backed d (putEntity m k nx dl)"
proof -
  have "\<exists>x. mget (rt_byId (putEntity m k nx dl)) j = Some x \<and> materialized e x"
    if "mget (rt_byId dl) j = Some x" "materialized e x" for j e x
    using assms(2,3) that by (cases "j = k") auto
  then show ?thesis using assms(1) unfolding docket_backed_def by blast
qed

lemma confirmation_backed:
  assumes "entity_table_ok dl" and "docket_backed d dl" and "jget row ''id'' \<notin> set (rt_ids dl)"
    and "jget nx ''confirmed_deadline_id'' = jget row ''id''" and "nonempty_string (jget row ''id'')"
    and "jget nx ''proposed_due_at_kind'' \<noteq> JStr ''date_only''" and "materialized nx row"
  shows "docket_backed (putEntity m k nx d) (pushEntity m' row dl)"
proof -
  have old: "x \<noteq> jget row ''id''" if "mget (rt_byId dl) x = Some r" for x r
    using row_table_okD(2) [OF entity_rows_ok [OF assms(1)] entity_lookup(2) [OF assms(1) that]]
      entity_lookup(1) [OF assms(1) that] assms(3) by auto
  show ?thesis
    unfolding docket_backed_def
  proof (intro allI impI)
    fix x e assume x: "mget (rt_byId (putEntity m k nx d)) x = Some e" "jget e ''confirmation_state'' = JStr ''confirmed''"
    show "jget e ''proposed_due_at_kind'' \<noteq> JStr ''date_only'' \<and> nonempty_string (jget e ''confirmed_deadline_id'') \<and>
        (\<exists>y. mget (rt_byId (pushEntity m' row dl)) (jget e ''confirmed_deadline_id'') = Some y \<and> materialized e y)"
    proof (cases "x = k")
      case True
      with x(1) have "e = nx" by simp
      with assms(4-7) show ?thesis by simp
    next
      case False
      with x(1) have "mget (rt_byId d) x = Some e" by simp
      with assms(2) x(2) obtain y where "jget e ''proposed_due_at_kind'' \<noteq> JStr ''date_only''"
        "nonempty_string (jget e ''confirmed_deadline_id'')" "mget (rt_byId dl) (jget e ''confirmed_deadline_id'') = Some y"
        "materialized e y" unfolding docket_backed_def by blast
      with old show ?thesis by auto
    qed
  qed
qed

subsection \<open>Deadlines\<close>

lemma nextDeadline_other:
  assumes "f \<notin> {''status'', ''met_at'', ''previous_status'', ''transition_reason''}"
  shows "jget (nextDeadline prior opts) f = jget prior f"
  using assms by (simp add: nextDeadline_def Let_def jget_jset_other)

lemma nextDeadline_status: "jget (nextDeadline (JObj kvs) opts) ''status'' = JStr (dt_to opts)"
  by (simp add: nextDeadline_def Let_def)

lemma deadline_edge:
  assumes "isAllowed ALLOWED_DEADLINE_EDGES (js_String (jget row ''status'')) to by"
  shows "to = ''met'' \<or> to = ''missed'' \<or> to = ''withdrawn''"
  using assms by (auto simp: isAllowed_def case_edge_tables)

lemma prepareTransitionDeadline_Inr:
  assumes "prepareTransitionDeadline L ci st k opts storedOf = Inr (nx, ev, m)"
  obtains prior where "mget (rt_index st) k = Some m" "mget (rt_byId st) k = Some prior" "nx = nextDeadline prior opts"
    "isAllowed ALLOWED_DEADLINE_EDGES (js_String (jget prior ''status'')) (dt_to opts) Lawyer"
    "isMissedToMet prior opts \<Longrightarrow> trimmed_nonempty L (dt_transition_reason opts)"
    "emitEvent (audit_lib L) (storedOf m) (updatedEvent L ci
       (if isMissedToMet prior opts then ''DEADLINE_MISSED_TO_MET''
        else if dt_to opts = ''met'' then ''DEADLINE_MET''
        else if dt_to opts = ''missed'' then ''DEADLINE_MISSED'' else ''DEADLINE_WITHDRAWN'')
       m (dt_actor_user_id opts) (JStr (entityStateHash (audit_lib L) prior)) nx
       (if isMissedToMet prior opts then dt_transition_reason opts else JUndef)) = Inr ev"
  using assms
  by (auto simp: prepareTransitionDeadline_def result_simps Let_def assertValidDeadlineTransition_def
      assertTransitionWithReason_Inr assertTransition_Inr)

lemma transitionDeadline_run:
  assumes "case_lib_ok L" and "case_inv L s" and "transitionDeadline L ci k opts s = (r, s')"
  shows "case_inv L s' \<and> grows s s' \<and> (case r of
      Inl e \<Rightarrow> s' = s
    | Inr nx \<Rightarrow> \<exists>prior. mget (rt_byId (cs_deadline s)) k = Some prior \<and> nx = nextDeadline prior opts \<and>
        isAllowed ALLOWED_DEADLINE_EDGES (js_String (jget prior ''status'')) (dt_to opts) Lawyer \<and>
        (\<exists>a. s' = s\<lparr>cs_deadline := putEntity (jget prior ''matter_id'') k nx (cs_deadline s), cs_audit := a\<rparr>))"
proof -
  have tok: "entity_table_ok (cs_deadline s)" "docket_backed (cs_docket s) (cs_deadline s)"
    using assms(2) by (simp_all add: case_inv_def tables_ok_def)
  let ?p = "prepareTransitionDeadline L ci (cs_deadline s) k opts (log_get (cs_audit s))"
  note run = deadline_slot.replace_body [where put = "\<lambda>m. putEntity m k", OF assms(1,2) assms(3) [unfolded transitionDeadline_def]]
  have "case_inv L s' \<and> grows s s' \<and> (case r of Inl e \<Rightarrow> s' = s
      | Inr nx \<Rightarrow> \<exists>ev m. ?p = Inr (nx, ev, m) \<and> (\<exists>a. s' = (s\<lparr>cs_deadline := putEntity m k nx (cs_deadline s)\<rparr>)\<lparr>cs_audit := a\<rparr>))"
  proof (rule run)
    fix nx ev m assume "?p = Inr (nx, ev, m)"
    then obtain prior where p: "mget (rt_index (cs_deadline s)) k = Some m" "mget (rt_byId (cs_deadline s)) k = Some prior"
      "nx = nextDeadline prior opts"
      "isAllowed ALLOWED_DEADLINE_EDGES (js_String (jget prior ''status'')) (dt_to opts) Lawyer"
      "emitEvent (audit_lib L) (log_get (cs_audit s) m) (updatedEvent L ci
         (if isMissedToMet prior opts then ''DEADLINE_MISSED_TO_MET''
          else if dt_to opts = ''met'' then ''DEADLINE_MET''
          else if dt_to opts = ''missed'' then ''DEADLINE_MISSED'' else ''DEADLINE_WITHDRAWN'')
         m (dt_actor_user_id opts) (JStr (entityStateHash (audit_lib L) prior)) nx
         (if isMissedToMet prior opts then dt_transition_reason opts else JUndef)) = Inr ev"
      by (rule prepareTransitionDeadline_Inr) blast
    note row = lookup_row [OF tok(1) p(1,2)]
    obtain kvs where o: "prior = JObj kvs" by (rule allowed_object [where k = E_deadline, unfolded edges_of.simps, OF p(4)])
    have st: "jget nx ''status'' = JStr (dt_to opts)" by (simp add: p(3) o nextDeadline_status)
    have same: "jget nx ''id'' = k" "jget nx ''matter_id'' = m" "jget nx ''tenant_id'' = jget prior ''tenant_id''"
      using row by (simp_all add: p(3) nextDeadline_other)
    have late: "isMissedToMet prior opts \<Longrightarrow> dt_to opts = ''met''" by (simp add: isMissedToMet_def)
    have "moves L ci E_deadline m (log_get (cs_audit s) m) prior nx ev"
      by (rule movesI [OF _ same(3) p(5), where to = "dt_to opts" and act = "''update''" and rr = "isMissedToMet prior opts"])
         (use deadline_edge [OF p(4)] late same(1) row(2) p(4) st in \<open>auto simp: audit_simps split: if_splits\<close>)
    moreover have "docket_backed (cs_docket s) (putEntity m k nx (cs_deadline s))"
      by (rule deadline_put [OF tok(2) p(2)]) (simp add: materialized_def p(3) nextDeadline_other)
    ultimately show "\<exists>prior\<in>set (rows_of (cs_deadline s) m). moves L ci E_deadline m (log_get (cs_audit s) m) prior nx ev \<and>
        (entity_table_ok (putEntity m k nx (cs_deadline s)) \<and> docket_backed (cs_docket s) (putEntity m k nx (cs_deadline s))) \<and>
        (\<forall>k'. rows_of (putEntity m k nx (cs_deadline s)) k' =
           (if k' = m then replaceRow (jget prior ''id'') nx (rows_of (cs_deadline s) m) else rows_of (cs_deadline s) k'))"
      using row(1) putEntity_rows [OF tok(1) p(1,2) same(1,2)] by blast
  qed simp
  moreover have "\<exists>prior. mget (rt_byId (cs_deadline s)) k = Some prior \<and> nx = nextDeadline prior opts \<and> jget prior ''matter_id'' = m \<and>
      isAllowed ALLOWED_DEADLINE_EDGES (js_String (jget prior ''status'')) (dt_to opts) Lawyer"
    if "?p = Inr (nx, ev, m)" for nx ev m
    using that by (rule prepareTransitionDeadline_Inr) (use lookup_row(3) [OF tok(1)] in blast)
  ultimately show ?thesis by (fastforce split: sum.splits)
qed

subsection \<open>Proposing, dismissing, editing\<close>

lemma prepareAppendDocketEntry_Inr:
  assumes "prepareAppendDocketEntry L ci st documents stored input = Inr (row, ev)"
  shows "row = input \<and> jget row ''id'' \<notin> set (rt_ids st) \<and> jget row ''confirmation_state'' = JStr ''proposed'' \<and>
    emitEvent (audit_lib L) stored (createdEvent L ci ''DOCKET_ENTRY_PROPOSED'' row JUndef) = Inr ev"
  using assms by (auto simp: prepareAppendDocketEntry_def result_simps assertValidNewDocketEntry_def)

lemma appendDocketEntry_run:
  assumes "case_lib_ok L" and "case_inv L s" and "appendDocketEntry L ci input s = (r, s')"
  shows "case_inv L s' \<and> grows s s' \<and> (case r of
      Inl e \<Rightarrow> s' = s
    | Inr row \<Rightarrow> row = input \<and> jget row ''confirmation_state'' = JStr ''proposed'' \<and>
        (\<exists>a. s' = s\<lparr>cs_docket := pushEntity (jget row ''matter_id'') row (cs_docket s), cs_audit := a\<rparr>))"
proof -
  have tok: "entity_table_ok (cs_docket s)" "docket_backed (cs_docket s) (cs_deadline s)"
    using assms(2) by (simp_all add: case_inv_def tables_ok_def)
  let ?p = "\<lambda>stored. prepareAppendDocketEntry L ci (cs_docket s) (cs_documents s) stored input"
  have row: "row = input \<and> jget row ''confirmation_state'' = JStr ''proposed'' \<and>
      creates L ci E_docket (rt_ids (cs_docket s)) stored row ev \<and>
      entity_table_ok (pushEntity (jget row ''matter_id'') row (cs_docket s)) \<and>
      docket_backed (pushEntity (jget row ''matter_id'') row (cs_docket s)) (cs_deadline s)" if "?p stored = Inr (row, ev)" for stored row ev
  proof -
    note p = prepareAppendDocketEntry_Inr [OF that]
    then have fresh: "jget row ''id'' \<notin> set (rt_ids (cs_docket s))" and st: "jget row ''confirmation_state'' = JStr ''proposed''"
      by blast+
    have "creates L ci E_docket (rt_ids (cs_docket s)) stored row ev"
      using p by (auto intro!: createsI simp: audit_simps)
    moreover have "docket_backed (pushEntity (jget row ''matter_id'') row (cs_docket s)) (cs_deadline s)"
      by (rule docket_put_open(1) [OF tok(2)]) (simp add: st)
    ultimately show ?thesis using p pushEntity_ok [OF tok(1) fresh refl] by blast
  qed
  note run = docket_slot.append_body [where push = pushEntity, OF assms(1,2) assms(3) [unfolded appendDocketEntry_def]]
  have "case_inv L s' \<and> grows s s' \<and> (case r of Inl e \<Rightarrow> s' = s
      | Inr row \<Rightarrow> (\<exists>stored ev. ?p stored = Inr (row, ev)) \<and>
          (\<exists>a. s' = (s\<lparr>cs_docket := pushEntity (jget row ''matter_id'') row (cs_docket s)\<rparr>)\<lparr>cs_audit := a\<rparr>))"
    by (rule run, use row in blast, simp_all)
  with row show ?thesis by (fastforce split: sum.splits)
qed

lemma prepareDismissDocketEntry_Inr:
  assumes "prepareDismissDocketEntry L ci st k opts storedOf = Inr (nx, ev, m)"
  obtains prior where "mget (rt_index st) k = Some m" "mget (rt_byId st) k = Some prior" "nx = dismissedEntry prior opts"
    "trimmed_nonempty L (di_dismissal_reason opts)"
    "isAllowed ALLOWED_DOCKET_ENTRY_EDGES (js_String (jget prior ''confirmation_state'')) ''dismissed'' Lawyer"
    "emitEvent (audit_lib L) (storedOf m) (updatedEvent L ci ''DOCKET_ENTRY_DISMISSED'' m (di_dismissal_actor_user_id opts)
       (JStr (entityStateHash (audit_lib L) prior)) nx (di_dismissal_reason opts)) = Inr ev"
  using assms
  by (auto simp: prepareDismissDocketEntry_def result_simps Let_def assertValidDocketEntryTransition_def
      assertTransitionWithReason_Inr assertTransition_Inr)

lemma dismissDocketEntry_run:
  assumes "case_lib_ok L" and "case_inv L s" and "dismissDocketEntry L ci k opts s = (r, s')"
  shows "case_inv L s' \<and> grows s s' \<and> (case r of
      Inl e \<Rightarrow> s' = s
    | Inr nx \<Rightarrow> \<exists>prior. mget (rt_byId (cs_docket s)) k = Some prior \<and> nx = dismissedEntry prior opts \<and>
        jget prior ''confirmation_state'' \<noteq> JStr ''confirmed'' \<and>
        (\<exists>a. s' = s\<lparr>cs_docket := putEntity (jget prior ''matter_id'') k nx (cs_docket s), cs_audit := a\<rparr>))"
proof -
  have tok: "entity_table_ok (cs_docket s)" "docket_backed (cs_docket s) (cs_deadline s)"
    using assms(2) by (simp_all add: case_inv_def tables_ok_def)
  let ?p = "prepareDismissDocketEntry L ci (cs_docket s) k opts (log_get (cs_audit s))"
  note run = docket_slot.replace_body [where put = "\<lambda>m. putEntity m k", OF assms(1,2) assms(3) [unfolded dismissDocketEntry_def]]
  have "case_inv L s' \<and> grows s s' \<and> (case r of Inl e \<Rightarrow> s' = s
      | Inr nx \<Rightarrow> \<exists>ev m. ?p = Inr (nx, ev, m) \<and> (\<exists>a. s' = (s\<lparr>cs_docket := putEntity m k nx (cs_docket s)\<rparr>)\<lparr>cs_audit := a\<rparr>))"
  proof (rule run)
    fix nx ev m assume "?p = Inr (nx, ev, m)"
    then obtain prior where p: "mget (rt_index (cs_docket s)) k = Some m" "mget (rt_byId (cs_docket s)) k = Some prior"
      "nx = dismissedEntry prior opts"
      "isAllowed ALLOWED_DOCKET_ENTRY_EDGES (js_String (jget prior ''confirmation_state'')) ''dismissed'' Lawyer"
      "emitEvent (audit_lib L) (log_get (cs_audit s) m) (updatedEvent L ci ''DOCKET_ENTRY_DISMISSED'' m (di_dismissal_actor_user_id opts)
         (JStr (entityStateHash (audit_lib L) prior)) nx (di_dismissal_reason opts)) = Inr ev"
      by (rule prepareDismissDocketEntry_Inr) blast
    note row = lookup_row [OF tok(1) p(1,2)]
    obtain kvs where o: "prior = JObj kvs" by (rule allowed_object [where k = E_docket, unfolded edges_of.simps, OF p(4)])
    have st: "jget nx ''confirmation_state'' = JStr ''dismissed''" by (simp add: p(3) o dismissedEntry_def)
    have same: "jget nx ''id'' = k" "jget nx ''matter_id'' = m" "jget nx ''tenant_id'' = jget prior ''tenant_id''"
      using row by (simp_all add: p(3) dismissedEntry_def jget_jset_other)
    have "moves L ci E_docket m (log_get (cs_audit s) m) prior nx ev"
      by (rule movesI [OF _ same(3) p(5), where to = "''dismissed''"])
         (use same(1) row(2) p(4) st in \<open>auto simp: audit_simps\<close>)
    moreover have "docket_backed (putEntity m k nx (cs_docket s)) (cs_deadline s)"
      by (rule docket_put_open(2) [OF tok(2)]) (simp add: st)
    ultimately show "\<exists>prior\<in>set (rows_of (cs_docket s) m). moves L ci E_docket m (log_get (cs_audit s) m) prior nx ev \<and>
        (entity_table_ok (putEntity m k nx (cs_docket s)) \<and> docket_backed (putEntity m k nx (cs_docket s)) (cs_deadline s)) \<and>
        (\<forall>k'. rows_of (putEntity m k nx (cs_docket s)) k' =
           (if k' = m then replaceRow (jget prior ''id'') nx (rows_of (cs_docket s) m) else rows_of (cs_docket s) k'))"
      using row(1) putEntity_rows [OF tok(1) p(1,2) same(1,2)] by blast
  qed simp
  moreover have "\<exists>prior. mget (rt_byId (cs_docket s)) k = Some prior \<and> nx = dismissedEntry prior opts \<and> jget prior ''matter_id'' = m \<and>
      jget prior ''confirmation_state'' \<noteq> JStr ''confirmed''"
    if "?p = Inr (nx, ev, m)" for nx ev m
    using that
  proof (rule prepareDismissDocketEntry_Inr)
    fix prior assume p: "mget (rt_index (cs_docket s)) k = Some m" "mget (rt_byId (cs_docket s)) k = Some prior"
      "nx = dismissedEntry prior opts"
      and "isAllowed ALLOWED_DOCKET_ENTRY_EDGES (js_String (jget prior ''confirmation_state'')) ''dismissed'' Lawyer"
    then have "jget prior ''confirmation_state'' \<noteq> JStr ''confirmed''" by (auto simp: isAllowed_def case_edge_tables)
    with p lookup_row(3) [OF tok(1) p(1,2)] show ?thesis by blast
  qed
  ultimately show ?thesis by (fastforce split: sum.splits)
qed

text \<open>An edit keeps every field outside the list, the matter and the tenant among them.\<close>

lemma editedEntry_other:
  assumes "f \<notin> set EDITABLE_DOCKET_ENTRY_FIELDS"
  shows "jget (editedEntry ci prior opts) f = jget prior f"
  using assms by (simp add: editedEntry_def EDITABLE_DOCKET_ENTRY_FIELDS_def jget_jset_other)

lemma prepareEditDocketEntry_Inr:
  assumes "prepareEditDocketEntry L ci st opts storedOf = Inr (nx, ev, m)"
  obtains prior where "mget (rt_byId st) (ed_entry_id opts) = Some prior" "jget prior ''tenant_id'' = ed_tenant_id opts"
    "jget prior ''matter_id'' = ed_matter_id opts" "m = ed_matter_id opts" "nx = editedEntry ci prior opts"
    "jget prior ''confirmation_state'' = JStr ''proposed''" "isPlainRecord prior"
    "emitEvent (audit_lib L) (storedOf m) (updatedEvent L ci ''DOCKET_ENTRY_REVISED'' m (ed_editor_actor_user_id opts)
       (JStr (entityStateHash (audit_lib L) prior)) nx JUndef) = Inr ev"
  using assms
  by (auto simp: prepareEditDocketEntry_def result_simps Let_def assertValidDocketEntryEdit_def split: option.splits)

lemma editDocketEntry_run:
  assumes "case_lib_ok L" and "case_inv L s" and "editDocketEntry L ci opts s = (r, s')"
  shows "case_inv L s' \<and> grows s s' \<and> (case r of
      Inl e \<Rightarrow> s' = s
    | Inr nx \<Rightarrow> \<exists>prior. mget (rt_byId (cs_docket s)) (ed_entry_id opts) = Some prior \<and> nx = editedEntry ci prior opts \<and>
        jget prior ''confirmation_state'' = JStr ''proposed'' \<and> jget prior ''tenant_id'' = ed_tenant_id opts \<and>
        jget prior ''matter_id'' = ed_matter_id opts \<and>
        (\<exists>a. s' = s\<lparr>cs_docket := putEntity (ed_matter_id opts) (ed_entry_id opts) nx (cs_docket s), cs_audit := a\<rparr>))"
proof -
  let ?k = "ed_entry_id opts"
  have tok: "entity_table_ok (cs_docket s)" "docket_backed (cs_docket s) (cs_deadline s)"
    using assms(2) by (simp_all add: case_inv_def tables_ok_def)
  let ?p = "prepareEditDocketEntry L ci (cs_docket s) opts (log_get (cs_audit s))"
  let ?body = "replaceBody L (\<lambda>m nx s. s\<lparr>cs_docket := putEntity m ?k nx (cs_docket s)\<rparr>) ?p s"
  show ?thesis
  proof (cases "?body = (r, s')")
    case False
    with assms(2,3) show ?thesis by (auto simp: editDocketEntry_def split: option.splits if_splits)
  next
    case True
    note run = docket_slot.replace_body [where put = "\<lambda>m. putEntity m ?k", OF assms(1,2) True]
    have "case_inv L s' \<and> grows s s' \<and> (case r of Inl e \<Rightarrow> s' = s
        | Inr nx \<Rightarrow> \<exists>ev m. ?p = Inr (nx, ev, m) \<and> (\<exists>a. s' = (s\<lparr>cs_docket := putEntity m ?k nx (cs_docket s)\<rparr>)\<lparr>cs_audit := a\<rparr>))"
    proof (rule run)
      fix nx ev m assume "?p = Inr (nx, ev, m)"
      then obtain prior where p: "mget (rt_byId (cs_docket s)) ?k = Some prior" "jget prior ''matter_id'' = m"
        "nx = editedEntry ci prior opts" "jget prior ''confirmation_state'' = JStr ''proposed''"
        "emitEvent (audit_lib L) (log_get (cs_audit s) m) (updatedEvent L ci ''DOCKET_ENTRY_REVISED'' m (ed_editor_actor_user_id opts)
           (JStr (entityStateHash (audit_lib L) prior)) nx JUndef) = Inr ev"
        by (rule prepareEditDocketEntry_Inr) blast
      have "prior \<in> set (rows_of (cs_docket s) m)" "jget prior ''id'' = ?k" using entity_lookup [OF tok(1) p(1)] p(2) by auto
      then have ix: "mget (rt_index (cs_docket s)) ?k = Some m"
        using tok(1) by (auto simp: entity_table_ok_def indexed_table_ok_def)
      note row = lookup_row [OF tok(1) ix p(1)]
      have same: "jget nx f = jget prior f" if "f \<in> {''id'', ''matter_id'', ''tenant_id'', ''confirmation_state''}" for f
        unfolding p(3) by (rule editedEntry_other) (use that in \<open>auto simp: EDITABLE_DOCKET_ENTRY_FIELDS_def\<close>)
      have keep: "lifecycle_ok E_docket nx (es @ [e])"
        if "lifecycle_ok E_docket prior es" "jget e ''event_kind'' = JStr ''DOCKET_ENTRY_REVISED''" for es e
        using that(2) same by (intro lifecycle_keep [OF that(1)]) (auto simp: audit_simps)
      have "moves L ci E_docket m (log_get (cs_audit s) m) prior nx ev"
        unfolding moves_def
        using p(5) same keep
        by (intro conjI exI [of _ "''DOCKET_ENTRY_REVISED''"] exI [of _ "''update''"] exI [of _ False]
            exI [of _ "ed_editor_actor_user_id opts"] exI [of _ "JStr (entityStateHash (audit_lib L) prior)"] exI [of _ JUndef])
           (simp_all add: audit_simps)
      moreover have "docket_backed (putEntity m ?k nx (cs_docket s)) (cs_deadline s)"
        by (rule docket_put_open(2) [OF tok(2)]) (use same p(4) in simp)
      moreover have "jget nx ''id'' = ?k" "jget nx ''matter_id'' = m" using same row by simp_all
      ultimately show "\<exists>prior\<in>set (rows_of (cs_docket s) m). moves L ci E_docket m (log_get (cs_audit s) m) prior nx ev \<and>
          (entity_table_ok (putEntity m ?k nx (cs_docket s)) \<and> docket_backed (putEntity m ?k nx (cs_docket s)) (cs_deadline s)) \<and>
          (\<forall>k'. rows_of (putEntity m ?k nx (cs_docket s)) k' =
             (if k' = m then replaceRow (jget prior ''id'') nx (rows_of (cs_docket s) m) else rows_of (cs_docket s) k'))"
        using row(1) putEntity_rows [OF tok(1) ix p(1)] by blast
    qed simp
    moreover have "\<exists>prior. mget (rt_byId (cs_docket s)) ?k = Some prior \<and> nx = editedEntry ci prior opts \<and> m = ed_matter_id opts \<and>
        jget prior ''confirmation_state'' = JStr ''proposed'' \<and> jget prior ''tenant_id'' = ed_tenant_id opts \<and>
        jget prior ''matter_id'' = ed_matter_id opts" if "?p = Inr (nx, ev, m)" for nx ev m
      using that by (rule prepareEditDocketEntry_Inr) blast
    ultimately show ?thesis by (fastforce split: sum.splits)
  qed
qed

end
