(* ===== verification/CaseBoxConfirmWrites.thy ===== *)
theory CaseBoxConfirmWrites
  imports CaseBoxDocketWrites
begin

text \<open>
  The confirmation of a docket entry: two records and two events in one write, or none.
\<close>

lemma commitEvent_log:
  assumes "commitEvent L m ev x s = (Inr y, s\<lparr>cs_audit := a\<rparr>)"
  shows "log_append (audit_lib L) m ev (cs_audit s) = (Inr (), a)"
proof -
  obtain r a' where l: "log_append (audit_lib L) m ev (cs_audit s) = (r, a')" by (cases "log_append (audit_lib L) m ev (cs_audit s)")
  with assms have "r = Inr ()" and "s\<lparr>cs_audit := a'\<rparr> = s\<lparr>cs_audit := a\<rparr>"
    by (auto simp: commitEvent_def split: sum.splits)
  from arg_cong [OF this(2), of cs_audit] this(1) l show ?thesis by simp
qed

text \<open>The second event is a creation made with the second identifier of the call.\<close>

lemma deadline_event:
  assumes "jget row ''actor_user_id'' = actor" and "jget row ''matter_id'' = m"
  shows "(\<lambda>prevHash. (updatedEvent L ci ''DEADLINE_REGISTERED'' m actor JNull row JUndef prevHash)\<lparr>be_id := ci_id ci 1\<rparr>) =
    createdEvent L (ci\<lparr>ci_id := \<lambda>n. ci_id ci (Suc n)\<rparr>) ''DEADLINE_REGISTERED'' row JUndef"
  using assms by (simp add: fun_eq_iff updatedEvent_def createdEvent_def)

lemma built_deadline:
  "jget (buildDeadlineRowFromDocketEntry e d actor) ''id'' = d"
  "jget (buildDeadlineRowFromDocketEntry e d actor) ''tenant_id'' = jget e ''tenant_id''"
  "jget (buildDeadlineRowFromDocketEntry e d actor) ''matter_id'' = jget e ''matter_id''"
  "jget (buildDeadlineRowFromDocketEntry e d actor) ''actor_user_id'' = actor"
  "jget (buildDeadlineRowFromDocketEntry e d actor) ''status'' = JStr ''pending''"
  "materialized e (buildDeadlineRowFromDocketEntry e d actor)"
  by (simp_all add: buildDeadlineRowFromDocketEntry_def materialized_def)

lemma confirmedEntry_other:
  assumes "f \<notin> {''confirmation_state'', ''confirmation_actor_user_id'', ''confirmed_at'', ''confirmed_deadline_id''}"
  shows "jget (confirmedEntry prior opts) f = jget prior f"
  using assms by (simp add: confirmedEntry_def jget_jset_other)

lemma confirmedEntry_fields:
  "jget (confirmedEntry (JObj kvs) opts) ''confirmation_state'' = JStr ''confirmed''"
  "jget (confirmedEntry (JObj kvs) opts) ''confirmed_deadline_id'' = co_deadline_id opts"
  by (simp_all add: confirmedEntry_def)

lemma prepareConfirmDocketEntry_Inr:
  assumes "prepareConfirmDocketEntry L ci docket deadlines k opts storedOf = Inr p"
  obtains m prior where "mget (rt_index docket) k = Some m" "mget (rt_byId docket) k = Some prior"
      "existingConfirmation deadlines prior = Some (pc_deadline p)" "pc_idempotent p" "pc_entry p = prior"
    | m prior ev1 ev2 where "mget (rt_index docket) k = Some m" "mget (rt_byId docket) k = Some prior"
      "jget prior ''confirmation_state'' = JStr ''proposed''" "nonempty_string (co_deadline_id opts)"
      "isAllowed ALLOWED_DOCKET_ENTRY_EDGES (js_String (jget prior ''confirmation_state'')) ''confirmed'' Lawyer"
      "jget prior ''proposed_due_at_kind'' \<noteq> JStr ''date_only''" "co_deadline_id opts \<notin> set (rt_ids deadlines)"
      "\<not> pc_idempotent p" "pc_matterId p = m" "pc_entry p = confirmedEntry prior opts"
      "pc_deadline p = buildDeadlineRowFromDocketEntry (pc_entry p) (co_deadline_id opts) (co_confirmation_actor_user_id opts)"
      "pc_audits p = [ev1, ev2]"
      "emitEvent (audit_lib L) (storedOf m) (updatedEvent L ci ''DOCKET_ENTRY_CONFIRMED'' m (co_confirmation_actor_user_id opts)
         (JStr (entityStateHash (audit_lib L) prior)) (pc_entry p) JUndef) = Inr ev1"
      "emitEvent (audit_lib L) (storedOf m @ [ev1]) (\<lambda>prevHash. (updatedEvent L ci ''DEADLINE_REGISTERED'' m
         (co_confirmation_actor_user_id opts) JNull (pc_deadline p) JUndef prevHash)\<lparr>be_id := ci_id ci 1\<rparr>) = Inr ev2"
proof -
  from assms obtain m prior where row: "mget (rt_index docket) k = Some m" "mget (rt_byId docket) k = Some prior"
    by (auto simp: prepareConfirmDocketEntry_def result_simps)
  show thesis
  proof (cases "existingConfirmation deadlines prior")
    case (Some d)
    with assms row that(1) show thesis by (auto simp: prepareConfirmDocketEntry_def result_simps)
  next
    case None
    with assms row obtain audits where a: "nonempty_string (co_deadline_id opts)"
      "assertValidDocketEntryConfirmation prior Lawyer = Inr ()" "co_deadline_id opts \<notin> set (rt_ids deadlines)"
      "emitConfirmation L ci (storedOf m) m (co_confirmation_actor_user_id opts) prior (confirmedEntry prior opts)
         (buildDeadlineRowFromDocketEntry (confirmedEntry prior opts) (co_deadline_id opts) (co_confirmation_actor_user_id opts)) = Inr audits"
      "p = \<lparr>pc_idempotent = False, pc_entry = confirmedEntry prior opts,
        pc_deadline = buildDeadlineRowFromDocketEntry (confirmedEntry prior opts) (co_deadline_id opts) (co_confirmation_actor_user_id opts),
        pc_audits = audits, pc_matterId = m\<rparr>"
      by (auto simp: prepareConfirmDocketEntry_def result_simps Let_def)
    from a(4) obtain ev1 ev2 where e: "audits = [ev1, ev2]"
      "emitEvent (audit_lib L) (storedOf m) (updatedEvent L ci ''DOCKET_ENTRY_CONFIRMED'' m (co_confirmation_actor_user_id opts)
         (JStr (entityStateHash (audit_lib L) prior)) (pc_entry p) JUndef) = Inr ev1"
      "emitEvent (audit_lib L) (storedOf m @ [ev1]) (\<lambda>prevHash. (updatedEvent L ci ''DEADLINE_REGISTERED'' m
         (co_confirmation_actor_user_id opts) JNull (pc_deadline p) JUndef prevHash)\<lparr>be_id := ci_id ci 1\<rparr>) = Inr ev2"
      by (auto simp: a(5) emitConfirmation_def result_simps)
    have "isAllowed ALLOWED_DOCKET_ENTRY_EDGES (js_String (jget prior ''confirmation_state'')) ''confirmed'' Lawyer"
      "jget prior ''proposed_due_at_kind'' \<noteq> JStr ''date_only''" "jget prior ''confirmation_state'' = JStr ''proposed''"
      using a(2) by (auto simp: assertValidDocketEntryConfirmation_def result_simps Let_def)
    then show thesis using that(2) [OF row _ a(1) _ _ a(3)] a(5) e by simp
  qed
qed

lemma confirmDocketEntry_run:
  assumes "case_lib_ok L" and "case_inv L s" and "confirmDocketEntry L ci k opts s = (r, s')"
  shows "case_inv L s' \<and> grows s s' \<and> (case r of
      Inl e \<Rightarrow> s' = s
    | Inr c \<Rightarrow> \<exists>prior. mget (rt_byId (cs_docket s)) k = Some prior \<and>
        (if cr_idempotent c
         then s' = s \<and> cr_entry c = prior \<and> existingConfirmation (cs_deadline s) prior = Some (cr_deadline c)
         else jget prior ''confirmation_state'' = JStr ''proposed'' \<and> cr_entry c = confirmedEntry prior opts \<and>
           co_deadline_id opts \<notin> set (rt_ids (cs_deadline s)) \<and>
           cr_deadline c = buildDeadlineRowFromDocketEntry (cr_entry c) (co_deadline_id opts) (co_confirmation_actor_user_id opts) \<and>
           (\<exists>a ev1 ev2. log_get a (jget prior ''matter_id'') = log_get (cs_audit s) (jget prior ''matter_id'') @ [ev1, ev2] \<and>
              s' = s\<lparr>cs_docket := putEntity (jget prior ''matter_id'') k (cr_entry c) (cs_docket s),
                     cs_deadline := pushEntity (jget prior ''matter_id'') (cr_deadline c) (cs_deadline s), cs_audit := a\<rparr>)))"
proof (cases "prepareConfirmDocketEntry L ci (cs_docket s) (cs_deadline s) k opts (log_get (cs_audit s))")
  case (Inl e)
  with assms(2,3) show ?thesis by (auto simp: confirmDocketEntry_def)
next
  case (Inr p)
  have tok: "entity_table_ok (cs_docket s)" "entity_table_ok (cs_deadline s)" "docket_backed (cs_docket s) (cs_deadline s)"
    and trails: "trails_ok L s" using assms(2) by (simp_all add: case_inv_def tables_ok_def)
  from Inr show ?thesis
  proof (cases rule: prepareConfirmDocketEntry_Inr)
    case (1 m prior)
    with Inr assms(2,3) show ?thesis by (auto simp: confirmDocketEntry_def)
  next
    case (2 m prior ev1 ev2)
    let ?nx = "pc_entry p" and ?dl = "pc_deadline p"
    let ?d = "putEntity m k ?nx (cs_docket s)" and ?l = "pushEntity m ?dl (cs_deadline s)"
    note row = lookup_row [OF tok(1) 2(1,2)]
    obtain kvs where o: "prior = JObj kvs" by (rule allowed_object [where k = E_docket, unfolded edges_of.simps, OF 2(5)])
    have same: "jget ?nx ''id'' = k" "jget ?nx ''matter_id'' = m" "jget ?nx ''tenant_id'' = jget prior ''tenant_id''"
      "jget ?nx ''proposed_due_at_kind'' = jget prior ''proposed_due_at_kind''"
      using row by (simp_all add: 2(10) confirmedEntry_other)
    have st: "jget ?nx ''confirmation_state'' = JStr ''confirmed''" "jget ?nx ''confirmed_deadline_id'' = co_deadline_id opts"
      by (simp_all add: 2(10) o confirmedEntry_fields)
    have dl: "jget ?dl ''id'' = co_deadline_id opts" "jget ?dl ''tenant_id'' = jget ?nx ''tenant_id''" "jget ?dl ''matter_id'' = m"
      "jget ?dl ''actor_user_id'' = co_confirmation_actor_user_id opts" "jget ?dl ''status'' = JStr ''pending''" "materialized ?nx ?dl"
      using same(2) unfolding 2(11) built_deadline by (simp_all add: built_deadline)
    from tracked_row [OF trails, of prior E_docket m] row(1) obtain matter where m: "mget (cs_matters s) m = Some matter"
      "jget prior ''tenant_id'' = jget matter ''tenant_id''" by auto
    have "\<exists>a. commitEvent L m ev1 () (s\<lparr>cs_docket := ?d\<rparr>) = (Inr (), (s\<lparr>cs_docket := ?d\<rparr>)\<lparr>cs_audit := a\<rparr>) \<and>
        trails_ok L ((s\<lparr>cs_docket := ?d\<rparr>)\<lparr>cs_audit := a\<rparr>) \<and> grows s ((s\<lparr>cs_docket := ?d\<rparr>)\<lparr>cs_audit := a\<rparr>) \<and>
        (\<forall>k. log_get a k = (if k = m then log_get (cs_audit s) m @ [ev1] else log_get (cs_audit s) k))"
    proof (rule docket_slot.replace_trails [where act = "''update''" and rr = False, OF assms(1) trails entity_rows_ok [OF tok(1)] row(1) _ same(3) 2(13)])
      show "lifecycle_ok E_docket ?nx (es @ [e])"
        if "lifecycle_ok E_docket prior es" "jget e ''event_kind'' = JStr ''DOCKET_ENTRY_CONFIRMED''" for es e
        using that(2) 2(5) st(1) by (intro lifecycle_move [where to = "''confirmed''", OF that(1)]) (auto simp: audit_simps)
      show "jget ?nx ''id'' = jget prior ''id''" using same(1) row(2) by simp
      show "rows_of ?d k' = (if k' = m then replaceRow (jget prior ''id'') ?nx (rows_of (cs_docket s) m) else rows_of (cs_docket s) k')" for k'
        by (rule putEntity_rows(2) [OF tok(1) 2(1,2) same(1,2)])
    qed (simp_all add: audit_simps)
    then obtain a1 where a1: "commitEvent L m ev1 () (s\<lparr>cs_docket := ?d\<rparr>) = (Inr (), (s\<lparr>cs_docket := ?d\<rparr>)\<lparr>cs_audit := a1\<rparr>)"
      "trails_ok L ((s\<lparr>cs_docket := ?d\<rparr>)\<lparr>cs_audit := a1\<rparr>)" "grows s ((s\<lparr>cs_docket := ?d\<rparr>)\<lparr>cs_audit := a1\<rparr>)"
      and log1: "\<And>k. log_get a1 k = (if k = m then log_get (cs_audit s) m @ [ev1] else log_get (cs_audit s) k)" by blast
    let ?s1 = "(s\<lparr>cs_docket := ?d\<rparr>)\<lparr>cs_audit := a1\<rparr>"
    let ?ci = "ci\<lparr>ci_id := \<lambda>n. ci_id ci (Suc n)\<rparr>"
    have "\<exists>a. commitEvent L m ev2 () (?s1\<lparr>cs_deadline := ?l\<rparr>) = (Inr (), (?s1\<lparr>cs_deadline := ?l\<rparr>)\<lparr>cs_audit := a\<rparr>) \<and>
        trails_ok L ((?s1\<lparr>cs_deadline := ?l\<rparr>)\<lparr>cs_audit := a\<rparr>) \<and> grows ?s1 ((?s1\<lparr>cs_deadline := ?l\<rparr>)\<lparr>cs_audit := a\<rparr>) \<and>
        (\<forall>k. log_get a k = (if k = m then log_get (cs_audit ?s1) m @ [ev2] else log_get (cs_audit ?s1) k))"
    proof (rule deadline_slot.append_trails [where ci = ?ci, OF assms(1) a1(2)])
      show "emitEvent (audit_lib L) (log_get (cs_audit ?s1) m) (createdEvent L ?ci ''DEADLINE_REGISTERED'' ?dl JUndef) = Inr ev2"
        using 2(14) unfolding deadline_event [OF dl(4,3)] by (simp add: log1)
      show "row_table_ok (cs_deadline ?s1)" using entity_rows_ok [OF tok(2)] by simp
      show "mget (cs_matters ?s1) m = Some matter" using m(1) by simp
      show "jget ?dl ''tenant_id'' = jget matter ''tenant_id''" using dl(2) same(3) m(2) by simp
    qed (use dl 2(7) in \<open>simp_all add: audit_simps\<close>)
    then obtain a2 where a2: "commitEvent L m ev2 () (?s1\<lparr>cs_deadline := ?l\<rparr>) = (Inr (), (?s1\<lparr>cs_deadline := ?l\<rparr>)\<lparr>cs_audit := a2\<rparr>)"
      "trails_ok L ((?s1\<lparr>cs_deadline := ?l\<rparr>)\<lparr>cs_audit := a2\<rparr>)" "grows ?s1 ((?s1\<lparr>cs_deadline := ?l\<rparr>)\<lparr>cs_audit := a2\<rparr>)"
      and log2: "\<And>k. log_get a2 k = (if k = m then log_get (cs_audit ?s1) m @ [ev2] else log_get (cs_audit ?s1) k)" by blast
    let ?s2 = "s\<lparr>cs_docket := ?d, cs_deadline := ?l, cs_audit := a2\<rparr>"
    have eq: "(?s1\<lparr>cs_deadline := ?l\<rparr>)\<lparr>cs_audit := a2\<rparr> = ?s2" by simp
    have run: "r = Inr \<lparr>cr_entry = ?nx, cr_deadline = ?dl, cr_idempotent = False\<rparr>" "s' = ?s2"
      using assms(3) Inr 2(8,9,12) commitEvent_log [OF a1(1)] commitEvent_log [OF a2(1)]
      by (simp_all add: confirmDocketEntry_def commitEvents_def)
    have "entity_table_ok ?d" by (rule putEntity_rows(1) [OF tok(1) 2(1,2) same(1,2)])
    moreover have "entity_table_ok ?l" by (rule pushEntity_ok [OF tok(2) _ dl(3)]) (use 2(7) dl(1) in simp)
    moreover have "docket_backed ?d ?l"
      by (rule confirmation_backed [OF tok(2,3)]) (use 2(4,6,7) dl st same(4) in simp_all)
    ultimately have inv: "case_inv L ?s2" using assms(2) a2(2) unfolding eq by (simp add: case_inv_def tables_ok_def)
    have g: "grows s ?s2" using grows_trans [OF a1(3) a2(3)] unfolding eq .
    have "\<exists>a ev1 ev2. log_get a m = log_get (cs_audit s) m @ [ev1, ev2] \<and>
        ?s2 = s\<lparr>cs_docket := ?d, cs_deadline := ?l, cs_audit := a\<rparr>"
      using log1 log2 by (intro exI [of _ a2] exI [of _ ev1] exI [of _ ev2]) simp
    then show ?thesis
      unfolding run sum.case ConfirmDocketEntryResult.simps if_False
      using inv g 2(2,3,7,10,11) row(3) by (intro conjI exI [of _ prior]) simp_all
  qed
qed

end
