(* ===== verification/CaseBoxMarkerWrites.thy ===== *)
theory CaseBoxMarkerWrites
  imports CaseBoxEvidenceWrites
begin

text \<open>
  Privilege markers, classifications and OCR links: the writes keep the invariant, and with it that a target has
  at most one confirmed marker of a kind.
\<close>

text \<open>A target that resolves has the tenant of its matter.\<close>

lemma target_tenant:
  assumes "case_inv L s" and "resolveDocumentTarget (cs_documents s) t m x = Inr ()" and "mget (cs_matters s) m = Some matter"
  shows "t = jget matter ''tenant_id''"
proof -
  from assms(2) obtain doc k where d: "mget (cs_documents s) x = Some (doc, k)" "jget doc ''tenant_id'' = t" "jget doc ''matter_id'' = m"
    by (auto simp: result_simps)
  with assms(1) have "k = m" by (auto simp: case_inv_def tables_ok_def documents_ok_def)
  with d have "doc \<in> stored_rows s E_document m" by auto
  from stored_row [OF assms(1) this] obtain matter' where "mget (cs_matters s) m = Some matter'" "jget doc ''tenant_id'' = jget matter' ''tenant_id''" .
  with assms(3) d(2) show ?thesis by simp
qed

subsection \<open>Privilege markers\<close>

lemma one_confirmed_push:
  assumes "one_confirmed t" and "\<not> has_status ''confirmed'' row"
  shows "one_confirmed (pushIndexed m row t)"
proof -
  have "a \<in> set (rows_of t x)" if "a \<in> set (rows_of (pushIndexed m row t) x)" "has_status ''confirmed'' a" for a x
    using that assms(2) by (auto split: if_splits)
  then show ?thesis using assms(1) unfolding one_confirmed_def by blast
qed

lemma one_confirmed_put:
  assumes "indexed_table_ok t" and "one_confirmed t" and prior: "prior \<in> set (rows_of t m)" "jget prior ''id'' = k"
    and same: "jget nx ''target_type'' = jget prior ''target_type''" "jget nx ''target_id'' = jget prior ''target_id''"
      "jget nx ''kind'' = jget prior ''kind''"
    and free: "has_status ''confirmed'' nx \<Longrightarrow> \<forall>other\<in>set (rows_of t m). \<not> rivalMarker prior other"
  shows "one_confirmed (putRow m k nx t)"
proof -
  have ok: "row_table_ok t" using assms(1) by (simp add: indexed_table_ok_def)
  then have "distinct (map (\<lambda>r. jget r ''id'') (rows_of t m))" by (simp add: row_table_ok_def)
  note rows = set_replaceRow [OF this prior, of nx]
  have alone: "False" if "r \<in> set (rows_of t m)" "r \<noteq> prior" "has_status ''confirmed'' nx" "has_status ''confirmed'' r"
    "jget r ''target_type'' = jget nx ''target_type''" "jget r ''target_id'' = jget nx ''target_id''" "jget r ''kind'' = jget nx ''kind''" for r
  proof -
    have "jget r ''id'' \<noteq> jget prior ''id''" using row_table_okD(3) [OF ok prior(1) that(1)] that(2) by metis
    then have "rivalMarker prior r" using that(4-7) same by (simp add: rivalMarker_def)
    with free [OF that(3)] that(1) show False by blast
  qed
  show ?thesis
    unfolding one_confirmed_def
  proof (intro allI impI)
    fix x a b
    assume r: "a \<in> set (rows_of (putRow m k nx t) x)" "b \<in> set (rows_of (putRow m k nx t) x)"
      and c: "has_status ''confirmed'' a" "has_status ''confirmed'' b"
      and eq: "jget a ''target_type'' = jget b ''target_type''" "jget a ''target_id'' = jget b ''target_id''" "jget a ''kind'' = jget b ''kind''"
    show "a = b"
    proof (cases "x = m")
      case False
      with r have "a \<in> set (rows_of t x)" "b \<in> set (rows_of t x)" by simp_all
      with assms(2) c eq show ?thesis unfolding one_confirmed_def by blast
    next
      case True
      with r rows have ab: "a = nx \<or> a \<in> set (rows_of t m) \<and> a \<noteq> prior" "b = nx \<or> b \<in> set (rows_of t m) \<and> b \<noteq> prior" by auto
      then consider "a = nx" "b = nx" | "a = nx" "b \<in> set (rows_of t m)" "b \<noteq> prior" |
        "b = nx" "a \<in> set (rows_of t m)" "a \<noteq> prior" | "a \<in> set (rows_of t m)" "b \<in> set (rows_of t m)" by blast
      then show ?thesis
      proof cases
        case 2
        with alone [of b] c eq show ?thesis by simp
      next
        case 3
        with alone [of a] c eq show ?thesis by simp
      next
        case 4
        with assms(2) c eq show ?thesis unfolding one_confirmed_def by blast
      qed simp
    qed
  qed
qed

lemma prepareAppendPrivilegeMarker_Inr:
  assumes "prepareAppendPrivilegeMarker L ci st documents stored input = Inr (row, ev)"
  shows "row = input \<and> jget row ''id'' \<notin> set (rt_ids st) \<and> jget row ''status'' = JStr ''proposed'' \<and>
    jget row ''target_type'' = JStr ''document'' \<and>
    resolveDocumentTarget documents (jget row ''tenant_id'') (jget row ''matter_id'') (jget row ''target_id'') = Inr () \<and>
    emitEvent (audit_lib L) stored (createdEvent L ci ''PRIVILEGE_MARKER_PROPOSED'' row JUndef) = Inr ev"
proof -
  from assms have p: "row = input" "jget input ''id'' \<notin> set (rt_ids st)"
    "jget input ''status'' = JUndef \<or> jget input ''status'' = JStr ''proposed''" "assertValidNewPrivilegeMarker input = Inr ()"
    "jget input ''target_type'' = JStr ''document''"
    "resolveDocumentTarget documents (jget input ''tenant_id'') (jget input ''matter_id'') (jget input ''target_id'') = Inr ()"
    "emitEvent (audit_lib L) stored (createdEvent L ci ''PRIVILEGE_MARKER_PROPOSED'' input JUndef) = Inr ev"
    by (auto simp: prepareAppendPrivilegeMarker_def bindR_Inr_iff check_Inr schema_check_Inr)
  from p(4) have "jget input ''status'' = JStr ''proposed'' \<or> jget input ''status'' = JStr ''confirmed''"
    by (simp add: assertValidNewPrivilegeMarker_def Let_def bindR_Inr_iff result_simps)
  with p show ?thesis by auto
qed

lemma appendPrivilegeMarker_run:
  assumes "case_lib_ok L" and "case_inv L s" and "appendPrivilegeMarker L ci input s = (r, s')"
  shows "case_inv L s' \<and> grows s s' \<and> (case r of
      Inl e \<Rightarrow> s' = s
    | Inr row \<Rightarrow> row = input \<and> jget row ''status'' = JStr ''proposed'' \<and>
        (\<exists>a. s' = s\<lparr>cs_privilege := pushIndexed (jget row ''matter_id'') row (cs_privilege s), cs_audit := a\<rparr>))"
proof -
  have tok: "indexed_table_ok (cs_privilege s)" "one_confirmed (cs_privilege s)"
    using assms(2) by (simp_all add: case_inv_def tables_ok_def)
  let ?p = "\<lambda>stored. prepareAppendPrivilegeMarker L ci (cs_privilege s) (cs_documents s) stored input"
  have row: "row = input \<and> jget row ''status'' = JStr ''proposed'' \<and>
      creates L ci E_privilege (rt_ids (cs_privilege s)) stored row ev \<and>
      indexed_table_ok (pushIndexed (jget row ''matter_id'') row (cs_privilege s)) \<and>
      one_confirmed (pushIndexed (jget row ''matter_id'') row (cs_privilege s)) \<and>
      (\<forall>matter. mget (cs_matters s) (jget row ''matter_id'') = Some matter \<longrightarrow> jget row ''tenant_id'' = jget matter ''tenant_id'')"
    if "?p stored = Inr (row, ev)" for stored row ev
  proof -
    note p = prepareAppendPrivilegeMarker_Inr [OF that]
    then have fresh: "jget row ''id'' \<notin> set (rt_ids (cs_privilege s))" and st: "jget row ''status'' = JStr ''proposed''"
      and target: "resolveDocumentTarget (cs_documents s) (jget row ''tenant_id'') (jget row ''matter_id'') (jget row ''target_id'') = Inr ()"
      by blast+
    have "creates L ci E_privilege (rt_ids (cs_privilege s)) stored row ev"
      using p by (auto intro!: createsI simp: audit_simps)
    moreover have "one_confirmed (pushIndexed (jget row ''matter_id'') row (cs_privilege s))"
      by (rule one_confirmed_push [OF tok(2)]) (simp add: has_status_def st)
    ultimately show ?thesis
      using p pushIndexed_ok [OF tok(1) fresh refl] target_tenant [OF assms(2) target] by blast
  qed
  note run = privilege_slot.append_body [where push = pushIndexed, OF assms(1,2) assms(3) [unfolded appendPrivilegeMarker_def]]
  have "case_inv L s' \<and> grows s s' \<and> (case r of Inl e \<Rightarrow> s' = s
      | Inr row \<Rightarrow> (\<exists>stored ev. ?p stored = Inr (row, ev)) \<and>
          (\<exists>a. s' = (s\<lparr>cs_privilege := pushIndexed (jget row ''matter_id'') row (cs_privilege s)\<rparr>)\<lparr>cs_audit := a\<rparr>))"
    by (rule run, use row in blast, simp_all)
  with row show ?thesis by (fastforce split: sum.splits)
qed

lemma nextMarker_other:
  assumes "f \<notin> {''status'', ''confirmed_actor_user_id'', ''confirmed_at'', ''dismissed_actor_user_id'', ''dismissed_at'',
    ''dismissal_reason'', ''waiver_actor_user_id'', ''waived_at'', ''waiver_reason''}"
  shows "jget (nextMarker prior opts) f = jget prior f"
  using assms by (simp add: nextMarker_def Let_def jget_jset_other)

lemma nextMarker_status: "jget (nextMarker (JObj kvs) opts) ''status'' = JStr (pt_to opts)"
  by (simp add: nextMarker_def Let_def)

lemma marker_edge:
  assumes "isAllowed ALLOWED_PRIVILEGE_MARKER_EDGES (js_String (jget row ''status'')) to by"
  shows "to = ''confirmed'' \<or> to = ''dismissed'' \<or> to = ''waived''"
  using assms by (auto simp: isAllowed_def case_edge_tables)

lemma prepareTransitionPrivilegeMarker_Inr:
  assumes "prepareTransitionPrivilegeMarker L ci st k opts storedOf = Inr (nx, ev, m)"
  obtains prior where "mget (rt_index st) k = Some m" "List.find (\<lambda>m. jget m ''id'' = k) (rows_of st m) = Some prior"
    "nx = nextMarker prior opts"
    "isAllowed ALLOWED_PRIVILEGE_MARKER_EDGES (js_String (jget prior ''status'')) (pt_to opts) Lawyer"
    "pt_to opts = ''confirmed'' \<Longrightarrow> \<forall>other\<in>set (rows_of st m). \<not> rivalMarker prior other"
    "emitEvent (audit_lib L) (storedOf m) (updatedEvent L ci
       (if pt_to opts = ''confirmed'' then ''PRIVILEGE_MARKER_CONFIRMED''
        else if pt_to opts = ''dismissed'' then ''PRIVILEGE_MARKER_DISMISSED'' else ''PRIVILEGE_MARKER_WAIVED'')
       m (pt_actor_user_id opts) (JStr (entityStateHash (audit_lib L) prior)) nx
       (if pt_to opts = ''dismissed'' \<or> pt_to opts = ''waived'' then pt_reason opts else JUndef)) = Inr ev"
proof -
  from assms obtain m' prior where row: "mget (rt_index st) k = Some m'"
    "List.find (\<lambda>m. jget m ''id'' = k) (rows_of st m') = Some prior"
    unfolding prepareTransitionPrivilegeMarker_def by (auto simp: result_simps split: option.splits)
  have p: "m' = m \<and> nx = nextMarker prior opts \<and>
    assertValidPrivilegeMarkerTransition (js_String (jget prior ''status'')) (pt_to opts) Lawyer (pt_reason opts) = Inr () \<and>
    (pt_to opts = ''confirmed'' \<longrightarrow> (\<forall>other\<in>set (rows_of st m'). \<not> rivalMarker prior other)) \<and>
    emitEvent (audit_lib L) (storedOf m) (updatedEvent L ci
       (if pt_to opts = ''confirmed'' then ''PRIVILEGE_MARKER_CONFIRMED''
        else if pt_to opts = ''dismissed'' then ''PRIVILEGE_MARKER_DISMISSED'' else ''PRIVILEGE_MARKER_WAIVED'')
       m (pt_actor_user_id opts) (JStr (entityStateHash (audit_lib L) prior)) nx
       (if pt_to opts = ''dismissed'' \<or> pt_to opts = ''waived'' then pt_reason opts else JUndef)) = Inr ev"
    using assms unfolding prepareTransitionPrivilegeMarker_def Let_def row option.case bindR_Inr_iff check_Inr rethrow_Inr
    by auto
  then have "isAllowed ALLOWED_PRIVILEGE_MARKER_EDGES (js_String (jget prior ''status'')) (pt_to opts) Lawyer"
    by (simp add: assertValidPrivilegeMarkerTransition_def assertTransitionWithReason_Inr assertTransition_Inr)
  with row p show thesis by (intro that [of prior]) blast+
qed

lemma transitionPrivilegeMarker_run:
  assumes "case_lib_ok L" and "case_inv L s" and "transitionPrivilegeMarker L ci k opts s = (r, s')"
  shows "case_inv L s' \<and> grows s s' \<and> (case r of
      Inl e \<Rightarrow> s' = s
    | Inr nx \<Rightarrow> \<exists>prior m. prior \<in> set (rows_of (cs_privilege s) m) \<and> jget prior ''id'' = k \<and> nx = nextMarker prior opts \<and>
        isAllowed ALLOWED_PRIVILEGE_MARKER_EDGES (js_String (jget prior ''status'')) (pt_to opts) Lawyer \<and>
        (\<exists>a. s' = s\<lparr>cs_privilege := putRow m k nx (cs_privilege s), cs_audit := a\<rparr>))"
proof -
  have tok: "indexed_table_ok (cs_privilege s)" "one_confirmed (cs_privilege s)"
    using assms(2) by (simp_all add: case_inv_def tables_ok_def)
  then have ok: "row_table_ok (cs_privilege s)" by (simp add: indexed_table_ok_def)
  let ?p = "prepareTransitionPrivilegeMarker L ci (cs_privilege s) k opts (log_get (cs_audit s))"
  note run = privilege_slot.replace_body [where put = "\<lambda>m. putRow m k", OF assms(1,2) assms(3) [unfolded transitionPrivilegeMarker_def]]
  have "case_inv L s' \<and> grows s s' \<and> (case r of Inl e \<Rightarrow> s' = s
      | Inr nx \<Rightarrow> \<exists>ev m. ?p = Inr (nx, ev, m) \<and> (\<exists>a. s' = (s\<lparr>cs_privilege := putRow m k nx (cs_privilege s)\<rparr>)\<lparr>cs_audit := a\<rparr>))"
  proof (rule run)
    fix nx ev m assume "?p = Inr (nx, ev, m)"
    then obtain prior where p: "List.find (\<lambda>m. jget m ''id'' = k) (rows_of (cs_privilege s) m) = Some prior"
      "nx = nextMarker prior opts"
      "isAllowed ALLOWED_PRIVILEGE_MARKER_EDGES (js_String (jget prior ''status'')) (pt_to opts) Lawyer"
      "pt_to opts = ''confirmed'' \<Longrightarrow> \<forall>other\<in>set (rows_of (cs_privilege s) m). \<not> rivalMarker prior other"
      "emitEvent (audit_lib L) (log_get (cs_audit s) m) (updatedEvent L ci
         (if pt_to opts = ''confirmed'' then ''PRIVILEGE_MARKER_CONFIRMED''
          else if pt_to opts = ''dismissed'' then ''PRIVILEGE_MARKER_DISMISSED'' else ''PRIVILEGE_MARKER_WAIVED'')
         m (pt_actor_user_id opts) (JStr (entityStateHash (audit_lib L) prior)) nx
         (if pt_to opts = ''dismissed'' \<or> pt_to opts = ''waived'' then pt_reason opts else JUndef)) = Inr ev"
      by (rule prepareTransitionPrivilegeMarker_Inr) blast
    have row: "prior \<in> set (rows_of (cs_privilege s) m)" "jget prior ''id'' = k" using find_Some_iff_split [OF p(1)] by simp_all
    have matter: "jget prior ''matter_id'' = m" by (rule row_table_okD(1) [OF ok row(1)])
    obtain kvs where o: "prior = JObj kvs" by (rule allowed_object [where k = E_privilege, unfolded edges_of.simps, OF p(3)])
    have st: "jget nx ''status'' = JStr (pt_to opts)" by (simp add: p(2) o nextMarker_status)
    have same: "jget nx ''id'' = k" "jget nx ''matter_id'' = m" "jget nx ''tenant_id'' = jget prior ''tenant_id''"
      "jget nx ''target_type'' = jget prior ''target_type''" "jget nx ''target_id'' = jget prior ''target_id''"
      "jget nx ''kind'' = jget prior ''kind''"
      using row matter by (simp_all add: p(2) nextMarker_other)
    have "moves L ci E_privilege m (log_get (cs_audit s) m) prior nx ev"
      by (rule movesI [OF _ same(3) p(5), where to = "pt_to opts" and rr = "pt_to opts \<noteq> ''confirmed''" and
            act = "if pt_to opts = ''waived'' then ''privilege-waive'' else ''update''"])
         (use marker_edge [OF p(3)] same(1) row(2) p(3) st in \<open>auto simp: audit_simps split: if_splits\<close>)
    moreover have "one_confirmed (putRow m k nx (cs_privilege s))"
      by (rule one_confirmed_put [OF tok row same(4-6)]) (use p(4) st in \<open>simp add: has_status_def\<close>)
    moreover have "indexed_table_ok (putRow m k nx (cs_privilege s))" by (rule putRow_indexed_ok [OF tok(1) row same(1,2)])
    ultimately show "\<exists>prior\<in>set (rows_of (cs_privilege s) m). moves L ci E_privilege m (log_get (cs_audit s) m) prior nx ev \<and>
        (indexed_table_ok (putRow m k nx (cs_privilege s)) \<and> one_confirmed (putRow m k nx (cs_privilege s))) \<and>
        (\<forall>k'. rows_of (putRow m k nx (cs_privilege s)) k' =
           (if k' = m then replaceRow (jget prior ''id'') nx (rows_of (cs_privilege s) m) else rows_of (cs_privilege s) k'))"
      using row by auto
  qed simp
  moreover have "\<exists>prior. prior \<in> set (rows_of (cs_privilege s) m) \<and> jget prior ''id'' = k \<and> nx = nextMarker prior opts \<and>
      isAllowed ALLOWED_PRIVILEGE_MARKER_EDGES (js_String (jget prior ''status'')) (pt_to opts) Lawyer"
    if "?p = Inr (nx, ev, m)" for nx ev m
    using that by (rule prepareTransitionPrivilegeMarker_Inr) (blast dest: find_Some_iff_split)
  ultimately show ?thesis by (fastforce split: sum.splits)
qed

subsection \<open>Classifications\<close>

lemma classification_meta:
  "map_of CASE_BOX_AUDIT_EVENT_KINDS (selectAuditKind p n) =
     Some \<lparr>km_action = ''create'', km_entity_type = ''confidentiality_classification'', km_reasonRequired = reasonRequired (selectAuditKind p n)\<rparr>"
  by (simp add: selectAuditKind_def reasonRequired_def audit_simps)

lemma prepareAppendClassification_Inr:
  assumes "prepareAppendClassification L ci st documents stored input = Inr (row, ev)"
  shows "row = input \<and> jget row ''id'' \<notin> set (rt_ids st) \<and> jget row ''target_type'' = JStr ''document'' \<and>
    resolveDocumentTarget documents (jget row ''tenant_id'') (jget row ''matter_id'') (jget row ''target_id'') = Inr () \<and>
    assertValidNewConfidentialityClassification row
      (findLatestForTarget st (jget row ''matter_id'') (jget row ''target_type'') (jget row ''target_id'')) = Inr () \<and>
    (\<exists>reason. emitEvent (audit_lib L) stored (createdEvent L ci (selectAuditKind (jget row ''prior_level'') (jget row ''level'')) row reason) = Inr ev)"
  using assms unfolding prepareAppendClassification_def
  by (auto simp: bindR_Inr_iff check_Inr schema_check_Inr Let_def)

lemma appendClassification_run:
  assumes "case_lib_ok L" and "case_inv L s" and "appendClassification L ci input s = (r, s')"
  shows "case_inv L s' \<and> grows s s' \<and> (case r of
      Inl e \<Rightarrow> s' = s
    | Inr row \<Rightarrow> row = input \<and>
        assertValidNewConfidentialityClassification row
          (findLatestForTarget (cs_classification s) (jget row ''matter_id'') (jget row ''target_type'') (jget row ''target_id'')) = Inr () \<and>
        (\<exists>a. s' = s\<lparr>cs_classification := pushRow (jget row ''matter_id'') row (cs_classification s), cs_audit := a\<rparr>))"
proof -
  have tok: "row_table_ok (cs_classification s)" using assms(2) by (simp add: case_inv_def tables_ok_def)
  let ?p = "\<lambda>stored. prepareAppendClassification L ci (cs_classification s) (cs_documents s) stored input"
  have row: "row = input \<and> creates L ci E_classification (rt_ids (cs_classification s)) stored row ev \<and>
      assertValidNewConfidentialityClassification row
        (findLatestForTarget (cs_classification s) (jget row ''matter_id'') (jget row ''target_type'') (jget row ''target_id'')) = Inr () \<and>
      row_table_ok (pushRow (jget row ''matter_id'') row (cs_classification s)) \<and>
      (\<forall>matter. mget (cs_matters s) (jget row ''matter_id'') = Some matter \<longrightarrow> jget row ''tenant_id'' = jget matter ''tenant_id'')"
    if "?p stored = Inr (row, ev)" for stored row ev
  proof -
    note p = prepareAppendClassification_Inr [OF that]
    then have fresh: "jget row ''id'' \<notin> set (rt_ids (cs_classification s))"
      and target: "resolveDocumentTarget (cs_documents s) (jget row ''tenant_id'') (jget row ''matter_id'') (jget row ''target_id'') = Inr ()"
      by blast+
    from p obtain reason where emit: "emitEvent (audit_lib L) stored
      (createdEvent L ci (selectAuditKind (jget row ''prior_level'') (jget row ''level'')) row reason) = Inr ev" by blast
    have "creates L ci E_classification (rt_ids (cs_classification s)) stored row ev"
      by (rule createsI [OF fresh emit]) (simp_all add: classification_meta)
    with p pushRow_ok [OF tok fresh refl] target_tenant [OF assms(2) target] show ?thesis by blast
  qed
  note run = classification_slot.append_body [where push = pushRow, OF assms(1,2) assms(3) [unfolded appendClassification_def]]
  have "case_inv L s' \<and> grows s s' \<and> (case r of Inl e \<Rightarrow> s' = s
      | Inr row \<Rightarrow> (\<exists>stored ev. ?p stored = Inr (row, ev)) \<and>
          (\<exists>a. s' = (s\<lparr>cs_classification := pushRow (jget row ''matter_id'') row (cs_classification s)\<rparr>)\<lparr>cs_audit := a\<rparr>))"
    by (rule run, use row in blast, simp_all)
  with row show ?thesis by (fastforce split: sum.splits)
qed

subsection \<open>OCR links\<close>

lemma storeOcrLink_simps [simp]:
  "mget (linksByDocumentId (storeOcrLink m link st)) d =
     (if d = jget link ''document_id'' then Some link else mget (linksByDocumentId st) d)"
  "mget (linksByMatter (storeOcrLink m link st)) k =
     (if k = m then Some (List.insert (jget link ''document_id'')
        (case mget (linksByMatter st) m of Some ds \<Rightarrow> ds | None \<Rightarrow> [])) else mget (linksByMatter st) k)"
  by (simp_all add: storeOcrLink_def)

lemma links_okD:
  assumes "links_ok st documents" and "mget (linksByDocumentId st) d = Some link" and "mget documents d = Some (doc, m)"
  shows "jget link ''document_id'' = d \<and> (\<exists>ds. mget (linksByMatter st) m = Some ds \<and> d \<in> set ds)"
proof -
  from assms(1,2) obtain doc' m' ds where "jget link ''document_id'' = d" "mget documents d = Some (doc', m')"
    "mget (linksByMatter st) m' = Some ds" "d \<in> set ds" unfolding links_ok_def by blast
  with assms(3) show ?thesis by simp
qed

lemma links_store:
  assumes "links_ok st documents" and "mget documents (jget link ''document_id'') = Some (doc, m)"
  shows "links_ok (storeOcrLink m link st) documents"
proof -
  let ?d = "jget link ''document_id''" and ?st = "storeOcrLink m link st"
  have old: "jget l ''document_id'' = x \<and> (\<exists>doc k ds. mget documents x = Some (doc, k) \<and> mget (linksByMatter st) k = Some ds \<and> x \<in> set ds)"
    if "mget (linksByDocumentId st) x = Some l" for x l
    using assms(1) that unfolding links_ok_def by blast
  have sets: "\<exists>doc. mget documents x = Some (doc, k)" if "mget (linksByMatter st) k = Some ds" "x \<in> set ds" for k ds x
    using assms(1) that unfolding links_ok_def by blast
  show ?thesis
    unfolding links_ok_def
  proof (intro conjI allI impI)
    fix x l assume l: "mget (linksByDocumentId ?st) x = Some l"
    then show "jget l ''document_id'' = x" using old [of x l] by (cases "x = ?d") auto
    show "\<exists>doc k ds. mget documents x = Some (doc, k) \<and> mget (linksByMatter ?st) k = Some ds \<and> x \<in> set ds"
    proof (cases "x = ?d")
      case True
      with assms(2) show ?thesis by simp
    next
      case False
      with l old [of x l] obtain doc' k ds where x: "mget documents x = Some (doc', k)" "mget (linksByMatter st) k = Some ds" "x \<in> set ds"
        by auto
      then show ?thesis by (cases "k = m") auto
    qed
  next
    fix k ds x assume x: "mget (linksByMatter ?st) k = Some ds" "x \<in> set ds"
    show "\<exists>doc. mget documents x = Some (doc, k)"
    proof (cases "k = m \<and> x = ?d")
      case True
      with assms(2) show ?thesis by simp
    next
      case False
      with x sets [of k _ x] show ?thesis by (auto split: if_splits option.splits)
    qed
  qed
qed

text \<open>One event on one link, which then stands under its document's matter.\<close>

lemma store_link_run:
  assumes lib: "case_lib_ok L" and inv: "case_inv L s"
    and doc: "mget (cs_documents s) (jget link ''document_id'') = Some (doc, m)" "jget doc ''tenant_id'' = jget link ''tenant_id''"
    and emit: "emitEvent (audit_lib L) (log_get (cs_audit s) m) (\<lambda>prevHash.
      (updatedEvent L ci ekind m actor before link JUndef prevHash)\<lparr>be_entity_id := jget link ''document_id''\<rparr>) = Inr ev"
    and meta: "map_of CASE_BOX_AUDIT_EVENT_KINDS ekind =
      Some \<lparr>km_action = act, km_entity_type = ''ocr_link'', km_reasonRequired = rr\<rparr>" "ekind \<noteq> ''FACT_REPLACEMENT_ACCEPTED''"
    and before: "before = (case mget (linksByDocumentId (cs_ocrLink s)) (jget link ''document_id'') of
        None \<Rightarrow> JNull | Some p \<Rightarrow> JStr (entityStateHash (audit_lib L) p))" "act = ''create'' \<Longrightarrow> before = JNull"
  shows "\<exists>a. commitEvent L m ev x (s\<lparr>cs_ocrLink := storeOcrLink m link (cs_ocrLink s)\<rparr>) =
      (Inr x, s\<lparr>cs_ocrLink := storeOcrLink m link (cs_ocrLink s), cs_audit := a\<rparr>) \<and>
    case_inv L (s\<lparr>cs_ocrLink := storeOcrLink m link (cs_ocrLink s), cs_audit := a\<rparr>) \<and>
    grows s (s\<lparr>cs_ocrLink := storeOcrLink m link (cs_ocrLink s), cs_audit := a\<rparr>)"
proof -
  let ?d = "jget link ''document_id''" and ?L = "audit_lib L" and ?log = "log_get (cs_audit s) m"
  let ?s1 = "s\<lparr>cs_ocrLink := storeOcrLink m link (cs_ocrLink s)\<rparr>"
  from inv have trails: "trails_ok L s" and tok: "tables_ok s" by (simp_all add: case_inv_def)
  from tok have links: "links_ok (cs_ocrLink s) (cs_documents s)" by (simp add: tables_ok_def)
  from doc(1) have "doc \<in> stored_rows s E_document m" by auto
  from tracked_row [OF trails this] obtain matter where "mget (cs_matters s) m = Some matter"
    "jget doc ''tenant_id'' = jget matter ''tenant_id''" .
  then have m: "mget (cs_matters s) m = Some matter" "jget link ''tenant_id'' = jget matter ''tenant_id''" using doc(2) by simp_all
  let ?meta = "\<lparr>km_action = act, km_entity_type = ''ocr_link'', km_reasonRequired = rr\<rparr>"
  let ?mk = "\<lambda>prevHash. (updatedEvent L ci ekind m actor before link JUndef prevHash)\<lparr>be_entity_id := ?d\<rparr>"
  have "before \<noteq> JUndef" unfolding before(1) by (simp split: option.split)
  then have good: "good_input ?L m (jget matter ''tenant_id'') ?meta ?mk"
    using meta(1) before(2) m(2) by (auto simp: good_input_def event_input_simps)
  have "hash_ok ?L" using lib by (simp add: case_lib_ok_def)
  from emit_next_event [OF this emit good] obtain prev where e: "priorHeadOf ?L ?log = Inr prev"
    "sa_event ev = auditCandidate ?meta (?mk prev)" "sa_sequence ev = length ?log + 1"
    "next_event ?L m (jget matter ''tenant_id'') prev (sa_event ev)" .
  let ?es = "entity_events (entity_name E_ocr_link) (key_of E_ocr_link link) ?log"
  have es: "linked_states JNull ?es \<and> last_state JNull ?es = before"
  proof (cases "mget (linksByDocumentId (cs_ocrLink s)) ?d")
    case None
    then have "?es = []"
      using trails unknown_no_entity_events [of L s ?d E_ocr_link m] by (simp add: trails_ok_def key_of_def)
    then show ?thesis using before(1) None by simp
  next
    case (Some p)
    from links_okD [OF links this doc(1)] obtain ds where "mget (linksByMatter (cs_ocrLink s)) m = Some ds" "?d \<in> set ds"
      and p: "jget p ''document_id'' = ?d" by blast
    with Some have "p \<in> stored_rows s E_ocr_link m" by auto
    from tracked_row [OF trails this] have "record_trail ?L ''ocr_link'' ?d p ?log" using p by (auto simp: key_of_def)
    then show ?thesis using before(1) Some by (simp add: record_trail_def key_of_def)
  qed
  have frame: "k \<noteq> E_ocr_link \<Longrightarrow> stored_rows ?s1 k m' = stored_rows s k m'" "k \<noteq> E_ocr_link \<Longrightarrow> known_ids ?s1 k = known_ids s k" for k m'
    by (cases k; simp)+
  have "\<exists>a. commitEvent L m ev x ?s1 = (Inr x, ?s1\<lparr>cs_audit := a\<rparr>) \<and> trails_ok L (?s1\<lparr>cs_audit := a\<rparr>) \<and>
      grows s (?s1\<lparr>cs_audit := a\<rparr>) \<and> (\<forall>k. log_get a k = (if k = m then ?log @ [ev] else log_get (cs_audit s) k))"
  proof (rule write_run [where k = E_ocr_link and row = link, OF lib trails m(1,2) e(1,4,3) _ _ _ refl _ _ _ _ _ frame])
    show "starts_from (last_state JNull ?es) (sa_event ev)"
      using es meta(2) by (simp add: starts_from_def e(2) audit_simps event_input_simps)
    show "stored_rows ?s1 E_ocr_link m' \<subseteq> stored_rows s E_ocr_link m'" if "m' \<noteq> m" for m'
    proof -
      have "?d \<notin> set ds" if "mget (linksByMatter (cs_ocrLink s)) m' = Some ds" for ds
      proof
        assume "?d \<in> set ds"
        with links that have "\<exists>doc. mget (cs_documents s) ?d = Some (doc, m')" unfolding links_ok_def by blast
        with doc(1) \<open>m' \<noteq> m\<close> show False by simp
      qed
      with that show ?thesis by (auto split: if_splits)
    qed
    show "stored_rows ?s1 E_ocr_link m \<subseteq> insert link (stored_rows s E_ocr_link m - {r. key_of E_ocr_link r = key_of E_ocr_link link})"
    proof -
      have "mget (linksByDocumentId (cs_ocrLink s)) d = Some l \<Longrightarrow> jget l ''document_id'' = d" for d l
        using links unfolding links_ok_def by blast
      then show ?thesis
        by (cases "mget (linksByMatter (cs_ocrLink s)) m") (auto simp: key_of_def split: if_splits)
    qed
    show "known_ids ?s1 E_ocr_link = insert (key_of E_ocr_link link) (known_ids s E_ocr_link)" by (auto simp: key_of_def)
  qed (use es in \<open>simp_all add: e(2) audit_simps event_input_simps key_of_def lifecycle_ok_def\<close>)
  moreover have "tables_ok ?s1" using tok links_store [OF links doc(1)] by (simp add: tables_ok_def)
  ultimately show ?thesis by (auto simp: case_inv_def)
qed

lemma upsertOcrLink_run:
  assumes "case_lib_ok L" and "case_inv L s" and "upsertOcrLink L ci input s = (r, s')"
  shows "case_inv L s' \<and> grows s s' \<and> (case r of
      Inl e \<Rightarrow> s' = s
    | Inr (link, created) \<Rightarrow> mget (linksByDocumentId (cs_ocrLink s')) (jget input ''document_id'') = Some link \<and>
        created = (mget (linksByDocumentId (cs_ocrLink s)) (jget input ''document_id'') = None) \<and>
        deepEqualLink link input \<and>
        ((\<exists>p. mget (linksByDocumentId (cs_ocrLink s)) (jget input ''document_id'') = Some p \<and> deepEqualLink p input) \<longrightarrow> s' = s))"
proof (cases "prepareUpsertOcrLink L ci (cs_ocrLink s) (cs_matters s) (cs_documents s) (cs_audit s) input")
  case (Inl e)
  with assms(2,3) show ?thesis by (auto simp: upsertOcrLink_def)
next
  case (Inr p)
  let ?d = "jget input ''document_id''" and ?L = "audit_lib L"
  from Inr obtain doc m where doc: "mget (cs_documents s) ?d = Some (doc, m)" "jget doc ''tenant_id'' = jget input ''tenant_id''"
    by (auto simp: prepareUpsertOcrLink_def result_simps split: option.splits)
  show ?thesis
  proof (cases "pu_audit p")
    case None
    with Inr doc obtain q where "mget (linksByDocumentId (cs_ocrLink s)) ?d = Some q" "deepEqualLink q input" "pu_link p = q"
      by (auto simp: prepareUpsertOcrLink_def result_simps Let_def split: option.splits if_splits)
    with assms(2,3) Inr None show ?thesis by (auto simp: upsertOcrLink_def)
  next
    case (Some ev)
    let ?prior = "mget (linksByDocumentId (cs_ocrLink s)) ?d"
    let ?ekind = "case ?prior of None \<Rightarrow> ''OCR_LINK_SNAPSHOTTED'' | Some _ \<Rightarrow> ''OCR_LINK_REFRESHED''"
    let ?before = "case ?prior of None \<Rightarrow> JNull | Some q \<Rightarrow> JStr (entityStateHash ?L q)"
    from Inr doc Some have p: "pu_link p = input" "pu_matterId p = m" "pu_created p = (?prior = None)"
      "\<forall>q. ?prior = Some q \<longrightarrow> \<not> deepEqualLink q input"
      "emitEvent ?L (log_get (cs_audit s) m) (\<lambda>prevHash.
         (updatedEvent L ci ?ekind m (jget input ''actor_user_id'') ?before input JUndef prevHash)\<lparr>be_entity_id := ?d\<rparr>) = Inr ev"
      by (auto simp: prepareUpsertOcrLink_def result_simps Let_def split: option.splits if_splits)
    have "\<exists>a. commitEvent L m ev (input, pu_created p) (s\<lparr>cs_ocrLink := storeOcrLink m input (cs_ocrLink s)\<rparr>) =
        (Inr (input, pu_created p), s\<lparr>cs_ocrLink := storeOcrLink m input (cs_ocrLink s), cs_audit := a\<rparr>) \<and>
      case_inv L (s\<lparr>cs_ocrLink := storeOcrLink m input (cs_ocrLink s), cs_audit := a\<rparr>) \<and>
      grows s (s\<lparr>cs_ocrLink := storeOcrLink m input (cs_ocrLink s), cs_audit := a\<rparr>)"
      by (rule store_link_run [where act = "case ?prior of None \<Rightarrow> ''create'' | Some _ \<Rightarrow> ''update''" and rr = False,
            OF assms(1,2) doc p(5)])
         (auto simp: audit_simps split: option.splits)
    then show ?thesis
      using assms(3) Inr Some p by (auto simp: upsertOcrLink_def deepEqualLink_def)
  qed
qed

end
