(* ===== verification/CaseBoxHistory.thy ===== *)
theory CaseBoxHistory
  imports CaseBoxConfirmWrites CaseBoxMarkerWrites
begin

text \<open>
  Histories of the case-box store: every write keeps the invariant, so it holds in every state reached from
  the empty store; the audit reads in such a state.
\<close>

lemma empty_rows: "stored_rows newCaseBoxPersistence k m = {}"
  by (cases k) (auto simp: newCaseBoxPersistence_def createClaimTrackState_def createOcrLinkState_def)

lemma empty_logs: "log_get (cs_audit newCaseBoxPersistence) m = []"
  by (simp add: newCaseBoxPersistence_def log_get_def emptyAuditLog_def)

lemma case_inv_new: "case_inv L newCaseBoxPersistence"
proof -
  have "tables_ok newCaseBoxPersistence"
    by (simp add: tables_ok_def newCaseBoxPersistence_def createClaimTrackState_def createOcrLinkState_def documents_ok_def
        replacements_ok_def supersession_ok_def supersedes_rel_def acyclic_def docket_backed_def one_confirmed_def links_ok_def
        emptyEntityTable_def emptyIndexedTable_def rows_of_def row_table_ok_def indexed_table_ok_def entity_table_ok_def
        emptyRowTable_def)
  then show ?thesis
    by (simp add: case_inv_def trails_ok_def records_ok_def empty_rows empty_logs)
       (simp add: matters_ok_def newCaseBoxPersistence_def)
qed

lemma case_step_inv:
  assumes "case_step L s s'" and "case_lib_ok L" and "case_inv L s"
  shows "case_inv L s' \<and> grows s s'"
  using assms
proof cases
  case (case_archive ci m opts r)
  then show ?thesis
    using matterTransition_run [OF assms(2,3), of "''MATTER_ARCHIVED''" ci m opts] by (auto simp: archiveMatter_def)
next
  case (case_unarchive ci m opts r)
  then show ?thesis
    using matterTransition_run [OF assms(2,3), of "''MATTER_UNARCHIVED''" ci m opts] by (auto simp: unarchiveMatter_def)
next
  case (case_party_ids ci m actor r)
  then show ?thesis using ensureMatterPartyIds_run [OF assms(3)] assms(3) by fastforce
next
  case (case_fact_once ci input r)
  from case_fact_once(1) show ?thesis
    by (rule appendFactOnce_cases) (use assms appendFact_run in auto)
next
  case (case_create ci input r)
  from createMatter_run [OF assms(2) case_create(1) assms(3) case_create(2)] show ?thesis by blast
next
  case (case_details ci m uopts r)
  from updateMatterDetails_run [OF assms(2,3) case_details] show ?thesis by blast
next
  case (case_document ci m input r)
  from registerDocument_run [OF assms(2,3) case_document] show ?thesis by blast
next
  case (case_claim_track ci input r)
  from createClaimTrack_run [OF assms(2,3) case_claim_track] show ?thesis by blast
next
  case (case_evidence ci input r)
  from appendEvidenceItem_run [OF assms(2,3) case_evidence] show ?thesis by blast
next
  case (case_evidence_transition ci k eopts r)
  from transitionEvidenceItem_run [OF assms(2,3) case_evidence_transition] show ?thesis by blast
next
  case (case_fact ci input r)
  from appendFact_run [OF assms(2,3) case_fact] show ?thesis by blast
next
  case (case_fact_transition ci k fopts r)
  from transitionFact_run [OF assms(2,3) case_fact_transition] show ?thesis by blast
next
  case (case_deadline_transition ci k dopts r)
  from transitionDeadline_run [OF assms(2,3) case_deadline_transition] show ?thesis by blast
next
  case (case_docket ci input r)
  from appendDocketEntry_run [OF assms(2,3) case_docket] show ?thesis by blast
next
  case (case_docket_confirm ci k copts cr)
  from confirmDocketEntry_run [OF assms(2,3) case_docket_confirm] show ?thesis by blast
next
  case (case_docket_dismiss ci k diopts r)
  from dismissDocketEntry_run [OF assms(2,3) case_docket_dismiss] show ?thesis by blast
next
  case (case_docket_edit ci edopts r)
  from editDocketEntry_run [OF assms(2,3) case_docket_edit] show ?thesis by blast
next
  case (case_privilege ci input r)
  from appendPrivilegeMarker_run [OF assms(2,3) case_privilege] show ?thesis by blast
next
  case (case_privilege_transition ci k popts r)
  from transitionPrivilegeMarker_run [OF assms(2,3) case_privilege_transition] show ?thesis by blast
next
  case (case_classification ci input r)
  from appendClassification_run [OF assms(2,3) case_classification] show ?thesis by blast
next
  case (case_ocr_link ci input lr)
  from upsertOcrLink_run [OF assms(2,3) case_ocr_link] show ?thesis by blast
qed

lemma case_history_inv:
  assumes "(case_step L)\<^sup>*\<^sup>* s s'" and "case_lib_ok L" and "case_inv L s"
  shows "case_inv L s' \<and> grows s s'"
  using assms(1)
proof (induction rule: rtranclp_induct)
  case base
  with assms(3) show ?case by simp
next
  case (step s' s'')
  then show ?case using case_step_inv [OF step(2) assms(2)] grows_trans by blast
qed

text \<open>A state reached from the empty store.\<close>

definition case_reachable :: "CaseBoxLib \<Rightarrow> CaseBoxState \<Rightarrow> bool" where
  "case_reachable L s \<longleftrightarrow> (case_step L)\<^sup>*\<^sup>* newCaseBoxPersistence s"

lemma case_reachable_inv: "case_lib_ok L \<Longrightarrow> case_reachable L s \<Longrightarrow> case_inv L s"
  using case_history_inv [OF _ _ case_inv_new] by (auto simp: case_reachable_def)

text \<open>The audit reads in a state of the invariant.\<close>

lemma audit_reads:
  assumes "case_inv L s" and "mget (cs_matters s) m = Some matter"
  obtains h where "verifyAuditChainForMatter L m s = Inr (ChainVerifyOk (length (log_get (cs_audit s) m)) (Some h))"
    "getAuditChainHead L m s = Inr \<lparr>hd_headHash = h,
       hd_lastEventId = jget (sa_event (last (log_get (cs_audit s) m))) ''id'', hd_count = length (log_get (cs_audit s) m)\<rparr>"
proof -
  let ?log = "log_get (cs_audit s) m" and ?L = "audit_lib L"
  from assms have c: "chain_inv ?L m (jget matter ''tenant_id'') ?log (log_anchor (cs_audit s) m)"
    by (auto simp: case_inv_def trails_ok_def matters_ok_def)
  from chain_inv_head [OF c] obtain h where h: "priorHeadOf ?L ?log = Inr (Some h)"
    "log_anchor (cs_audit s) m = Some \<lparr>ah_headHash = h, ah_count = length ?log\<rparr>"
    "verifyAuditChain ?L (map sa_event ?log) = Inr (ChainVerifyOk (length ?log) (Some h))" .
  have ne: "?log \<noteq> []" "genesis_event (sa_event (hd ?log))" using c by (auto simp: chain_inv_def)
  then obtain ev rest where log: "?log = ev # rest" by (cases ?log) auto
  have "verifyAuditChainForMatter L m s = Inr (ChainVerifyOk (length ?log) (Some h))"
    using assms(2) ne(2) h(2,3) log
    by (simp add: verifyAuditChainForMatter_def verifyAuditChainForMatterHelper_def genesis_event_def or_default_def Let_def)
  moreover have "eventHashFn ?L (sa_event (last ?log)) = Inr h"
    using h(1) ne(1) by (simp add: priorHeadOf_def result_simps)
  ultimately show thesis
    using that assms(2) ne(1)
    by (simp add: getAuditChainHead_def getAuditChainHeadHelper_def assertAuditChainNotErased_def Let_def)
qed

end
