(* ===== verification/CaseExamples.thy ===== *)
theory CaseExamples
  imports CaseBoxHistory
begin

text \<open>A concrete contract package, matter, document and store, at which the properties are applied.\<close>

definition exSha :: "string \<Rightarrow> string" where
  "exSha s = replicate 64 (if even (length s) then CHR ''a'' else CHR ''b'')"

definition exCaseLib :: CaseBoxLib where
  "exCaseLib = \<lparr>al_sha256 = exSha,
     al_validateAuditEvent = (\<lambda>e. if event_shape e then None else Some ''/ bad event''),
     cl_validateMatter = (\<lambda>v. if list_all (\<lambda>p. case p of JObj _ \<Rightarrow> True | _ \<Rightarrow> False) (jelems (jget v ''parties''))
                              then None else Some ''/ bad matter''),
     cl_validateDocument = (\<lambda>v. None), cl_validateClaimTrack = (\<lambda>v. None),
     cl_validateEvidenceItem = (\<lambda>v. if jget v ''status'' = JUndef then Some ''/ bad evidence'' else None), cl_validateFact = (\<lambda>v. None), cl_validateDeadline = (\<lambda>v. None),
     cl_validateDocketEntry = (\<lambda>v. None), cl_validatePrivilegeMarker = (\<lambda>v. None),
     cl_validateClassification = (\<lambda>v. None), cl_validateOcrLink = (\<lambda>v. None), cl_trim = id,
     cl_dateParse = (\<lambda>s. if s = [] then None else Some (int (length s))), cl_timezone = (\<lambda>z. z \<noteq> [])\<rparr>"

lemma exCaseLib_ok: "case_lib_ok exCaseLib"
proof -
  have "hash_ok (audit_lib exCaseLib)"
    by (simp add: hash_ok_def SHA256_HEX_RE_def exCaseLib_def exSha_def AuditLib.defs)
  moreover have "audit_schema_ok (audit_lib exCaseLib)"
    by (simp add: audit_schema_ok_def exCaseLib_def AuditLib.defs)
  ultimately show ?thesis
    by (auto simp: case_lib_ok_def exCaseLib_def list_all_iff AuditLib.defs split: if_splits jval.splits)
qed

definition exInputsCase :: "string \<Rightarrow> CallInputs" where
  "exInputsCase x = \<lparr>ci_id = (\<lambda>n. x @ replicate (Suc n) (CHR ''i'')), ci_now = ''2026-01-01T00:00:00.000Z''\<rparr>"

lemma exInputsCase_ok: "ids_ok (exInputsCase x)"
  by (auto simp: ids_ok_def exInputsCase_def image_iff)

definition exMatter :: jval where
  "exMatter = JObj [(''id'', JStr ''m1''), (''tenant_id'', JStr ''t1''), (''actor_user_id'', JStr ''u1''),
     (''name'', JStr ''Case''), (''parties'', JArr [JObj [(''name'', JStr ''A'')], JObj [(''id'', JStr ''p2'')]]),
     (''status'', JStr ''active'')]"

definition exDocument :: jval where
  "exDocument = JObj [(''id'', JStr ''d1''), (''tenant_id'', JStr ''t1''), (''actor_user_id'', JStr ''u1''),
     (''matter_id'', JStr ''m1''), (''status'', JStr ''registered'')]"

definition exCase1 :: CaseBoxState where
  "exCase1 = snd (createMatter exCaseLib (exInputsCase ''a'') exMatter newCaseBoxPersistence)"

definition exCase2 :: CaseBoxState where
  "exCase2 = snd (registerDocument exCaseLib (exInputsCase ''b'') (JStr ''m1'') exDocument exCase1)"

lemma exCase1_reachable: "(case_step exCaseLib)\<^sup>*\<^sup>* newCaseBoxPersistence exCase1"
  unfolding exCase1_def by (rule r_into_rtranclp, rule case_create [OF exInputsCase_ok prod.collapse [symmetric]])

lemma exCase2_step: "case_step exCaseLib exCase1 exCase2"
  unfolding exCase2_def by (rule case_document [OF prod.collapse [symmetric]])

lemma exCase2_reachable: "(case_step exCaseLib)\<^sup>*\<^sup>* newCaseBoxPersistence exCase2"
  using exCase1_reachable exCase2_step by simp

text \<open>The matter is created, its unidentified party under a drawn identity.\<close>

lemmas ex_case_defs = exCaseLib_def exMatter_def exInputsCase_def exDocument_def CaseBoxLib.defs AuditLib.defs
  check_def schema_check_def event_present_def nonempty_string_def emitEvent_def buildCaseBoxAuditEvent_def audit_simps
  event_shape_def required_event_fields_def optional_event_fields_def auditCandidate_def is_str_iff opt_str_def

definition exMatter1 :: jval where
  "exMatter1 = jset exMatter ''parties'' (JArr [JObj [(''name'', JStr ''A''), (''id'', JStr ''ai'')], JObj [(''id'', JStr ''p2'')]])"

lemma exMatter_prepared: "\<exists>ev. prepareCreateMatter exCaseLib (exInputsCase ''a'') [] exMatter = Inr (exMatter1, ev)"
  by (simp add: prepareCreateMatter_def assignMatterPartyIdsInPlace_def drawPartyId.simps [of _ _ 0] exMatter1_def priorHeadOf_def ex_case_defs)

lemma exCase1_matter: "getMatter (JStr ''m1'') exCase1 = Some exMatter1"
proof -
  from exMatter_prepared obtain ev where "prepareCreateMatter exCaseLib (exInputsCase ''a'') [] exMatter = Inr (exMatter1, ev)" ..
  then show ?thesis
    by (simp add: exCase1_def createMatter_def newCaseBoxPersistence_def getMatter_def Let_def exMatter1_def exMatter_def
        split: prod.splits sum.splits)
qed

lemma exCase1_inv: "case_inv exCaseLib exCase1"
  using case_history_inv [OF exCase1_reachable exCaseLib_ok case_inv_new] ..

lemma exCase2_matter: "getMatter (JStr ''m1'') exCase2 = Some exMatter1"
  using registerDocument_run [OF exCaseLib_ok exCase1_inv prod.collapse [symmetric], of "exInputsCase ''b''" "JStr ''m1''" exDocument]
    exCase1_matter
  by (auto simp: exCase2_def getMatter_def split: sum.splits)

lemma exCase1_no_matter: "m \<noteq> JStr ''m1'' \<Longrightarrow> mget (cs_matters exCase1) m = None"
proof -
  from exMatter_prepared obtain ev where "prepareCreateMatter exCaseLib (exInputsCase ''a'') [] exMatter = Inr (exMatter1, ev)" ..
  then show "m \<noteq> JStr ''m1'' \<Longrightarrow> ?thesis"
    by (simp add: exCase1_def createMatter_def newCaseBoxPersistence_def Let_def exMatter1_def exMatter_def
        split: prod.splits sum.splits)
qed

lemma exCase2_no_matter: "m \<noteq> JStr ''m1'' \<Longrightarrow> mget (cs_matters exCase2) m = None"
  using registerDocument_run [OF exCaseLib_ok exCase1_inv prod.collapse [symmetric], of "exInputsCase ''b''" "JStr ''m1''" exDocument]
    exCase1_no_matter by (auto simp: exCase2_def split: sum.splits)

lemma exCase2_document: "getDocument (JStr ''d1'') exCase2 = Some exDocument"
proof -
  from exCase1_inv exCase1_matter have
    c: "chain_inv (audit_lib exCaseLib) (JStr ''m1'') (jget exMatter1 ''tenant_id'')
      (log_get (cs_audit exCase1) (JStr ''m1'')) (log_anchor (cs_audit exCase1) (JStr ''m1''))"
    by (auto simp: case_inv_def trails_ok_def matters_ok_def getMatter_def)
  have m: "mget (cs_matters exCase1) (JStr ''m1'') = Some exMatter1" "jget exMatter1 ''tenant_id'' = JStr ''t1''"
    using exCase1_matter by (simp_all add: getMatter_def exMatter1_def exMatter_def)
  from chain_inv_head [OF c] obtain h
    where h: "priorHeadOf (audit_lib exCaseLib) (log_get (cs_audit exCase1) (JStr ''m1'')) = Inr (Some h)" .
  have docs: "cs_documents exCase1 = []"
    by (simp add: exCase1_def createMatter_def newCaseBoxPersistence_def Let_def split: sum.splits prod.splits)
  have "\<exists>ev. prepareRegisterDocument exCaseLib (exInputsCase ''b'') (JStr ''m1'') exMatter1 []
      (log_get (cs_audit exCase1) (JStr ''m1'')) exDocument = Inr (exDocument, ev)"
    using h m(2) by (simp add: prepareRegisterDocument_def ex_case_defs)
  then obtain ev where "prepareRegisterDocument exCaseLib (exInputsCase ''b'') (JStr ''m1'') exMatter1 []
      (log_get (cs_audit exCase1) (JStr ''m1'')) exDocument = Inr (exDocument, ev)" ..
  with docs m(1) show ?thesis
    by (auto simp: exCase2_def registerDocument_def getDocument_def commitEvent_def exDocument_def split: sum.splits prod.splits)
qed

text \<open>One genesis event in two field orders.\<close>

definition exGenesis :: jval where
  "exGenesis = auditCandidate \<lparr>km_action = ''create'', km_entity_type = ''matter'', km_reasonRequired = False\<rparr>
     \<lparr>be_kind = ''MATTER_REGISTERED'', be_id = ''e1'', be_tenant_id = JStr ''t1'', be_actor_user_id = JStr ''u1'',
      be_matter_id = JStr ''m1'', be_entity_id = JStr ''m1'', be_before_state_hash = JNull,
      be_after_state_hash = ''h1'', be_prev_event_hash = None, be_timestamp = ''2026-01-01T00:00:00.000Z'', be_reason = JUndef\<rparr>"

definition exGenesis' :: jval where
  "exGenesis' = JObj (rev (case exGenesis of JObj kvs \<Rightarrow> kvs | _ \<Rightarrow> []))"

lemma exGenesis'_fields: "jget exGenesis' k = jget exGenesis k"
  by (simp add: exGenesis'_def exGenesis_def auditCandidate_def)

lemma exGenesis_same_input: "canonicalAuditEventHashInput exGenesis' = canonicalAuditEventHashInput exGenesis"
  by (simp only: canonicalAuditEventHashInput_def canonical_v1_def canonical_v2_def exGenesis'_fields)

lemma exGenesis_verifies:
  "\<exists>h. verifyAuditChain (audit_lib exCaseLib) [exGenesis] = Inr (ChainVerifyOk 1 h) \<and>
       verifyAuditChain (audit_lib exCaseLib) [exGenesis'] = Inr (ChainVerifyOk 1 h)"
proof -
  have shape: "event_shape e" if "e \<in> {exGenesis, exGenesis'}" for e
    using that by (auto simp: exGenesis'_def exGenesis_def ex_case_defs)
  have nxt: "next_event (audit_lib exCaseLib) (JStr ''m1'') (JStr ''t1'') None e" if "e \<in> {exGenesis, exGenesis'}" for e
  proof -
    have e: "jget e k = jget exGenesis k" for k using that exGenesis'_fields by auto
    have valid: "al_validateAuditEvent (audit_lib exCaseLib) e = None" if "e \<in> {exGenesis, exGenesis'}" for e
      using shape [OF that] by (simp add: exCaseLib_def AuditLib.defs)
    have "next_event (audit_lib exCaseLib) (JStr ''m1'') (JStr ''t1'') None exGenesis"
      using valid [of exGenesis] by (simp add: next_event_def exGenesis_def kind_inconsistent_def ex_case_defs)
    with valid [OF that] show ?thesis unfolding next_event_def kind_inconsistent_def e by blast
  qed
  have lib: "audit_lib_ok (audit_lib exCaseLib)" using exCaseLib_ok by (simp add: case_lib_ok_def)
  from next_event_hash [OF lib nxt [of exGenesis]] obtain h where h: "eventHashFn (audit_lib exCaseLib) exGenesis = Inr h" by auto
  then have "eventHashFn (audit_lib exCaseLib) exGenesis' = Inr h" by (simp add: eventHashFn_def exGenesis_same_input)
  with h nxt show ?thesis
    using verify_snoc [of "audit_lib exCaseLib" "[]"] by (auto simp: eventOffence_None next_event_def opt_str_def)
qed

text \<open>An edit of the name.\<close>

definition exEdit :: UpdateMatterDetailsOpts where
  "exEdit = \<lparr>ud_patch = JObj [(''name'', JStr ''New'')], ud_actor_user_id = JStr ''u1'', ud_reason = JStr ''typo''\<rparr>"

lemma exCase2_inv: "case_inv exCaseLib exCase2"
  using case_history_inv [OF exCase2_reachable exCaseLib_ok case_inv_new] ..

lemma exEdit_prepared:
  "\<exists>ev. prepareMatterDetailsUpdate exCaseLib (exInputsCase ''c'') exMatter1 exEdit (log_get (cs_audit exCase2) (JStr ''m1''))
     (latestPriorMatterEvent (JStr ''m1'') (log_get (cs_audit exCase2) (JStr ''m1''))) =
   Inr (jset exMatter1 ''name'' (JStr ''New''), ev)"
proof -
  let ?log = "log_get (cs_audit exCase2) (JStr ''m1'')" and ?L = "audit_lib exCaseLib"
  have c: "chain_inv ?L (JStr ''m1'') (jget exMatter1 ''tenant_id'') ?log (log_anchor (cs_audit exCase2) (JStr ''m1''))"
    and t: "matter_trail ?L (JStr ''m1'') exMatter1 ?log"
    using exCase2_inv exCase2_matter by (auto simp: case_inv_def trails_ok_def matters_ok_def getMatter_def)
  from chain_inv_head [OF c] obtain h where h: "priorHeadOf ?L ?log = Inr (Some h)" .
  from matter_trail_latest [OF t] obtain prior where p: "latestPriorMatterEvent (JStr ''m1'') ?log = Some prior"
    "jget (sa_event prior) ''after_state_hash'' = JStr (entityStateHash ?L exMatter1)" by blast
  have ne: "entityStateHash ?L exMatter1 \<noteq> []"
    using hash_nonempty [of ?L exMatter1] exCaseLib_ok by (simp add: case_lib_ok_def nonempty_string_def)
  have hash: "entityStateHash ?L x = exSha (canonicalEntityHashInput x)" for x
    by (simp add: entityStateHash_def exCaseLib_def AuditLib.defs)
  show ?thesis
    using h p ne unfolding exMatter1_def hash
    by (simp add: prepareMatterDetailsUpdate_def exEdit_def EDITABLE_MATTER_DETAIL_FIELDS_def foreignKey_def trimmed_nonempty_def
        withChangedFields_def or_default_def entityStateHash_def ex_case_defs)
qed

lemma exEdit_runs: "fst (updateMatterDetails exCaseLib (exInputsCase ''c'') (JStr ''m1'') exEdit exCase2) = Inr (jset exMatter1 ''name'' (JStr ''New''))"
proof -
  let ?run = "updateMatterDetails exCaseLib (exInputsCase ''c'') (JStr ''m1'') exEdit exCase2"
  have m: "mget (cs_matters exCase2) (JStr ''m1'') = Some exMatter1" using exCase2_matter by (simp add: getMatter_def)
  from exEdit_prepared m have new: "mget (cs_matters (snd ?run)) (JStr ''m1'') = Some (jset exMatter1 ''name'' (JStr ''New''))"
    and res: "\<And>x. fst ?run = Inr x \<Longrightarrow> x = jset exMatter1 ''name'' (JStr ''New'')"
    by (auto simp: updateMatterDetails_def commitEvent_def Let_def split: prod.splits sum.splits)
  have "jset exMatter1 ''name'' (JStr ''New'') \<noteq> exMatter1" by (simp add: exMatter1_def exMatter_def)
  with m new have "snd ?run \<noteq> exCase2" by auto
  with updateMatterDetails_run [OF exCaseLib_ok exCase2_inv prod.collapse [symmetric], of "exInputsCase ''c''" "JStr ''m1''" exEdit]
  have "\<exists>x. fst ?run = Inr x" by (auto split: sum.splits)
  with res show ?thesis by auto
qed

end
