(* ===== verification/CaseFactExamples.thy ===== *)
theory CaseFactExamples
  imports CaseExamples
begin

text \<open>Concrete facts, docket entries, markers and classifications of the example case.\<close>

subsection \<open>Steps of a run\<close>

lemma matter_head:
  assumes "case_inv L s" and "mget (cs_matters s) m = Some matter"
  shows "\<exists>h. priorHeadOf (audit_lib L) (log_get (cs_audit s) m) = Inr (Some h)"
proof -
  from assms have "chain_inv (audit_lib L) m (jget matter ''tenant_id'') (log_get (cs_audit s) m) (log_anchor (cs_audit s) m)"
    by (auto simp: case_inv_def trails_ok_def matters_ok_def)
  from chain_inv_head [OF this] show ?thesis by metis
qed

lemma case_reachable_step: "case_reachable L s \<Longrightarrow> case_step L s s' \<Longrightarrow> case_reachable L s'"
  by (simp add: case_reachable_def)

lemma reachable_inv: "case_reachable exCaseLib s \<Longrightarrow> case_inv exCaseLib s"
  by (rule case_reachable_inv [OF exCaseLib_ok])

text \<open>A write that prepared its row ran.\<close>

lemma append_returns:
  assumes "appendBody L label store prepare input s = (r, s')"
    and "jget input ''matter_id'' = JStr m" and "mget (cs_matters s) (JStr m) = Some matter"
    and "prepare (log_get (cs_audit s) (JStr m)) = Inr (row, ev)" and "jget row ''matter_id'' = JStr m"
    and "jget row ''tenant_id'' = jget matter ''tenant_id''" and "\<And>a. (store (JStr m) row s)\<lparr>cs_audit := a\<rparr> \<noteq> s"
    and "\<And>e. r = Inl e \<Longrightarrow> s' = s"
  shows "r = Inr row" "\<exists>a. s' = (store (JStr m) row s)\<lparr>cs_audit := a\<rparr>"
proof -
  have run: "commitEvent L (JStr m) ev row (store (JStr m) row s) = (r, s')"
    using assms(1-6) by (cases label) (simp_all add: appendBody_def Let_def is_str_iff)
  then show st: "\<exists>a. s' = (store (JStr m) row s)\<lparr>cs_audit := a\<rparr>"
    by (auto simp: commitEvent_def split: prod.splits sum.splits)
  with assms(7,8) have "\<exists>x. r = Inr x" by (cases r) metis+
  with run show "r = Inr row" by (auto simp: commitEvent_def split: prod.splits sum.splits)
qed

lemma replace_returns:
  assumes "replaceBody L store (Inr (nx, ev, m)) s = (r, s')" and "\<And>a. (store m nx s)\<lparr>cs_audit := a\<rparr> \<noteq> s"
    and "\<And>e. r = Inl e \<Longrightarrow> s' = s"
  shows "r = Inr nx" "\<exists>a. s' = (store m nx s)\<lparr>cs_audit := a\<rparr>"
proof -
  have run: "commitEvent L m ev nx (store m nx s) = (r, s')" using assms(1) by (simp add: replaceBody_def)
  then show st: "\<exists>a. s' = (store m nx s)\<lparr>cs_audit := a\<rparr>"
    by (auto simp: commitEvent_def split: prod.splits sum.splits)
  with assms(2,3) have "\<exists>x. r = Inr x" by (cases r) metis+
  with run show "r = Inr nx" by (auto simp: commitEvent_def split: prod.splits sum.splits)
qed

text \<open>An input whose scope and entity are strings passes the schema of the example.\<close>

definition plain_input :: "BuildAuditEventInput \<Rightarrow> bool" where
  "plain_input i \<longleftrightarrow> is_str (be_tenant_id i) \<and> is_str (be_actor_user_id i) \<and> is_str (be_matter_id i) \<and> is_str (be_entity_id i) \<and>
     (be_before_state_hash i = JNull \<or> is_str (be_before_state_hash i)) \<and>
     (case map_of CASE_BOX_AUDIT_EVENT_KINDS (be_kind i) of None \<Rightarrow> False
      | Some meta \<Rightarrow> if km_reasonRequired meta then nonempty_string (be_reason i) else be_reason i = JUndef \<or> is_str (be_reason i))"

lemma ex_emit:
  assumes "priorHeadOf (audit_lib exCaseLib) stored = Inr p" and "plain_input (mk p)"
  shows "\<exists>ev. emitEvent (audit_lib exCaseLib) stored mk = Inr ev"
proof -
  from assms(2) obtain meta where m: "map_of CASE_BOX_AUDIT_EVENT_KINDS (be_kind (mk p)) = Some meta"
    "km_reasonRequired meta \<Longrightarrow> nonempty_string (be_reason (mk p))" "be_reason (mk p) = JUndef \<or> is_str (be_reason (mk p))"
    by (auto simp: plain_input_def is_str_iff nonempty_string_iff split: option.splits if_splits)
  with assms(2) have "event_shape (auditCandidate meta (mk p))"
    by (auto simp: plain_input_def event_shape_def required_event_fields_def optional_event_fields_def auditCandidate_def is_str_iff
        opt_str_def split: option.splits)
  then have "al_validateAuditEvent (audit_lib exCaseLib) (auditCandidate meta (mk p)) = None"
    by (simp add: exCaseLib_def AuditLib.defs)
  with assms(1) m show ?thesis by (simp add: emitEvent_def buildCaseBoxAuditEvent_def)
qed

lemmas ex_checks = check_def schema_check_def event_present_def nonempty_string_def recheck_def lookupEntity_def

lemma exCaseLib_validators:
  "cl_validateFact exCaseLib v = None" "cl_validateDocketEntry exCaseLib v = None" "cl_validateDeadline exCaseLib v = None"
  "cl_validatePrivilegeMarker exCaseLib v = None" "cl_validateClassification exCaseLib v = None" "cl_trim exCaseLib = id"
  "cl_timezone exCaseLib z = (z \<noteq> [])" "cl_dateParse exCaseLib z = (if z = [] then None else Some (int (length z)))"
  by (simp_all add: exCaseLib_def)

subsection \<open>Facts\<close>

definition exFact :: "string \<Rightarrow> jval" where
  "exFact k = JObj [(''id'', JStr k), (''tenant_id'', JStr ''t1''), (''actor_user_id'', JStr ''u1''), (''matter_id'', JStr ''m1''),
     (''title'', JStr ''Handover''), (''source_type'', JStr ''lawyer_note''), (''source_document_id'', JNull),
     (''status'', JStr ''candidate'')]"

definition exFactTo :: "string \<Rightarrow> jval \<Rightarrow> FactTransitionOpts" where
  "exFactTo to x = \<lparr>ft_to = to, ft_reviewer_actor_user_id = JStr ''u2'', ft_at = JStr ''2026-01-02T00:00:00.000Z'',
     ft_rejection_reason = JUndef, ft_supersedes_fact_id = x\<rparr>"

definition exFacts1 :: CaseBoxState where
  "exFacts1 = snd (appendFact exCaseLib (exInputsCase ''f'') (exFact ''f1'') exCase1)"

definition exFacts2 :: CaseBoxState where
  "exFacts2 = snd (transitionFact exCaseLib (exInputsCase ''g'') (JStr ''f1'') (exFactTo ''reviewed'' JUndef) exFacts1)"

definition exFacts3 :: CaseBoxState where
  "exFacts3 = snd (transitionFact exCaseLib (exInputsCase ''h'') (JStr ''f1'') (exFactTo ''accepted'' JUndef) exFacts2)"

definition exFacts4 :: CaseBoxState where
  "exFacts4 = snd (appendFact exCaseLib (exInputsCase ''i'') (exFact ''f2'') exFacts3)"

lemma exCase1_start: "case_reachable exCaseLib exCase1"
  using exCase1_reachable by (simp add: case_reachable_def)

lemma exFacts_reachable: "case_reachable exCaseLib exFacts1" "case_reachable exCaseLib exFacts2"
  "case_reachable exCaseLib exFacts3" "case_reachable exCaseLib exFacts4"
proof -
  show 1: "case_reachable exCaseLib exFacts1"
    unfolding exFacts1_def by (rule case_reachable_step [OF exCase1_start case_fact [OF prod.collapse [symmetric]]])
  show 2: "case_reachable exCaseLib exFacts2"
    unfolding exFacts2_def by (rule case_reachable_step [OF 1 case_fact_transition [OF prod.collapse [symmetric]]])
  show 3: "case_reachable exCaseLib exFacts3"
    unfolding exFacts3_def by (rule case_reachable_step [OF 2 case_fact_transition [OF prod.collapse [symmetric]]])
  show "case_reachable exCaseLib exFacts4"
    unfolding exFacts4_def by (rule case_reachable_step [OF 3 case_fact [OF prod.collapse [symmetric]]])
qed

lemma exCase1_m: "mget (cs_matters exCase1) (JStr ''m1'') = Some exMatter1" "jget exMatter1 ''tenant_id'' = JStr ''t1''"
  using exCase1_matter by (simp_all add: getMatter_def exMatter1_def exMatter_def)

lemma exCase1_tables: "cs_fact exCase1 = emptyEntityTable" "cs_docket exCase1 = emptyEntityTable" "cs_deadline exCase1 = emptyEntityTable"
  by (simp_all add: exCase1_def createMatter_def newCaseBoxPersistence_def Let_def split: sum.splits prod.splits)

lemma exFact_prepared:
  assumes "case_inv exCaseLib s" and "mget (cs_matters s) (JStr ''m1'') = Some exMatter1" and "JStr k \<notin> set (rt_ids (cs_fact s))"
  shows "\<exists>ev. prepareAppendFact exCaseLib ci (cs_fact s) (cs_documents s) (log_get (cs_audit s) (JStr ''m1'')) (exFact k) = Inr (exFact k, ev)"
proof -
  from matter_head [OF assms(1,2)] obtain h where
    "priorHeadOf (audit_lib exCaseLib) (log_get (cs_audit s) (JStr ''m1'')) = Inr (Some h)" ..
  then obtain ev where "emitEvent (audit_lib exCaseLib) (log_get (cs_audit s) (JStr ''m1''))
      (createdEvent exCaseLib ci ''FACT_PROPOSED'' (exFact k) JUndef) = Inr ev"
    using ex_emit by (fastforce simp: plain_input_def createdEvent_def audit_simps exFact_def is_str_def)
  with assms(3) show ?thesis
    by (simp add: prepareAppendFact_def exFact_def assertValidNewFact_def promotion_fields_def offenders_def or_default_def
        assertFactPromotionInvariants_def exCaseLib_validators ex_checks)
qed

lemma exFact_fields: "jget (exFact k) ''id'' = JStr k" "jget (exFact k) ''matter_id'' = JStr ''m1''"
  "jget (exFact k) ''tenant_id'' = JStr ''t1''" "jget (exFact k) ''status'' = JStr ''candidate''"
  by (simp_all add: exFact_def)

lemma exFact_run:
  assumes "case_inv exCaseLib s" and "mget (cs_matters s) (JStr ''m1'') = Some exMatter1" and "JStr k \<notin> set (rt_ids (cs_fact s))"
    and "appendFact exCaseLib ci (exFact k) s = (r, s')"
  shows "r = Inr (exFact k)"
    "\<exists>a. s' = (s\<lparr>cs_fact := pushEntity (JStr ''m1'') (exFact k) (cs_fact s)\<rparr>)\<lparr>cs_audit := a\<rparr>"
proof -
  from exFact_prepared [OF assms(1-3)] obtain ev where p:
    "prepareAppendFact exCaseLib ci (cs_fact s) (cs_documents s) (log_get (cs_audit s) (JStr ''m1'')) (exFact k) = Inr (exFact k, ev)" ..
  have new: "(s\<lparr>cs_fact := pushEntity (JStr ''m1'') (exFact k) (cs_fact s)\<rparr>)\<lparr>cs_audit := a\<rparr> \<noteq> s" for a
  proof
    assume "(s\<lparr>cs_fact := pushEntity (JStr ''m1'') (exFact k) (cs_fact s)\<rparr>)\<lparr>cs_audit := a\<rparr> = s"
    from arg_cong [OF this, of "\<lambda>s. rt_ids (cs_fact s)"] assms(3) show False by (simp add: exFact_fields List.insert_def)
  qed
  have old: "\<And>e. r = Inl e \<Longrightarrow> s' = s"
    using appendFact_run [OF exCaseLib_ok assms(1,4)] by auto
  note run = append_returns [OF assms(4) [unfolded appendFact_def] exFact_fields(2) assms(2) p exFact_fields(2) _ new old]
  show "r = Inr (exFact k)" by (rule run(1)) (simp_all add: exFact_fields exCase1_m)
  show "\<exists>a. s' = (s\<lparr>cs_fact := pushEntity (JStr ''m1'') (exFact k) (cs_fact s)\<rparr>)\<lparr>cs_audit := a\<rparr>"
    by (rule run(2)) (simp_all add: exFact_fields exCase1_m)
qed

lemma exFacts1_state: "\<exists>a. exFacts1 = (exCase1\<lparr>cs_fact := pushEntity (JStr ''m1'') (exFact ''f1'') emptyEntityTable\<rparr>)\<lparr>cs_audit := a\<rparr>"
  using exFact_run(2) [OF exCase1_inv exCase1_m(1) _ prod.collapse [symmetric], of "''f1''" "exInputsCase ''f''"]
  by (simp add: exFacts1_def exCase1_tables emptyEntityTable_def)

definition exFactAt :: "string \<Rightarrow> string \<Rightarrow> (string \<times> jval) list \<Rightarrow> jval" where
  "exFactAt k st rest = JObj ([(''id'', JStr k), (''tenant_id'', JStr ''t1''), (''actor_user_id'', JStr ''u1''), (''matter_id'', JStr ''m1''),
     (''title'', JStr ''Handover''), (''source_type'', JStr ''lawyer_note''), (''source_document_id'', JNull),
     (''status'', JStr st)] @ rest)"

definition exReview :: "(string \<times> jval) list" where
  "exReview = [(''reviewer_actor_user_id'', JStr ''u2''), (''reviewed_at'', JStr ''2026-01-02T00:00:00.000Z'')]"

lemma exFact_steps:
  "exFact k = exFactAt k ''candidate'' []"
  "nextFact (exFactAt k ''candidate'' []) (exFactTo ''reviewed'' JUndef) = exFactAt k ''reviewed'' exReview"
  "nextFact (exFactAt k ''reviewed'' exReview) (exFactTo ''accepted'' JUndef) =
     exFactAt k ''accepted'' (exReview @ [(''accepted_at'', JStr ''2026-01-02T00:00:00.000Z'')])"
  by (simp_all add: exFact_def exFactAt_def exReview_def nextFact_def exFactTo_def)

lemma exFactAt_fields: "jget (exFactAt k st rest) ''status'' = JStr st" "jget (exFactAt k st rest) ''id'' = JStr k"
  "jget (exFactAt k st rest) ''tenant_id'' = JStr ''t1''" "jget (exFactAt k st rest) ''matter_id'' = JStr ''m1''"
  by (simp_all add: exFactAt_def)

lemma exFact_edges:
  "assertValidFactTransition ''candidate'' ''reviewed'' Lawyer = Inr ()" "assertValidFactTransition ''reviewed'' ''accepted'' Lawyer = Inr ()"
  by code_simp+

lemma exFactTo_prepared:
  assumes "case_inv exCaseLib s" and "mget (cs_matters s) (JStr ''m1'') = Some exMatter1"
    and "mget (rt_index (cs_fact s)) (JStr k) = Some (JStr ''m1'')" and "mget (rt_byId (cs_fact s)) (JStr k) = Some prior"
    and "(to, prior) \<in> {(''reviewed'', exFact k), (''accepted'', nextFact (exFact k) (exFactTo ''reviewed'' JUndef))}" and "k \<noteq> []"
  shows "\<exists>ev. prepareTransitionFact exCaseLib (exInputsCase x) (cs_fact s) (JStr k) (exFactTo to JUndef) (log_get (cs_audit s)) =
    Inr (nextFact prior (exFactTo to JUndef), ev, JStr ''m1'')"
proof -
  from matter_head [OF assms(1,2)] obtain h where
    h: "priorHeadOf (audit_lib exCaseLib) (log_get (cs_audit s) (JStr ''m1'')) = Inr (Some h)" ..
  have opts: "ft_to (exFactTo to JUndef) = to" "ft_reviewer_actor_user_id (exFactTo to JUndef) = JStr ''u2''"
    "ft_at (exFactTo to JUndef) = JStr ''2026-01-02T00:00:00.000Z''" "ft_rejection_reason (exFactTo to JUndef) = JUndef"
    "\<not> isReplacement (exFactTo to JUndef)" for to
    by (simp_all add: exFactTo_def isReplacement_def)
  have promo: "assertFactPromotionInvariants (exFactAt k ''reviewed'' exReview) = Inr ()"
    "assertFactPromotionInvariants (exFactAt k ''accepted'' (exReview @ [(''accepted_at'', JStr ''2026-01-02T00:00:00.000Z'')])) = Inr ()"
    by (simp_all add: assertFactPromotionInvariants_def exFactAt_def exReview_def or_default_def)
  from assms(5) consider "to = ''reviewed''" "prior = exFactAt k ''candidate'' []" | "to = ''accepted''" "prior = exFactAt k ''reviewed'' exReview"
    by (auto simp: exFact_steps)
  then show ?thesis
  proof cases
    case 1
    obtain ev where "emitEvent (audit_lib exCaseLib) (log_get (cs_audit s) (JStr ''m1''))
        (updatedEvent exCaseLib (exInputsCase x) ''FACT_REVIEWED'' (JStr ''m1'') (JStr ''u2'')
           (JStr (entityStateHash (audit_lib exCaseLib) prior)) (nextFact prior (exFactTo to JUndef)) JUndef) = Inr ev"
      using ex_emit [OF h] 1 by (fastforce simp: plain_input_def updatedEvent_def audit_simps exFact_steps exFactAt_fields is_str_def)
    with 1 assms(3,4,6) show ?thesis
      by (simp add: prepareTransitionFact_def opts exFact_steps exFactAt_fields exFact_edges promo exCaseLib_validators ex_checks Let_def)
  next
    case 2
    obtain ev where "emitEvent (audit_lib exCaseLib) (log_get (cs_audit s) (JStr ''m1''))
        (updatedEvent exCaseLib (exInputsCase x) ''FACT_ACCEPTED'' (JStr ''m1'') (JStr ''u2'')
           (JStr (entityStateHash (audit_lib exCaseLib) prior)) (nextFact prior (exFactTo to JUndef)) JUndef) = Inr ev"
      using ex_emit [OF h] 2 by (fastforce simp: plain_input_def updatedEvent_def audit_simps exFact_steps exFactAt_fields is_str_def)
    with 2 assms(3,4,6) show ?thesis
      by (simp add: prepareTransitionFact_def opts exFact_steps exFactAt_fields exFact_edges promo exCaseLib_validators ex_checks Let_def)
  qed
qed

lemma exFactTo_run:
  assumes "case_inv exCaseLib s" and "mget (cs_matters s) (JStr ''m1'') = Some exMatter1"
    and "mget (rt_index (cs_fact s)) (JStr k) = Some (JStr ''m1'')" and "mget (rt_byId (cs_fact s)) (JStr k) = Some prior"
    and "(to, prior) \<in> {(''reviewed'', exFact k), (''accepted'', nextFact (exFact k) (exFactTo ''reviewed'' JUndef))}" and "k \<noteq> []"
    and run: "transitionFact exCaseLib (exInputsCase x) (JStr k) (exFactTo to JUndef) s = (r, s')"
  shows "r = Inr (nextFact prior (exFactTo to JUndef))"
    "\<exists>a. s' = (s\<lparr>cs_fact := putEntity (JStr ''m1'') (JStr k) (nextFact prior (exFactTo to JUndef)) (cs_fact s)\<rparr>)\<lparr>cs_audit := a\<rparr>"
proof -
  let ?nx = "nextFact prior (exFactTo to JUndef)"
  from exFactTo_prepared [OF assms(1-6)] obtain ev where
    p: "prepareTransitionFact exCaseLib (exInputsCase x) (cs_fact s) (JStr k) (exFactTo to JUndef) (log_get (cs_audit s)) =
      Inr (?nx, ev, JStr ''m1'')" ..
  have "jget ?nx ''status'' \<noteq> jget prior ''status''"
    using assms(5) by (auto simp: exFact_steps exFactAt_fields)
  have new: "(s\<lparr>cs_fact := putEntity (JStr ''m1'') (JStr k) ?nx (cs_fact s)\<rparr>)\<lparr>cs_audit := a\<rparr> \<noteq> s" for a
  proof
    assume "(s\<lparr>cs_fact := putEntity (JStr ''m1'') (JStr k) ?nx (cs_fact s)\<rparr>)\<lparr>cs_audit := a\<rparr> = s"
    from arg_cong [OF this, of "\<lambda>s. mget (rt_byId (cs_fact s)) (JStr k)"] assms(4) have "?nx = prior" by simp
    with \<open>jget ?nx ''status'' \<noteq> jget prior ''status''\<close> show False by simp
  qed
  have old: "\<And>e. r = Inl e \<Longrightarrow> s' = s"
    using transitionFact_run [OF exCaseLib_ok assms(1) run] by auto
  note ret = replace_returns [OF run [unfolded transitionFact_def p] new old]
  show "r = Inr ?nx" by (rule ret(1))
  show "\<exists>a. s' = (s\<lparr>cs_fact := putEntity (JStr ''m1'') (JStr k) ?nx (cs_fact s)\<rparr>)\<lparr>cs_audit := a\<rparr>" by (rule ret(2))
qed

definition exFactR :: jval where
  "exFactR = nextFact (exFact ''f1'') (exFactTo ''reviewed'' JUndef)"

definition exFactA :: jval where
  "exFactA = nextFact exFactR (exFactTo ''accepted'' JUndef)"

lemma exFacts1_tables: "mget (cs_matters exFacts1) (JStr ''m1'') = Some exMatter1"
  "mget (rt_index (cs_fact exFacts1)) (JStr ''f1'') = Some (JStr ''m1'')" "mget (rt_byId (cs_fact exFacts1)) (JStr ''f1'') = Some (exFact ''f1'')"
  "rt_ids (cs_fact exFacts1) = [JStr ''f1'']"
proof -
  from exFacts1_state obtain a where
    s: "exFacts1 = (exCase1\<lparr>cs_fact := pushEntity (JStr ''m1'') (exFact ''f1'') emptyEntityTable\<rparr>)\<lparr>cs_audit := a\<rparr>" ..
  show "mget (cs_matters exFacts1) (JStr ''m1'') = Some exMatter1"
    "mget (rt_index (cs_fact exFacts1)) (JStr ''f1'') = Some (JStr ''m1'')" "mget (rt_byId (cs_fact exFacts1)) (JStr ''f1'') = Some (exFact ''f1'')"
    "rt_ids (cs_fact exFacts1) = [JStr ''f1'']"
    by (simp_all add: s exCase1_m exFact_fields emptyEntityTable_def)
qed

lemma exFacts2_tables: "mget (cs_matters exFacts2) (JStr ''m1'') = Some exMatter1"
  "mget (rt_index (cs_fact exFacts2)) (JStr ''f1'') = Some (JStr ''m1'')" "mget (rt_byId (cs_fact exFacts2)) (JStr ''f1'') = Some exFactR"
  "rt_ids (cs_fact exFacts2) = [JStr ''f1'']"
  using exFactTo_run(2) [OF reachable_inv [OF exFacts_reachable(1)] exFacts1_tables(1-3) _ _ prod.collapse [symmetric], of "''reviewed''" "''g''"]
  by (auto simp: exFacts2_def exFacts1_tables exFactR_def)

lemma exFacts3_tables: "mget (cs_matters exFacts3) (JStr ''m1'') = Some exMatter1"
  "mget (rt_index (cs_fact exFacts3)) (JStr ''f1'') = Some (JStr ''m1'')" "mget (rt_byId (cs_fact exFacts3)) (JStr ''f1'') = Some exFactA"
  "rt_ids (cs_fact exFacts3) = [JStr ''f1'']"
  using exFactTo_run(2) [OF reachable_inv [OF exFacts_reachable(2)] exFacts2_tables(1-3) _ _ prod.collapse [symmetric], of "''accepted''" "''h''"]
  by (auto simp: exFacts3_def exFacts2_tables exFactR_def exFactA_def)

lemma exFacts4_tables: "mget (cs_matters exFacts4) (JStr ''m1'') = Some exMatter1"
  "mget (rt_byId (cs_fact exFacts4)) (JStr ''f1'') = Some exFactA" "mget (rt_byId (cs_fact exFacts4)) (JStr ''f2'') = Some (exFact ''f2'')"
  using exFact_run(2) [OF reachable_inv [OF exFacts_reachable(3)] exFacts3_tables(1) _ prod.collapse [symmetric], of "''f2''" "exInputsCase ''i''"]
  by (auto simp: exFacts4_def exFacts3_tables exFact_fields)

lemma exFactA_fields: "jget exFactA ''status'' = JStr ''accepted''" "jget exFactA ''id'' = JStr ''f1''"
  "jget exFactA ''matter_id'' = JStr ''m1''" "jget exFactA ''tenant_id'' = JStr ''t1''"
  by (simp_all add: exFactA_def exFactR_def exFact_steps exFactAt_fields)

end
