(* ===== verification/CaseProperties.thy ===== *)
theory CaseProperties
  imports CaseBoxHistory CaseFactExamples
begin

text \<open>
  What holds of the case box's records in every reachable state: the tables, the audit trail of every record,
  the lifecycles the trail shows, and the facts. Each property is followed by an instance on the example case.
\<close>

subsection \<open>Reads and tables\<close>

lemma scopedGet_Inr:
  "scopedGet byId tenant m k s = Inr (Some row) \<longleftrightarrow>
     (\<exists>matter. mget (cs_matters s) m = Some matter \<and> jget matter ''tenant_id'' = tenant) \<and>
     mget byId k = Some row \<and> jget row ''matter_id'' = m \<and> jget row ''tenant_id'' = tenant"
  by (auto simp: scopedGet_def split: option.splits)

lemmas scoped_reads = getClaimTrack_def getEvidenceItem_def getFact_def getDocketEntry_def getDeadline_def

lemma scoped_table_read:
  assumes "entity_table_ok t"
  shows "scopedGet (rt_byId t) tenant m k s = Inr (Some row) \<longleftrightarrow>
    (\<exists>matter. getMatter m s = Some matter \<and> jget matter ''tenant_id'' = tenant) \<and>
    row \<in> set (rows_of t m) \<and> jget row ''id'' = k \<and> jget row ''tenant_id'' = tenant"
proof -
  have "mget (rt_byId t) k = Some row \<and> jget row ''matter_id'' = m \<longleftrightarrow> row \<in> set (rows_of t m) \<and> jget row ''id'' = k"
    using assms unfolding entity_table_ok_def indexed_table_ok_def row_table_ok_def by metis
  then show ?thesis unfolding scopedGet_Inr getMatter_def by blast
qed

text \<open>C27. The tables of the case box are well formed in every reachable state: ids name one row, rows lie
  under their own matter, index and row map agree with the rows; so a read by id returns a row exactly
  when that row is stored under the queried matter, has the queried id, and both it and the matter have
  the queried tenant.\<close>

theorem tables_are_well_formed:
  assumes "case_lib_ok L" and "case_reachable L s"
    and "(t, read) \<in> {(cs_claimTrack s, getClaimTrack), (cs_evidence s, getEvidenceItem), (cs_fact s, getFact),
      (cs_docket s, getDocketEntry), (cs_deadline s, getDeadline)}"
  shows "entity_table_ok t \<and> (\<forall>tenant m k row. read tenant m k s = Inr (Some row) \<longleftrightarrow>
    (\<exists>matter. getMatter m s = Some matter \<and> jget matter ''tenant_id'' = tenant) \<and>
    row \<in> set (rows_of t m) \<and> jget row ''id'' = k \<and> jget row ''tenant_id'' = tenant)"
proof -
  from case_reachable_inv [OF assms(1,2)] have "tables_ok s" by (simp add: case_inv_def)
  with assms(3) have ok: "entity_table_ok t" by (auto simp: tables_ok_def)
  moreover have "read tenant m k s = scopedGet (rt_byId t) tenant m k s" for tenant m k
    using assms(3) by (auto simp: scoped_reads)
  ultimately show ?thesis by (simp add: scoped_table_read)
qed

theorem tables_are_well_formed_witness:
  "\<exists>row. getFact (JStr ''t1'') (JStr ''m1'') (JStr ''f1'') exFacts3 = Inr (Some row) \<and> row \<in> set (rows_of (cs_fact exFacts3) (JStr ''m1''))"
proof -
  have "(cs_fact exFacts3, getFact) \<in> {(cs_claimTrack exFacts3, getClaimTrack), (cs_evidence exFacts3, getEvidenceItem),
    (cs_fact exFacts3, getFact), (cs_docket exFacts3, getDocketEntry), (cs_deadline exFacts3, getDeadline)}" by simp
  note t = tables_are_well_formed [OF exCaseLib_ok exFacts_reachable(3) this]
  have "getFact (JStr ''t1'') (JStr ''m1'') (JStr ''f1'') exFacts3 = Inr (Some exFactA)"
    using exFacts3_tables exFactA_fields by (simp add: getFact_def scopedGet_Inr exMatter1_def exMatter_def)
  with t show ?thesis by blast
qed

subsection \<open>The audit trail\<close>

fun chained_states :: "jval \<Rightarrow> jval list \<Rightarrow> bool" where
  "chained_states before [] = True"
| "chained_states before (e # es) = (jget e ''before_state_hash'' = before \<and> chained_states (jget e ''after_state_hash'') es)"

definition replaces :: "jval \<Rightarrow> bool" where
  "replaces e \<longleftrightarrow> jget e ''event_kind'' = JStr ''FACT_REPLACEMENT_ACCEPTED''"

lemma linked_chained: "linked_states before es \<Longrightarrow> filter replaces es = [] \<Longrightarrow> chained_states before es"
  by (induction es arbitrary: before) (auto simp: starts_from_def replaces_def split: if_splits)

lemma verified_kinds:
  "verifyAuditChain L xs = Inr (ChainVerifyOk n h) \<Longrightarrow> e \<in> set xs \<Longrightarrow> \<not> kind_inconsistent e"
  by (induction xs arbitrary: n h rule: rev_induct) (auto simp: verify_snoc eventOffence_None)

lemma only_facts_replace:
  assumes "chain_inv L m t stored anchor" and "name \<noteq> ''fact''"
  shows "filter replaces (entity_events name k stored) = []"
proof -
  have "\<not> replaces (sa_event ev)" if "ev \<in> set stored" "is_event_of name k (sa_event ev)" for ev
  proof
    assume r: "replaces (sa_event ev)"
    have "\<not> kind_inconsistent (sa_event ev)"
      using assms(1) that(1) verified_kinds [of L "map sa_event stored" _ _ "sa_event ev"] by (auto simp: chain_inv_def)
    with r have "jget (sa_event ev) ''entity_type'' = JStr ''fact''"
      by (simp add: kind_inconsistent_def replaces_def event_present_def audit_simps)
    with that(2) assms(2) show False by (simp add: is_event_of_def)
  qed
  then show ?thesis by (auto simp: entity_events_def filter_empty_conv)
qed

lemma replacements_accept: "length (filter replaces es) \<le> count_list (statuses es) ''accepted''"
proof (induction es)
  case (Cons e es)
  have "statuses (e # es) = ''accepted'' # statuses es" if "replaces e"
    using that by (simp add: replaces_def audit_simps)
  moreover have "count_list (statuses es) ''accepted'' \<le> count_list (statuses (e # es)) ''accepted''"
    by (simp split: option.splits)
  ultimately show ?case using Cons.IH by auto
qed simp

lemma accepted_once: "status_path ALLOWED_FACT_EDGES ss \<Longrightarrow> count_list ss ''accepted'' \<le> 1"
  by (induction ALLOWED_FACT_EDGES ss rule: status_path.induct) (auto simp: isAllowed_def ALLOWED_FACT_EDGES_def)

text \<open>C16. Every stored record is the one its audit trail speaks of: the matter, and each of the nine kinds of
  record under it, has at least one event in its matter's log, its events end in the hash of the record as
  stored, it has the matter's tenant, and its events chain their state hashes from \<open>null\<close>, each starting from
  the one before it. The one exception to the chain is the code's: a fact's \<open>FACT_REPLACEMENT_ACCEPTED\<close>
  event, of which a fact has at most one, starts from \<open>null\<close> again; no other kind of record has such an event.\<close>

theorem records_match_their_audit_trail:
  assumes "case_lib_ok L" and "case_reachable L s"
  shows "(\<forall>m matter. getMatter m s = Some matter \<longrightarrow> matter_trail (audit_lib L) m matter (log_get (cs_audit s) m) \<and>
      chained_states JNull (entity_events ''matter'' m (log_get (cs_audit s) m))) \<and>
    (\<forall>k m row es. row \<in> stored_rows s k m \<longrightarrow> es = entity_events (entity_name k) (key_of k row) (log_get (cs_audit s) m) \<longrightarrow>
      (\<exists>matter. getMatter m s = Some matter \<and> jget matter ''tenant_id'' = jget row ''tenant_id'') \<and>
      record_trail (audit_lib L) (entity_name k) (key_of k row) row (log_get (cs_audit s) m) \<and>
      (k \<noteq> E_fact \<or> filter replaces es = [] \<longrightarrow> chained_states JNull es) \<and> length (filter replaces es) \<le> 1)"
proof (intro conjI allI impI)
  have inv: "case_inv L s" by (rule case_reachable_inv [OF assms])
  have kinds: "filter replaces (entity_events name k (log_get (cs_audit s) m)) = []"
    if "mget (cs_matters s) m = Some matter" "name \<noteq> ''fact''" for m matter name k
  proof (rule only_facts_replace [OF _ that(2)])
    show "chain_inv (audit_lib L) m (jget matter ''tenant_id'') (log_get (cs_audit s) m) (log_anchor (cs_audit s) m)"
      using inv that(1) by (simp add: case_inv_def trails_ok_def matters_ok_def)
  qed
  show trail: "matter_trail (audit_lib L) m matter (log_get (cs_audit s) m)" if "getMatter m s = Some matter" for m matter
    using inv that by (auto simp: case_inv_def trails_ok_def matters_ok_def getMatter_def)
  show "chained_states JNull (entity_events ''matter'' m (log_get (cs_audit s) m))" if "getMatter m s = Some matter" for m matter
    using trail [OF that] kinds that by (auto simp: record_trail_def getMatter_def intro!: linked_chained)
  fix k m row es assume "row \<in> stored_rows s k m"
    and es: "es = entity_events (entity_name k) (key_of k row) (log_get (cs_audit s) m)"
  from stored_row [OF inv this(1)] obtain matter where m: "mget (cs_matters s) m = Some matter" "jget row ''tenant_id'' = jget matter ''tenant_id''"
    and t: "record_trail (audit_lib L) (entity_name k) (key_of k row) row (log_get (cs_audit s) m)" and l: "lifecycle_ok k row es"
    unfolding es .
  from m t show "\<exists>matter. getMatter m s = Some matter \<and> jget matter ''tenant_id'' = jget row ''tenant_id''"
    "record_trail (audit_lib L) (entity_name k) (key_of k row) row (log_get (cs_audit s) m)" by (simp_all add: getMatter_def)
  have none: "filter replaces es = []" if "k \<noteq> E_fact"
    unfolding es by (rule kinds [OF m(1)]) (use that in \<open>cases k; simp\<close>)
  have linked: "linked_states JNull es" using t by (simp add: record_trail_def es)
  show "chained_states JNull es" if "k \<noteq> E_fact \<or> filter replaces es = []"
    using linked_chained [OF linked] none that by blast
  show "length (filter replaces es) \<le> 1"
  proof (cases "k = E_fact")
    case True
    with l have "count_list (statuses es) ''accepted'' \<le> 1" by (intro accepted_once) (simp add: lifecycle_ok_def)
    with replacements_accept [of es] show ?thesis by linarith
  qed (use none in simp)
qed

lemma exFactA_stored: "exFactA \<in> stored_rows exFacts3 E_fact (JStr ''m1'')"
proof -
  have "entity_table_ok (cs_fact exFacts3)"
    using reachable_inv [OF exFacts_reachable(3)] by (simp add: case_inv_def tables_ok_def)
  from entity_lookup(2) [OF this exFacts3_tables(3)] show ?thesis by (simp add: exFactA_fields)
qed

theorem records_match_their_audit_trail_witness:
  "record_trail (audit_lib exCaseLib) ''fact'' (JStr ''f1'') exFactA (log_get (cs_audit exFacts3) (JStr ''m1''))"
proof -
  from conjunct2 [OF records_match_their_audit_trail [OF exCaseLib_ok exFacts_reachable(3)], rule_format, OF exFactA_stored refl]
  show ?thesis by (simp add: key_of_def exFactA_fields)
qed



subsection \<open>Facts\<close>

lemma fact_read:
  assumes "case_inv L s" and "getFact t m k s = Inr (Some row)"
  shows "row \<in> stored_rows s E_fact m" "key_of E_fact row = k" "mget (rt_byId (cs_fact s)) k = Some row" "jget row ''matter_id'' = m"
proof -
  from assms(2) show r: "mget (rt_byId (cs_fact s)) k = Some row" "jget row ''matter_id'' = m"
    by (auto simp: getFact_def scopedGet_Inr)
  from assms(1) have "entity_table_ok (cs_fact s)" by (simp add: case_inv_def tables_ok_def)
  from entity_lookup(1,2) [OF this r(1)] r(2) show "row \<in> stored_rows s E_fact m" "key_of E_fact row = k"
    by (simp_all add: key_of_def)
qed

lemma accepted_path:
  assumes "status_path ALLOWED_FACT_EDGES ss" and "ss \<noteq> []" and "hd ss = ''candidate''" and "last ss = ''accepted''"
  shows "ss = [''candidate'', ''reviewed'', ''accepted'']"
proof -
  have e: "isAllowed ALLOWED_FACT_EDGES a b Lawyer \<longleftrightarrow>
      (a, b) \<in> {(''candidate'', ''reviewed''), (''candidate'', ''rejected''), (''reviewed'', ''accepted''), (''reviewed'', ''rejected'')}" for a b
    by (auto simp: isAllowed_def ALLOWED_FACT_EDGES_def)
  from assms(2-4) obtain b rest where ss: "ss = ''candidate'' # b # rest" by (cases ss; cases "tl ss") auto
  then have b: "b = ''reviewed'' \<or> b = ''rejected''" and p: "status_path ALLOWED_FACT_EDGES (b # rest)" using assms(1) by (simp_all add: e)
  from assms(4) ss b obtain c rest' where r: "rest = c # rest'" by (cases rest) auto
  then have c: "b = ''reviewed''" "c = ''accepted'' \<or> c = ''rejected''" "status_path ALLOWED_FACT_EDGES (c # rest')" using p b by (auto simp: e)
  have "rest' = []" using c(2,3) by (cases rest') (auto simp: e)
  with ss r c assms(4) show ?thesis by auto
qed

text \<open>C18. No fact is accepted without review: the log of a stored accepted fact announces exactly its proposal,
  its review and its acceptance, in this order.\<close>

theorem accepted_facts_were_reviewed:
  assumes "case_lib_ok L" and "case_reachable L s" and "getFact t m k s = Inr (Some row)" and "jget row ''status'' = JStr ''accepted''"
  shows "statuses (entity_events ''fact'' k (log_get (cs_audit s) m)) = [''candidate'', ''reviewed'', ''accepted'']"
proof -
  have inv: "case_inv L s" by (rule case_reachable_inv [OF assms(1,2)])
  note r = fact_read [OF inv assms(3)]
  from stored_row [OF inv r(1)] have "lifecycle_ok E_fact row (entity_events ''fact'' k (log_get (cs_audit s) m))"
    using r(2) by (metis entity_name.simps(4))
  with assms(4) show ?thesis using accepted_path by (simp add: lifecycle_ok_def)
qed

lemma exFactA_read: "getFact (JStr ''t1'') (JStr ''m1'') (JStr ''f1'') exFacts3 = Inr (Some exFactA)"
  using exFacts3_tables exFactA_fields by (simp add: getFact_def scopedGet_Inr exMatter1_def exMatter_def)

theorem accepted_facts_were_reviewed_witness:
  "statuses (entity_events ''fact'' (JStr ''f1'') (log_get (cs_audit exFacts3) (JStr ''m1''))) = [''candidate'', ''reviewed'', ''accepted'']"
  by (rule accepted_facts_were_reviewed [OF exCaseLib_ok exFacts_reachable(3) exFactA_read exFactA_fields(1)])

lemma edges_join_accepted_facts:
  assumes "entity_table_ok (cs_fact s)" and "supersession_ok (cs_fact s)" and "(k, x) \<in> supersedes_rel (cs_fact s)"
  shows "\<exists>m a b. a \<in> stored_rows s E_fact m \<and> b \<in> stored_rows s E_fact m \<and> jget a ''id'' = k \<and> jget b ''id'' = x \<and>
    jget a ''supersedes_fact_id'' = x \<and> jget a ''status'' = JStr ''accepted'' \<and> jget b ''status'' = JStr ''accepted''"
proof -
  from assms(3) obtain a where a: "mget (rt_byId (cs_fact s)) k = Some a" "x = jget a ''supersedes_fact_id''" "event_present x"
    by (auto simp: supersedes_rel_def)
  then obtain b where b: "mget (rt_byId (cs_fact s)) x = Some b" "jget b ''status'' = JStr ''accepted''"
    "jget b ''matter_id'' = jget a ''matter_id''" "jget a ''status'' = JStr ''accepted''"
    using assms(2) unfolding supersession_ok_def by metis
  show ?thesis
    using entity_lookup(1,2) [OF assms(1) a(1)] entity_lookup(1,2) [OF assms(1) b(1)] a(2) b(2-4)
    by (intro exI [of _ "jget a ''matter_id''"] exI [of _ a] exI [of _ b]) simp
qed

lemma fact_target_readable:
  assumes "case_inv L s" and "getFact t m k s = Inr (Some prior)"
  shows "(\<exists>row. mget (rt_byId (cs_fact s)) x = Some row \<and> jget row ''matter_id'' = m \<and> jget row ''status'' = JStr ''accepted'') \<longleftrightarrow>
    (\<exists>row. getFact t m x s = Inr (Some row) \<and> jget row ''status'' = JStr ''accepted'')"
proof -
  from assms(1) have ok: "entity_table_ok (cs_fact s)" by (simp add: case_inv_def tables_ok_def)
  from assms(2) have t: "\<exists>matter. mget (cs_matters s) m = Some matter \<and> jget matter ''tenant_id'' = t"
    by (simp add: getFact_def scopedGet_Inr)
  have "jget row ''tenant_id'' = t" if "mget (rt_byId (cs_fact s)) x = Some row" "jget row ''matter_id'' = m" for row
  proof -
    from entity_lookup(2) [OF ok that(1)] that(2) have "row \<in> stored_rows s E_fact m" by simp
    from stored_row [OF assms(1) this] t show ?thesis by (metis option.inject)
  qed
  then show ?thesis using t unfolding getFact_def scopedGet_Inr by blast
qed

text \<open>C19. The supersession graph of the facts has no cycle, and each of its edges joins two stored, accepted facts of
  one matter. For a fact that is not yet accepted the walk that guards its acceptance accepts exactly the targets
  that are an accepted fact of the same matter and tenant other than the fact itself, so its errors about cycles
  and overlong chains never occur there. A fact already accepted is never moved again: every transition of it is
  refused and leaves the state as it was (the walk comes before the check of the edge, so for such a fact
  the error may be the one about a cycle).\<close>

theorem supersession_graph_is_acyclic:
  assumes "case_lib_ok L" and "case_reachable L s"
  shows "acyclic (supersedes_rel (cs_fact s)) \<and>
    (\<forall>(k, x)\<in>supersedes_rel (cs_fact s). \<exists>m a b. a \<in> stored_rows s E_fact m \<and> b \<in> stored_rows s E_fact m \<and>
       jget a ''id'' = k \<and> jget b ''id'' = x \<and> jget a ''supersedes_fact_id'' = x \<and>
       jget a ''status'' = JStr ''accepted'' \<and> jget b ''status'' = JStr ''accepted'') \<and>
    (\<forall>t m k prior. getFact t m k s = Inr (Some prior) \<longrightarrow>
       (if jget prior ''status'' = JStr ''accepted''
        then \<forall>ci opts. \<exists>e. transitionFact L ci k opts s = (Inl e, s)
        else \<forall>x. checkSupersedes (cs_fact s) k prior x = Inr () \<longleftrightarrow> nonempty_string x \<and> x \<noteq> k \<and>
          (\<exists>row. getFact t m x s = Inr (Some row) \<and> jget row ''status'' = JStr ''accepted'')))"
proof (intro conjI allI impI)
  have inv: "case_inv L s" by (rule case_reachable_inv [OF assms])
  then have ok: "entity_table_ok (cs_fact s)" "supersession_ok (cs_fact s)" by (simp_all add: case_inv_def tables_ok_def)
  then show "acyclic (supersedes_rel (cs_fact s))" by (simp add: supersession_ok_def)
  show "\<forall>(k, x)\<in>supersedes_rel (cs_fact s). \<exists>m a b. a \<in> stored_rows s E_fact m \<and> b \<in> stored_rows s E_fact m \<and>
       jget a ''id'' = k \<and> jget b ''id'' = x \<and> jget a ''supersedes_fact_id'' = x \<and>
       jget a ''status'' = JStr ''accepted'' \<and> jget b ''status'' = JStr ''accepted''"
    using edges_join_accepted_facts [OF ok] by blast
  fix t m k prior assume read: "getFact t m k s = Inr (Some prior)"
  note r = fact_read [OF inv read]
  have refused: "\<exists>e. transitionFact L ci k opts s = (Inl e, s)" if "jget prior ''status'' = JStr ''accepted''" for ci opts
  proof -
    obtain res s' where run: "transitionFact L ci k opts s = (res, s')" by fastforce
    have "\<not> isAllowed ALLOWED_FACT_EDGES (js_String (jget prior ''status'')) (ft_to opts) Lawyer"
      using fact_edge(2) that by blast
    with transitionFact_run [OF assms(1) inv run] r(3) have "\<forall>nx. res \<noteq> Inr nx" by auto
    with transitionFact_run [OF assms(1) inv run] run show ?thesis by (cases res) simp_all
  qed
  show "if jget prior ''status'' = JStr ''accepted''
        then \<forall>ci opts. \<exists>e. transitionFact L ci k opts s = (Inl e, s)
        else \<forall>x. checkSupersedes (cs_fact s) k prior x = Inr () \<longleftrightarrow> nonempty_string x \<and> x \<noteq> k \<and>
          (\<exists>row. getFact t m x s = Inr (Some row) \<and> jget row ''status'' = JStr ''accepted'')"
    using refused checkSupersedes_iff [OF ok r(3)] r(4) fact_target_readable [OF inv read] by simp
qed

definition exAgain :: FactTransitionOpts where
  "exAgain = \<lparr>ft_to = ''accepted'', ft_reviewer_actor_user_id = JStr ''u2'', ft_at = JStr ''2026-01-09'',
     ft_rejection_reason = JUndef, ft_supersedes_fact_id = JStr ''f2''\<rparr>"

theorem supersession_graph_is_acyclic_witness:
  "checkSupersedes (cs_fact exFacts4) (JStr ''f2'') (exFact ''f2'') (JStr ''f1'') = Inr () \<and>
   (\<exists>e. transitionFact exCaseLib (exInputsCase ''z'') (JStr ''f1'') exAgain exFacts4 = (Inl e, exFacts4))"
proof -
  have reads: "getFact (JStr ''t1'') (JStr ''m1'') (JStr ''f2'') exFacts4 = Inr (Some (exFact ''f2''))"
    "getFact (JStr ''t1'') (JStr ''m1'') (JStr ''f1'') exFacts4 = Inr (Some exFactA)"
    using exFacts4_tables exFactA_fields by (simp_all add: getFact_def scopedGet_Inr exMatter1_def exMatter_def exFact_def)
  have "jget (exFact ''f2'') ''status'' \<noteq> JStr ''accepted''" by (simp add: exFact_def)
  note this' = supersession_graph_is_acyclic [OF exCaseLib_ok exFacts_reachable(4)]
  show ?thesis
    using conjunct2 [OF conjunct2 [OF this'], rule_format, OF reads(1)] conjunct2 [OF conjunct2 [OF this'], rule_format, OF reads(2)]
      reads(2) exFactA_fields(1) \<open>jget (exFact ''f2'') ''status'' \<noteq> JStr ''accepted''\<close>
    by (simp add: nonempty_string_def)
qed

lemma appendFact_again:
  assumes "case_lib_ok L" and "case_inv L s" and "appendFact L ci input s = (Inr row, s')"
  shows "\<exists>msg. appendFact L ci' input s' = (Inl (CaseBoxPersistenceError Duplicate_id msg), s')"
proof -
  from appendFact_run [OF assms] obtain a where r: "row = input"
    "s' = s\<lparr>cs_fact := pushEntity (jget input ''matter_id'') input (cs_fact s), cs_audit := a\<rparr>" by auto
  from assms(3) have "\<exists>stored nx ev. prepareAppendFact L ci (cs_fact s) (cs_documents s) stored input = Inr (nx, ev) \<and>
      mget (cs_matters s) (jget nx ''matter_id'') \<noteq> None"
    by (auto simp: appendFact_def appendBody_def Let_def split: if_splits sum.splits option.splits, blast+)
  then obtain stored nx ev where p: "prepareAppendFact L ci (cs_fact s) (cs_documents s) stored input = Inr (nx, ev)"
    and m: "mget (cs_matters s) (jget input ''matter_id'') \<noteq> None" using prepareAppendFact_Inr by metis
  have "jget input ''status'' = JUndef \<or> jget input ''status'' = JStr ''candidate''" "cl_validateFact L input = None"
    using p by (auto simp: prepareAppendFact_def result_simps)
  moreover have "jget input ''id'' \<in> set (rt_ids (cs_fact s'))" by (simp add: r pushEntity_def pushIndexed_def pushRow_def)
  ultimately have again: "prepareAppendFact L ci' (cs_fact s') docs stored input =
      Inl (CaseBoxPersistenceError Duplicate_id (''fact already exists: '' @ js_String (jget input ''id'')))" for docs stored
    by (simp add: prepareAppendFact_def check_def schema_check_def)
  have "mget (cs_matters s') (jget input ''matter_id'') \<noteq> None" using m by (simp add: r)
  then show ?thesis by (auto simp: appendFact_def appendBody_def Let_def again del: append_Cons)
qed

text \<open>C26. The replay-safe append never stores a second fact for one input: once it has returned a fact for an input,
  the same call with any new clock reading and identifiers changes nothing, the audit log included. It
  returns the same fact exactly when the input has a non-empty id and its canonical text exists (nesting at most 64
  deep); otherwise the replay, though the first call stored the fact, is refused as a duplicate id.\<close>

theorem fact_replay_is_idempotent:
  assumes "case_lib_ok L" and "case_reachable L s" and "appendFactOnce L ci input s = (Inr row, s')"
  shows "if nonempty_string (jget input ''id'') \<and> factCanonicalProjection input \<noteq> None
    then appendFactOnce L ci' input s' = (Inr row, s')
    else \<exists>msg. appendFactOnce L ci' input s' = (Inl (CaseBoxPersistenceError Duplicate_id msg), s')"
proof (cases "appendFact L ci input s = (Inr row, s')")
  case True
  note inv = case_reachable_inv [OF assms(1,2)]
  from appendFact_run [OF assms(1) inv True]
  have "row = input" "mget (rt_byId (cs_fact s')) (jget input ''id'') = Some input" by auto
  with appendFact_again [OF assms(1) inv True, of ci'] show ?thesis by (auto simp: appendFactOnce_def)
next
  case False
  with assms(3) have id: "nonempty_string (jget input ''id'')"
    by (cases "nonempty_string (jget input ''id'')") (simp_all add: appendFactOnce_def)
  with False assms(3) have "s' = s" "mget (rt_byId (cs_fact s)) (jget input ''id'') = Some row"
    "\<not> (is_str (jget input ''tenant_id'') \<and> jget input ''tenant_id'' \<noteq> jget row ''tenant_id'')"
    "factCanonicalProjection row = factCanonicalProjection input" "factCanonicalProjection input \<noteq> None"
    by (auto simp: appendFactOnce_def split: option.splits if_splits)
  with id show ?thesis by (auto simp: appendFactOnce_def)
qed

lemma exFact_projects: "factCanonicalProjection (exFact ''f1'') \<noteq> None"
  by code_simp

theorem fact_replay_is_idempotent_witness:
  "appendFactOnce exCaseLib (exInputsCase ''y'') (exFact ''f1'') exFacts1 = (Inr (exFact ''f1''), exFacts1)"
proof -
  have "fst (appendFact exCaseLib (exInputsCase ''f'') (exFact ''f1'') exCase1) = Inr (exFact ''f1'')"
    using exFact_run(1) [OF exCase1_inv exCase1_m(1) _ prod.collapse [symmetric], of "''f1''" "exInputsCase ''f''"]
    by (simp add: exCase1_tables emptyEntityTable_def)
  then have "appendFact exCaseLib (exInputsCase ''f'') (exFact ''f1'') exCase1 = (Inr (exFact ''f1''), exFacts1)"
    by (simp add: exFacts1_def prod_eq_iff)
  moreover have "mget (rt_byId (cs_fact exCase1)) (jget (exFact ''f1'') ''id'') = None"
    using exCase1_tables by (simp add: emptyEntityTable_def)
  ultimately have "appendFactOnce exCaseLib (exInputsCase ''f'') (exFact ''f1'') exCase1 = (Inr (exFact ''f1''), exFacts1)"
    by (simp add: appendFactOnce_def)
  note replay = fact_replay_is_idempotent [OF exCaseLib_ok exCase1_start this, of "exInputsCase ''y''"]
  have "nonempty_string (jget (exFact ''f1'') ''id'')" by (simp add: exFact_def nonempty_string_def)
  with replay exFact_projects show ?thesis by (simp only: simp_thms if_True)
qed

end
