(* ===== verification/CaseBoxLatest.thy ===== *)
theory CaseBoxLatest
  imports CaseBoxClassification
begin

text \<open>
  The three computations of a target's latest classification (the loop over the rows, the sort of the
  store, the sort of the contract with its own comparator) find the same row, when time stamps and
  ids are strings and no id is held twice.
\<close>

definition stamped :: "jval \<Rightarrow> bool" where
  "stamped row \<longleftrightarrow> is_str (jget row ''set_at'') \<and> is_str (jget row ''id'')"

abbreviation latest_le :: "jval \<Rightarrow> jval \<Rightarrow> bool" where
  "latest_le a b \<equiv> compareClassificationLatestFirst a b \<le> 0"

lemma stamped_iff: "stamped row \<longleftrightarrow> (\<exists>t i. jget row ''set_at'' = JStr t \<and> jget row ''id'' = JStr i)"
  by (auto simp: stamped_def is_str_iff)

lemma comparators_agree: "stamped a \<Longrightarrow> stamped b \<Longrightarrow> compareSetAt a b = compareClassificationLatestFirst a b"
  by (auto simp: stamped_iff compareSetAt_def compareClassificationLatestFirst_def)

lemma latest_le_iff:
  assumes "jget a ''set_at'' = JStr t" "jget a ''id'' = JStr i" "jget b ''set_at'' = JStr u" "jget b ''id'' = JStr j"
  shows "latest_le a b \<longleftrightarrow> u < t \<or> u = t \<and> i \<le> j"
  using assms by (auto simp: compareClassificationLatestFirst_def)

lemma latest_trans:
  assumes "stamped a" and "stamped b" and "stamped c" and "latest_le a b" and "latest_le b c"
  shows "latest_le a c"
proof -
  from assms(1-3) obtain t i u j v k where f: "jget a ''set_at'' = JStr t" "jget a ''id'' = JStr i" "jget b ''set_at'' = JStr u"
    "jget b ''id'' = JStr j" "jget c ''set_at'' = JStr v" "jget c ''id'' = JStr k" by (auto simp: stamped_iff)
  from assms(4,5) have "u < t \<or> u = t \<and> i \<le> j" "v < u \<or> v = u \<and> j \<le> k"
    unfolding latest_le_iff [OF f(1-4)] latest_le_iff [OF f(3-6)] by blast+
  then have "v < t \<or> v = t \<and> i \<le> k" by auto
  then show ?thesis unfolding latest_le_iff [OF f(1,2,5,6)] .
qed

lemma latest_total:
  assumes "stamped a" and "stamped b"
  shows "latest_le a b \<or> latest_le b a" "\<not> compareClassificationLatestFirst a b < 0 \<Longrightarrow> latest_le b a" "latest_le a a"
proof -
  from assms obtain t i u j where f: "jget a ''set_at'' = JStr t" "jget a ''id'' = JStr i" "jget b ''set_at'' = JStr u"
    "jget b ''id'' = JStr j" by (auto simp: stamped_iff)
  show "latest_le a b \<or> latest_le b a"
  proof (cases t u rule: linorder_cases)
    case less
    then show ?thesis by (simp only: latest_le_iff [OF f(3,4,1,2)] simp_thms)
  next
    case equal
    then show ?thesis using linear [of i j] by (simp only: latest_le_iff [OF f] latest_le_iff [OF f(3,4,1,2)] simp_thms) argo
  next
    case greater
    then show ?thesis by (simp only: latest_le_iff [OF f] simp_thms)
  qed
  show "latest_le a a" by (simp only: latest_le_iff [OF f(1,2,1,2)] order_refl simp_thms)
  assume "\<not> compareClassificationLatestFirst a b < 0"
  then have "\<not> u < t \<and> (u = t \<longrightarrow> \<not> i < j)"
    using less_asym [of u t] by (cases "t < u"; cases "u < t") (auto simp: compareClassificationLatestFirst_def f)
  then show "latest_le b a" unfolding latest_le_iff [OF f(3,4,1,2)] using less_linear [of t u] leI [of i j] by blast
qed

lemma latest_preorder: "\<forall>row\<in>S. stamped row \<Longrightarrow> total_preorder_on S latest_le"
  unfolding total_preorder_on_def
proof (intro conjI ballI impI)
  fix x y assume "\<forall>row\<in>S. stamped row" "x \<in> S" "y \<in> S"
  then show "latest_le x y \<or> latest_le y x" by (intro latest_total(1)) simp_all
next
  fix x y z assume st: "\<forall>row\<in>S. stamped row" "x \<in> S" "y \<in> S" "z \<in> S" and le: "latest_le x y" "latest_le y z"
  show "latest_le x z" by (rule latest_trans [OF _ _ _ le]) (use st in simp_all)
qed

lemma latest_antisym:
  assumes "stamped a" and "stamped b" and "latest_le a b" and "latest_le b a"
  shows "jget a ''id'' = jget b ''id''"
proof -
  from assms(1,2) obtain t i u j where f: "jget a ''set_at'' = JStr t" "jget a ''id'' = JStr i" "jget b ''set_at'' = JStr u"
    "jget b ''id'' = JStr j" by (auto simp: stamped_iff)
  from assms(3,4) have "u < t \<or> u = t \<and> i \<le> j" "t < u \<or> t = u \<and> j \<le> i"
    unfolding latest_le_iff [OF f] latest_le_iff [OF f(3,4,1,2)] by blast+
  then have "i = j" using less_asym [of t u] antisym [of i j] by blast
  then show ?thesis by (simp add: f)
qed

lemma insort_by_cong:
  "(\<And>y. y \<in> set ys \<Longrightarrow> le x y = le' x y) \<Longrightarrow> insort_by le x ys = insort_by le' x ys"
  by (induction ys) auto

lemma sort_by_cong:
  "(\<And>x y. x \<in> set xs \<Longrightarrow> y \<in> set xs \<Longrightarrow> le x y = le' x y) \<Longrightarrow> sort_by le xs = sort_by le' xs"
proof (induction xs)
  case (Cons x xs)
  then have "sort_by le xs = sort_by le' xs" by auto
  moreover have "set (sort_by le' xs) = set xs" by simp
  ultimately show ?case using Cons.prems insort_by_cong [of "sort_by le' xs" le x le'] by (simp add: sort_by_def)
qed (simp add: sort_by_def)

text \<open>The loop keeps the least row seen.\<close>

lemma later_of_fold:
  assumes "\<forall>row\<in>set rows. classifies tt ti row \<longrightarrow> stamped row"
  shows "case fold (later_of tt ti) rows None of
      None \<Rightarrow> filter (classifies tt ti) rows = []
    | Some r \<Rightarrow> r \<in> set (filter (classifies tt ti) rows) \<and> (\<forall>x\<in>set (filter (classifies tt ti) rows). latest_le r x)"
  using assms
proof (induction rows rule: rev_induct)
  case (snoc row rows)
  let ?f = "fold (later_of tt ti) rows None"
  have IH: "case ?f of None \<Rightarrow> filter (classifies tt ti) rows = []
    | Some r \<Rightarrow> r \<in> set (filter (classifies tt ti) rows) \<and> (\<forall>x\<in>set (filter (classifies tt ti) rows). latest_le r x)"
    using snoc by simp
  show ?case
  proof (cases "classifies tt ti row")
    case False
    then show ?thesis using IH by (simp add: later_of_def [of tt ti row] split: option.splits)
  next
    case True
    with snoc.prems have row: "stamped row" by simp
    show ?thesis
    proof (cases ?f)
      case None
      with True IH latest_total(3) [OF row row] show ?thesis by (simp add: later_of_def [of tt ti row])
    next
      case (Some r)
      with IH have r: "r \<in> set (filter (classifies tt ti) rows)" "\<forall>x\<in>set (filter (classifies tt ti) rows). latest_le r x" by simp_all
      have st: "\<forall>x\<in>set (filter (classifies tt ti) rows). stamped x" using snoc.prems by auto
      then have rs: "stamped r" using r(1) by blast
      show ?thesis
      proof (cases "compareClassificationLatestFirst row r < 0")
        case True
        then have "latest_le row r" by simp
        then have "\<forall>x\<in>set (filter (classifies tt ti) rows). latest_le row x"
          using latest_trans [OF row rs] r(2) st by blast
        with Some True \<open>classifies tt ti row\<close> latest_total(3) [OF row row] show ?thesis by (simp add: later_of_def [of tt ti row])
      next
        case False
        with Some \<open>classifies tt ti row\<close> r latest_total(2) [OF row rs] show ?thesis by (simp add: later_of_def [of tt ti row])
      qed
    qed
  qed
qed simp

lemma hd_sort_by:
  assumes "total_preorder_on (set xs) le" and "xs \<noteq> []"
  shows "hd (sort_by le xs) \<in> set xs \<and> (\<forall>x\<in>set xs. x = hd (sort_by le xs) \<or> le (hd (sort_by le xs)) x)"
proof -
  have "sort_by le xs \<noteq> []" using assms(2) by (metis set_empty set_sort_by)
  then obtain y ys where s: "sort_by le xs = y # ys" by (cases "sort_by le xs") auto
  have "sorted_wrt le (y # ys)" using sorted_wrt_sort_by [OF assms(1)] s by simp
  moreover have "set xs = set (y # ys)" using set_sort_by [of le xs] s by simp
  ultimately show ?thesis using s by auto
qed

lemma latest_agree:
  assumes rows: "\<forall>row\<in>set rows. classifies tt ti row \<longrightarrow> stamped row" and ids: "distinct (map (\<lambda>r. jget r ''id'') rows)"
  shows "fold (later_of tt ti) rows None =
    (if filter (classifies tt ti) rows = [] then None else Some (hd (sort_by latest_le (filter (classifies tt ti) rows))))"
proof (cases "filter (classifies tt ti) rows = []")
  case True
  with later_of_fold [OF rows] show ?thesis by (auto split: option.splits)
next
  case False
  let ?xs = "filter (classifies tt ti) rows" and ?m = "hd (sort_by latest_le (filter (classifies tt ti) rows))"
  have st: "\<forall>x\<in>set ?xs. stamped x" using rows by auto
  from hd_sort_by [OF latest_preorder [OF st] False] have m: "?m \<in> set ?xs" "\<forall>x\<in>set ?xs. x = ?m \<or> latest_le ?m x" by blast+
  from later_of_fold [OF rows] False obtain r where r: "fold (later_of tt ti) rows None = Some r" "r \<in> set ?xs" "\<forall>x\<in>set ?xs. latest_le r x"
    by (auto split: option.splits)
  have "jget r ''id'' = jget ?m ''id''"
    using latest_antisym [of r ?m] st r(2,3) m by metis
  moreover have "r \<in> set rows" "?m \<in> set rows" using r(2) m(1) by auto
  ultimately have "r = ?m" using ids by (auto simp: distinct_map inj_on_def)
  with r(1) False show ?thesis by simp
qed

text \<open>Hence the three levels are the same.\<close>

lemma levels_agree:
  assumes "\<forall>row\<in>set (rows_of t m). classifies tt ti row \<longrightarrow> stamped row" and "distinct (map (\<lambda>r. jget r ''id'') (rows_of t m))"
  shows "fst (computeEffectiveLevel t m tt ti) = effectiveConfidentialityLevel tt ti (rows_of t m)"
    "(case findLatestForTarget t m tt ti of None \<Rightarrow> JStr ''unclassified'' | Some row \<Rightarrow> jget row ''level'') =
       effectiveConfidentialityLevel tt ti (rows_of t m)"
proof -
  let ?xs = "filter (classifies tt ti) (rows_of t m)"
  have "\<forall>x\<in>set ?xs. stamped x" using assms(1) by auto
  then have same: "sort_by (\<lambda>a b. compareSetAt a b \<le> 0) ?xs = sort_by latest_le ?xs"
    by (intro sort_by_cong) (simp add: comparators_agree)
  have ne: "sort_by latest_le ?xs = [] \<longleftrightarrow> ?xs = []" by (metis set_empty set_sort_by)
  show "fst (computeEffectiveLevel t m tt ti) = effectiveConfidentialityLevel tt ti (rows_of t m)"
    using ne by (auto simp: computeEffectiveLevel_def effectiveConfidentialityLevel_def same Let_def split: list.split)
  show "(case findLatestForTarget t m tt ti of None \<Rightarrow> JStr ''unclassified'' | Some row \<Rightarrow> jget row ''level'') =
       effectiveConfidentialityLevel tt ti (rows_of t m)"
    unfolding findLatestForTarget_def latest_agree [OF assms] by (simp add: effectiveConfidentialityLevel_def same Let_def)
qed

end
