(* ===== verification/CaseDocketExamples.thy ===== *)
theory CaseDocketExamples
  imports CaseFactExamples
begin

text \<open>A docket entry proposed, edited and confirmed; a privilege marker proposed and confirmed; a classification.\<close>

subsection \<open>A docket entry\<close>

definition exEntryAt :: "string \<Rightarrow> string \<Rightarrow> (string \<times> jval) list \<Rightarrow> jval" where
  "exEntryAt due st rest = JObj ([(''id'', JStr ''e1''), (''tenant_id'', JStr ''t1''), (''actor_user_id'', JStr ''u1''), (''matter_id'', JStr ''m1''),
     (''proposed_kind'', JStr ''hearing''), (''proposed_due_at'', JStr due), (''proposed_due_at_kind'', JStr ''datetime''),
     (''proposed_due_at_timezone'', JStr ''Europe/Berlin''), (''proposed_owner_user_id'', JStr ''u1''),
     (''source_type'', JStr ''lawyer_note''), (''source_document_id'', JNull), (''confirmation_state'', JStr st)] @ rest)"

definition exEntry :: jval where
  "exEntry = exEntryAt ''2026-03-01T09:00:00.000Z'' ''proposed'' []"

lemma exEntryAt_fields:
  "jget (exEntryAt due st rest) ''id'' = JStr ''e1''" "jget (exEntryAt due st rest) ''tenant_id'' = JStr ''t1''"
  "jget (exEntryAt due st rest) ''matter_id'' = JStr ''m1''" "jget (exEntryAt due st rest) ''confirmation_state'' = JStr st"
  "jget (exEntryAt due st rest) ''proposed_due_at_kind'' = JStr ''datetime''"
  "jget (exEntryAt due st rest) ''proposed_due_at'' = JStr due"
  by (simp_all add: exEntryAt_def)

lemma exEntry_prepared:
  assumes "case_inv exCaseLib s" and "mget (cs_matters s) (JStr ''m1'') = Some exMatter1" and "JStr ''e1'' \<notin> set (rt_ids (cs_docket s))"
  shows "\<exists>ev. prepareAppendDocketEntry exCaseLib ci (cs_docket s) (cs_documents s) (log_get (cs_audit s) (JStr ''m1'')) exEntry = Inr (exEntry, ev)"
proof -
  from matter_head [OF assms(1,2)] obtain h where
    "priorHeadOf (audit_lib exCaseLib) (log_get (cs_audit s) (JStr ''m1'')) = Inr (Some h)" ..
  then obtain ev where "emitEvent (audit_lib exCaseLib) (log_get (cs_audit s) (JStr ''m1''))
      (createdEvent exCaseLib ci ''DOCKET_ENTRY_PROPOSED'' exEntry JUndef) = Inr ev"
    using ex_emit by (fastforce simp: plain_input_def createdEvent_def audit_simps exEntry_def exEntryAt_def is_str_def)
  with assms(3) show ?thesis
    by (simp add: prepareAppendDocketEntry_def exEntry_def exEntryAt_def assertValidNewDocketEntry_def decision_fields_def offenders_def
        assertValidIanaTimezone_def DEPRECATED_TZ_DENYLIST_def exCaseLib_validators ex_checks)
qed

definition exDocket1 :: CaseBoxState where
  "exDocket1 = snd (appendDocketEntry exCaseLib (exInputsCase ''d'') exEntry exCase1)"

lemma exDocket1_reachable: "case_reachable exCaseLib exDocket1"
  unfolding exDocket1_def by (rule case_reachable_step [OF exCase1_start case_docket [OF prod.collapse [symmetric]]])

lemma exEntry_run:
  assumes "case_inv exCaseLib s" and "mget (cs_matters s) (JStr ''m1'') = Some exMatter1" and "JStr ''e1'' \<notin> set (rt_ids (cs_docket s))"
    and run: "appendDocketEntry exCaseLib ci exEntry s = (r, s')"
  shows "\<exists>a. s' = (s\<lparr>cs_docket := pushEntity (JStr ''m1'') exEntry (cs_docket s)\<rparr>)\<lparr>cs_audit := a\<rparr>"
proof -
  from exEntry_prepared [OF assms(1-3)] obtain ev where
    p: "prepareAppendDocketEntry exCaseLib ci (cs_docket s) (cs_documents s) (log_get (cs_audit s) (JStr ''m1'')) exEntry = Inr (exEntry, ev)" ..
  have new: "(s\<lparr>cs_docket := pushEntity (JStr ''m1'') exEntry (cs_docket s)\<rparr>)\<lparr>cs_audit := a\<rparr> \<noteq> s" for a
  proof
    assume "(s\<lparr>cs_docket := pushEntity (JStr ''m1'') exEntry (cs_docket s)\<rparr>)\<lparr>cs_audit := a\<rparr> = s"
    from arg_cong [OF this, of "\<lambda>s. rt_ids (cs_docket s)"] assms(3) show False by (simp add: exEntry_def exEntryAt_fields List.insert_def)
  qed
  have old: "\<And>e. r = Inl e \<Longrightarrow> s' = s"
    using appendDocketEntry_run [OF exCaseLib_ok assms(1) run] by auto
  have m: "jget exEntry ''matter_id'' = JStr ''m1''" "jget exEntry ''tenant_id'' = jget exMatter1 ''tenant_id''"
    by (simp_all add: exEntry_def exEntryAt_fields exCase1_m)
  show ?thesis by (rule append_returns(2) [OF run [unfolded appendDocketEntry_def] m(1) assms(2) p m new old])
qed

lemma exDocket1_tables: "mget (cs_matters exDocket1) (JStr ''m1'') = Some exMatter1"
  "mget (rt_index (cs_docket exDocket1)) (JStr ''e1'') = Some (JStr ''m1'')" "mget (rt_byId (cs_docket exDocket1)) (JStr ''e1'') = Some exEntry"
  "cs_deadline exDocket1 = emptyEntityTable"
proof -
  from exEntry_run [OF exCase1_inv exCase1_m(1) _ prod.collapse [symmetric], of "exInputsCase ''d''"] obtain a where
    s: "exDocket1 = (exCase1\<lparr>cs_docket := pushEntity (JStr ''m1'') exEntry (cs_docket exCase1)\<rparr>)\<lparr>cs_audit := a\<rparr>"
    by (auto simp: exDocket1_def exCase1_tables emptyEntityTable_def)
  show "mget (cs_matters exDocket1) (JStr ''m1'') = Some exMatter1"
    "mget (rt_index (cs_docket exDocket1)) (JStr ''e1'') = Some (JStr ''m1'')" "mget (rt_byId (cs_docket exDocket1)) (JStr ''e1'') = Some exEntry"
    "cs_deadline exDocket1 = emptyEntityTable"
    by (simp_all add: s exCase1_m exCase1_tables exEntry_def exEntryAt_fields)
qed

text \<open>Its due date is moved.\<close>

definition exEditEntry :: EditDocketEntryOpts where
  "exEditEntry = \<lparr>ed_tenant_id = JStr ''t1'', ed_matter_id = JStr ''m1'', ed_entry_id = JStr ''e1'', ed_editor_actor_user_id = JStr ''u2'',
     ed_proposed_kind = JStr ''hearing'', ed_proposed_due_at = JStr ''2026-04-01T09:00:00.000Z'',
     ed_proposed_due_at_kind = JStr ''datetime'', ed_proposed_due_at_timezone = JStr ''Europe/Berlin'',
     ed_proposed_owner_user_id = JStr ''u3'', ed_reminder_offsets = JArr []\<rparr>"

text \<open>It is confirmed.\<close>

definition exConfirm :: ConfirmDocketEntryOpts where
  "exConfirm = \<lparr>co_confirmation_actor_user_id = JStr ''u2'', co_confirmed_at = JStr ''2026-02-01T00:00:00.000Z'', co_deadline_id = JStr ''x1''\<rparr>"

definition exConfirmed :: jval where
  "exConfirmed = confirmedEntry exEntry exConfirm"

definition exDeadline :: jval where
  "exDeadline = buildDeadlineRowFromDocketEntry exConfirmed (JStr ''x1'') (JStr ''u2'')"

lemma exConfirmed_value: "exConfirmed = exEntryAt ''2026-03-01T09:00:00.000Z'' ''confirmed''
    [(''confirmation_actor_user_id'', JStr ''u2''), (''confirmed_at'', JStr ''2026-02-01T00:00:00.000Z''), (''confirmed_deadline_id'', JStr ''x1'')]"
  by (simp add: exConfirmed_def exEntry_def exEntryAt_def confirmedEntry_def exConfirm_def)

definition exDocket2 :: CaseBoxState where
  "exDocket2 = snd (confirmDocketEntry exCaseLib (exInputsCase ''e'') (JStr ''e1'') exConfirm exDocket1)"

lemma exDocket2_reachable: "case_reachable exCaseLib exDocket2"
  unfolding exDocket2_def by (rule case_reachable_step [OF exDocket1_reachable case_docket_confirm [OF prod.collapse [symmetric]]])

lemma exDocket1_inv: "case_inv exCaseLib exDocket1"
  by (rule reachable_inv [OF exDocket1_reachable])

lemma exConfirm_edge: "assertValidDocketEntryConfirmation exEntry Lawyer = Inr ()"
  by (simp add: assertValidDocketEntryConfirmation_def exEntry_def exEntryAt_fields check_def isAllowed_def case_edge_tables case_terminal_states)

lemma exConfirm_emits:
  "\<exists>audits. emitConfirmation exCaseLib ci (log_get (cs_audit exDocket1) (JStr ''m1'')) (JStr ''m1'') (JStr ''u2'') exEntry exConfirmed exDeadline = Inr audits"
proof -
  let ?L = "audit_lib exCaseLib" and ?log = "log_get (cs_audit exDocket1) (JStr ''m1'')"
  let ?mk1 = "updatedEvent exCaseLib ci ''DOCKET_ENTRY_CONFIRMED'' (JStr ''m1'') (JStr ''u2'') (JStr (entityStateHash ?L exEntry)) exConfirmed JUndef"
  from matter_head [OF exDocket1_inv exDocket1_tables(1)] obtain h where h: "priorHeadOf ?L ?log = Inr (Some h)" ..
  then obtain ev1 where e1: "emitEvent ?L ?log ?mk1 = Inr ev1"
    using ex_emit by (fastforce simp: plain_input_def updatedEvent_def audit_simps exConfirmed_value exEntryAt_fields is_str_def)
  have lib: "hash_ok ?L" "audit_lib_ok ?L" using exCaseLib_ok by (simp_all add: case_lib_ok_def)
  have "good_input ?L (JStr ''m1'') (JStr ''t1'') \<lparr>km_action = ''update'', km_entity_type = ''docket_entry'', km_reasonRequired = False\<rparr> ?mk1"
    by (auto simp: good_input_def event_input_simps audit_simps exConfirmed_value exEntryAt_fields)
  from emit_next_event [OF lib(1) e1 this] obtain prev where "next_event ?L (JStr ''m1'') (JStr ''t1'') prev (sa_event ev1)" by metis
  from next_event_hash [OF lib(2) this] obtain h1 where "eventHashFn ?L (sa_event ev1) = Inr h1" .
  then have "priorHeadOf ?L (?log @ [ev1]) = Inr (Some h1)" by (simp add: priorHeadOf_def)
  from ex_emit [OF this] obtain ev2 where "emitEvent ?L (?log @ [ev1]) (\<lambda>prevHash.
      (updatedEvent exCaseLib ci ''DEADLINE_REGISTERED'' (JStr ''m1'') (JStr ''u2'') JNull exDeadline JUndef prevHash)\<lparr>be_id := ci_id ci 1\<rparr>) = Inr ev2"
    by (fastforce simp: plain_input_def updatedEvent_def audit_simps exDeadline_def buildDeadlineRowFromDocketEntry_def exConfirmed_value
        exEntryAt_fields is_str_def)
  with e1 show ?thesis by (simp add: emitConfirmation_def)
qed

lemma exConfirm_prepared:
  "\<exists>audits. prepareConfirmDocketEntry exCaseLib (exInputsCase x) (cs_docket exDocket1) (cs_deadline exDocket1) (JStr ''e1'') exConfirm
     (log_get (cs_audit exDocket1)) =
   Inr \<lparr>pc_idempotent = False, pc_entry = exConfirmed, pc_deadline = exDeadline, pc_audits = audits, pc_matterId = JStr ''m1''\<rparr>"
proof -
  from exConfirm_emits obtain audits where
    e: "emitConfirmation exCaseLib (exInputsCase x) (log_get (cs_audit exDocket1) (JStr ''m1'')) (JStr ''m1'') (JStr ''u2'') exEntry exConfirmed exDeadline = Inr audits" ..
  have opts: "co_confirmation_actor_user_id exConfirm = JStr ''u2''" "co_confirmed_at exConfirm = JStr ''2026-02-01T00:00:00.000Z''"
    "co_deadline_id exConfirm = JStr ''x1''" by (simp_all add: exConfirm_def)
  have prior: "existingConfirmation d exEntry = None" for d
    by (simp add: existingConfirmation_def exEntry_def exEntryAt_fields)
  have ids: "rt_ids emptyEntityTable = []" by (simp add: emptyEntityTable_def)
  show ?thesis
    using e by (simp add: prepareConfirmDocketEntry_def exDocket1_tables opts prior exConfirm_edge exConfirmed_def [symmetric]
        exDeadline_def [symmetric] exCaseLib_validators ex_checks ids Let_def)
qed

lemma exDocket2_tables: "mget (cs_matters exDocket2) (JStr ''m1'') = Some exMatter1"
  "mget (rt_byId (cs_docket exDocket2)) (JStr ''e1'') = Some exConfirmed"
  "mget (rt_byId (cs_deadline exDocket2)) (JStr ''x1'') = Some exDeadline"
proof -
  from exConfirm_prepared obtain audits where p: "prepareConfirmDocketEntry exCaseLib (exInputsCase ''e'') (cs_docket exDocket1)
      (cs_deadline exDocket1) (JStr ''e1'') exConfirm (log_get (cs_audit exDocket1)) =
    Inr \<lparr>pc_idempotent = False, pc_entry = exConfirmed, pc_deadline = exDeadline, pc_audits = audits, pc_matterId = JStr ''m1''\<rparr>" ..
  have "jget exDeadline ''id'' = JStr ''x1''" by (simp add: exDeadline_def buildDeadlineRowFromDocketEntry_def)
  with p show "mget (cs_matters exDocket2) (JStr ''m1'') = Some exMatter1"
    "mget (rt_byId (cs_docket exDocket2)) (JStr ''e1'') = Some exConfirmed"
    "mget (rt_byId (cs_deadline exDocket2)) (JStr ''x1'') = Some exDeadline"
    by (auto simp: exDocket2_def confirmDocketEntry_def commitEvents_def exDocket1_tables split: prod.split sum.split)
qed

lemma exConfirm_runs:
  "fst (confirmDocketEntry exCaseLib (exInputsCase ''e'') (JStr ''e1'') exConfirm exDocket1) =
     Inr \<lparr>cr_entry = exConfirmed, cr_deadline = exDeadline, cr_idempotent = False\<rparr>"
proof -
  let ?run = "confirmDocketEntry exCaseLib (exInputsCase ''e'') (JStr ''e1'') exConfirm exDocket1"
  from exConfirm_prepared obtain audits where p: "prepareConfirmDocketEntry exCaseLib (exInputsCase ''e'') (cs_docket exDocket1)
      (cs_deadline exDocket1) (JStr ''e1'') exConfirm (log_get (cs_audit exDocket1)) =
    Inr \<lparr>pc_idempotent = False, pc_entry = exConfirmed, pc_deadline = exDeadline, pc_audits = audits, pc_matterId = JStr ''m1''\<rparr>" ..
  have "snd ?run \<noteq> exDocket1"
    using exDocket2_tables(3) exDocket1_tables(4) by (auto simp: exDocket2_def emptyEntityTable_def)
  with confirmDocketEntry_run [OF exCaseLib_ok exDocket1_inv prod.collapse [symmetric], of "exInputsCase ''e''" "JStr ''e1''" exConfirm]
  have "\<exists>c. fst ?run = Inr c" by (cases "fst ?run") auto
  with p show ?thesis
    by (auto simp: confirmDocketEntry_def commitEvents_def split: prod.splits sum.splits)
qed

text \<open>The edit of the proposed entry.\<close>

definition exEdited :: jval where
  "exEdited = editedEntry (exInputsCase ''k'') exEntry exEditEntry"

lemma exEdited_value: "exEdited = JObj [(''id'', JStr ''e1''), (''tenant_id'', JStr ''t1''), (''actor_user_id'', JStr ''u1''), (''matter_id'', JStr ''m1''),
     (''proposed_kind'', JStr ''hearing''), (''proposed_due_at'', JStr ''2026-04-01T09:00:00.000Z''), (''proposed_due_at_kind'', JStr ''datetime''),
     (''proposed_due_at_timezone'', JStr ''Europe/Berlin''), (''proposed_owner_user_id'', JStr ''u3''),
     (''source_type'', JStr ''lawyer_note''), (''source_document_id'', JNull), (''confirmation_state'', JStr ''proposed''),
     (''reminder_offsets'', JArr []), (''revised_at'', JStr ''2026-01-01T00:00:00.000Z'')]"
  by (simp add: exEdited_def editedEntry_def exEntry_def exEntryAt_def exEditEntry_def exInputsCase_def)

lemma exEdit_valid: "assertValidDocketEntryEdit exCaseLib exEntry exEdited = Inr ()"
  unfolding exEdited_value exEntry_def exEntryAt_def
  by (simp add: assertValidDocketEntryEdit_def isPlainRecord_def check_def schema_check_def changedImmutable_def object_keys_def
      EDITABLE_DOCKET_ENTRY_FIELDS_def isDeepStrictEqual_def exCaseLib_validators Let_def)

lemma exEdit_entry_runs:
  "fst (editDocketEntry exCaseLib (exInputsCase ''k'') exEditEntry exDocket1) = Inr exEdited"
proof -
  let ?run = "editDocketEntry exCaseLib (exInputsCase ''k'') exEditEntry exDocket1"
  from matter_head [OF exDocket1_inv exDocket1_tables(1)] obtain h where
    "priorHeadOf (audit_lib exCaseLib) (log_get (cs_audit exDocket1) (JStr ''m1'')) = Inr (Some h)" ..
  then obtain ev where e: "emitEvent (audit_lib exCaseLib) (log_get (cs_audit exDocket1) (JStr ''m1''))
      (updatedEvent exCaseLib (exInputsCase ''k'') ''DOCKET_ENTRY_REVISED'' (JStr ''m1'') (JStr ''u2'')
         (JStr (entityStateHash (audit_lib exCaseLib) exEntry)) exEdited JUndef) = Inr ev"
    using ex_emit by (fastforce simp: plain_input_def updatedEvent_def audit_simps exEdited_value is_str_def)
  have opts: "ed_tenant_id exEditEntry = JStr ''t1''" "ed_matter_id exEditEntry = JStr ''m1''" "ed_entry_id exEditEntry = JStr ''e1''"
    "ed_editor_actor_user_id exEditEntry = JStr ''u2''" by (simp_all add: exEditEntry_def)
  have entry: "jget exEntry ''tenant_id'' = JStr ''t1''" "jget exEntry ''matter_id'' = JStr ''m1''"
    "jget exEdited ''proposed_due_at_timezone'' = JStr ''Europe/Berlin''"
    by (simp_all add: exEntry_def exEntryAt_fields exEdited_value)
  have p: "prepareEditDocketEntry exCaseLib (exInputsCase ''k'') (cs_docket exDocket1) exEditEntry (log_get (cs_audit exDocket1)) =
      Inr (exEdited, ev, JStr ''m1'')"
    using e by (simp add: prepareEditDocketEntry_def exDocket1_tables opts entry exEdited_def [symmetric] exEdit_valid
        assertValidIanaTimezone_def DEPRECATED_TZ_DENYLIST_def exCaseLib_validators ex_checks Let_def)
  let ?store = "\<lambda>m nx s. s\<lparr>cs_docket := putEntity m (JStr ''e1'') nx (cs_docket s)\<rparr>"
  have run: "replaceBody exCaseLib ?store (Inr (exEdited, ev, JStr ''m1'')) exDocket1 = (fst ?run, snd ?run)"
    by (simp add: editDocketEntry_def exDocket1_tables opts p exCase1_m)
  have "exEdited \<noteq> exEntry" by (simp add: exEdited_value exEntry_def exEntryAt_def)
  have new: "(exDocket1\<lparr>cs_docket := putEntity (JStr ''m1'') (JStr ''e1'') exEdited (cs_docket exDocket1)\<rparr>)\<lparr>cs_audit := a\<rparr> \<noteq> exDocket1" for a
  proof
    assume "(exDocket1\<lparr>cs_docket := putEntity (JStr ''m1'') (JStr ''e1'') exEdited (cs_docket exDocket1)\<rparr>)\<lparr>cs_audit := a\<rparr> = exDocket1"
    from arg_cong [OF this, of "\<lambda>s. mget (rt_byId (cs_docket s)) (JStr ''e1'')"] exDocket1_tables(3) \<open>exEdited \<noteq> exEntry\<close>
    show False by simp
  qed
  have old: "\<And>e. fst ?run = Inl e \<Longrightarrow> snd ?run = exDocket1"
    using editDocketEntry_run [OF exCaseLib_ok exDocket1_inv prod.collapse [symmetric], of "exInputsCase ''k''" exEditEntry] by auto
  show ?thesis
    by (rule replace_returns(1) [where store = ?store, OF run new old])
qed

end
