(* ===== verification/CaseMarkerExamples.thy ===== *)
theory CaseMarkerExamples
  imports CaseFactExamples
begin

text \<open>A privilege marker proposed and confirmed on the example document, and its classification raised and lowered.\<close>

lemma exCase2_start: "case_reachable exCaseLib exCase2"
  using exCase2_reachable by (simp add: case_reachable_def)

lemma exCase2_tables: "cs_privilege exCase2 = emptyIndexedTable" "cs_classification exCase2 = emptyRowTable"
  "mget (cs_matters exCase2) (JStr ''m1'') = Some exMatter1"
proof -
  have "cs_privilege exCase1 = emptyIndexedTable" "cs_classification exCase1 = emptyRowTable"
    by (simp_all add: exCase1_def createMatter_def newCaseBoxPersistence_def Let_def split: sum.splits prod.splits)
  then show "cs_privilege exCase2 = emptyIndexedTable" "cs_classification exCase2 = emptyRowTable"
    by (simp_all add: exCase2_def registerDocument_def commitEvent_def split: sum.splits prod.splits option.splits)
  show "mget (cs_matters exCase2) (JStr ''m1'') = Some exMatter1" using exCase2_matter by (simp add: getMatter_def)
qed

lemma exTarget: "cs_documents s = cs_documents exCase2 \<Longrightarrow>
  resolveDocumentTarget (cs_documents s) (JStr ''t1'') (JStr ''m1'') (JStr ''d1'') = Inr ()"
  using exCase2_document by (auto simp: getDocument_def result_simps exDocument_def)

text \<open>The emission of an event of the example.\<close>

lemma ex_created:
  assumes "case_inv exCaseLib s" and "mget (cs_matters s) (JStr ''m1'') = Some exMatter1" and "\<And>h. plain_input (createdEvent exCaseLib ci kind row reason h)"
  shows "\<exists>ev. emitEvent (audit_lib exCaseLib) (log_get (cs_audit s) (JStr ''m1'')) (createdEvent exCaseLib ci kind row reason) = Inr ev"
proof -
  from matter_head [OF assms(1,2)] obtain h where
    h: "priorHeadOf (audit_lib exCaseLib) (log_get (cs_audit s) (JStr ''m1'')) = Inr (Some h)" ..
  show ?thesis by (rule ex_emit [OF h assms(3)])
qed

subsection \<open>A marker\<close>

definition exMarker :: jval where
  "exMarker = JObj [(''id'', JStr ''k1''), (''tenant_id'', JStr ''t1''), (''actor_user_id'', JStr ''u1''), (''matter_id'', JStr ''m1''),
     (''target_type'', JStr ''document''), (''target_id'', JStr ''d1''), (''kind'', JStr ''attorney_client''),
     (''source_type'', JStr ''lawyer_authored''), (''proposed_at'', JStr ''2026-01-01T00:00:00.000Z''), (''status'', JStr ''proposed'')]"

definition exPriv1 :: CaseBoxState where
  "exPriv1 = snd (appendPrivilegeMarker exCaseLib (exInputsCase ''p'') exMarker exCase2)"

lemma exPriv1_reachable: "case_reachable exCaseLib exPriv1"
  unfolding exPriv1_def by (rule case_reachable_step [OF exCase2_start case_privilege [OF prod.collapse [symmetric]]])

lemma exMarker_prepared:
  "\<exists>ev. prepareAppendPrivilegeMarker exCaseLib (exInputsCase ''p'') (cs_privilege exCase2) (cs_documents exCase2)
     (log_get (cs_audit exCase2) (JStr ''m1'')) exMarker = Inr (exMarker, ev)"
proof -
  have "plain_input (createdEvent exCaseLib (exInputsCase ''p'') ''PRIVILEGE_MARKER_PROPOSED'' exMarker JUndef h)" for h
    by (simp add: plain_input_def createdEvent_def audit_simps exMarker_def is_str_def)
  from ex_created [OF exCase2_inv exCase2_tables(3) this] obtain ev where
    e: "emitEvent (audit_lib exCaseLib) (log_get (cs_audit exCase2) (JStr ''m1''))
      (createdEvent exCaseLib (exInputsCase ''p'') ''PRIVILEGE_MARKER_PROPOSED'' exMarker JUndef) = Inr ev" ..
  have "assertValidNewPrivilegeMarker exMarker = Inr ()"
    by (simp add: assertValidNewPrivilegeMarker_def null_fields_def offenders_def event_present_def exMarker_def Let_def)
  moreover have "assertPrivilegeMarkerTimestamps exCaseLib exMarker = Inr ()"
    by (simp add: assertPrivilegeMarkerTimestamps_def parse_date_def event_present_def exMarker_def exCaseLib_validators)
  moreover have "jget exMarker ''target_type'' = JStr ''document''" "jget exMarker ''status'' = JStr ''proposed''"
    "jget exMarker ''id'' = JStr ''k1''" "jget exMarker ''tenant_id'' = JStr ''t1''" "jget exMarker ''matter_id'' = JStr ''m1''"
    "jget exMarker ''target_id'' = JStr ''d1''" by (simp_all add: exMarker_def)
  ultimately show ?thesis
    using e by (simp add: prepareAppendPrivilegeMarker_def exCase2_tables exTarget exCaseLib_validators check_def schema_check_def
        emptyIndexedTable_def)
qed

lemma exPriv1_tables: "mget (cs_matters exPriv1) (JStr ''m1'') = Some exMatter1" "cs_privilege exPriv1 = pushIndexed (JStr ''m1'') exMarker emptyIndexedTable"
  "cs_documents exPriv1 = cs_documents exCase2"
proof -
  from exMarker_prepared obtain ev where p: "prepareAppendPrivilegeMarker exCaseLib (exInputsCase ''p'') (cs_privilege exCase2)
      (cs_documents exCase2) (log_get (cs_audit exCase2) (JStr ''m1'')) exMarker = Inr (exMarker, ev)" ..
  have m: "jget exMarker ''matter_id'' = JStr ''m1''" by (simp add: exMarker_def)
  show "mget (cs_matters exPriv1) (JStr ''m1'') = Some exMatter1" "cs_privilege exPriv1 = pushIndexed (JStr ''m1'') exMarker emptyIndexedTable"
    "cs_documents exPriv1 = cs_documents exCase2"
    using p m exCase2_tables by (auto simp: exPriv1_def appendPrivilegeMarker_def appendBody_def commitEvent_def is_str_iff Let_def
        split: prod.split sum.split)
qed

definition exConfirmMarker :: PrivilegeTransitionOpts where
  "exConfirmMarker = \<lparr>pt_to = ''confirmed'', pt_actor_user_id = JStr ''u2'', pt_at = JStr ''2026-01-03T00:00:00.000Z'', pt_reason = JUndef\<rparr>"

definition exMarkerC :: jval where
  "exMarkerC = nextMarker exMarker exConfirmMarker"

lemma exMarkerC_value: "exMarkerC = JObj [(''id'', JStr ''k1''), (''tenant_id'', JStr ''t1''), (''actor_user_id'', JStr ''u1''), (''matter_id'', JStr ''m1''),
     (''target_type'', JStr ''document''), (''target_id'', JStr ''d1''), (''kind'', JStr ''attorney_client''),
     (''source_type'', JStr ''lawyer_authored''), (''proposed_at'', JStr ''2026-01-01T00:00:00.000Z''), (''status'', JStr ''confirmed''),
     (''confirmed_actor_user_id'', JStr ''u2''), (''confirmed_at'', JStr ''2026-01-03T00:00:00.000Z'')]"
  by (simp add: exMarkerC_def nextMarker_def exMarker_def exConfirmMarker_def)

definition exPriv2 :: CaseBoxState where
  "exPriv2 = snd (transitionPrivilegeMarker exCaseLib (exInputsCase ''q'') (JStr ''k1'') exConfirmMarker exPriv1)"

lemma exPriv2_reachable: "case_reachable exCaseLib exPriv2"
  unfolding exPriv2_def by (rule case_reachable_step [OF exPriv1_reachable case_privilege_transition [OF prod.collapse [symmetric]]])

lemma exPriv2_tables: "mget (cs_matters exPriv2) (JStr ''m1'') = Some exMatter1" "rows_of (cs_privilege exPriv2) (JStr ''m1'') = [exMarkerC]"
  "cs_documents exPriv2 = cs_documents exCase2"
proof -
  let ?prep = "prepareTransitionPrivilegeMarker exCaseLib (exInputsCase ''q'') (cs_privilege exPriv1) (JStr ''k1'') exConfirmMarker (log_get (cs_audit exPriv1))"
  from matter_head [OF reachable_inv [OF exPriv1_reachable] exPriv1_tables(1)] obtain h where
    "priorHeadOf (audit_lib exCaseLib) (log_get (cs_audit exPriv1) (JStr ''m1'')) = Inr (Some h)" ..
  then obtain ev where e: "emitEvent (audit_lib exCaseLib) (log_get (cs_audit exPriv1) (JStr ''m1''))
      (updatedEvent exCaseLib (exInputsCase ''q'') ''PRIVILEGE_MARKER_CONFIRMED'' (JStr ''m1'') (JStr ''u2'')
         (JStr (entityStateHash (audit_lib exCaseLib) exMarker)) exMarkerC JUndef) = Inr ev"
    using ex_emit by (fastforce simp: plain_input_def updatedEvent_def audit_simps exMarkerC_value is_str_def)
  have opts: "pt_to exConfirmMarker = ''confirmed''" "pt_actor_user_id exConfirmMarker = JStr ''u2''"
    "pt_at exConfirmMarker = JStr ''2026-01-03T00:00:00.000Z''" "pt_reason exConfirmMarker = JUndef" by (simp_all add: exConfirmMarker_def)
  have row: "jget exMarker ''id'' = JStr ''k1''" "jget exMarker ''status'' = JStr ''proposed''" by (simp_all add: exMarker_def)
  have edge: "assertValidPrivilegeMarkerTransition ''proposed'' ''confirmed'' Lawyer JUndef = Inr ()" by code_simp
  have stamps: "assertPrivilegeMarkerTimestamps exCaseLib exMarkerC = Inr ()"
    by (simp add: assertPrivilegeMarkerTimestamps_def parse_date_def not_before_def event_present_def exMarkerC_value exCaseLib_validators)
  have "?prep = Inr (exMarkerC, ev, JStr ''m1'')"
    using e by (simp add: prepareTransitionPrivilegeMarker_def exPriv1_tables opts row edge rivalMarker_def stamps
        exMarkerC_def [symmetric] exCaseLib_validators ex_checks Let_def)
  then show "mget (cs_matters exPriv2) (JStr ''m1'') = Some exMatter1" "rows_of (cs_privilege exPriv2) (JStr ''m1'') = [exMarkerC]"
    "cs_documents exPriv2 = cs_documents exCase2"
    by (auto simp: exPriv2_def transitionPrivilegeMarker_def replaceBody_def commitEvent_def exPriv1_tables row split: prod.split sum.split)
qed

subsection \<open>Classifications\<close>

definition exClassify :: "string \<Rightarrow> jval \<Rightarrow> string \<Rightarrow> jval \<Rightarrow> string \<Rightarrow> jval" where
  "exClassify k prior level code at = JObj [(''id'', JStr k), (''tenant_id'', JStr ''t1''), (''actor_user_id'', JStr ''u1''), (''matter_id'', JStr ''m1''),
     (''target_type'', JStr ''document''), (''target_id'', JStr ''d1''), (''prior_level'', prior), (''level'', JStr level),
     (''change_reason_code'', code), (''set_at'', JStr at)]"

definition exClass1 :: CaseBoxState where
  "exClass1 = snd (appendClassification exCaseLib (exInputsCase ''r'') (exClassify ''c1'' JNull ''confidential'' JNull ''2026-01-01'') exCase2)"

lemma exClassify_fields:
  "jget (exClassify k prior level code at) ''id'' = JStr k" "jget (exClassify k prior level code at) ''tenant_id'' = JStr ''t1''"
  "jget (exClassify k prior level code at) ''matter_id'' = JStr ''m1''" "jget (exClassify k prior level code at) ''target_type'' = JStr ''document''"
  "jget (exClassify k prior level code at) ''target_id'' = JStr ''d1''" "jget (exClassify k prior level code at) ''prior_level'' = prior"
  "jget (exClassify k prior level code at) ''level'' = JStr level" "jget (exClassify k prior level code at) ''change_reason_code'' = code"
  "jget (exClassify k prior level code at) ''set_at'' = JStr at" "jget (exClassify k prior level code at) ''actor_user_id'' = JStr ''u1''"
  by (simp_all add: exClassify_def)

lemma exClass1_reachable: "case_reachable exCaseLib exClass1"
  unfolding exClass1_def by (rule case_reachable_step [OF exCase2_start case_classification [OF prod.collapse [symmetric]]])

lemma exClass1_tables: "mget (cs_matters exClass1) (JStr ''m1'') = Some exMatter1"
  "cs_classification exClass1 = pushRow (JStr ''m1'') (exClassify ''c1'' JNull ''confidential'' JNull ''2026-01-01'') emptyRowTable"
  "cs_documents exClass1 = cs_documents exCase2"
proof -
  let ?row = "exClassify ''c1'' JNull ''confidential'' JNull ''2026-01-01''"
  have "plain_input (createdEvent exCaseLib (exInputsCase ''r'') ''CLASSIFICATION_SET'' ?row JUndef h)" for h
    by (simp add: plain_input_def createdEvent_def audit_simps exClassify_fields is_str_def)
  from ex_created [OF exCase2_inv exCase2_tables(3) this] obtain ev where
    e: "emitEvent (audit_lib exCaseLib) (log_get (cs_audit exCase2) (JStr ''m1''))
      (createdEvent exCaseLib (exInputsCase ''r'') ''CLASSIFICATION_SET'' ?row JUndef) = Inr ev" ..
  have "assertValidNewConfidentialityClassification ?row None = Inr ()"
    by (simp add: assertValidNewConfidentialityClassification_def assertValidConfidentialityTransition_def isDowngrade_def
        isResetToUnclassified_def exClassify_fields)
  moreover have "findLatestForTarget emptyRowTable (JStr ''m1'') (JStr ''document'') (JStr ''d1'') = None"
    by (simp add: findLatestForTarget_def)
  ultimately have p: "prepareAppendClassification exCaseLib (exInputsCase ''r'') (cs_classification exCase2) (cs_documents exCase2)
      (log_get (cs_audit exCase2) (JStr ''m1'')) ?row = Inr (?row, ev)"
    using e by (simp add: prepareAppendClassification_def exCase2_tables exTarget exClassify_fields selectAuditKind_def reasonRequired_def
        exCaseLib_validators check_def schema_check_def emptyRowTable_def Let_def)
  then show "mget (cs_matters exClass1) (JStr ''m1'') = Some exMatter1"
    "cs_classification exClass1 = pushRow (JStr ''m1'') ?row emptyRowTable" "cs_documents exClass1 = cs_documents exCase2"
    using exCase2_tables by (auto simp: exClass1_def appendClassification_def appendBody_def commitEvent_def is_str_iff Let_def exClassify_fields
        split: prod.split sum.split)
qed

end
