(* ===== verification/CaseDecisionProperties.thy ===== *)
theory CaseDecisionProperties
  imports CaseProperties CaseBoxLatest CaseDocketExamples CaseMarkerExamples
begin

text \<open>
  What holds of the lawyer's decisions in every reachable state of the case box: docket entries and the deadlines
  they become, privilege markers, confidentiality levels, the links to the recognition store.
\<close>

subsection \<open>Docket entries and deadlines\<close>

lemma stored_tenant:
  assumes "case_inv L s" and "row \<in> stored_rows s k m" and "mget (cs_matters s) m = Some matter"
  shows "jget row ''tenant_id'' = jget matter ''tenant_id''"
  using stored_row [OF assms(1,2)] assms(3) by (metis option.inject)

lemma table_row:
  assumes "case_inv L s" and "mget (rt_byId (cs_docket s)) k = Some row"
  shows "jget row ''id'' = k" "row \<in> stored_rows s E_docket (jget row ''matter_id'')"
    "getDocketEntry (jget row ''tenant_id'') (jget row ''matter_id'') k s = Inr (Some row)"
proof -
  from assms(1) have ok: "entity_table_ok (cs_docket s)" by (simp add: case_inv_def tables_ok_def)
  from entity_lookup(1,2) [OF ok assms(2)] show r: "jget row ''id'' = k" "row \<in> stored_rows s E_docket (jget row ''matter_id'')" by simp_all
  from stored_row [OF assms(1) r(2)] obtain matter where "mget (cs_matters s) (jget row ''matter_id'') = Some matter"
    "jget row ''tenant_id'' = jget matter ''tenant_id''" by blast
  with assms(2) show "getDocketEntry (jget row ''tenant_id'') (jget row ''matter_id'') k s = Inr (Some row)"
    by (simp add: getDocketEntry_def scopedGet_Inr)
qed

lemma docket_read:
  "case_inv L s \<Longrightarrow> getDocketEntry t m k s = Inr (Some row) \<longleftrightarrow>
     mget (rt_byId (cs_docket s)) k = Some row \<and> jget row ''matter_id'' = m \<and> jget row ''tenant_id'' = t"
  using table_row(3) by (auto simp: getDocketEntry_def scopedGet_Inr)

lemma confirm_again:
  assumes "confirmDocketEntry L ci k opts s = (Inr c, s1)" and "mget (rt_index (cs_docket s')) k = Some m"
    and "mget (rt_byId (cs_docket s')) k = Some entry" and "existingConfirmation (cs_deadline s') entry = Some d"
  shows "confirmDocketEntry L ci' k opts s' = (Inr \<lparr>cr_entry = entry, cr_deadline = d, cr_idempotent = True\<rparr>, s')"
proof -
  from assms(1) obtain p where "prepareConfirmDocketEntry L ci (cs_docket s) (cs_deadline s) k opts (log_get (cs_audit s)) = Inr p"
    by (auto simp: confirmDocketEntry_def split: sum.splits)
  then have "nonempty_string k" "nonempty_string (co_confirmation_actor_user_id opts)" "nonempty_string (co_confirmed_at opts)"
    "nonempty_string (co_deadline_id opts)" by (auto simp: prepareConfirmDocketEntry_def result_simps)
  then have "prepareConfirmDocketEntry L ci' (cs_docket s') (cs_deadline s') k opts (log_get (cs_audit s')) =
      Inr \<lparr>pc_idempotent = True, pc_entry = entry, pc_deadline = d, pc_audits = [], pc_matterId = m\<rparr>"
    using assms(2-4) by (simp add: prepareConfirmDocketEntry_def check_def lookupEntity_def)
  then show ?thesis by (simp add: confirmDocketEntry_def)
qed

lemma confirmed_deadline:
  assumes "case_inv L s" and "mget (rt_byId (cs_docket s)) k = Some e" and "existingConfirmation (cs_deadline s) e = Some d"
  shows "jget e ''confirmation_state'' = JStr ''confirmed''" "mget (rt_byId (cs_deadline s)) (jget e ''confirmed_deadline_id'') = Some d"
    "materialized e d" "mget (rt_index (cs_docket s)) k = Some (jget e ''matter_id'')"
proof -
  from assms(3) show e: "jget e ''confirmation_state'' = JStr ''confirmed''"
    "mget (rt_byId (cs_deadline s)) (jget e ''confirmed_deadline_id'') = Some d" by (auto simp: existingConfirmation_def split: if_splits)
  from assms(1) have ok: "entity_table_ok (cs_docket s)" "docket_backed (cs_docket s) (cs_deadline s)"
    by (simp_all add: case_inv_def tables_ok_def)
  from ok(2) assms(2) e show "materialized e d" unfolding docket_backed_def by (metis option.inject)
  from entity_lookup(1,2) [OF ok(1) assms(2)] ok(1) show "mget (rt_index (cs_docket s)) k = Some (jget e ''matter_id'')"
    unfolding entity_table_ok_def indexed_table_ok_def by blast
qed

text \<open>C20. A confirmation is all or nothing: refused, it changes nothing; accepted, the entry it returns is stored
  as confirmed and its deadline as pending, with the entry's kind, due date and owner, and the matter's log
  grows by exactly two events; and the same call again returns both records and changes nothing.\<close>

theorem confirmation_is_atomic:
  assumes "case_lib_ok L" and "case_reachable L s" and "confirmDocketEntry L ci k opts s = (r, s')"
  shows "case r of
      Inl e \<Rightarrow> s' = s
    | Inr c \<Rightarrow> mget (rt_byId (cs_docket s')) k = Some (cr_entry c) \<and> jget (cr_entry c) ''confirmation_state'' = JStr ''confirmed'' \<and>
        mget (rt_byId (cs_deadline s')) (jget (cr_entry c) ''confirmed_deadline_id'') = Some (cr_deadline c) \<and>
        materialized (cr_entry c) (cr_deadline c) \<and>
        length (log_get (cs_audit s') (jget (cr_entry c) ''matter_id'')) =
          length (log_get (cs_audit s) (jget (cr_entry c) ''matter_id'')) + (if cr_idempotent c then 0 else 2) \<and>
        (\<not> cr_idempotent c \<longrightarrow> jget (cr_deadline c) ''status'' = JStr ''pending'') \<and>
        confirmDocketEntry L ci' k opts s' = (Inr (c\<lparr>cr_idempotent := True\<rparr>), s')"
proof (cases r)
  case (Inr c)
  have inv: "case_inv L s" by (rule case_reachable_inv [OF assms(1,2)])
  note run = confirmDocketEntry_run [OF assms(1) inv assms(3)]
  then have inv': "case_inv L s'" by simp
  from run Inr obtain prior where prior: "mget (rt_byId (cs_docket s)) k = Some prior" by auto
  have "mget (rt_byId (cs_docket s')) k = Some (cr_entry c) \<and> existingConfirmation (cs_deadline s') (cr_entry c) = Some (cr_deadline c) \<and>
    length (log_get (cs_audit s') (jget (cr_entry c) ''matter_id'')) =
      length (log_get (cs_audit s) (jget (cr_entry c) ''matter_id'')) + (if cr_idempotent c then 0 else 2) \<and>
    (\<not> cr_idempotent c \<longrightarrow> jget (cr_deadline c) ''status'' = JStr ''pending'')"
  proof (cases "cr_idempotent c")
    case True
    with run Inr prior show ?thesis by simp
  next
    case False
    with run Inr prior obtain a ev1 ev2 where c: "jget prior ''confirmation_state'' = JStr ''proposed''" "cr_entry c = confirmedEntry prior opts"
      "cr_deadline c = buildDeadlineRowFromDocketEntry (cr_entry c) (co_deadline_id opts) (co_confirmation_actor_user_id opts)"
      "log_get a (jget prior ''matter_id'') = log_get (cs_audit s) (jget prior ''matter_id'') @ [ev1, ev2]"
      "s' = s\<lparr>cs_docket := putEntity (jget prior ''matter_id'') k (cr_entry c) (cs_docket s),
              cs_deadline := pushEntity (jget prior ''matter_id'') (cr_deadline c) (cs_deadline s), cs_audit := a\<rparr>" by auto
    from c(1) obtain kvs where "prior = JObj kvs" by (cases prior) auto
    with c(2) have e: "jget (cr_entry c) ''confirmation_state'' = JStr ''confirmed''"
      "jget (cr_entry c) ''confirmed_deadline_id'' = co_deadline_id opts" by (simp_all add: confirmedEntry_fields)
    have m: "jget (cr_entry c) ''matter_id'' = jget prior ''matter_id''" using c(2) by (simp add: confirmedEntry_other)
    have d: "jget (cr_deadline c) ''id'' = co_deadline_id opts" "jget (cr_deadline c) ''status'' = JStr ''pending''"
      by (simp_all add: c(3) built_deadline)
    have s': "mget (rt_byId (cs_docket s')) k = Some (cr_entry c)" using c(5) by simp
    have "docket_backed (cs_docket s') (cs_deadline s')" using inv' by (simp add: case_inv_def tables_ok_def)
    with s' e have "nonempty_string (co_deadline_id opts)" unfolding docket_backed_def by metis
    with s' c(4,5) e d m False show ?thesis by (simp add: existingConfirmation_def)
  qed
  then have c: "mget (rt_byId (cs_docket s')) k = Some (cr_entry c)" "existingConfirmation (cs_deadline s') (cr_entry c) = Some (cr_deadline c)"
    and rest: "length (log_get (cs_audit s') (jget (cr_entry c) ''matter_id'')) =
      length (log_get (cs_audit s) (jget (cr_entry c) ''matter_id'')) + (if cr_idempotent c then 0 else 2)"
      "\<not> cr_idempotent c \<longrightarrow> jget (cr_deadline c) ''status'' = JStr ''pending''" by blast+
  note d = confirmed_deadline [OF inv' c]
  have "confirmDocketEntry L ci' k opts s' = (Inr (c\<lparr>cr_idempotent := True\<rparr>), s')"
    using confirm_again [OF assms(3) [unfolded Inr] d(4) c, of ci'] by simp
  with c(1) d rest Inr show ?thesis by simp
qed (use confirmDocketEntry_run [OF assms(1) case_reachable_inv [OF assms(1,2)] assms(3)] in simp)

theorem confirmation_is_atomic_witness:
  "materialized exConfirmed exDeadline \<and>
   confirmDocketEntry exCaseLib (exInputsCase ''z'') (JStr ''e1'') exConfirm exDocket2 =
     (Inr \<lparr>cr_entry = exConfirmed, cr_deadline = exDeadline, cr_idempotent = True\<rparr>, exDocket2)"
proof -
  have "confirmDocketEntry exCaseLib (exInputsCase ''e'') (JStr ''e1'') exConfirm exDocket1 =
      (Inr \<lparr>cr_entry = exConfirmed, cr_deadline = exDeadline, cr_idempotent = False\<rparr>, exDocket2)"
    by (simp add: prod_eq_iff exConfirm_runs exDocket2_def)
  from confirmation_is_atomic [OF exCaseLib_ok exDocket1_reachable this, of "exInputsCase ''z''"]
  show ?thesis by simp
qed

text \<open>C21. Every confirmed docket entry that a read returns has its deadline: the same reader finds, under the id
  the entry names, a deadline with the entry's kind, due date and owner; and the entry carried a due time,
  not a bare date.\<close>

theorem confirmed_entries_have_their_deadline:
  assumes "case_lib_ok L" and "case_reachable L s" and "getDocketEntry t m k s = Inr (Some entry)"
    and "jget entry ''confirmation_state'' = JStr ''confirmed''"
  shows "jget entry ''proposed_due_at_kind'' \<noteq> JStr ''date_only'' \<and>
    (\<exists>d. getDeadline t m (jget entry ''confirmed_deadline_id'') s = Inr (Some d) \<and>
      jget d ''kind'' = jget entry ''proposed_kind'' \<and> jget d ''due_at'' = jget entry ''proposed_due_at'' \<and>
      jget d ''owner_user_id'' = jget entry ''proposed_owner_user_id'')"
proof -
  from case_reachable_inv [OF assms(1,2)] have "docket_backed (cs_docket s) (cs_deadline s)" by (simp add: case_inv_def tables_ok_def)
  moreover from assms(3) have e: "mget (rt_byId (cs_docket s)) k = Some entry" "jget entry ''matter_id'' = m" "jget entry ''tenant_id'' = t"
    "\<exists>matter. mget (cs_matters s) m = Some matter \<and> jget matter ''tenant_id'' = t" by (auto simp: getDocketEntry_def scopedGet_Inr)
  ultimately obtain d where "jget entry ''proposed_due_at_kind'' \<noteq> JStr ''date_only''"
    "mget (rt_byId (cs_deadline s)) (jget entry ''confirmed_deadline_id'') = Some d" "materialized entry d"
    using assms(4) unfolding docket_backed_def by blast
  with e show ?thesis by (simp add: getDeadline_def scopedGet_Inr materialized_def)
qed

theorem confirmed_entries_have_their_deadline_witness:
  "\<exists>d. getDeadline (JStr ''t1'') (JStr ''m1'') (JStr ''x1'') exDocket2 = Inr (Some d) \<and>
     jget d ''due_at'' = JStr ''2026-03-01T09:00:00.000Z''"
proof -
  have "getDocketEntry (JStr ''t1'') (JStr ''m1'') (JStr ''e1'') exDocket2 = Inr (Some exConfirmed)"
    using exDocket2_tables by (simp add: getDocketEntry_def scopedGet_Inr exConfirmed_value exEntryAt_fields exMatter1_def exMatter_def)
  from confirmed_entries_have_their_deadline [OF exCaseLib_ok exDocket2_reachable this]
  show ?thesis by (auto simp: exConfirmed_value exEntryAt_def)
qed

text \<open>An edit of a docket entry is refused with nothing changed, or finds the entry in the caller's own matter
  and tenant, still proposed, and changes no field outside the editable ones: not its state, its source,
  nor any decision about it.\<close>

theorem docket_edit_changes_only_content:
  assumes "case_lib_ok L" and "case_reachable L s" and "editDocketEntry L ci opts s = (r, s')"
  shows "case r of
      Inl e \<Rightarrow> s' = s
    | Inr nx \<Rightarrow> \<exists>prior. getDocketEntry (ed_tenant_id opts) (ed_matter_id opts) (ed_entry_id opts) s = Inr (Some prior) \<and>
        getDocketEntry (ed_tenant_id opts) (ed_matter_id opts) (ed_entry_id opts) s' = Inr (Some nx) \<and>
        jget prior ''confirmation_state'' = JStr ''proposed'' \<and>
        (\<forall>f. f \<notin> set EDITABLE_DOCKET_ENTRY_FIELDS \<longrightarrow> jget nx f = jget prior f)"
proof -
  have inv: "case_inv L s" by (rule case_reachable_inv [OF assms(1,2)])
  note run = editDocketEntry_run [OF assms(1) inv assms(3)]
  then have inv': "case_inv L s'" by simp
  show ?thesis
  proof (cases r)
    case (Inr nx)
    with run obtain prior a where p: "mget (rt_byId (cs_docket s)) (ed_entry_id opts) = Some prior" "nx = editedEntry ci prior opts"
      "jget prior ''confirmation_state'' = JStr ''proposed''" "jget prior ''tenant_id'' = ed_tenant_id opts"
      "jget prior ''matter_id'' = ed_matter_id opts"
      "s' = s\<lparr>cs_docket := putEntity (ed_matter_id opts) (ed_entry_id opts) nx (cs_docket s), cs_audit := a\<rparr>" by auto
    have f: "jget nx f = jget prior f" if "f \<notin> set EDITABLE_DOCKET_ENTRY_FIELDS" for f
      using editedEntry_other [OF that] p(2) by simp
    then have "jget nx ''tenant_id'' = ed_tenant_id opts" "jget nx ''matter_id'' = ed_matter_id opts"
      using p(4,5) by (simp_all add: EDITABLE_DOCKET_ENTRY_FIELDS_def)
    moreover have "mget (rt_byId (cs_docket s')) (ed_entry_id opts) = Some nx" using p(6) by simp
    ultimately show ?thesis unfolding Inr sum.case docket_read [OF inv] docket_read [OF inv'] using p(1,3-5) f by blast
  qed (use run in simp)
qed

theorem docket_edit_changes_only_content_witness:
  "\<exists>s'. getDocketEntry (JStr ''t1'') (JStr ''m1'') (JStr ''e1'') s' = Inr (Some exEdited) \<and>
     jget exEdited ''confirmation_state'' = jget exEntry ''confirmation_state''"
proof -
  have "editDocketEntry exCaseLib (exInputsCase ''k'') exEditEntry exDocket1 =
      (Inr exEdited, snd (editDocketEntry exCaseLib (exInputsCase ''k'') exEditEntry exDocket1))"
    by (simp add: prod_eq_iff exEdit_entry_runs)
  from docket_edit_changes_only_content [OF exCaseLib_ok exDocket1_reachable this]
  have "getDocketEntry (JStr ''t1'') (JStr ''m1'') (JStr ''e1'')
      (snd (editDocketEntry exCaseLib (exInputsCase ''k'') exEditEntry exDocket1)) = Inr (Some exEdited)"
    by (auto simp: exEditEntry_def)
  then show ?thesis by (auto simp: exEdited_value exEntry_def exEntryAt_def)
qed

subsection \<open>Privilege\<close>

lemma lifecycle_of_row:
  "case_inv L s \<Longrightarrow> row \<in> stored_rows s k m \<Longrightarrow>
   lifecycle_ok k row (entity_events (entity_name k) (key_of k row) (log_get (cs_audit s) m))"
  using stored_row by blast

lemma ex_document_target:
  assumes "cs_documents s = cs_documents exCase2" and "mget (cs_matters s) (JStr ''m1'') = Some exMatter1"
  shows "requireDocumentTarget reader (JStr ''t1'') (JStr ''m1'') (JStr ''document'') (JStr ''d1'') s = Inr ()"
proof -
  from exCase2_document obtain m where "mget (cs_documents exCase2) (JStr ''d1'') = Some (exDocument, m)"
    by (auto simp: getDocument_def)
  with assms show ?thesis
    by (simp add: requireDocumentTarget_def requireMatterScope_def check_def exDocument_def exMatter1_def exMatter_def)
qed

text \<open>C22. At most one confirmed marker of a kind stands on a document: in every reachable state the kinds of the
  active markers that \<open>getPrivilegeStatus\<close> reports are distinct, and each of those markers is stored
  under the queried matter and tenant, its last announced status being its confirmation.\<close>

theorem one_confirmed_marker:
  assumes "case_lib_ok L" and "case_reachable L s" and "getPrivilegeStatus t m targetType targetId s = Inr p"
  shows "distinct (map (\<lambda>r. jget r ''kind'') (pr_activeConfirmedMarkers p)) \<and>
    (\<forall>r\<in>set (pr_activeConfirmedMarkers p). jget r ''matter_id'' = m \<and> jget r ''tenant_id'' = t \<and>
       last (statuses (entity_events ''privilege_marker'' (jget r ''id'') (log_get (cs_audit s) m))) = ''confirmed'')"
proof -
  have inv: "case_inv L s" by (rule case_reachable_inv [OF assms(1,2)])
  then have ok: "row_table_ok (cs_privilege s)" "one_confirmed (cs_privilege s)"
    by (simp_all add: case_inv_def tables_ok_def indexed_table_ok_def)
  from assms(3) obtain matter where matter: "mget (cs_matters s) m = Some matter" "jget matter ''tenant_id'' = t"
    by (auto simp: getPrivilegeStatus_def requireDocumentTarget_def requireMatterScope_def result_simps split: option.splits if_splits)
  let ?active = "filter (has_status ''confirmed'') (filter (targets targetType targetId) (rows_of (cs_privilege s) m))"
  have active: "pr_activeConfirmedMarkers p = ?active"
    using assms(3) by (auto simp: getPrivilegeStatus_def getEffectivePrivilege_def effectivePrivilegeStatus_def Let_def result_simps)
  have "distinct (map (\<lambda>r. jget r ''id'') (rows_of (cs_privilege s) m))" using ok(1) by (simp add: row_table_ok_def)
  then have "distinct (rows_of (cs_privilege s) m)" by (simp add: distinct_map)
  moreover have "inj_on (\<lambda>r. jget r ''kind'') (set ?active)"
    using ok(2) unfolding one_confirmed_def inj_on_def by (auto simp: targets_def)
  ultimately have "distinct (map (\<lambda>r. jget r ''kind'') ?active)" by (simp add: distinct_map)
  moreover have "jget r ''matter_id'' = m \<and> jget r ''tenant_id'' = t \<and>
      last (statuses (entity_events ''privilege_marker'' (jget r ''id'') (log_get (cs_audit s) m))) = ''confirmed''" if "r \<in> set ?active" for r
  proof -
    from that have r: "r \<in> stored_rows s E_privilege m" "has_status ''confirmed'' r" by auto
    have "jget r ''matter_id'' = m" using row_table_okD(1) [OF ok(1), of r m] r(1) by simp
    moreover have "jget r ''tenant_id'' = t" using stored_tenant [OF inv r(1) matter(1)] matter(2) by simp
    moreover have "lifecycle_ok E_privilege r (entity_events ''privilege_marker'' (jget r ''id'') (log_get (cs_audit s) m))"
      using lifecycle_of_row [OF inv r(1)] by (simp add: key_of_def)
    ultimately show ?thesis using r(2) by (simp add: lifecycle_ok_def has_status_def)
  qed
  ultimately show ?thesis unfolding active by blast
qed

theorem one_confirmed_marker_witness:
  "\<exists>p. getPrivilegeStatus (JStr ''t1'') (JStr ''m1'') (JStr ''document'') (JStr ''d1'') exPriv2 = Inr p \<and>
    last (statuses (entity_events ''privilege_marker'' (JStr ''k1'') (log_get (cs_audit exPriv2) (JStr ''m1'')))) = ''confirmed''"
proof -
  let ?p = "effectivePrivilegeStatus (JStr ''document'') (JStr ''d1'') [exMarkerC]"
  have "getPrivilegeStatus (JStr ''t1'') (JStr ''m1'') (JStr ''document'') (JStr ''d1'') exPriv2 = Inr ?p"
    using ex_document_target [OF exPriv2_tables(3,1)] by (simp add: getPrivilegeStatus_def getEffectivePrivilege_def exPriv2_tables(2))
  moreover have "exMarkerC \<in> set (pr_activeConfirmedMarkers ?p)"
    by (simp add: effectivePrivilegeStatus_def Let_def targets_def has_status_def exMarkerC_value)
  ultimately show ?thesis using one_confirmed_marker [OF exCaseLib_ok exPriv2_reachable] by (force simp: exMarkerC_value)
qed

subsection \<open>Confidentiality\<close>

text \<open>C23. The three computations of a document's level agree in every reachable state: the sort behind
  \<open>getEffectiveClassification\<close>, the contract's resolver with its own comparator, and the loop the append
  checks a new row against, whenever the rows of the target carry textual time stamps and ids.\<close>

theorem classification_resolvers_agree:
  assumes "case_lib_ok L" and "case_reachable L s" and "getEffectiveClassification t m targetType targetId s = Inr (level, history)"
    and "\<forall>row\<in>set (rows_of (cs_classification s) m). classifies targetType targetId row \<longrightarrow> stamped row"
  shows "level = effectiveConfidentialityLevel targetType targetId (rows_of (cs_classification s) m) \<and>
    level = (case findLatestForTarget (cs_classification s) m targetType targetId of
      None \<Rightarrow> JStr ''unclassified'' | Some row \<Rightarrow> jget row ''level'')"
proof -
  have "row_table_ok (cs_classification s)" using case_reachable_inv [OF assms(1,2)] by (simp add: case_inv_def tables_ok_def)
  then have "distinct (map (\<lambda>r. jget r ''id'') (rows_of (cs_classification s) m))" by (simp add: row_table_ok_def)
  note agree = levels_agree [OF assms(4) this]
  from assms(3) have "(level, history) = computeEffectiveLevel (cs_classification s) m targetType targetId"
    by (auto simp: getEffectiveClassification_def result_simps)
  then have "level = fst (computeEffectiveLevel (cs_classification s) m targetType targetId)" by (metis fst_conv)
  with agree show ?thesis by simp
qed

theorem classification_resolvers_agree_witness:
  "effectiveConfidentialityLevel (JStr ''document'') (JStr ''d1'') (rows_of (cs_classification exClass1) (JStr ''m1'')) = JStr ''confidential''"
proof -
  let ?row = "exClassify ''c1'' JNull ''confidential'' JNull ''2026-01-01''"
  have rows: "rows_of (cs_classification exClass1) (JStr ''m1'') = [?row]" by (simp add: exClass1_tables)
  have "getEffectiveClassification (JStr ''t1'') (JStr ''m1'') (JStr ''document'') (JStr ''d1'') exClass1 = Inr (JStr ''confidential'', [?row])"
    using ex_document_target [OF exClass1_tables(3,1)]
    by (simp add: getEffectiveClassification_def computeEffectiveLevel_def rows classifies_def exClassify_fields sort_by_def)
  from classification_resolvers_agree [OF exCaseLib_ok exClass1_reachable this] show ?thesis
    by (simp add: rows stamped_iff exClassify_fields)
qed

text \<open>C24. A level is never lowered without a reason: when the new level is below the document's latest one, or
  resets it to unclassified, and no reason code is given, the append is refused and nothing changes,
  whatever prior level the input claims.\<close>

theorem lowering_a_level_needs_a_reason:
  assumes "case_lib_ok L" and "case_reachable L s"
    and "findLatestForTarget (cs_classification s) (jget input ''matter_id'') (jget input ''target_type'') (jget input ''target_id'') = Some row"
    and "isDowngrade (jget row ''level'') (jget input ''level'') \<or> isResetToUnclassified (jget row ''level'') (jget input ''level'')"
    and "jget input ''change_reason_code'' = JNull"
  shows "\<exists>e. appendClassification L ci input s = (Inl e, s)"
proof -
  obtain r s' where run: "appendClassification L ci input s = (r, s')" by fastforce
  note w = appendClassification_run [OF assms(1) case_reachable_inv [OF assms(1,2)] run]
  show ?thesis
  proof (cases r)
    case (Inl e)
    with w run show ?thesis by simp
  next
    case (Inr x)
    have "x = input" "assertValidNewConfidentialityClassification x
      (findLatestForTarget (cs_classification s) (jget x ''matter_id'') (jget x ''target_type'') (jget x ''target_id'')) = Inr ()"
      using w unfolding Inr sum.case by blast+
    with assms(3-5) show ?thesis
      by (auto simp: assertValidNewConfidentialityClassification_def assertValidConfidentialityTransition_def result_simps)
  qed
qed

theorem lowering_a_level_needs_a_reason_witness:
  "\<exists>e. appendClassification exCaseLib (exInputsCase ''w'')
     (exClassify ''c2'' (JStr ''confidential'') ''normal'' JNull ''2026-01-02'') exClass1 = (Inl e, exClass1)"
proof (rule lowering_a_level_needs_a_reason [OF exCaseLib_ok exClass1_reachable])
  show "findLatestForTarget (cs_classification exClass1)
      (jget (exClassify ''c2'' (JStr ''confidential'') ''normal'' JNull ''2026-01-02'') ''matter_id'')
      (jget (exClassify ''c2'' (JStr ''confidential'') ''normal'' JNull ''2026-01-02'') ''target_type'')
      (jget (exClassify ''c2'' (JStr ''confidential'') ''normal'' JNull ''2026-01-02'') ''target_id'') =
    Some (exClassify ''c1'' JNull ''confidential'' JNull ''2026-01-01'')"
    by (simp add: findLatestForTarget_def exClass1_tables exClassify_fields later_of_def classifies_def)
qed (simp_all add: exClassify_fields isDowngrade_def LATTICE_ORDINAL_def)

lemma effective_level_cases:
  assumes "\<forall>row\<in>set rows. jget row ''level'' \<in> JStr ` set CONFIDENTIALITY_LEVELS"
  shows "effectiveConfidentialityLevel tt ti rows \<in> JStr ` set CONFIDENTIALITY_LEVELS"
proof (cases "filter (classifies tt ti) rows = []")
  case False
  let ?xs = "filter (classifies tt ti) rows"
  have "sort_by (\<lambda>a b. compareSetAt a b \<le> 0) ?xs \<noteq> []" using False by (metis set_empty set_sort_by)
  then have "hd (sort_by (\<lambda>a b. compareSetAt a b \<le> 0) ?xs) \<in> set ?xs" by (metis hd_in_set set_sort_by)
  then show ?thesis using assms False by (auto simp: effectiveConfidentialityLevel_def Let_def)
qed (simp add: effectiveConfidentialityLevel_def CONFIDENTIALITY_LEVELS_def)

abbreviation handled_level :: "AssertExternalHandlingInput \<Rightarrow> jval" where
  "handled_level i \<equiv> effectiveConfidentialityLevel (ah_targetType i) (ah_targetId i) (ah_classifications i)"

text \<open>C25. External handling of a document is allowed exactly for a known action with its own opt-in when nothing on
  the deny lists applies: the effective level (the latest classification of the document, \<open>unclassified\<close> when it has
  none) is none of the four that deny, the matter is neither sealed nor heightened, and the privilege review state is
  none of the three that deny. So an unclassified document is refused, and a refusal always names a reason. Any
  other value passes a deny list, known or not, a missing one included; when every row has one of the
  five levels of the contract, the level that passes is \<open>normal\<close> alone.\<close>

theorem external_handling_needs_everything:
  "(hd_allowed (assertExternalHandlingAllowed i) \<longleftrightarrow>
      ah_externalAction i \<in> set KNOWN_EXTERNAL_ACTIONS \<and> optInForAction i \<and>
      handled_level i \<notin> JStr ` {''unclassified'', ''confidential'', ''highly_confidential'', ''restricted''} \<and>
      jget (ah_matter i) ''confidentiality_class'' \<notin> JStr ` {''sealed'', ''heightened''} \<and>
      ah_privilegeReviewState i \<notin> JStr ` {''not_reviewed'', ''privileged_protected'', ''privileged_with_waiver''}) \<and>
    (hd_allowed (assertExternalHandlingAllowed i) \<longleftrightarrow> hd_denialReasons (assertExternalHandlingAllowed i) = []) \<and>
    ((\<forall>row\<in>set (ah_classifications i). jget row ''level'' \<in> JStr ` set CONFIDENTIALITY_LEVELS) \<longrightarrow>
      hd_allowed (assertExternalHandlingAllowed i) \<longrightarrow> handled_level i = JStr ''normal'')"
proof -
  have allowed: "hd_allowed (assertExternalHandlingAllowed i) \<longleftrightarrow>
      ah_externalAction i \<in> set KNOWN_EXTERNAL_ACTIONS \<and> optInForAction i \<and>
      handled_level i \<notin> JStr ` {''unclassified'', ''confidential'', ''highly_confidential'', ''restricted''} \<and>
      jget (ah_matter i) ''confidentiality_class'' \<notin> JStr ` {''sealed'', ''heightened''} \<and>
      ah_privilegeReviewState i \<notin> JStr ` {''not_reviewed'', ''privileged_protected'', ''privileged_with_waiver''}"
    unfolding assertExternalHandlingAllowed_def Let_def
    by (cases "ah_externalAction i \<in> set KNOWN_EXTERNAL_ACTIONS") (auto simp: denialReasons_def push_if_def)
  moreover have "hd_allowed (assertExternalHandlingAllowed i) \<longleftrightarrow> hd_denialReasons (assertExternalHandlingAllowed i) = []"
    by (simp add: assertExternalHandlingAllowed_def Let_def)
  moreover have "handled_level i = JStr ''normal''"
    if "\<forall>row\<in>set (ah_classifications i). jget row ''level'' \<in> JStr ` set CONFIDENTIALITY_LEVELS" "hd_allowed (assertExternalHandlingAllowed i)"
    using effective_level_cases [OF that(1), of "ah_targetType i" "ah_targetId i"] that(2) allowed
    by (auto simp: CONFIDENTIALITY_LEVELS_def)
  ultimately show ?thesis by blast
qed

definition exHandling :: "string \<Rightarrow> AssertExternalHandlingInput" where
  "exHandling level = \<lparr>ah_matter = exMatter1, ah_classifications = [exClassify ''c1'' JNull level JNull ''2026-01-01''],
     ah_privilegeReviewState = JStr ''reviewed_no_privilege_applies'', ah_targetType = JStr ''document'', ah_targetId = JStr ''d1'',
     ah_externalAction = ''external_ocr'', ah_externalOcrAuthorized = True, ah_syncGrantPresent = False, ah_llmExtractionOptIn = False\<rparr>"

theorem external_handling_needs_everything_witness:
  "hd_allowed (assertExternalHandlingAllowed (exHandling ''normal'')) \<and>
   \<not> hd_allowed (assertExternalHandlingAllowed (exHandling ''confidential'')) \<and>
   \<not> hd_allowed (assertExternalHandlingAllowed ((exHandling ''normal'')\<lparr>ah_classifications := []\<rparr>)) \<and>
   hd_allowed (assertExternalHandlingAllowed (exHandling ''top_secret'')) \<and>
   hd_allowed (assertExternalHandlingAllowed ((exHandling ''normal'')\<lparr>ah_privilegeReviewState := JUndef\<rparr>)) \<and>
   effectiveConfidentialityLevel (JStr ''document'') (JStr ''d1'') (ah_classifications (exHandling ''normal'')) = JStr ''normal''"
proof -
  note iff = conjunct1 [OF external_handling_needs_everything]
  have allowed: "hd_allowed (assertExternalHandlingAllowed (exHandling level)) \<longleftrightarrow>
      level \<notin> {''unclassified'', ''confidential'', ''highly_confidential'', ''restricted''}" for level
    unfolding iff by (auto simp: exHandling_def KNOWN_EXTERNAL_ACTIONS_def optInForAction_def
        effectiveConfidentialityLevel_def classifies_def exClassify_fields sort_by_def exMatter1_def exMatter_def)
  moreover have "\<forall>row\<in>set (ah_classifications (exHandling ''normal'')). jget row ''level'' \<in> JStr ` set CONFIDENTIALITY_LEVELS"
    by (simp add: exHandling_def exClassify_fields CONFIDENTIALITY_LEVELS_def)
  moreover have "\<not> hd_allowed (assertExternalHandlingAllowed ((exHandling ''normal'')\<lparr>ah_classifications := []\<rparr>))"
    unfolding iff by (simp add: effectiveConfidentialityLevel_def Let_def)
  moreover have "hd_allowed (assertExternalHandlingAllowed ((exHandling ''normal'')\<lparr>ah_privilegeReviewState := JUndef\<rparr>))"
    unfolding iff by (auto simp: exHandling_def KNOWN_EXTERNAL_ACTIONS_def optInForAction_def
        effectiveConfidentialityLevel_def classifies_def exClassify_fields sort_by_def exMatter1_def exMatter_def)
  ultimately show ?thesis
    using conjunct2 [OF conjunct2 [OF external_handling_needs_everything [of "exHandling ''normal''"]]]
    by (simp add: exHandling_def)
qed

end
