(* ===== verification/CaseBoxPaging.thy ===== *)
theory CaseBoxPaging
  imports CaseBoxStore OcrPaging
begin

text \<open>
  The paged lists of the case box: \<open>services/case-box-persistence/src/cursor.ts\<close>, a local copy of the OCR store's
  cursor module with ten kinds of list and a shape for each kind's sort tuple, and the list functions of
  the entity modules. They all filter, sort, drop what the cursor has passed, and cut at the limit; that
  body is \<open>casePage\<close>. The limit and the hash of the filters are computed as in the OCR store.
\<close>

subsection \<open>Cursors\<close>

datatype CaseBoxCursorKind =
    DocumentsByMatter | AuditEventsByMatter | ClassificationsByMatter | PrivilegeMarkersByMatter | FactsByMatter
  | DocketEntriesByMatter | EvidenceItemsByMatter | OcrLinksByMatter | MattersByTenant | DeadlinesByMatter

fun case_kind_str :: "CaseBoxCursorKind \<Rightarrow> string" where
  "case_kind_str DocumentsByMatter = ''documents_by_matter''"
| "case_kind_str AuditEventsByMatter = ''audit_events_by_matter''"
| "case_kind_str ClassificationsByMatter = ''classifications_by_matter''"
| "case_kind_str PrivilegeMarkersByMatter = ''privilege_markers_by_matter''"
| "case_kind_str FactsByMatter = ''facts_by_matter''"
| "case_kind_str DocketEntriesByMatter = ''docket_entries_by_matter''"
| "case_kind_str EvidenceItemsByMatter = ''evidence_items_by_matter''"
| "case_kind_str OcrLinksByMatter = ''ocr_links_by_matter''"
| "case_kind_str MattersByTenant = ''matters_by_tenant''"
| "case_kind_str DeadlinesByMatter = ''deadlines_by_matter''"

definition case_cursor_kinds :: "CaseBoxCursorKind list" where
  "case_cursor_kinds =
     [DocumentsByMatter, AuditEventsByMatter, ClassificationsByMatter, PrivilegeMarkersByMatter, FactsByMatter,
      DocketEntriesByMatter, EvidenceItemsByMatter, OcrLinksByMatter, MattersByTenant, DeadlinesByMatter]"

fun tuple_shape :: "CaseBoxCursorKind \<Rightarrow> string" where
  "tuple_shape DocumentsByMatter = ''[received_at:string, id:string]''"
| "tuple_shape AuditEventsByMatter = ''[sequence:integer]''"
| "tuple_shape ClassificationsByMatter = ''[set_at:string, id:string]''"
| "tuple_shape PrivilegeMarkersByMatter = ''[proposed_at:string, id:string]''"
| "tuple_shape FactsByMatter = ''[created_at:string, id:string]''"
| "tuple_shape DocketEntriesByMatter = ''[proposed_at:string, id:string]''"
| "tuple_shape EvidenceItemsByMatter = ''[created_at:string, id:string]''"
| "tuple_shape OcrLinksByMatter = ''[last_seen_at:string, document_id:string]''"
| "tuple_shape MattersByTenant = ''[created_at:string, id:string]''"
| "tuple_shape DeadlinesByMatter = ''[due_at:string, id:string]''"

definition tuple_fits :: "CaseBoxCursorKind \<Rightarrow> jval list \<Rightarrow> bool" where
  "tuple_fits kind tuple =
     (if kind = AuditEventsByMatter then length tuple = 1 \<and> (case hd tuple of JInt _ \<Rightarrow> True | _ \<Rightarrow> False)
      else length tuple = 2 \<and> is_str (tuple ! 0) \<and> is_str (tuple ! 1))"

definition caseResolveLimit :: "jval \<Rightarrow> case_exn + int" where
  "caseResolveLimit limit = rethrow Invalid_argument (resolveLimit limit)"

definition case_cursor_payload :: "CaseBoxCursorKind \<Rightarrow> string \<Rightarrow> jval list \<Rightarrow> jval" where
  "case_cursor_payload kind filters_hash last_sort_tuple = JObj
     [(''v'', JInt 1), (''kind'', JStr (case_kind_str kind)),
      (''filters_hash'', JStr filters_hash), (''last_sort_tuple'', JArr last_sort_tuple)]"

definition caseDecodeCursor :: "CursorCodec \<Rightarrow> string \<Rightarrow> CaseBoxCursorKind \<Rightarrow> string \<Rightarrow> case_exn + jval list" where
  "caseDecodeCursor C cursor kind filters_hash =
     (if cursor = [] then case_error Invalid_argument ''malformed cursor: not a non-empty string''
      else case cc_parse C (cc_fromBase64url C cursor) of
        None \<Rightarrow> case_error Invalid_argument ''malformed cursor: bad JSON''
      | Some p \<Rightarrow>
      if \<not> is_object p then case_error Invalid_argument ''malformed cursor: not an object''
      else if jget p ''v'' \<noteq> JInt 1
      then case_error Invalid_argument (''malformed cursor: unsupported version '' @ js_String (jget p ''v''))
      else if jget p ''kind'' \<notin> set (map (\<lambda>k. JStr (case_kind_str k)) case_cursor_kinds)
      then case_error Invalid_argument (''malformed cursor: invalid kind '' @ js_String (jget p ''kind''))
      else if jget p ''kind'' \<noteq> JStr (case_kind_str kind)
      then case_error Invalid_argument
             (''wrong-kind cursor: expected '' @ case_kind_str kind @ '', got '' @ js_String (jget p ''kind''))
      else if \<not> is_str (jget p ''filters_hash'')
      then case_error Invalid_argument ''malformed cursor: filters_hash not a string''
      else if jget p ''filters_hash'' \<noteq> JStr filters_hash
      then case_error Invalid_argument ''cursor filters_hash does not match current query filters''
      else (case jget p ''last_sort_tuple'' of
              JArr tuple \<Rightarrow>
                if tuple_fits kind tuple then Inr tuple
                else case_error Invalid_argument
                       (''malformed cursor: '' @ case_kind_str kind @ '' requires last_sort_tuple '' @ tuple_shape kind)
            | _ \<Rightarrow> case_error Invalid_argument ''malformed cursor: last_sort_tuple not an array''))"

lemma case_kind_str_inj: "case_kind_str k = case_kind_str k' \<longleftrightarrow> k = k'"
  by (cases k; cases k') simp_all

lemma case_cursor_kinds_all: "k \<in> set case_cursor_kinds"
  by (cases k) (simp_all add: case_cursor_kinds_def)

lemma case_decode_encode:
  assumes "codec_ok C" and "\<forall>x\<in>set tuple. sound_json x" and "tuple_fits k tuple"
  shows "caseDecodeCursor C (encodeCursor C (case_cursor_payload k h tuple)) k' h' =
    (if k' \<noteq> k then case_error Invalid_argument
       (''wrong-kind cursor: expected '' @ case_kind_str k' @ '', got '' @ case_kind_str k)
     else if h' \<noteq> h then case_error Invalid_argument ''cursor filters_hash does not match current query filters''
     else Inr tuple)"
proof -
  define p where "p = case_cursor_payload k h tuple"
  have "sound_json p" using assms(2) by (simp add: p_def case_cursor_payload_def)
  then have parse: "cc_parse C (stringify p) = Some p" using assms(1) by (simp add: codec_ok_def)
  have fields: "is_object p" "jget p ''v'' = JInt 1" "jget p ''kind'' = JStr (case_kind_str k)"
    "jget p ''filters_hash'' = JStr h" "jget p ''last_sort_tuple'' = JArr tuple"
    by (simp_all add: p_def case_cursor_payload_def is_object_def)
  have "stringify p \<noteq> []" by (simp add: p_def case_cursor_payload_def)
  then have wire: "encodeCursor C p \<noteq> []" "cc_fromBase64url C (encodeCursor C p) = stringify p"
    using assms(1) by (auto simp: codec_ok_def encodeCursor_def)
  have "JStr (case_kind_str k) \<in> set (map (\<lambda>k. JStr (case_kind_str k)) case_cursor_kinds)"
    using case_cursor_kinds_all [of k] by auto
  then show ?thesis unfolding p_def [symmetric]
    using assms(3) by (simp add: caseDecodeCursor_def wire parse fields case_kind_str_inj is_str_iff eq_commute [of k])
qed

subsection \<open>A page\<close>

text \<open>\<open>matched\<close> is the filtered and sorted list, \<open>after\<close> the test of a row against a cursor's tuple, \<open>tup\<close> the
  tuple of a row.\<close>

definition casePage ::
  "CursorCodec \<Rightarrow> CaseBoxCursorKind \<Rightarrow> (string \<times> jval) list \<Rightarrow> jval \<Rightarrow> string option \<Rightarrow>
   'r list \<Rightarrow> ('r \<Rightarrow> jval list \<Rightarrow> bool) \<Rightarrow> ('r \<Rightarrow> jval list) \<Rightarrow> case_exn + ('r list \<times> string option)" where
  "casePage C kind filters lim cursor matched after tup =
     bindR (caseResolveLimit lim) (\<lambda>limit.
     let filters_hash = computeFiltersHash C filters in
     bindR (case cursor of
              None \<Rightarrow> Inr None
            | Some c \<Rightarrow> bindR (caseDecodeCursor C c kind filters_hash) (\<lambda>t. Inr (Some t))) (\<lambda>tuple.
     let rows = (case tuple of None \<Rightarrow> matched | Some t \<Rightarrow> filter (\<lambda>r. after r t) matched);
         hasMore = nat limit < length rows;
         slice = (if hasMore then take (nat limit) rows else rows) in
     Inr (slice,
          if hasMore \<and> slice \<noteq> []
          then Some (encodeCursor C (case_cursor_payload kind filters_hash (tup (last slice))))
          else None)))"

text \<open>The two orders of the lists: by a key ascending or descending, ties by an id ascending.\<close>

definition chronological :: "(jval \<Rightarrow> jval) \<Rightarrow> string \<Rightarrow> jval \<Rightarrow> jval \<Rightarrow> int" where
  "chronological key idf a b =
     (if jless (key a) (key b) then - 1 else if jless (key b) (key a) then 1
      else if jless (jget a idf) (jget b idf) then - 1
      else if jless (jget b idf) (jget a idf) then 1 else 0)"

definition newestFirst :: "(jval \<Rightarrow> jval) \<Rightarrow> string \<Rightarrow> jval \<Rightarrow> jval \<Rightarrow> int" where
  "newestFirst key idf a b =
     (if jless (key a) (key b) then 1 else if jless (key b) (key a) then - 1
      else if jless (jget a idf) (jget b idf) then - 1
      else if jless (jget b idf) (jget a idf) then 1 else 0)"

definition laterThan :: "(jval \<Rightarrow> jval) \<Rightarrow> string \<Rightarrow> jval \<Rightarrow> jval list \<Rightarrow> bool" where
  "laterThan key idf row tuple =
     (let t = jnth tuple 0; tId = jnth tuple 1 in
      if jless t (key row) then True
      else if key row = t \<and> jless tId (jget row idf) then True else False)"

definition earlierThan :: "(jval \<Rightarrow> jval) \<Rightarrow> string \<Rightarrow> jval \<Rightarrow> jval list \<Rightarrow> bool" where
  "earlierThan key idf row tuple =
     (let t = jnth tuple 0; tId = jnth tuple 1 in
      if jless (key row) t then True
      else if key row = t \<and> jless tId (jget row idf) then True else False)"

definition sort_tuple :: "(jval \<Rightarrow> jval) \<Rightarrow> string \<Rightarrow> jval \<Rightarrow> jval list" where
  "sort_tuple key idf row = [key row, jget row idf]"

text \<open>\<open>row.field ?? ""\<close>, and an optional filter of a query.\<close>

definition stamp :: "string \<Rightarrow> jval \<Rightarrow> jval" where
  "stamp field row = or_default (jget row field) (JStr [])"

definition admits :: "jval \<Rightarrow> jval \<Rightarrow> bool" where
  "admits wanted v \<longleftrightarrow> wanted = JUndef \<or> v = wanted"

definition compareFactsChronological :: "jval \<Rightarrow> jval \<Rightarrow> int" where
  "compareFactsChronological = chronological (stamp ''created_at'') ''id''"

definition compareEvidenceChronological :: "jval \<Rightarrow> jval \<Rightarrow> int" where
  "compareEvidenceChronological = chronological (stamp ''created_at'') ''id''"

definition compareDocketEntriesChronological :: "jval \<Rightarrow> jval \<Rightarrow> int" where
  "compareDocketEntriesChronological = chronological (stamp ''proposed_at'') ''id''"

definition compareMarkersChronological :: "jval \<Rightarrow> jval \<Rightarrow> int" where
  "compareMarkersChronological = chronological (stamp ''proposed_at'') ''id''"

definition compareDeadlinesChronological :: "jval \<Rightarrow> jval \<Rightarrow> int" where
  "compareDeadlinesChronological = chronological (\<lambda>d. jget d ''due_at'') ''id''"

lemmas case_comparators = compareFactsChronological_def compareEvidenceChronological_def
  compareDocketEntriesChronological_def compareMarkersChronological_def compareDeadlinesChronological_def

subsection \<open>The queries\<close>

record PageQuery =
  pq_tenant_id :: jval
  pq_limit :: jval
  pq_cursor :: "string option"

record MatterPageQuery = PageQuery +
  pq_matter_id :: jval

record ListFactsQuery = MatterPageQuery +
  fq_status :: jval
  fq_source_type :: jval
  fq_source_document_id :: jval

record ListEvidenceItemsQuery = MatterPageQuery +
  vq_status :: jval
  vq_source_document_id :: jval

record ListDocketEntriesQuery = MatterPageQuery +
  eq_confirmation_state :: jval
  eq_source_type :: jval

record ListPrivilegeMarkersQuery = MatterPageQuery +
  mq_target_type :: jval
  mq_target_id :: jval
  mq_status :: jval
  mq_kind :: jval

record ListConfidentialityClassificationsQuery = MatterPageQuery +
  cq_target_type :: jval
  cq_target_id :: jval

record ListDeadlinesQuery = MatterPageQuery +
  dq_status :: jval
  dq_kind :: jval

record ListOcrLinksQuery = MatterPageQuery +
  lq_status_snapshot :: jval

record ListDocumentsQuery = MatterPageQuery +
  oq_status :: jval
  oq_doc_type :: jval

record ListMattersQuery = PageQuery +
  tq_status :: jval

type_synonym page = "jval list \<times> string option"

abbreviation scope_filters :: "'a MatterPageQuery_scheme \<Rightarrow> (string \<times> jval) list" where
  "scope_filters q \<equiv> [(''tenant_id'', pq_tenant_id q), (''matter_id'', pq_matter_id q)]"

abbreviation in_tenant :: "'a PageQuery_scheme \<Rightarrow> jval \<Rightarrow> bool" where
  "in_tenant q row \<equiv> jget row ''tenant_id'' = pq_tenant_id q"

definition source_document_known :: "document_map \<Rightarrow> jval \<Rightarrow> jval \<Rightarrow> jval \<Rightarrow> case_exn + unit" where
  "source_document_known documents tenant m d =
     (if d \<noteq> JUndef then resolveDocumentTarget documents tenant m d else Inr ())"

subsection \<open>The lists of the modules\<close>

definition fact_matches :: "ListFactsQuery \<Rightarrow> jval \<Rightarrow> bool" where
  "fact_matches q f \<longleftrightarrow> in_tenant q f \<and> admits (fq_status q) (jget f ''status'') \<and>
     admits (fq_source_type q) (jget f ''source_type'') \<and> admits (fq_source_document_id q) (jget f ''source_document_id'')"

definition matched_facts :: "ListFactsQuery \<Rightarrow> EntityTable \<Rightarrow> jval list" where
  "matched_facts q st = sort_by (\<lambda>a b. compareFactsChronological a b \<le> 0) (filter (fact_matches q) (rows_of st (pq_matter_id q)))"

definition listFactsImpl :: "CursorCodec \<Rightarrow> EntityTable \<Rightarrow> document_map \<Rightarrow> ListFactsQuery \<Rightarrow> case_exn + page" where
  "listFactsImpl C st documents q =
     bindR (source_document_known documents (pq_tenant_id q) (pq_matter_id q) (fq_source_document_id q)) (\<lambda>_.
     casePage C FactsByMatter
       (scope_filters q @ [(''status'', fq_status q), (''source_type'', fq_source_type q),
          (''source_document_id'', fq_source_document_id q)])
       (pq_limit q) (pq_cursor q) (matched_facts q st)
       (laterThan (stamp ''created_at'') ''id'') (sort_tuple (stamp ''created_at'') ''id''))"

definition evidence_matches :: "ListEvidenceItemsQuery \<Rightarrow> jval \<Rightarrow> bool" where
  "evidence_matches q e \<longleftrightarrow> in_tenant q e \<and> admits (vq_status q) (jget e ''status'') \<and>
     admits (vq_source_document_id q) (jget e ''source_document_id'')"

definition matched_evidence :: "ListEvidenceItemsQuery \<Rightarrow> EntityTable \<Rightarrow> jval list" where
  "matched_evidence q st =
     sort_by (\<lambda>a b. compareEvidenceChronological a b \<le> 0) (filter (evidence_matches q) (rows_of st (pq_matter_id q)))"

definition listEvidenceItemsImpl ::
  "CursorCodec \<Rightarrow> EntityTable \<Rightarrow> document_map \<Rightarrow> ListEvidenceItemsQuery \<Rightarrow> case_exn + page" where
  "listEvidenceItemsImpl C st documents q =
     bindR (source_document_known documents (pq_tenant_id q) (pq_matter_id q) (vq_source_document_id q)) (\<lambda>_.
     casePage C EvidenceItemsByMatter
       (scope_filters q @ [(''status'', vq_status q), (''source_document_id'', vq_source_document_id q)])
       (pq_limit q) (pq_cursor q) (matched_evidence q st)
       (laterThan (stamp ''created_at'') ''id'') (sort_tuple (stamp ''created_at'') ''id''))"

definition docket_matches :: "ListDocketEntriesQuery \<Rightarrow> jval \<Rightarrow> bool" where
  "docket_matches q e \<longleftrightarrow> in_tenant q e \<and> admits (eq_confirmation_state q) (jget e ''confirmation_state'') \<and>
     admits (eq_source_type q) (jget e ''source_type'')"

definition matched_docket :: "ListDocketEntriesQuery \<Rightarrow> EntityTable \<Rightarrow> jval list" where
  "matched_docket q st =
     sort_by (\<lambda>a b. compareDocketEntriesChronological a b \<le> 0) (filter (docket_matches q) (rows_of st (pq_matter_id q)))"

definition listDocketEntriesImpl :: "CursorCodec \<Rightarrow> EntityTable \<Rightarrow> ListDocketEntriesQuery \<Rightarrow> case_exn + page" where
  "listDocketEntriesImpl C st q =
     casePage C DocketEntriesByMatter
       (scope_filters q @ [(''confirmation_state'', eq_confirmation_state q), (''source_type'', eq_source_type q)])
       (pq_limit q) (pq_cursor q) (matched_docket q st)
       (laterThan (stamp ''proposed_at'') ''id'') (sort_tuple (stamp ''proposed_at'') ''id'')"

definition target_unambiguous :: "jval \<Rightarrow> jval \<Rightarrow> case_exn + unit" where
  "target_unambiguous targetType targetId =
     check (\<not> (targetId \<noteq> JUndef \<and> targetType = JUndef)) Invalid_argument
       ''target_id without target_type is ambiguous; supply target_type as well''"

definition marker_matches :: "ListPrivilegeMarkersQuery \<Rightarrow> jval \<Rightarrow> bool" where
  "marker_matches q m \<longleftrightarrow> in_tenant q m \<and> admits (mq_target_type q) (jget m ''target_type'') \<and>
     admits (mq_target_id q) (jget m ''target_id'') \<and> admits (mq_status q) (jget m ''status'') \<and>
     admits (mq_kind q) (jget m ''kind'')"

definition matched_markers :: "ListPrivilegeMarkersQuery \<Rightarrow> IndexedTable \<Rightarrow> jval list" where
  "matched_markers q st =
     sort_by (\<lambda>a b. compareMarkersChronological a b \<le> 0) (filter (marker_matches q) (rows_of st (pq_matter_id q)))"

definition listPrivilegeMarkersImpl :: "CursorCodec \<Rightarrow> IndexedTable \<Rightarrow> ListPrivilegeMarkersQuery \<Rightarrow> case_exn + page" where
  "listPrivilegeMarkersImpl C st q =
     bindR (target_unambiguous (mq_target_type q) (mq_target_id q)) (\<lambda>_.
     casePage C PrivilegeMarkersByMatter
       (scope_filters q @ [(''target_type'', mq_target_type q), (''target_id'', mq_target_id q), (''status'', mq_status q),
          (''kind'', mq_kind q)])
       (pq_limit q) (pq_cursor q) (matched_markers q st)
       (laterThan (stamp ''proposed_at'') ''id'') (sort_tuple (stamp ''proposed_at'') ''id''))"

definition classification_matches :: "ListConfidentialityClassificationsQuery \<Rightarrow> jval \<Rightarrow> bool" where
  "classification_matches q r \<longleftrightarrow> in_tenant q r \<and> admits (cq_target_type q) (jget r ''target_type'') \<and>
     admits (cq_target_id q) (jget r ''target_id'')"

definition matched_classifications :: "ListConfidentialityClassificationsQuery \<Rightarrow> RowTable \<Rightarrow> jval list" where
  "matched_classifications q st =
     sort_by (\<lambda>a b. chronological (\<lambda>r. jget r ''set_at'') ''id'' a b \<le> 0)
       (filter (classification_matches q) (rows_of st (pq_matter_id q)))"

definition listClassifications ::
  "CursorCodec \<Rightarrow> RowTable \<Rightarrow> ListConfidentialityClassificationsQuery \<Rightarrow> case_exn + page" where
  "listClassifications C st q =
     bindR (target_unambiguous (cq_target_type q) (cq_target_id q)) (\<lambda>_.
     casePage C ClassificationsByMatter
       (scope_filters q @ [(''target_type'', cq_target_type q), (''target_id'', cq_target_id q)])
       (pq_limit q) (pq_cursor q) (matched_classifications q st)
       (laterThan (\<lambda>r. jget r ''set_at'') ''id'') (sort_tuple (\<lambda>r. jget r ''set_at'') ''id''))"

text \<open>The links of a matter are found through its set of documents.\<close>

definition matter_links :: "OcrLinkState \<Rightarrow> jval \<Rightarrow> jval list" where
  "matter_links st m =
     List.map_filter (\<lambda>docId. mget (linksByDocumentId st) docId)
       (case mget (linksByMatter st) m of Some ds \<Rightarrow> ds | None \<Rightarrow> [])"

definition matched_links :: "ListOcrLinksQuery \<Rightarrow> OcrLinkState \<Rightarrow> jval list" where
  "matched_links q st =
     sort_by (\<lambda>a b. newestFirst (\<lambda>l. jget l ''last_seen_at'') ''document_id'' a b \<le> 0)
       (filter (\<lambda>l. admits (lq_status_snapshot q) (jget l ''status_snapshot'')) (matter_links st (pq_matter_id q)))"

definition listOcrLinks :: "CursorCodec \<Rightarrow> ListOcrLinksQuery \<Rightarrow> CaseBoxState \<Rightarrow> case_exn + page" where
  "listOcrLinks C q s =
     bindR (requireMatterScope (pq_tenant_id q) (pq_matter_id q) s) (\<lambda>_.
     casePage C OcrLinksByMatter (scope_filters q @ [(''status_snapshot'', lq_status_snapshot q)])
       (pq_limit q) (pq_cursor q) (matched_links q (cs_ocrLink s))
       (earlierThan (\<lambda>l. jget l ''last_seen_at'') ''document_id'') (sort_tuple (\<lambda>l. jget l ''last_seen_at'') ''document_id''))"

definition document_matches :: "ListDocumentsQuery \<Rightarrow> jval \<times> jval \<Rightarrow> bool" where
  "document_matches q entry \<longleftrightarrow> snd entry = pq_matter_id q \<and> in_tenant q (fst entry) \<and>
     admits (oq_status q) (jget (fst entry) ''status'') \<and> admits (oq_doc_type q) (jget (fst entry) ''doc_type'')"

definition matched_documents :: "ListDocumentsQuery \<Rightarrow> document_map \<Rightarrow> jval list" where
  "matched_documents q documents =
     sort_by (\<lambda>a b. newestFirst (\<lambda>d. jget d ''received_at'') ''id'' a b \<le> 0)
       (map fst (filter (document_matches q) (mvals documents)))"

definition listDocuments :: "CursorCodec \<Rightarrow> ListDocumentsQuery \<Rightarrow> CaseBoxState \<Rightarrow> case_exn + page" where
  "listDocuments C q s =
     bindR (requireMatterScope (pq_tenant_id q) (pq_matter_id q) s) (\<lambda>_.
     casePage C DocumentsByMatter (scope_filters q @ [(''status'', oq_status q), (''doc_type'', oq_doc_type q)])
       (pq_limit q) (pq_cursor q) (matched_documents q (cs_documents s))
       (earlierThan (\<lambda>d. jget d ''received_at'') ''id'') (sort_tuple (\<lambda>d. jget d ''received_at'') ''id''))"

text \<open>The audit events come in the order of the log; a cursor holds the sequence number it has reached.\<close>

definition sequenceAfter :: "StoredAuditEvent \<Rightarrow> jval list \<Rightarrow> bool" where
  "sequenceAfter ev tuple \<longleftrightarrow> jless (jnth tuple 0) (JInt (int (sa_sequence ev)))"

definition sequence_tuple :: "StoredAuditEvent \<Rightarrow> jval list" where
  "sequence_tuple ev = [JInt (int (sa_sequence ev))]"

definition listAuditEvents :: "CursorCodec \<Rightarrow> 'a MatterPageQuery_scheme \<Rightarrow> CaseBoxState \<Rightarrow> case_exn + page" where
  "listAuditEvents C q s =
     bindR (requireMatterScope (pq_tenant_id q) (pq_matter_id q) s) (\<lambda>_.
     bindR (casePage C AuditEventsByMatter (scope_filters q)
              (pq_limit q) (pq_cursor q) (log_get (cs_audit s) (pq_matter_id q)) sequenceAfter sequence_tuple) (\<lambda>(rows, next_cursor).
     Inr (map sa_event rows, next_cursor)))"

definition matched_matters :: "ListMattersQuery \<Rightarrow> CaseBoxState \<Rightarrow> jval list" where
  "matched_matters q s =
     sort_by (\<lambda>a b. newestFirst (\<lambda>m. jget m ''created_at'') ''id'' a b \<le> 0)
       (filter (\<lambda>m. in_tenant q m \<and> admits (tq_status q) (jget m ''status'')) (mvals (cs_matters s)))"

definition listMatters :: "CursorCodec \<Rightarrow> ListMattersQuery \<Rightarrow> CaseBoxState \<Rightarrow> case_exn + page" where
  "listMatters C q s =
     casePage C MattersByTenant [(''tenant_id'', pq_tenant_id q), (''status'', tq_status q)]
       (pq_limit q) (pq_cursor q) (matched_matters q s)
       (earlierThan (\<lambda>m. jget m ''created_at'') ''id'') (sort_tuple (\<lambda>m. jget m ''created_at'') ''id'')"

definition deadline_matches :: "ListDeadlinesQuery \<Rightarrow> jval \<Rightarrow> bool" where
  "deadline_matches q d \<longleftrightarrow> in_tenant q d \<and> admits (dq_status q) (jget d ''status'') \<and> admits (dq_kind q) (jget d ''kind'')"

definition matched_deadlines :: "ListDeadlinesQuery \<Rightarrow> EntityTable \<Rightarrow> jval list" where
  "matched_deadlines q st =
     sort_by (\<lambda>a b. compareDeadlinesChronological a b \<le> 0) (filter (deadline_matches q) (rows_of st (pq_matter_id q)))"

definition listDeadlines :: "CursorCodec \<Rightarrow> ListDeadlinesQuery \<Rightarrow> CaseBoxState \<Rightarrow> case_exn + page" where
  "listDeadlines C q s =
     bindR (requireMatterScope (pq_tenant_id q) (pq_matter_id q) s) (\<lambda>_.
     casePage C DeadlinesByMatter (scope_filters q @ [(''status'', dq_status q), (''kind'', dq_kind q)])
       (pq_limit q) (pq_cursor q) (matched_deadlines q (cs_deadline s))
       (laterThan (\<lambda>d. jget d ''due_at'') ''id'') (sort_tuple (\<lambda>d. jget d ''due_at'') ''id''))"

subsection \<open>The lists of the store\<close>

definition listFacts :: "CursorCodec \<Rightarrow> ListFactsQuery \<Rightarrow> CaseBoxState \<Rightarrow> case_exn + page" where
  "listFacts C q s =
     bindR (requireMatterScope (pq_tenant_id q) (pq_matter_id q) s) (\<lambda>_.
     listFactsImpl C (cs_fact s) (cs_documents s) q)"

definition listEvidenceItems :: "CursorCodec \<Rightarrow> ListEvidenceItemsQuery \<Rightarrow> CaseBoxState \<Rightarrow> case_exn + page" where
  "listEvidenceItems C q s =
     bindR (requireMatterScope (pq_tenant_id q) (pq_matter_id q) s) (\<lambda>_.
     listEvidenceItemsImpl C (cs_evidence s) (cs_documents s) q)"

definition listDocketEntries :: "CursorCodec \<Rightarrow> ListDocketEntriesQuery \<Rightarrow> CaseBoxState \<Rightarrow> case_exn + page" where
  "listDocketEntries C q s =
     bindR (requireMatterScope (pq_tenant_id q) (pq_matter_id q) s) (\<lambda>_. listDocketEntriesImpl C (cs_docket s) q)"

definition listPrivilegeMarkers :: "CursorCodec \<Rightarrow> ListPrivilegeMarkersQuery \<Rightarrow> CaseBoxState \<Rightarrow> case_exn + page" where
  "listPrivilegeMarkers C q s =
     bindR (requireMatterScope (pq_tenant_id q) (pq_matter_id q) s) (\<lambda>_. listPrivilegeMarkersImpl C (cs_privilege s) q)"

definition listConfidentialityClassifications ::
  "CursorCodec \<Rightarrow> ListConfidentialityClassificationsQuery \<Rightarrow> CaseBoxState \<Rightarrow> case_exn + page" where
  "listConfidentialityClassifications C q s =
     bindR (requireMatterScope (pq_tenant_id q) (pq_matter_id q) s) (\<lambda>_. listClassifications C (cs_classification s) q)"

end
