(* ===== verification/CaseBoxPages.thy ===== *)
theory CaseBoxPages
  imports CaseBoxPaging CaseBoxHistory
begin

text \<open>
  What following \<open>next_cursor\<close> through a list of the case box yields: the two orders meet the contract
  \<open>seek_order\<close>, dropping what a cursor has passed leaves the rest of the list, and so the pages of each
  list are its matching rows, each once, in order. Rows are told apart by the ids of the well-formed tables;
  the maps of documents and matters hold each key once.
\<close>

subsection \<open>Dropping what the cursor has passed\<close>

lemma filter_after_nth:
  assumes "\<And>i. i < length rows \<Longrightarrow> P (rows ! i) \<longleftrightarrow> k < i"
  shows "filter P rows = drop (Suc k) rows"
proof -
  have "filter P (take (Suc k) rows) = []"
    using assms by (auto simp: filter_empty_conv in_set_conv_nth)
  moreover have "filter P (drop (Suc k) rows) = drop (Suc k) rows"
    using assms by (intro filter_True) (auto simp: in_set_conv_nth)
  ultimately show ?thesis by (metis append.left_neutral append_take_drop_id filter_append)
qed

context seek_order
begin

lemma filter_next:
  assumes ok: "ok raw" and k: "k < length (sort_by le raw)"
  shows "filter (\<lambda>r. after r (tup (sort_by le raw ! k))) (sort_by le raw) = drop (Suc k) (sort_by le raw)"
proof (rule filter_after_nth)
  define rows where "rows = sort_by le raw"
  fix i assume i: "i < length (sort_by le raw)"
  have mem: "rows ! i \<in> set raw" "rows ! k \<in> set raw" using i k nth_mem [of _ rows] by (simp_all add: rows_def)
  have le: "le (rows ! a) (rows ! b)" if "a < b" "b < length rows" for a b
    using sorted_wrt_sort_by [OF le_total [OF ok]] that unfolding rows_def sorted_wrt_iff_nth_less by blast
  have refl: "le x x" if "x \<in> set raw" for x using le_total [OF ok] that unfolding total_preorder_on_def by blast
  have ne: "rows ! k \<noteq> rows ! i" if "k \<noteq> i"
    using that i k ok_distinct [OF ok] by (simp add: rows_def nth_eq_iff_index_eq)
  have "\<not> le (rows ! i) (rows ! k) \<longleftrightarrow> k < i"
  proof (cases i k rule: linorder_cases)
    case less
    then show ?thesis using le [of i k] k by (simp add: rows_def)
  next
    case equal
    then show ?thesis using refl [OF mem(2)] by simp
  next
    case greater
    then have "le (rows ! k) (rows ! i)" using le [of k i] i by (simp add: rows_def)
    with greater ne le_antisym [OF ok mem] show ?thesis by auto
  qed
  then show "after (sort_by le raw ! i) (tup (sort_by le raw ! k)) \<longleftrightarrow> k < i"
    using after_iff [OF ok mem] by (simp add: rows_def)
qed

end

subsection \<open>The two orders\<close>

definition text_of :: "jval \<Rightarrow> string" where
  "text_of v = (case v of JStr s \<Rightarrow> s | _ \<Rightarrow> [])"

definition keyed :: "(jval \<Rightarrow> jval) \<Rightarrow> string \<Rightarrow> jval list \<Rightarrow> bool" where
  "keyed key idf raw \<longleftrightarrow> distinct (map (\<lambda>r. jget r idf) raw) \<and>
     (\<forall>r\<in>set raw. is_str (key r) \<and> is_str (jget r idf))"

lemma keyedD:
  assumes "keyed key idf raw" and "x \<in> set raw"
  shows "key x = JStr (text_of (key x))" "jget x idf = JStr (text_of (jget x idf))"
  using assms by (auto simp: keyed_def is_str_iff text_of_def)

lemma keyed_same_id:
  "keyed key idf raw \<Longrightarrow> x \<in> set raw \<Longrightarrow> y \<in> set raw \<Longrightarrow> jget x idf = jget y idf \<Longrightarrow> x = y"
  by (auto simp: keyed_def distinct_map inj_on_def)

lemma jless_text: "a = JStr s \<Longrightarrow> b = JStr t \<Longrightarrow> jless a b \<longleftrightarrow> s < t"
  by simp

lemma chronological_le:
  assumes "keyed key idf raw" and "a \<in> set raw" and "b \<in> set raw"
  shows "chronological key idf a b \<le> 0 \<longleftrightarrow>
    (if text_of (key a) < text_of (key b) then True else if text_of (key b) < text_of (key a) then False
     else if text_of (jget a idf) < text_of (jget b idf) then True
     else if text_of (jget b idf) < text_of (jget a idf) then False else True)"
proof -
  note k = keyedD [OF assms(1,2)] keyedD [OF assms(1,3)]
  show ?thesis
    unfolding chronological_def jless_text [OF k(1,3)] jless_text [OF k(3,1)] jless_text [OF k(2,4)] jless_text [OF k(4,2)]
    by simp
qed

lemma newestFirst_le:
  assumes "keyed key idf raw" and "a \<in> set raw" and "b \<in> set raw"
  shows "newestFirst key idf a b \<le> 0 \<longleftrightarrow>
    (if text_of (key b) < text_of (key a) then True else if text_of (key a) < text_of (key b) then False
     else if text_of (jget a idf) < text_of (jget b idf) then True
     else if text_of (jget b idf) < text_of (jget a idf) then False else True)"
proof -
  note k = keyedD [OF assms(1,2)] keyedD [OF assms(1,3)]
  show ?thesis
    unfolding newestFirst_def jless_text [OF k(1,3)] jless_text [OF k(3,1)] jless_text [OF k(2,4)] jless_text [OF k(4,2)]
    using less_not_sym [of "text_of (key a)" "text_of (key b)"] by (simp del: not_less)
qed

lemma tuple_nth:
  "jnth (sort_tuple key idf y) 0 = key y" "jnth (sort_tuple key idf y) 1 = jget y idf"
  by (simp_all add: jnth_def sort_tuple_def)

lemma laterThan_iff:
  assumes "keyed key idf raw" and "x \<in> set raw" and "y \<in> set raw"
  shows "laterThan key idf x (sort_tuple key idf y) \<longleftrightarrow> \<not> chronological key idf x y \<le> 0"
proof -
  note k = keyedD [OF assms(1,2)] keyedD [OF assms(1,3)]
  have eq: "key x = key y \<longleftrightarrow> text_of (key x) = text_of (key y)" using k(1,3) by metis
  show ?thesis
    unfolding laterThan_def Let_def tuple_nth chronological_le [OF assms] jless_text [OF k(3,1)] jless_text [OF k(4,2)] eq
    by (cases "text_of (key x)" "text_of (key y)" rule: linorder_cases;
        cases "text_of (jget x idf)" "text_of (jget y idf)" rule: linorder_cases) auto
qed

lemma earlierThan_iff:
  assumes "keyed key idf raw" and "x \<in> set raw" and "y \<in> set raw"
  shows "earlierThan key idf x (sort_tuple key idf y) \<longleftrightarrow> \<not> newestFirst key idf x y \<le> 0"
proof -
  note k = keyedD [OF assms(1,2)] keyedD [OF assms(1,3)]
  have eq: "key x = key y \<longleftrightarrow> text_of (key x) = text_of (key y)" using k(1,3) by metis
  show ?thesis
    unfolding earlierThan_def Let_def tuple_nth newestFirst_le [OF assms] jless_text [OF k(1,3)] jless_text [OF k(4,2)] eq
    by (cases "text_of (key x)" "text_of (key y)" rule: linorder_cases;
        cases "text_of (jget x idf)" "text_of (jget y idf)" rule: linorder_cases) auto
qed

lemma keyed_distinct: "keyed key idf raw \<Longrightarrow> distinct raw"
  by (simp add: keyed_def distinct_map)

interpretation asc: seek_order "keyed key idf" "\<lambda>a b. chronological key idf a b \<le> 0" "laterThan key idf" "sort_tuple key idf"
  for key idf
proof (unfold_locales, goal_cases)
  case (1 raw)
  then show ?case
    by (intro total_preorder_cong [OF total_preorder_asc [where f = "\<lambda>r. text_of (key r)",
          OF total_preorder_asc [where f = "\<lambda>r. text_of (jget r idf)", OF total_preorder_True]]]) (rule chronological_le)
next
  case (2 raw x y)
  have "text_of (jget x idf) = text_of (jget y idf)"
    using 2(4,5) unfolding chronological_le [OF 2(1,2,3)] chronological_le [OF 2(1,3,2)] by (meson less_asym linorder_less_linear)
  then have "jget x idf = jget y idf" using keyedD(2) [OF 2(1,2)] keyedD(2) [OF 2(1,3)] by metis
  with 2(1-3) show ?case by (rule keyed_same_id)
next
  case (3 raw x y)
  then show ?case by (rule laterThan_iff)
qed (rule keyed_distinct)

interpretation desc: seek_order "keyed key idf" "\<lambda>a b. newestFirst key idf a b \<le> 0" "earlierThan key idf" "sort_tuple key idf"
  for key idf
proof (unfold_locales, goal_cases)
  case (1 raw)
  then show ?case
    by (intro total_preorder_cong [OF total_preorder_desc [where f = "\<lambda>r. text_of (key r)",
          OF total_preorder_asc [where f = "\<lambda>r. text_of (jget r idf)", OF total_preorder_True]]]) (rule newestFirst_le)
next
  case (2 raw x y)
  have "text_of (jget x idf) = text_of (jget y idf)"
    using 2(4,5) unfolding newestFirst_le [OF 2(1,2,3)] newestFirst_le [OF 2(1,3,2)] by (meson less_asym linorder_less_linear)
  then have "jget x idf = jget y idf" using keyedD(2) [OF 2(1,2)] keyedD(2) [OF 2(1,3)] by metis
  with 2(1-3) show ?case by (rule keyed_same_id)
next
  case (3 raw x y)
  then show ?case by (rule earlierThan_iff)
qed (rule keyed_distinct)

subsection \<open>Following the cursors of one list\<close>

lemma caseResolveLimit_Inr: "caseResolveLimit lim = Inr l \<longleftrightarrow> resolveLimit lim = Inr l"
  by (simp add: caseResolveLimit_def)

lemma walk_casePage:
  assumes codec: "codec_ok C" and lim: "caseResolveLimit lim = Inr l"
    and passed: "\<And>k. k < length rows \<Longrightarrow> filter (\<lambda>r. after r (tup (rows ! k))) rows = drop (Suc k) rows"
    and tuples: "\<And>r. r \<in> set rows \<Longrightarrow> tuple_fits kind (tup r) \<and> (\<forall>x\<in>set (tup r). sound_json x)"
  shows "followCursors (Suc (length rows)) (\<lambda>c. casePage C kind filters lim c rows after tup) None = Some rows"
proof (rule followCursors_complete)
  let ?cursor = "\<lambda>r. encodeCursor C (case_cursor_payload kind (computeFiltersHash C filters) (tup r))"
  have l: "1 \<le> l" using resolveLimit_bounds lim by (simp add: caseResolveLimit_Inr)
  then show "1 \<le> nat l" by linarith
  show "casePage C kind filters lim None rows after tup = Inr (page_at rows (nat l) ?cursor 0)"
    by (simp add: casePage_def page_at_def lim Let_def)
  fix k assume k: "k < length rows"
  then have t: "tuple_fits kind (tup (rows ! k))" "\<forall>x\<in>set (tup (rows ! k)). sound_json x" using tuples nth_mem by blast+
  then have dec: "caseDecodeCursor C (?cursor (rows ! k)) kind (computeFiltersHash C filters) = Inr (tup (rows ! k))"
    by (simp add: case_decode_encode [OF codec t(2,1)])
  have "nat l < length rows - Suc k \<longleftrightarrow> Suc k + nat l < length rows" by auto
  then show "casePage C kind filters lim (Some (?cursor (rows ! k))) rows after tup =
      Inr (page_at rows (nat l) ?cursor (Suc k))"
    by (simp add: casePage_def page_at_def lim dec passed [OF k] Let_def)
qed

lemma sort_tuple_sound:
  assumes "keyed key idf raw" and "r \<in> set raw" and "kind \<noteq> AuditEventsByMatter"
  shows "tuple_fits kind (sort_tuple key idf r) \<and> (\<forall>x\<in>set (sort_tuple key idf r). sound_json x)"
proof -
  obtain s t where "key r = JStr s" "jget r idf = JStr t" using keyedD [OF assms(1,2)] by blast
  with assms(3) show ?thesis by (simp add: sort_tuple_def tuple_fits_def is_str_iff)
qed

lemma walk_chronological:
  assumes "codec_ok C" and "caseResolveLimit lim = Inr l" and "keyed key idf raw" and "kind \<noteq> AuditEventsByMatter"
  defines "rows \<equiv> sort_by (\<lambda>a b. chronological key idf a b \<le> 0) raw"
  shows "followCursors (Suc (length rows)) (\<lambda>c. casePage C kind filters lim c rows (laterThan key idf) (sort_tuple key idf)) None = Some rows"
    "sorted_wrt (\<lambda>a b. chronological key idf a b \<le> 0) rows" "distinct rows"
proof -
  show "followCursors (Suc (length rows)) (\<lambda>c. casePage C kind filters lim c rows (laterThan key idf) (sort_tuple key idf)) None = Some rows"
    by (rule walk_casePage [OF assms(1,2)])
      (use asc.filter_next [OF assms(3)] sort_tuple_sound [OF assms(3) _ assms(4)] in \<open>simp_all add: rows_def\<close>)
  show "sorted_wrt (\<lambda>a b. chronological key idf a b \<le> 0) rows"
    unfolding rows_def by (rule sorted_wrt_sort_by [OF asc.le_total [OF assms(3)]])
  show "distinct rows" using keyed_distinct [OF assms(3)] by (simp add: rows_def)
qed

lemma walk_newestFirst:
  assumes "codec_ok C" and "caseResolveLimit lim = Inr l" and "keyed key idf raw" and "kind \<noteq> AuditEventsByMatter"
  defines "rows \<equiv> sort_by (\<lambda>a b. newestFirst key idf a b \<le> 0) raw"
  shows "followCursors (Suc (length rows)) (\<lambda>c. casePage C kind filters lim c rows (earlierThan key idf) (sort_tuple key idf)) None = Some rows"
    "sorted_wrt (\<lambda>a b. newestFirst key idf a b \<le> 0) rows" "distinct rows"
proof -
  show "followCursors (Suc (length rows)) (\<lambda>c. casePage C kind filters lim c rows (earlierThan key idf) (sort_tuple key idf)) None = Some rows"
    by (rule walk_casePage [OF assms(1,2)])
      (use desc.filter_next [OF assms(3)] sort_tuple_sound [OF assms(3) _ assms(4)] in \<open>simp_all add: rows_def\<close>)
  show "sorted_wrt (\<lambda>a b. newestFirst key idf a b \<le> 0) rows"
    unfolding rows_def by (rule sorted_wrt_sort_by [OF desc.le_total [OF assms(3)]])
  show "distinct rows" using keyed_distinct [OF assms(3)] by (simp add: rows_def)
qed

subsection \<open>The maps hold each key once\<close>

definition link_sets_ok :: "OcrLinkState \<Rightarrow> bool" where
  "link_sets_ok st \<longleftrightarrow> (\<forall>m. case mget (linksByMatter st) m of None \<Rightarrow> True | Some ds \<Rightarrow> distinct ds)"

definition maps_ok :: "CaseBoxState \<Rightarrow> bool" where
  "maps_ok s \<longleftrightarrow> distinct (mkeys (cs_documents s)) \<and> distinct (mkeys (cs_matters s)) \<and> link_sets_ok (cs_ocrLink s)"

lemma maps_ok_audit [simp]: "maps_ok (s\<lparr>cs_audit := a\<rparr>) = maps_ok s"
  by (simp add: maps_ok_def)

lemma maps_ok_tables [simp]:
  "maps_ok (s\<lparr>cs_claimTrack := t\<rparr>) = maps_ok s" "maps_ok (s\<lparr>cs_evidence := t\<rparr>) = maps_ok s"
  "maps_ok (s\<lparr>cs_fact := t\<rparr>) = maps_ok s" "maps_ok (s\<lparr>cs_docket := t\<rparr>) = maps_ok s"
  "maps_ok (s\<lparr>cs_deadline := t\<rparr>) = maps_ok s" "maps_ok (s\<lparr>cs_privilege := t'\<rparr>) = maps_ok s"
  "maps_ok (s\<lparr>cs_classification := t''\<rparr>) = maps_ok s"
  by (simp_all add: maps_ok_def)

lemma commit_maps [simp]:
  "maps_ok (snd (commitEvent L m ev x s)) = maps_ok s" "maps_ok (snd (commitEvents L m evs y s)) = maps_ok s"
  by (simp_all add: commitEvent_def commitEvents_def split: prod.split sum.split)

lemma matter_maps:
  "maps_ok s \<Longrightarrow> maps_ok (s\<lparr>cs_matters := mset_kv m matter (cs_matters s)\<rparr>)"
  by (simp add: maps_ok_def distinct_mset_kv)

lemma document_maps:
  "maps_ok s \<Longrightarrow> maps_ok (s\<lparr>cs_documents := mset_kv d entry (cs_documents s)\<rparr>)"
  by (simp add: maps_ok_def distinct_mset_kv)

lemma link_maps:
  assumes "maps_ok s"
  shows "maps_ok (s\<lparr>cs_ocrLink := storeOcrLink m link (cs_ocrLink s)\<rparr>)"
proof -
  have sets: "case mget (linksByMatter (cs_ocrLink s)) m of None \<Rightarrow> True | Some ds \<Rightarrow> distinct ds" for m
    using assms by (simp add: maps_ok_def link_sets_ok_def)
  have old: "distinct (case mget (linksByMatter (cs_ocrLink s)) m of Some ds \<Rightarrow> ds | None \<Rightarrow> [])"
    using sets [of m] by (simp split: option.splits)
  have "link_sets_ok (storeOcrLink m link (cs_ocrLink s))"
    using sets old by (simp add: link_sets_ok_def storeOcrLink_def)
  with assms show ?thesis by (simp add: maps_ok_def)
qed

lemma appendBody_maps:
  "(\<And>m row s. maps_ok (store m row s) = maps_ok s) \<Longrightarrow> maps_ok s \<Longrightarrow> maps_ok (snd (appendBody L label store prepare input s))"
  by (simp add: appendBody_def Let_def split: sum.split option.split prod.split)

lemma replaceBody_maps:
  "(\<And>m row s. maps_ok (store m row s) = maps_ok s) \<Longrightarrow> maps_ok s \<Longrightarrow> maps_ok (snd (replaceBody L store prepared s))"
  by (simp add: replaceBody_def split: sum.split prod.split)

lemmas body_maps = appendBody_maps replaceBody_maps

lemma write_maps:
  assumes "maps_ok s"
  shows "maps_ok (snd (createMatter L ci input s))" "maps_ok (snd (applyMatterTransition L ci m aopts to kind s))"
    "maps_ok (snd (ensureMatterPartyIds L ci m actor s))" "maps_ok (snd (updateMatterDetails L ci m uopts s))"
    "maps_ok (snd (registerDocument L ci m input s))" "maps_ok (snd (createClaimTrack L ci input s))"
    "maps_ok (snd (upsertOcrLink L ci input s))" "maps_ok (snd (confirmDocketEntry L ci k copts s))"
    "maps_ok (snd (editDocketEntry L ci edopts s))"
  using assms matter_maps [OF assms] document_maps [OF assms] link_maps [OF assms]
  by (simp_all add: createMatter_def applyMatterTransition_def ensureMatterPartyIds_def updateMatterDetails_def
      registerDocument_def createClaimTrack_def upsertOcrLink_def confirmDocketEntry_def editDocketEntry_def Let_def
      replaceBody_maps split: sum.split option.split prod.split)

lemma entity_write_maps:
  assumes "maps_ok s"
  shows "maps_ok (snd (appendEvidenceItem L ci input s))" "maps_ok (snd (transitionEvidenceItem L ci k eopts s))"
    "maps_ok (snd (appendFact L ci input s))" "maps_ok (snd (transitionFact L ci k fopts s))"
    "maps_ok (snd (transitionDeadline L ci k dopts s))" "maps_ok (snd (appendDocketEntry L ci input s))"
    "maps_ok (snd (dismissDocketEntry L ci k diopts s))" "maps_ok (snd (appendPrivilegeMarker L ci input s))"
    "maps_ok (snd (transitionPrivilegeMarker L ci k popts s))" "maps_ok (snd (appendClassification L ci input s))"
  using assms by (simp_all add: appendEvidenceItem_def transitionEvidenceItem_def appendFact_def transitionFact_def
      transitionDeadline_def appendDocketEntry_def dismissDocketEntry_def appendPrivilegeMarker_def
      transitionPrivilegeMarker_def appendClassification_def body_maps)

lemma appendFactOnce_maps: "maps_ok s \<Longrightarrow> maps_ok (snd (appendFactOnce L ci input s))"
  using entity_write_maps(3) [of s L ci input] by (simp add: appendFactOnce_def split: option.split)

lemma written_maps: "write = (r, s') \<Longrightarrow> maps_ok (snd write) \<Longrightarrow> maps_ok s'"
  by simp

lemma case_step_maps:
  assumes "case_step L s s'" and "maps_ok s"
  shows "maps_ok s'"
  using assms unfolding archiveMatter_def unarchiveMatter_def
  by (cases rule: case_step.cases)
    (unfold archiveMatter_def unarchiveMatter_def,
      (erule written_maps, intro write_maps entity_write_maps appendFactOnce_maps, assumption)+)

lemma reachable_maps:
  assumes "case_reachable L s"
  shows "maps_ok s"
proof -
  have start: "maps_ok newCaseBoxPersistence"
    by (simp add: maps_ok_def link_sets_ok_def newCaseBoxPersistence_def createOcrLinkState_def)
  from assms show ?thesis unfolding case_reachable_def
    by (induction rule: rtranclp_induct) (auto intro: start case_step_maps)
qed

subsection \<open>Rows of a well-formed store are told apart by their ids\<close>

definition textual :: "(jval \<Rightarrow> jval) \<Rightarrow> string \<Rightarrow> jval set \<Rightarrow> bool" where
  "textual key idf S \<longleftrightarrow> (\<forall>r\<in>S. is_str (key r) \<and> is_str (jget r idf))"

lemma keyed_rows:
  assumes "row_table_ok t" and "textual key ''id'' (set (rows_of t m))"
  shows "keyed key ''id'' (filter P (rows_of t m))"
  using assms by (auto simp: keyed_def textual_def row_table_ok_def distinct_map_filter)

lemma document_ids_distinct:
  assumes "documents_ok ds" and "distinct (mkeys ds)"
  shows "distinct (map (\<lambda>e. jget (fst e) ''id'') (filter P (mvals ds)))"
proof -
  have "jget (fst e) ''id'' = d" if "(d, e) \<in> set ds" for d e
  proof -
    have "mget ds d = Some (fst e, snd e)" using assms(2) that by simp
    with assms(1) show ?thesis unfolding documents_ok_def by blast
  qed
  then have "map (\<lambda>e. jget (fst e) ''id'') (mvals ds) = mkeys ds" by auto
  then have "distinct (map (\<lambda>e. jget (fst e) ''id'') (mvals ds))" by (simp only: assms(2))
  then show ?thesis by (rule distinct_map_filter)
qed

lemma keyed_documents:
  assumes "documents_ok ds" and "distinct (mkeys ds)" and "textual key ''id'' (fst ` set (mvals ds))"
  shows "keyed key ''id'' (map fst (filter P (mvals ds)))"
proof -
  have "\<forall>r\<in>set (map fst (filter P (mvals ds))). is_str (key r) \<and> is_str (jget r ''id'')"
    using assms(3) by (auto simp: textual_def)
  with document_ids_distinct [OF assms(1,2)] show ?thesis by (simp add: keyed_def comp_def)
qed

lemma keyed_matters:
  assumes "matters_ok L s" and "distinct (mkeys (cs_matters s))" and "textual key ''id'' (set (mvals (cs_matters s)))"
  shows "keyed key ''id'' (filter P (mvals (cs_matters s)))"
proof -
  have "jget e ''id'' = m" if "(m, e) \<in> set (cs_matters s)" for m e
  proof -
    have "mget (cs_matters s) m = Some e" using assms(2) that by simp
    with assms(1) show ?thesis unfolding matters_ok_def by blast
  qed
  then have "map (\<lambda>e. jget e ''id'') (mvals (cs_matters s)) = mkeys (cs_matters s)" by auto
  then have "distinct (map (\<lambda>e. jget e ''id'') (mvals (cs_matters s)))" by (simp only: assms(2))
  then have "distinct (map (\<lambda>e. jget e ''id'') (filter P (mvals (cs_matters s))))" by (rule distinct_map_filter)
  then show ?thesis using assms(3) by (auto simp: keyed_def textual_def)
qed

lemma set_map_filter_mget: "set (List.map_filter f xs) = {y. \<exists>x\<in>set xs. f x = Some y}"
  by (induction xs) (auto simp: List.map_filter_simps split: option.splits)

lemma matter_links_set:
  "set (matter_links st m) = {l. \<exists>ds d. mget (linksByMatter st) m = Some ds \<and> d \<in> set ds \<and> mget (linksByDocumentId st) d = Some l}"
  unfolding matter_links_def set_map_filter_mget by (cases "mget (linksByMatter st) m") auto

lemma link_ids_distinct:
  assumes "links_ok st documents" and "link_sets_ok st"
  shows "distinct (map (\<lambda>l. jget l ''document_id'') (matter_links st m))"
proof -
  define ds where "ds = (case mget (linksByMatter st) m of Some ds \<Rightarrow> ds | None \<Rightarrow> [])"
  have d: "distinct ds" using assms(2) [unfolded link_sets_ok_def, rule_format, of m]
    by (simp add: ds_def split: option.splits)
  have ids: "jget l ''document_id'' = d" if "mget (linksByDocumentId st) d = Some l" for d l
    using assms(1) that unfolding links_ok_def by blast
  have "map (\<lambda>l. jget l ''document_id'') (List.map_filter (\<lambda>d. mget (linksByDocumentId st) d) xs)
      = filter (\<lambda>d. mget (linksByDocumentId st) d \<noteq> None) xs" for xs
    by (induction xs) (auto simp: List.map_filter_simps ids split: option.splits)
  then have "map (\<lambda>l. jget l ''document_id'') (matter_links st m) = filter (\<lambda>d. mget (linksByDocumentId st) d \<noteq> None) ds"
    by (simp add: matter_links_def ds_def)
  then show ?thesis using d by simp
qed

lemma keyed_links:
  assumes "links_ok st documents" and "link_sets_ok st" and "textual key ''document_id'' (set (matter_links st m))"
  shows "keyed key ''document_id'' (filter P (matter_links st m))"
  using distinct_map_filter [OF link_ids_distinct [OF assms(1,2)], of P m] assms(3) by (simp add: keyed_def textual_def)

subsection \<open>The lists of the store\<close>

lemma matched_cursor [simp]:
  "matched_facts (fq\<lparr>pq_cursor := c\<rparr>) t = matched_facts fq t" "matched_evidence (vq\<lparr>pq_cursor := c\<rparr>) t = matched_evidence vq t"
  "matched_docket (eq\<lparr>pq_cursor := c\<rparr>) t = matched_docket eq t" "matched_markers (mq\<lparr>pq_cursor := c\<rparr>) t' = matched_markers mq t'"
  "matched_classifications (cq\<lparr>pq_cursor := c\<rparr>) t'' = matched_classifications cq t''"
  "matched_links (lq\<lparr>pq_cursor := c\<rparr>) st = matched_links lq st" "matched_documents (oq\<lparr>pq_cursor := c\<rparr>) ds = matched_documents oq ds"
  "matched_matters (tq\<lparr>pq_cursor := c\<rparr>) s = matched_matters tq s" "matched_deadlines (dq\<lparr>pq_cursor := c\<rparr>) t = matched_deadlines dq t"
proof -
  have "fact_matches (fq\<lparr>pq_cursor := c\<rparr>) = fact_matches fq" "evidence_matches (vq\<lparr>pq_cursor := c\<rparr>) = evidence_matches vq"
    "docket_matches (eq\<lparr>pq_cursor := c\<rparr>) = docket_matches eq" "marker_matches (mq\<lparr>pq_cursor := c\<rparr>) = marker_matches mq"
    "classification_matches (cq\<lparr>pq_cursor := c\<rparr>) = classification_matches cq"
    "document_matches (oq\<lparr>pq_cursor := c\<rparr>) = document_matches oq" "deadline_matches (dq\<lparr>pq_cursor := c\<rparr>) = deadline_matches dq"
    by (simp_all add: fun_eq_iff fact_matches_def evidence_matches_def docket_matches_def marker_matches_def
        classification_matches_def document_matches_def deadline_matches_def)
  then show "matched_facts (fq\<lparr>pq_cursor := c\<rparr>) t = matched_facts fq t" "matched_evidence (vq\<lparr>pq_cursor := c\<rparr>) t = matched_evidence vq t"
    "matched_docket (eq\<lparr>pq_cursor := c\<rparr>) t = matched_docket eq t" "matched_markers (mq\<lparr>pq_cursor := c\<rparr>) t' = matched_markers mq t'"
    "matched_classifications (cq\<lparr>pq_cursor := c\<rparr>) t'' = matched_classifications cq t''"
    "matched_documents (oq\<lparr>pq_cursor := c\<rparr>) ds = matched_documents oq ds" "matched_deadlines (dq\<lparr>pq_cursor := c\<rparr>) t = matched_deadlines dq t"
    by (simp_all add: matched_facts_def matched_evidence_def matched_docket_def matched_markers_def
        matched_classifications_def matched_documents_def matched_deadlines_def)
  show "matched_links (lq\<lparr>pq_cursor := c\<rparr>) st = matched_links lq st" "matched_matters (tq\<lparr>pq_cursor := c\<rparr>) s = matched_matters tq s"
    by (simp_all add: matched_links_def matched_matters_def)
qed

text \<open>\<open>rows\<close> is what the pages of a query yield, in order and without repetition.\<close>

definition is_listing ::
  "('a PageQuery_scheme \<Rightarrow> CaseBoxState \<Rightarrow> case_exn + ('r list \<times> string option)) \<Rightarrow> 'a PageQuery_scheme \<Rightarrow> CaseBoxState \<Rightarrow>
   ('r \<Rightarrow> 'r \<Rightarrow> bool) \<Rightarrow> 'r list \<Rightarrow> bool" where
  "is_listing list q s le rows \<longleftrightarrow>
     followCursors (Suc (length rows)) (\<lambda>c. list (q\<lparr>pq_cursor := c\<rparr>) s) None = Some rows \<and> sorted_wrt le rows \<and> distinct rows"

abbreviation in_scope :: "'a MatterPageQuery_scheme \<Rightarrow> CaseBoxState \<Rightarrow> bool" where
  "in_scope q s \<equiv> \<exists>matter. requireMatterScope (pq_tenant_id q) (pq_matter_id q) s = Inr matter"

lemma chronological_listing:
  assumes "codec_ok C" and "caseResolveLimit lim = Inr l" and "keyed key idf raw" and "kind \<noteq> AuditEventsByMatter"
    and "\<And>c. list (q\<lparr>pq_cursor := c\<rparr>) s =
      casePage C kind filters lim c (sort_by (\<lambda>a b. chronological key idf a b \<le> 0) raw) (laterThan key idf) (sort_tuple key idf)"
  shows "is_listing list q s (\<lambda>a b. chronological key idf a b \<le> 0) (sort_by (\<lambda>a b. chronological key idf a b \<le> 0) raw)"
  unfolding is_listing_def assms(5) using walk_chronological [OF assms(1-4)] by blast

lemma newestFirst_listing:
  assumes "codec_ok C" and "caseResolveLimit lim = Inr l" and "keyed key idf raw" and "kind \<noteq> AuditEventsByMatter"
    and "\<And>c. list (q\<lparr>pq_cursor := c\<rparr>) s =
      casePage C kind filters lim c (sort_by (\<lambda>a b. newestFirst key idf a b \<le> 0) raw) (earlierThan key idf) (sort_tuple key idf)"
  shows "is_listing list q s (\<lambda>a b. newestFirst key idf a b \<le> 0) (sort_by (\<lambda>a b. newestFirst key idf a b \<le> 0) raw)"
  unfolding is_listing_def assms(5) using walk_newestFirst [OF assms(1-4)] by blast

lemma facts_listing:
  assumes "codec_ok C" and "caseResolveLimit (pq_limit q) = Inr l" and "in_scope q s" and "row_table_ok (cs_fact s)"
    and "textual (stamp ''created_at'') ''id'' (set (rows_of (cs_fact s) (pq_matter_id q)))"
    and "source_document_known (cs_documents s) (pq_tenant_id q) (pq_matter_id q) (fq_source_document_id q) = Inr ()"
  shows "is_listing (listFacts C) q s (\<lambda>a b. compareFactsChronological a b \<le> 0) (matched_facts q (cs_fact s))"
  unfolding compareFactsChronological_def matched_facts_def
  by (rule chronological_listing [OF assms(1,2) keyed_rows [OF assms(4,5)], where kind = FactsByMatter])
    (use assms(3,6) in \<open>auto simp: listFacts_def listFactsImpl_def matched_facts_def [symmetric] compareFactsChronological_def [symmetric]\<close>)

lemma evidence_listing:
  assumes "codec_ok C" and "caseResolveLimit (pq_limit q) = Inr l" and "in_scope q s" and "row_table_ok (cs_evidence s)"
    and "textual (stamp ''created_at'') ''id'' (set (rows_of (cs_evidence s) (pq_matter_id q)))"
    and "source_document_known (cs_documents s) (pq_tenant_id q) (pq_matter_id q) (vq_source_document_id q) = Inr ()"
  shows "is_listing (listEvidenceItems C) q s (\<lambda>a b. compareEvidenceChronological a b \<le> 0) (matched_evidence q (cs_evidence s))"
  unfolding compareEvidenceChronological_def matched_evidence_def
  by (rule chronological_listing [OF assms(1,2) keyed_rows [OF assms(4,5)], where kind = EvidenceItemsByMatter])
    (use assms(3,6) in \<open>auto simp: listEvidenceItems_def listEvidenceItemsImpl_def matched_evidence_def [symmetric]
      compareEvidenceChronological_def [symmetric]\<close>)

lemma docket_listing:
  assumes "codec_ok C" and "caseResolveLimit (pq_limit q) = Inr l" and "in_scope q s" and "row_table_ok (cs_docket s)"
    and "textual (stamp ''proposed_at'') ''id'' (set (rows_of (cs_docket s) (pq_matter_id q)))"
  shows "is_listing (listDocketEntries C) q s (\<lambda>a b. compareDocketEntriesChronological a b \<le> 0) (matched_docket q (cs_docket s))"
  unfolding compareDocketEntriesChronological_def matched_docket_def
  by (rule chronological_listing [OF assms(1,2) keyed_rows [OF assms(4,5)], where kind = DocketEntriesByMatter])
    (use assms(3) in \<open>auto simp: listDocketEntries_def listDocketEntriesImpl_def matched_docket_def [symmetric] compareDocketEntriesChronological_def [symmetric]\<close>)

lemma markers_listing:
  assumes "codec_ok C" and "caseResolveLimit (pq_limit q) = Inr l" and "in_scope q s" and "row_table_ok (cs_privilege s)"
    and "textual (stamp ''proposed_at'') ''id'' (set (rows_of (cs_privilege s) (pq_matter_id q)))"
    and "target_unambiguous (mq_target_type q) (mq_target_id q) = Inr ()"
  shows "is_listing (listPrivilegeMarkers C) q s (\<lambda>a b. compareMarkersChronological a b \<le> 0) (matched_markers q (cs_privilege s))"
  unfolding compareMarkersChronological_def matched_markers_def
  by (rule chronological_listing [OF assms(1,2) keyed_rows [OF assms(4,5)], where kind = PrivilegeMarkersByMatter])
    (use assms(3,6) in \<open>auto simp: listPrivilegeMarkers_def listPrivilegeMarkersImpl_def matched_markers_def [symmetric] compareMarkersChronological_def [symmetric]\<close>)

lemma classifications_listing:
  assumes "codec_ok C" and "caseResolveLimit (pq_limit q) = Inr l" and "in_scope q s" and "row_table_ok (cs_classification s)"
    and "textual (\<lambda>r. jget r ''set_at'') ''id'' (set (rows_of (cs_classification s) (pq_matter_id q)))"
    and "target_unambiguous (cq_target_type q) (cq_target_id q) = Inr ()"
  shows "is_listing (listConfidentialityClassifications C) q s (\<lambda>a b. chronological (\<lambda>r. jget r ''set_at'') ''id'' a b \<le> 0) (matched_classifications q (cs_classification s))"
  unfolding matched_classifications_def
  by (rule chronological_listing [OF assms(1,2) keyed_rows [OF assms(4,5)], where kind = ClassificationsByMatter])
    (use assms(3,6) in \<open>auto simp: listConfidentialityClassifications_def listClassifications_def matched_classifications_def [symmetric]\<close>)

lemma deadlines_listing:
  assumes "codec_ok C" and "caseResolveLimit (pq_limit q) = Inr l" and "in_scope q s" and "row_table_ok (cs_deadline s)"
    and "textual (\<lambda>d. jget d ''due_at'') ''id'' (set (rows_of (cs_deadline s) (pq_matter_id q)))"
  shows "is_listing (listDeadlines C) q s (\<lambda>a b. compareDeadlinesChronological a b \<le> 0) (matched_deadlines q (cs_deadline s))"
  unfolding compareDeadlinesChronological_def matched_deadlines_def
  by (rule chronological_listing [OF assms(1,2) keyed_rows [OF assms(4,5)], where kind = DeadlinesByMatter])
    (use assms(3) in \<open>auto simp: listDeadlines_def matched_deadlines_def [symmetric] compareDeadlinesChronological_def [symmetric]\<close>)

lemma documents_listing:
  assumes "codec_ok C" and "caseResolveLimit (pq_limit q) = Inr l" and "in_scope q s"
    and "documents_ok (cs_documents s)" and "distinct (mkeys (cs_documents s))"
    and "textual (\<lambda>d. jget d ''received_at'') ''id'' (fst ` set (mvals (cs_documents s)))"
  shows "is_listing (listDocuments C) q s (\<lambda>a b. newestFirst (\<lambda>d. jget d ''received_at'') ''id'' a b \<le> 0) (matched_documents q (cs_documents s))"
  unfolding matched_documents_def
  by (rule newestFirst_listing [OF assms(1,2) keyed_documents [OF assms(4,5,6)], where kind = DocumentsByMatter])
    (use assms(3) in \<open>auto simp: listDocuments_def matched_documents_def [symmetric]\<close>)

lemma links_listing:
  assumes "codec_ok C" and "caseResolveLimit (pq_limit q) = Inr l" and "in_scope q s"
    and "links_ok (cs_ocrLink s) (cs_documents s)" and "link_sets_ok (cs_ocrLink s)"
    and "textual (\<lambda>l. jget l ''last_seen_at'') ''document_id'' (set (matter_links (cs_ocrLink s) (pq_matter_id q)))"
  shows "is_listing (listOcrLinks C) q s (\<lambda>a b. newestFirst (\<lambda>l. jget l ''last_seen_at'') ''document_id'' a b \<le> 0)
    (matched_links q (cs_ocrLink s))"
  unfolding matched_links_def
  by (rule newestFirst_listing [OF assms(1,2) keyed_links [OF assms(4,5,6)], where kind = OcrLinksByMatter])
    (use assms(3) in \<open>auto simp: listOcrLinks_def matched_links_def [symmetric]\<close>)

lemma matters_listing:
  assumes "codec_ok C" and "caseResolveLimit (pq_limit q) = Inr l"
    and "matters_ok L s" and "distinct (mkeys (cs_matters s))"
    and "textual (\<lambda>m. jget m ''created_at'') ''id'' (set (mvals (cs_matters s)))"
  shows "is_listing (listMatters C) q s (\<lambda>a b. newestFirst (\<lambda>m. jget m ''created_at'') ''id'' a b \<le> 0) (matched_matters q s)"
  unfolding matched_matters_def
  by (rule newestFirst_listing [OF assms(1,2) keyed_matters [OF assms(3,4,5)], where kind = MattersByTenant])
    (auto simp: listMatters_def matched_matters_def [symmetric])

text \<open>The audit events: the sequence numbers of a chain count from one.\<close>

lemma followCursors_map:
  "followCursors n (\<lambda>c. bindR (page c) (\<lambda>(rows, next_cursor). Inr (map f rows, next_cursor))) c
    = map_option (map f) (followCursors n page c)"
proof (induction n arbitrary: c)
  case (Suc n)
  show ?case
    by (cases "page c") (auto simp: Suc option.map_comp comp_def split: option.split)
qed simp

lemma audit_listing:
  assumes "codec_ok C" and "caseResolveLimit (pq_limit q) = Inr l" and "in_scope q s"
    and "map sa_sequence (log_get (cs_audit s) (pq_matter_id q)) = [1..<Suc (length (log_get (cs_audit s) (pq_matter_id q)))]"
  shows "followCursors (Suc (length (log_get (cs_audit s) (pq_matter_id q)))) (\<lambda>c. listAuditEvents C (q\<lparr>pq_cursor := c\<rparr>) s) None
    = Some (map sa_event (log_get (cs_audit s) (pq_matter_id q)))"
proof -
  define rows where "rows = log_get (cs_audit s) (pq_matter_id q)"
  obtain matter where scope: "requireMatterScope (pq_tenant_id q) (pq_matter_id q) s = Inr matter" using assms(3) by blast
  have seq: "sa_sequence (rows ! i) = Suc i" if "i < length rows" for i
    using that arg_cong [OF assms(4), of "\<lambda>xs. xs ! i"] by (simp add: rows_def del: upt_Suc)
  have "filter (\<lambda>r. sequenceAfter r (sequence_tuple (rows ! k))) rows = drop (Suc k) rows" if "k < length rows" for k
    using that by (intro filter_after_nth) (simp add: sequenceAfter_def sequence_tuple_def jnth_def seq)
  then have "followCursors (Suc (length rows)) (\<lambda>c. casePage C AuditEventsByMatter (scope_filters q) (pq_limit q) c rows
      sequenceAfter sequence_tuple) None = Some rows"
    by (rule walk_casePage [OF assms(1,2)]) (simp_all add: sequence_tuple_def tuple_fits_def)
  moreover have "listAuditEvents C (q\<lparr>pq_cursor := c\<rparr>) s =
      bindR (casePage C AuditEventsByMatter (scope_filters q) (pq_limit q) c rows sequenceAfter sequence_tuple)
        (\<lambda>(rows, next_cursor). Inr (map sa_event rows, next_cursor))" for c
    by (simp add: listAuditEvents_def scope rows_def)
  ultimately show ?thesis unfolding followCursors_map by (simp only: followCursors_map rows_def option.map)
qed

end
