(* ===== verification/CaseBoxViews.thy ===== *)
theory CaseBoxViews
  imports CaseBoxPages
begin

text \<open>
  The aggregated views of the case box, \<open>services/case-box-persistence/src/inMemoryAggregations.ts\<close>: the summary of a
  matter, the detail of a document, the deadline calendar, the chain of facts a fact supersedes. Then what
  they show in a well-formed store: the counts are those of the lists, the chain is whole.
\<close>

subsection \<open>The summary of a matter\<close>

text \<open>\<open>if (v in counts) counts[v]++\<close> over an object literal with the given keys. \<open>in\<close> also sees the members of
  \<open>Object.prototype\<close>; no status of the contract is named like one.\<close>

fun bump :: "string \<Rightarrow> (string \<times> nat) list \<Rightarrow> (string \<times> nat) list" where
  "bump k [] = []"
| "bump k ((k', n) # kvs) = (if k = k' then (k', Suc n) # kvs else (k', n) # bump k kvs)"

definition count_by :: "string list \<Rightarrow> jval list \<Rightarrow> (string \<times> nat) list" where
  "count_by ks vs = fold (\<lambda>v counts. case v of JStr k \<Rightarrow> bump k counts | _ \<Rightarrow> counts) vs (map (\<lambda>k. (k, 0)) ks)"

record MatterSummary =
  ms_matter :: jval
  ms_documents :: nat
  ms_facts_by_status :: "(string \<times> nat) list"
  ms_deadlines_by_status :: "(string \<times> nat) list"
  ms_privilege_markers :: nat
  ms_docket_entries_by_state :: "(string \<times> nat) list"
  ms_confidentiality_classifications :: nat
  ms_evidence_items_by_status :: "(string \<times> nat) list"
  ms_ocr_links :: nat

abbreviation of_tenant :: "jval \<Rightarrow> jval list \<Rightarrow> jval list" where
  "of_tenant t rows \<equiv> filter (\<lambda>r. jget r ''tenant_id'' = t) rows"

definition getMatterSummary :: "jval \<Rightarrow> jval \<Rightarrow> CaseBoxState \<Rightarrow> case_exn + MatterSummary option" where
  "getMatterSummary tenant matterId s =
     (case mget (cs_matters s) matterId of
        None \<Rightarrow> Inr None
      | Some matter \<Rightarrow>
          if jget matter ''tenant_id'' \<noteq> tenant then Inl (tenant_mismatch tenant (jget matter ''tenant_id''))
          else
            let by_status = (\<lambda>ks field rows. count_by ks (map (\<lambda>r. jget r field) (of_tenant tenant rows))) in
            Inr (Some
              \<lparr>ms_matter = matter,
               ms_documents = length (filter (\<lambda>e. snd e = matterId \<and> jget (fst e) ''tenant_id'' = tenant) (mvals (cs_documents s))),
               ms_facts_by_status =
                 by_status [''candidate'', ''reviewed'', ''accepted'', ''rejected''] ''status'' (rows_of (cs_fact s) matterId),
               ms_deadlines_by_status =
                 by_status [''pending'', ''met'', ''missed'', ''withdrawn''] ''status'' (rows_of (cs_deadline s) matterId),
               ms_privilege_markers = length (of_tenant tenant (rows_of (cs_privilege s) matterId)),
               ms_docket_entries_by_state =
                 by_status [''proposed'', ''confirmed'', ''dismissed''] ''confirmation_state'' (rows_of (cs_docket s) matterId),
               ms_confidentiality_classifications = length (of_tenant tenant (rows_of (cs_classification s) matterId)),
               ms_evidence_items_by_status =
                 by_status [''proposed'', ''accepted'', ''rejected'', ''superseded''] ''status'' (rows_of (cs_evidence s) matterId),
               ms_ocr_links = length (of_tenant tenant (matter_links (cs_ocrLink s) matterId))\<rparr>))"

subsection \<open>The detail of a document\<close>

definition FACT_CANDIDATE_PREVIEW_CAP :: nat where "FACT_CANDIDATE_PREVIEW_CAP = 50"

record DocumentDetail =
  dd_document :: jval
  dd_ocr_link :: "jval option"
  dd_effective_classification :: "jval \<times> jval list"
  dd_privilege_status :: PrivilegeResolution
  dd_fact_candidates :: "jval list"

definition getDocumentDetail :: "jval \<Rightarrow> jval \<Rightarrow> jval \<Rightarrow> CaseBoxState \<Rightarrow> case_exn + DocumentDetail option" where
  "getDocumentDetail tenant matterId documentId s =
     (case mget (cs_matters s) matterId of
        None \<Rightarrow> Inr None
      | Some matter \<Rightarrow>
          if jget matter ''tenant_id'' \<noteq> tenant then Inl (tenant_mismatch tenant (jget matter ''tenant_id''))
          else case mget (cs_documents s) documentId of
            None \<Rightarrow> Inr None
          | Some (document, m) \<Rightarrow>
              if m \<noteq> matterId then Inr None
              else if jget document ''tenant_id'' \<noteq> tenant then Inr None
              else
                bindR (getEffectiveClassification tenant matterId (JStr ''document'') documentId s) (\<lambda>classification.
                bindR (getPrivilegeStatus tenant matterId (JStr ''document'') documentId s) (\<lambda>privilege.
                let candidates = filter (\<lambda>f. jget f ''tenant_id'' = tenant \<and> jget f ''source_document_id'' = documentId
                      \<and> jget f ''status'' = JStr ''candidate'') (rows_of (cs_fact s) matterId);
                    ordered = sort_by (\<lambda>a b. chronological (stamp ''created_at'') ''id'' a b \<le> 0) candidates in
                Inr (Some \<lparr>dd_document = document, dd_ocr_link = mget (linksByDocumentId (cs_ocrLink s)) documentId,
                  dd_effective_classification = classification, dd_privilege_status = privilege,
                  dd_fact_candidates = take FACT_CANDIDATE_PREVIEW_CAP ordered\<rparr>))))"

subsection \<open>The calendar and the chain of superseded facts\<close>

definition getDeadlineCalendar :: "jval \<Rightarrow> jval \<Rightarrow> jval \<Rightarrow> jval \<Rightarrow> CaseBoxState \<Rightarrow> case_exn + jval list" where
  "getDeadlineCalendar tenant matterId from_q to_q s =
     bindR (requireMatterScope tenant matterId s) (\<lambda>_.
     Inr (sort_by (\<lambda>a b. compareDeadlinesChronological a b \<le> 0)
       (filter (\<lambda>d. jget d ''tenant_id'' = tenant \<and> \<not> (from_q \<noteq> JUndef \<and> jless (jget d ''due_at'') from_q)
          \<and> \<not> (to_q \<noteq> JUndef \<and> jless to_q (jget d ''due_at''))) (rows_of (cs_deadline s) matterId))))"

text \<open>The loop runs at most \<open>factIds.size + 1\<close> times, and stops at a fact it has seen, does not find, or may not show.\<close>

fun chainSteps :: "nat \<Rightarrow> EntityTable \<Rightarrow> jval \<Rightarrow> jval \<Rightarrow> jval list \<Rightarrow> jval \<Rightarrow> jval list" where
  "chainSteps 0 st tenant matterId visited cursor = []"
| "chainSteps (Suc n) st tenant matterId visited cursor =
     (if cursor = JNull then []
      else if cursor \<in> set visited then []
      else case mget (rt_byId st) cursor of
        None \<Rightarrow> []
      | Some nx \<Rightarrow>
          if jget nx ''matter_id'' \<noteq> matterId then []
          else if jget nx ''tenant_id'' \<noteq> tenant then []
          else nx # chainSteps n st tenant matterId (cursor # visited) (or_default (jget nx ''supersedes_fact_id'') JNull))"

definition getFactSupersessionChain :: "jval \<Rightarrow> jval \<Rightarrow> jval \<Rightarrow> CaseBoxState \<Rightarrow> case_exn + jval list" where
  "getFactSupersessionChain tenant matterId factId s =
     (case mget (cs_matters s) matterId of
        None \<Rightarrow> Inr []
      | Some matter \<Rightarrow>
          if jget matter ''tenant_id'' \<noteq> tenant then Inl (tenant_mismatch tenant (jget matter ''tenant_id''))
          else case mget (rt_byId (cs_fact s)) factId of
            None \<Rightarrow> Inr []
          | Some start \<Rightarrow>
              if jget start ''matter_id'' \<noteq> matterId then Inr []
              else if jget start ''tenant_id'' \<noteq> tenant then Inr []
              else Inr (start # chainSteps (length (remdups (rt_ids (cs_fact s))) + 1) (cs_fact s) tenant matterId
                     [jget start ''id''] (or_default (jget start ''supersedes_fact_id'') JNull)))"

subsection \<open>A count_by counts\<close>

lemma bump_counts:
  assumes "distinct ks"
  shows "bump k (map (\<lambda>k. (k, f k)) ks) = map (\<lambda>k'. (k', if k' = k then Suc (f k') else f k')) ks"
  using assms
proof (induction ks)
  case (Cons k' ks)
  then have "map (\<lambda>k'. (k', if k' = k then Suc (f k') else f k')) ks = map (\<lambda>k. (k, f k)) ks" if "k = k'"
    using that by auto
  with Cons show ?case by auto
qed simp

lemma count_by_counts:
  assumes "distinct ks"
  shows "count_by ks vs = map (\<lambda>k. (k, length (filter (\<lambda>v. v = JStr k) vs))) ks"
proof (induction vs rule: rev_induct)
  case (snoc v vs)
  have "count_by ks (vs @ [v]) = (case v of JStr k \<Rightarrow> bump k (count_by ks vs) | _ \<Rightarrow> count_by ks vs)"
    by (cases v) (simp_all add: count_by_def)
  then show ?case by (cases v) (simp_all add: snoc bump_counts [OF assms] cong: map_cong)
qed (simp add: count_by_def)

lemma count_by_total:
  assumes "distinct ks" and "\<forall>v\<in>set vs. v \<in> JStr ` set ks"
  shows "sum_list (map snd (count_by ks vs)) = length vs"
proof -
  have "sum_list (map (\<lambda>k. length (filter (\<lambda>v. v = JStr k) vs)) ks) = length vs"
    using assms(2)
  proof (induction vs)
    case (Cons v vs)
    then obtain k where k: "k \<in> set ks" "v = JStr k" by auto
    have "sum_list (map (\<lambda>k'. length (filter (\<lambda>v. v = JStr k') (v # vs))) ks) =
        sum_list (map (\<lambda>k'. (if k' = k then 1 else 0) + length (filter (\<lambda>v. v = JStr k') vs)) ks)"
      using k(2) by (intro arg_cong [where f = sum_list] map_cong) auto
    also have "\<dots> = sum_list (map (\<lambda>k'. if k' = k then 1 else 0) ks) + sum_list (map (\<lambda>k'. length (filter (\<lambda>v. v = JStr k') vs)) ks)"
      by (rule sum_list_addf)
    also have "sum_list (map (\<lambda>k'. if k' = k then 1 else (0::nat)) ks) = 1"
      using k(1) assms(1) by (induction ks) (auto simp: sum_list_eq_0_iff)
    finally show ?case using Cons by simp
  qed simp
  then show ?thesis by (simp add: count_by_counts [OF assms(1)] comp_def)
qed

subsection \<open>Statuses are the known ones\<close>

lemma status_path_last:
  "status_path edges ss \<Longrightarrow> ss \<noteq> [] \<Longrightarrow> last ss = hd ss \<or> (\<exists>e\<in>set edges. last ss = ce_to e)"
proof (induction edges ss rule: status_path.induct)
  case (1 edges a b ss)
  then have "last (b # ss) = b \<or> (\<exists>e\<in>set edges. last (b # ss) = ce_to e)" "\<exists>e\<in>set edges. b = ce_to e"
    by (auto simp: isAllowed_def)
  then show ?case by (metis last_ConsR list.discI)
qed auto

definition status_names :: "case_entity \<Rightarrow> string list" where
  "status_names k = remdups (first_status k # map ce_to (edges_of k))"

lemma stored_status:
  assumes "case_inv L s" and "row \<in> stored_rows s k m" and "status_field k = Some f"
  shows "jget row f \<in> JStr ` set (status_names k)"
proof -
  from stored_row [OF assms(1,2)] have "lifecycle_ok k row (entity_events (entity_name k) (key_of k row) (log_get (cs_audit s) m))"
    by blast
  with assms(3) obtain ss where "ss \<noteq> []" "hd ss = first_status k" "status_path (edges_of k) ss" "jget row f = JStr (last ss)"
    by (auto simp: lifecycle_ok_def)
  with status_path_last [of "edges_of k" ss] show ?thesis by (auto simp: status_names_def)
qed

lemma status_names_sets:
  "set (status_names E_fact) = {''candidate'', ''reviewed'', ''accepted'', ''rejected''}"
  "set (status_names E_deadline) = {''pending'', ''met'', ''missed'', ''withdrawn''}"
  "set (status_names E_docket) = {''proposed'', ''confirmed'', ''dismissed''}"
  "set (status_names E_evidence) = {''proposed'', ''accepted'', ''rejected'', ''superseded''}"
  by (auto simp: status_names_def ALLOWED_FACT_EDGES_def ALLOWED_DEADLINE_EDGES_def ALLOWED_DOCKET_ENTRY_EDGES_def
      ALLOWED_EVIDENCE_EDGES_def)

text \<open>Rows of a matter have its tenant.\<close>

lemma rows_of_tenant:
  assumes "case_inv L s" and "mget (cs_matters s) m = Some matter" and "set rows = stored_rows s k m"
  shows "of_tenant (jget matter ''tenant_id'') rows = rows"
proof (rule filter_True, rule ballI)
  fix r assume "r \<in> set rows"
  then have "r \<in> stored_rows s k m" using assms(3) by simp
  from stored_row [OF assms(1) this] assms(2) show "jget r ''tenant_id'' = jget matter ''tenant_id''" by (metis option.inject)
qed

text \<open>Counts by status add up to the rows, and each is the number of rows with that status.\<close>

definition counts_rows :: "jval set \<Rightarrow> string \<Rightarrow> (string \<times> nat) list \<Rightarrow> bool" where
  "counts_rows rows f counts \<longleftrightarrow>
     sum_list (map snd counts) = card rows \<and> (\<forall>(st, n)\<in>set counts. n = card {r \<in> rows. jget r f = JStr st})"

lemma status_counts:
  assumes "case_inv L s" and "mget (cs_matters s) m = Some matter" and "row_table_ok t" and "set (rows_of t m) = stored_rows s k m"
    and "status_field k = Some f" and "distinct ks" and "set ks = set (status_names k)"
    and "counts = count_by ks (map (\<lambda>r. jget r f) (of_tenant (jget matter ''tenant_id'') (rows_of t m)))"
  shows "counts_rows (stored_rows s k m) f counts"
  unfolding counts_rows_def
proof (intro conjI ballI, unfold split_paired_all, unfold prod.case)
  have d: "distinct (rows_of t m)" using assms(3) by (simp add: row_table_ok_def distinct_map)
  have c: "counts = count_by ks (map (\<lambda>r. jget r f) (rows_of t m))"
    using assms(8) rows_of_tenant [OF assms(1,2,4)] by simp
  have "\<forall>v\<in>set (map (\<lambda>r. jget r f) (rows_of t m)). v \<in> JStr ` set ks"
    using stored_status [OF assms(1) _ assms(5)] assms(4,7) by auto
  from count_by_total [OF assms(6) this] show "sum_list (map snd counts) = card (stored_rows s k m)"
    using distinct_card [OF d] by (simp add: c assms(4))
  fix st n assume "(st, n) \<in> set counts"
  then have "n = length (filter (\<lambda>r. jget r f = JStr st) (rows_of t m))"
    by (auto simp: c count_by_counts [OF assms(6)] filter_map comp_def)
  also have "\<dots> = card (set (filter (\<lambda>r. jget r f = JStr st) (rows_of t m)))"
    by (rule distinct_card [symmetric]) (use d in simp)
  finally show "n = card {r \<in> stored_rows s k m. jget r f = JStr st}" by (simp add: assms(4))
qed

lemma tenant_rows_card:
  assumes "case_inv L s" and "mget (cs_matters s) m = Some matter" and "distinct rows" and "set rows = stored_rows s k m"
  shows "length (of_tenant (jget matter ''tenant_id'') rows) = card (stored_rows s k m)"
  using rows_of_tenant [OF assms(1,2,4)] distinct_card [OF assms(3)] assms(4) by simp

lemma documents_card:
  assumes "case_inv L s" and "mget (cs_matters s) m = Some matter" and "maps_ok s"
  shows "length (filter (\<lambda>e. snd e = m \<and> jget (fst e) ''tenant_id'' = jget matter ''tenant_id'') (mvals (cs_documents s)))
    = card (stored_rows s E_document m)"
proof -
  let ?docs = "map fst (filter (\<lambda>e. snd e = m) (mvals (cs_documents s)))"
  from assms(1,3) have ok: "documents_ok (cs_documents s)" "distinct (mkeys (cs_documents s))"
    by (simp_all add: case_inv_def tables_ok_def maps_ok_def)
  have "distinct (map (\<lambda>d. jget d ''id'') ?docs)" using document_ids_distinct [OF ok, of "\<lambda>e. snd e = m"] by (simp add: comp_def)
  then have d: "distinct ?docs" unfolding distinct_map [of "\<lambda>d. jget d ''id''"] by (rule conjunct1)
  have "set ?docs = stored_rows s E_document m"
    using ok(2) by (force simp: image_iff)
  from tenant_rows_card [OF assms(1,2) d this] show ?thesis
    by (simp add: filter_map comp_def conj_commute)
qed

lemma links_card:
  assumes "case_inv L s" and "mget (cs_matters s) m = Some matter" and "maps_ok s"
  shows "length (of_tenant (jget matter ''tenant_id'') (matter_links (cs_ocrLink s) m)) = card (stored_rows s E_ocr_link m)"
proof (rule tenant_rows_card [OF assms(1,2)])
  from assms(1,3) have "links_ok (cs_ocrLink s) (cs_documents s)" "link_sets_ok (cs_ocrLink s)"
    by (simp_all add: case_inv_def tables_ok_def maps_ok_def)
  from link_ids_distinct [OF this] show "distinct (matter_links (cs_ocrLink s) m)" by (simp add: distinct_map)
  show "set (matter_links (cs_ocrLink s) m) = stored_rows s E_ocr_link m"
    unfolding matter_links_set stored_rows.simps by blast
qed

subsection \<open>The chain is whole\<close>

text \<open>A path of supersessions: each fact names the next one, the last names none.\<close>

fun supersession_path :: "EntityTable \<Rightarrow> jval list \<Rightarrow> bool" where
  "supersession_path t [] = False"
| "supersession_path t [r] = (\<not> event_present (jget r ''supersedes_fact_id''))"
| "supersession_path t (r # r' # rs) =
     (event_present (jget r ''supersedes_fact_id'') \<and> mget (rt_byId t) (jget r ''supersedes_fact_id'') = Some r' \<and>
      supersession_path t (r' # rs))"

lemma chainSteps_whole:
  assumes "entity_table_ok t" and "supersession_ok t"
    and tenant: "\<And>k row. mget (rt_byId t) k = Some row \<Longrightarrow> jget row ''matter_id'' = m \<Longrightarrow> jget row ''tenant_id'' = tenant"
  shows "mget (rt_byId t) k = Some row \<Longrightarrow> jget row ''matter_id'' = m \<Longrightarrow> k \<in> set visited \<Longrightarrow>
    \<forall>v\<in>set visited. (v, k) \<in> (supersedes_rel t)\<^sup>* \<and> v \<in> set (rt_ids t) \<Longrightarrow> distinct visited \<Longrightarrow>
    length (remdups (rt_ids t)) < n + length visited \<Longrightarrow>
    supersession_path t (row # chainSteps n t tenant m visited (or_default (jget row ''supersedes_fact_id'') JNull))"
proof (induction n arbitrary: k row visited)
  case 0
  have "length visited \<le> length (remdups (rt_ids t))"
    using 0(4,5) by (metis card_mono distinct_card distinct_remdups finite_set set_remdups subsetI)
  with 0 show ?case by simp
next
  case (Suc n)
  let ?r = "supersedes_rel t" and ?x = "jget row ''supersedes_fact_id''"
  show ?case
  proof (cases "event_present ?x")
    case False
    then have "or_default ?x JNull = JNull" by (auto simp: event_present_def or_default_def)
    with False show ?thesis by simp
  next
    case True
    then have x: "or_default ?x JNull = ?x" "?x \<noteq> JNull" by (auto simp: event_present_def or_default_def)
    have edge: "(k, ?x) \<in> ?r" using Suc.prems(1) True by (simp add: supersedes_rel_def)
    have all: "\<forall>v\<in>set visited. (v, ?x) \<in> ?r\<^sup>+" using Suc.prems(4) edge by auto
    have new: "?x \<notin> set visited"
      using all assms(2) by (auto simp: supersession_ok_def acyclic_def)
    obtain nx where nx: "mget (rt_byId t) ?x = Some nx" "jget nx ''matter_id'' = m"
      using assms(2) Suc.prems(1,2) True unfolding supersession_ok_def by metis
    have "?x \<in> set (rt_ids t)"
      using row_table_okD(2) [OF entity_rows_ok [OF assms(1)] entity_lookup(2) [OF assms(1) nx(1)]] entity_lookup(1) [OF assms(1) nx(1)] by simp
    then have "supersession_path t (nx # chainSteps n t tenant m (?x # visited) (or_default (jget nx ''supersedes_fact_id'') JNull))"
      using Suc.prems(4-6) all new nx by (intro Suc.IH [of ?x]) (auto intro: trancl_into_rtrancl)
    with True x nx new tenant [OF nx] show ?thesis by simp
  qed
qed

lemma path_members:
  assumes "entity_table_ok t" and "supersession_ok t"
  shows "mget (rt_byId t) k = Some row \<Longrightarrow> jget row ''matter_id'' = m \<Longrightarrow> supersession_path t (row # rest) \<Longrightarrow> r \<in> set rest \<Longrightarrow>
    \<exists>x. mget (rt_byId t) x = Some r \<and> jget r ''matter_id'' = m \<and> jget r ''status'' = JStr ''accepted''"
proof (induction rest arbitrary: k row)
  case (Cons r' rest)
  from Cons.prems(3) have p: "event_present (jget row ''supersedes_fact_id'')"
    "mget (rt_byId t) (jget row ''supersedes_fact_id'') = Some r'" "supersession_path t (r' # rest)" by simp_all
  with Cons.prems(1,2) assms(2) have r': "jget r' ''matter_id'' = m" "jget r' ''status'' = JStr ''accepted''"
    unfolding supersession_ok_def by (metis option.inject)+
  show ?case
  proof (cases "r = r'")
    case True
    with p r' show ?thesis by blast
  next
    case False
    with Cons.prems(4) have "r \<in> set rest" by simp
    from Cons.IH [OF p(2) r'(1) p(3) this] show ?thesis .
  qed
qed simp

subsection \<open>The detail of a document\<close>

text \<open>The detail never fails on the scope checks of the reads it is made of, and shows what those reads return; its
  candidates are the first of the list that \<open>listFacts\<close> yields for candidates of the document.\<close>

definition candidates_query :: "jval \<Rightarrow> jval \<Rightarrow> jval \<Rightarrow> ListFactsQuery" where
  "candidates_query tenant m d =
     \<lparr>pq_tenant_id = tenant, pq_limit = JUndef, pq_cursor = None, pq_matter_id = m,
      fq_status = JStr ''candidate'', fq_source_type = JUndef, fq_source_document_id = d\<rparr>"

lemma document_detail_agrees:
  assumes "case_inv L s" and "mget (cs_matters s) m = Some matter" and "jget matter ''tenant_id'' = tenant"
    and "getDocument d s = Some document" and "jget document ''matter_id'' = m" and "d \<noteq> JUndef"
  shows "\<exists>classification privilege. getEffectiveClassification tenant m (JStr ''document'') d s = Inr classification \<and>
    getPrivilegeStatus tenant m (JStr ''document'') d s = Inr privilege \<and>
    getDocumentDetail tenant m d s = Inr (Some
      \<lparr>dd_document = document, dd_ocr_link = mget (linksByDocumentId (cs_ocrLink s)) d,
       dd_effective_classification = classification, dd_privilege_status = privilege,
       dd_fact_candidates = take 50 (matched_facts (candidates_query tenant m d) (cs_fact s))\<rparr>)"
proof -
  from assms(4) obtain m' where d: "mget (cs_documents s) d = Some (document, m')" by (auto simp: getDocument_def)
  with assms(1,5) have m': "m' = m" by (auto simp: case_inv_def tables_ok_def documents_ok_def)
  with d have "document \<in> stored_rows s E_document m" by auto
  from stored_row [OF assms(1) this] assms(2,3) have t: "jget document ''tenant_id'' = tenant" by (metis option.inject)
  have target: "requireDocumentTarget reader tenant m (JStr ''document'') d s = Inr ()" for reader
    by (simp add: requireDocumentTarget_def requireMatterScope_def assms(2,3,5) d t check_def)
  have matches: "fact_matches (candidates_query tenant m d) =
      (\<lambda>f. jget f ''tenant_id'' = tenant \<and> jget f ''source_document_id'' = d \<and> jget f ''status'' = JStr ''candidate'')"
    using assms(6) by (auto simp: fun_eq_iff fact_matches_def candidates_query_def admits_def)
  have "pq_matter_id (candidates_query tenant m d) = m" by (simp add: candidates_query_def)
  with matches have same: "matched_facts (candidates_query tenant m d) (cs_fact s) =
      sort_by (\<lambda>a b. chronological (stamp ''created_at'') ''id'' a b \<le> 0)
        (filter (\<lambda>f. jget f ''tenant_id'' = tenant \<and> jget f ''source_document_id'' = d \<and> jget f ''status'' = JStr ''candidate'')
          (rows_of (cs_fact s) m))"
    by (simp only: matched_facts_def compareFactsChronological_def)
  show ?thesis
    by (simp add: getDocumentDetail_def getEffectiveClassification_def getPrivilegeStatus_def target assms(2,3) d m' t same
        FACT_CANDIDATE_PREVIEW_CAP_def)
qed

end
