(* ===== verification/CaseViewProperties.thy ===== *)
theory CaseViewProperties
  imports CaseBoxViews CaseFactExamples
begin

text \<open>
  What a reader of the case box is shown in every reachable state: the pages of a list are its rows, the pages of the
  audit log are the log that verifies, the counts of a summary account for every record, the chain of
  superseded facts is whole. Each property is followed by an instance on the example case.
\<close>

subsection \<open>A fact that supersedes another\<close>

definition exSupersede :: FactTransitionOpts where
  "exSupersede = exFactTo ''accepted'' (JStr ''f1'')"

definition exFacts5 :: CaseBoxState where
  "exFacts5 = snd (transitionFact exCaseLib (exInputsCase ''j'') (JStr ''f2'') (exFactTo ''reviewed'' JUndef) exFacts4)"

definition exFacts6 :: CaseBoxState where
  "exFacts6 = snd (transitionFact exCaseLib (exInputsCase ''k'') (JStr ''f2'') exSupersede exFacts5)"

definition exFactR2 :: jval where
  "exFactR2 = nextFact (exFact ''f2'') (exFactTo ''reviewed'' JUndef)"

definition exFactS :: jval where
  "exFactS = nextFact exFactR2 exSupersede"

lemma exFacts56_reachable: "case_reachable exCaseLib exFacts5" "case_reachable exCaseLib exFacts6"
proof -
  show 5: "case_reachable exCaseLib exFacts5"
    unfolding exFacts5_def by (rule case_reachable_step [OF exFacts_reachable(4) case_fact_transition [OF prod.collapse [symmetric]]])
  show "case_reachable exCaseLib exFacts6"
    unfolding exFacts6_def by (rule case_reachable_step [OF 5 case_fact_transition [OF prod.collapse [symmetric]]])
qed

lemma exFacts4_index: "mget (rt_index (cs_fact exFacts4)) (JStr ''f2'') = Some (JStr ''m1'')"
  using exFact_run(2) [OF reachable_inv [OF exFacts_reachable(3)] exFacts3_tables(1) _ prod.collapse [symmetric], of "''f2''" "exInputsCase ''i''"]
  by (auto simp: exFacts4_def exFacts3_tables exFact_fields)

lemma exFacts5_tables: "mget (cs_matters exFacts5) (JStr ''m1'') = Some exMatter1"
  "mget (rt_index (cs_fact exFacts5)) (JStr ''f2'') = Some (JStr ''m1'')"
  "mget (rt_byId (cs_fact exFacts5)) (JStr ''f1'') = Some exFactA" "mget (rt_byId (cs_fact exFacts5)) (JStr ''f2'') = Some exFactR2"
  using exFactTo_run(2) [OF reachable_inv [OF exFacts_reachable(4)] exFacts4_tables(1) exFacts4_index exFacts4_tables(3) _ _ prod.collapse [symmetric],
      of "''reviewed''" "''j''"]
  by (auto simp: exFacts5_def exFacts4_tables exFacts4_index exFactR2_def)

lemma exFactR2_at: "exFactR2 = exFactAt ''f2'' ''reviewed'' exReview"
  by (simp add: exFactR2_def exFact_steps)

lemma exFactS_fields: "jget exFactS ''id'' = JStr ''f2''" "jget exFactS ''matter_id'' = JStr ''m1''"
  "jget exFactS ''tenant_id'' = JStr ''t1''" "jget exFactS ''status'' = JStr ''accepted''"
  "jget exFactS ''supersedes_fact_id'' = JStr ''f1''" "jget exFactS ''actor_user_id'' = JStr ''u1''"
  by (simp_all add: exFactS_def exFactR2_at exFactAt_def exReview_def exSupersede_def nextFact_def exFactTo_def Let_def)

lemma exSupersede_prepared:
  "\<exists>ev. prepareTransitionFact exCaseLib (exInputsCase x) (cs_fact exFacts5) (JStr ''f2'') exSupersede (log_get (cs_audit exFacts5)) =
    Inr (exFactS, ev, JStr ''m1'')"
proof -
  let ?log = "log_get (cs_audit exFacts5) (JStr ''m1'')"
  have inv: "case_inv exCaseLib exFacts5" by (rule reachable_inv [OF exFacts56_reachable(1)])
  then have tok: "entity_table_ok (cs_fact exFacts5)" "supersession_ok (cs_fact exFacts5)" by (simp_all add: case_inv_def tables_ok_def)
  from matter_head [OF inv exFacts5_tables(1)] obtain h where h: "priorHeadOf (audit_lib exCaseLib) ?log = Inr (Some h)" ..
  have st: "jget exFactR2 ''status'' = JStr ''reviewed''" "jget exFactR2 ''matter_id'' = JStr ''m1''" by (simp_all add: exFactR2_at exFactAt_fields)
  have opts: "ft_to exSupersede = ''accepted''" "ft_reviewer_actor_user_id exSupersede = JStr ''u2''"
    "ft_at exSupersede = JStr ''2026-01-02T00:00:00.000Z''" "isReplacement exSupersede" "ft_supersedes_fact_id exSupersede = JStr ''f1''"
    by (simp_all add: exSupersede_def exFactTo_def isReplacement_def)
  have sup: "checkSupersedes (cs_fact exFacts5) (JStr ''f2'') exFactR2 (JStr ''f1'') = Inr ()"
    using checkSupersedes_iff [OF tok exFacts5_tables(4), of "JStr ''f1''"] exFacts5_tables(3)
    by (simp add: st exFactA_fields nonempty_string_def)
  have nx: "nextFact exFactR2 exSupersede = exFactS" by (simp add: exFactS_def)
  have promo: "assertFactPromotionInvariants exFactS = Inr ()"
    by (simp add: assertFactPromotionInvariants_def exFactS_def exFactR2_at exFactAt_def exReview_def exSupersede_def nextFact_def
        exFactTo_def or_default_def Let_def)
  obtain ev where "emitEvent (audit_lib exCaseLib) ?log
      (updatedEvent exCaseLib (exInputsCase x) ''FACT_REPLACEMENT_ACCEPTED'' (JStr ''m1'') (JStr ''u2'') JNull exFactS JUndef) = Inr ev"
    using ex_emit [OF h] by (fastforce simp: plain_input_def updatedEvent_def audit_simps exFactS_fields is_str_def)
  then show ?thesis
    using exFacts5_tables
    by (simp add: prepareTransitionFact_def opts sup nx st promo exFact_edges exCaseLib_validators ex_checks Let_def)
qed

lemma exFacts6_state: "\<exists>a. exFacts6 = (exFacts5\<lparr>cs_fact := putEntity (JStr ''m1'') (JStr ''f2'') exFactS (cs_fact exFacts5)\<rparr>)\<lparr>cs_audit := a\<rparr>"
proof -
  let ?put = "\<lambda>m nx s. s\<lparr>cs_fact := putEntity m (JStr ''f2'') nx (cs_fact s)\<rparr>"
  from exSupersede_prepared obtain ev where
    "prepareTransitionFact exCaseLib (exInputsCase ''k'') (cs_fact exFacts5) (JStr ''f2'') exSupersede (log_get (cs_audit exFacts5)) =
      Inr (exFactS, ev, JStr ''m1'')" by blast
  then have "exFacts6 = snd (commitEvent exCaseLib (JStr ''m1'') ev exFactS (?put (JStr ''m1'') exFactS exFacts5))"
    by (simp add: exFacts6_def transitionFact_def replaceBody_def)
  then show ?thesis by (auto simp: commitEvent_def split: prod.splits sum.splits)
qed

lemma exFacts6_tables: "mget (cs_matters exFacts6) (JStr ''m1'') = Some exMatter1"
  "mget (rt_byId (cs_fact exFacts6)) (JStr ''f1'') = Some exFactA" "mget (rt_byId (cs_fact exFacts6)) (JStr ''f2'') = Some exFactS"
proof -
  from exFacts6_state obtain a where
    s: "exFacts6 = (exFacts5\<lparr>cs_fact := putEntity (JStr ''m1'') (JStr ''f2'') exFactS (cs_fact exFacts5)\<rparr>)\<lparr>cs_audit := a\<rparr>" ..
  show "mget (cs_matters exFacts6) (JStr ''m1'') = Some exMatter1"
    "mget (rt_byId (cs_fact exFacts6)) (JStr ''f1'') = Some exFactA" "mget (rt_byId (cs_fact exFacts6)) (JStr ''f2'') = Some exFactS"
    by (simp_all add: s exFacts5_tables)
qed

subsection \<open>Pages\<close>

text \<open>C28. The pages of a list of facts: following \<open>next_cursor\<close> of \<open>listFacts\<close> from the first page ends and yields, for every
  legal limit, exactly the facts of the matter that the query's filters admit, each once, in
  chronological order.\<close>

theorem fact_pages_are_complete:
  assumes "case_lib_ok L" and "case_reachable L s" and "codec_ok C" and "caseResolveLimit (pq_limit q) = Inr l"
    and "requireMatterScope (pq_tenant_id q) (pq_matter_id q) s = Inr matter"
    and "source_document_known (cs_documents s) (pq_tenant_id q) (pq_matter_id q) (fq_source_document_id q) = Inr ()"
    and "textual (stamp ''created_at'') ''id'' (set (rows_of (cs_fact s) (pq_matter_id q)))"
  shows "\<exists>rows. is_listing (listFacts C) q s (\<lambda>a b. compareFactsChronological a b \<le> 0) rows \<and>
    set rows = {f \<in> set (rows_of (cs_fact s) (pq_matter_id q)). fact_matches q f}"
proof -
  from case_reachable_inv [OF assms(1,2)] have "row_table_ok (cs_fact s)"
    by (simp add: case_inv_def tables_ok_def entity_table_ok_def indexed_table_ok_def)
  from facts_listing [OF assms(3,4) _ this assms(7,6)] assms(5)
  have "is_listing (listFacts C) q s (\<lambda>a b. compareFactsChronological a b \<le> 0) (matched_facts q (cs_fact s))" by blast
  then show ?thesis by (intro exI [of _ "matched_facts q (cs_fact s)"]) (auto simp: matched_facts_def)
qed

definition exFactsQuery :: ListFactsQuery where
  "exFactsQuery = \<lparr>pq_tenant_id = JStr ''t1'', pq_limit = JInt 1, pq_cursor = None, pq_matter_id = JStr ''m1'',
     fq_status = JStr ''accepted'', fq_source_type = JUndef, fq_source_document_id = JUndef\<rparr>"

lemma exFact_stored:
  assumes "case_reachable exCaseLib s" and "mget (rt_byId (cs_fact s)) k = Some row"
  shows "row \<in> set (rows_of (cs_fact s) (jget row ''matter_id''))"
proof -
  have "entity_table_ok (cs_fact s)" using reachable_inv [OF assms(1)] by (simp add: case_inv_def tables_ok_def)
  from entity_lookup(2) [OF this assms(2)] show ?thesis .
qed

lemma exFacts6_rows: "rows_of (cs_fact exFacts6) (JStr ''m1'') = [exFactA, exFactS]"
proof -
  have r: "rows_of (cs_fact exFacts1) (JStr ''m1'') = [exFact ''f1'']"
  proof -
    from exFacts1_state obtain a where
      s: "exFacts1 = (exCase1\<lparr>cs_fact := pushEntity (JStr ''m1'') (exFact ''f1'') emptyEntityTable\<rparr>)\<lparr>cs_audit := a\<rparr>" ..
    show ?thesis by (simp add: s)
  qed
  have r2: "rows_of (cs_fact exFacts2) (JStr ''m1'') = [exFactR]"
    using exFactTo_run(2) [OF reachable_inv [OF exFacts_reachable(1)] exFacts1_tables(1-3) _ _ prod.collapse [symmetric], of "''reviewed''" "''g''"]
    by (auto simp: exFacts2_def exFactR_def r exFact_fields)
  have i: "jget exFactR ''id'' = JStr ''f1''" by (simp add: exFactR_def exFact_steps exFactAt_fields)
  have r3: "rows_of (cs_fact exFacts3) (JStr ''m1'') = [exFactA]"
    using exFactTo_run(2) [OF reachable_inv [OF exFacts_reachable(2)] exFacts2_tables(1-3) _ _ prod.collapse [symmetric], of "''accepted''" "''h''"]
    by (auto simp: exFacts3_def exFactR_def exFactA_def r2 i [unfolded exFactR_def])
  have r4: "rows_of (cs_fact exFacts4) (JStr ''m1'') = [exFactA, exFact ''f2'']"
    using exFact_run(2) [OF reachable_inv [OF exFacts_reachable(3)] exFacts3_tables(1) _ prod.collapse [symmetric], of "''f2''" "exInputsCase ''i''"]
    by (auto simp: exFacts4_def exFacts3_tables exFact_fields r3)
  have r5: "rows_of (cs_fact exFacts5) (JStr ''m1'') = [exFactA, exFactR2]"
    using exFactTo_run(2) [OF reachable_inv [OF exFacts_reachable(4)] exFacts4_tables(1) exFacts4_index exFacts4_tables(3) _ _ prod.collapse [symmetric],
        of "''reviewed''" "''j''"]
    by (auto simp: exFacts5_def exFactR2_def r4 exFact_fields exFactA_fields)
  have i2: "jget exFactR2 ''id'' = JStr ''f2''" by (simp add: exFactR2_at exFactAt_fields)
  from exFacts6_state obtain a where
    s: "exFacts6 = (exFacts5\<lparr>cs_fact := putEntity (JStr ''m1'') (JStr ''f2'') exFactS (cs_fact exFacts5)\<rparr>)\<lparr>cs_audit := a\<rparr>" ..
  show ?thesis by (simp add: s r5 exFactA_fields i2)
qed

lemma ex_in_scope: "requireMatterScope (JStr ''t1'') (JStr ''m1'') exFacts6 = Inr exMatter1"
  using exFacts6_tables(1) exCase1_m(2) by (simp add: requireMatterScope_def)

theorem fact_pages_are_complete_witness:
  "\<exists>rows. is_listing (listFacts exCodec) exFactsQuery exFacts6 (\<lambda>a b. compareFactsChronological a b \<le> 0) rows \<and> exFactS \<in> set rows"
proof -
  have lim: "caseResolveLimit (pq_limit exFactsQuery) = Inr 1"
    by (simp add: exFactsQuery_def caseResolveLimit_def resolveLimit_def MAX_LIMIT_def)
  have scope: "requireMatterScope (pq_tenant_id exFactsQuery) (pq_matter_id exFactsQuery) exFacts6 = Inr exMatter1"
    by (simp add: exFactsQuery_def ex_in_scope)
  have doc: "source_document_known (cs_documents exFacts6) (pq_tenant_id exFactsQuery) (pq_matter_id exFactsQuery)
      (fq_source_document_id exFactsQuery) = Inr ()" by (simp add: exFactsQuery_def source_document_known_def)
  have created: "stamp ''created_at'' exFactA = JStr []" "stamp ''created_at'' exFactS = JStr []"
    by (simp_all add: stamp_def or_default_def exFactA_def exFactR_def exFact_steps exFactAt_def exReview_def exFactS_def exFactR2_at
        exSupersede_def nextFact_def exFactTo_def Let_def)
  have keys: "textual (stamp ''created_at'') ''id'' (set (rows_of (cs_fact exFacts6) (pq_matter_id exFactsQuery)))"
    by (simp add: exFactsQuery_def exFacts6_rows textual_def created exFactA_fields exFactS_fields is_str_iff)
  have "exFactS \<in> {f \<in> set (rows_of (cs_fact exFacts6) (pq_matter_id exFactsQuery)). fact_matches exFactsQuery f}"
    by (simp add: exFactsQuery_def exFacts6_rows fact_matches_def admits_def exFactS_fields)
  with fact_pages_are_complete [OF exCaseLib_ok exFacts56_reachable(2) exCodec_ok lim scope doc keys] show ?thesis by blast
qed

text \<open>C29. The pages of the audit log: following \<open>next_cursor\<close> of \<open>listAuditEvents\<close> yields, for every legal limit, the
  whole history of the matter; that history verifies as a chain, to the head hash that
  \<open>getAuditChainHead\<close> reports and with as many events as it reports. So a reader can recompute the
  head from the pages alone.\<close>

theorem audit_pages_are_the_verified_log:
  assumes "case_lib_ok L" and "case_reachable L s" and "codec_ok C" and "caseResolveLimit (pq_limit q) = Inr l"
    and "requireMatterScope (pq_tenant_id q) (pq_matter_id q) s = Inr matter"
  shows "\<exists>events h hd. followCursors (Suc (length events)) (\<lambda>c. listAuditEvents C (q\<lparr>pq_cursor := c\<rparr>) s) None = Some events \<and>
    verifyAuditChain (audit_lib L) events = Inr (ChainVerifyOk (length events) (Some h)) \<and>
    getAuditChainHead L (pq_matter_id q) s = Inr hd \<and> hd_headHash hd = h \<and> hd_count hd = length events"
proof -
  let ?m = "pq_matter_id q" and ?log = "log_get (cs_audit s) (pq_matter_id q)"
  have inv: "case_inv L s" by (rule case_reachable_inv [OF assms(1,2)])
  from assms(5) have m: "mget (cs_matters s) ?m = Some matter" by (auto simp: requireMatterScope_def split: option.splits if_splits)
  with inv have c: "chain_inv (audit_lib L) ?m (jget matter ''tenant_id'') ?log (log_anchor (cs_audit s) ?m)"
    by (auto simp: case_inv_def trails_ok_def matters_ok_def)
  then have seq: "map sa_sequence ?log = [1..<Suc (length ?log)]" and ne: "?log \<noteq> []" by (auto simp: chain_inv_def)
  from chain_inv_head [OF c] obtain h where h: "priorHeadOf (audit_lib L) ?log = Inr (Some h)"
    "verifyAuditChain (audit_lib L) (map sa_event ?log) = Inr (ChainVerifyOk (length ?log) (Some h))" .
  then have hash: "eventHashFn (audit_lib L) (sa_event (last ?log)) = Inr h" using ne by (simp add: priorHeadOf_def result_simps)
  have "getAuditChainHead L ?m s = Inr \<lparr>hd_headHash = h, hd_lastEventId = jget (sa_event (last ?log)) ''id'', hd_count = length ?log\<rparr>"
    using m ne hash by (simp add: getAuditChainHead_def getAuditChainHeadHelper_def assertAuditChainNotErased_def Let_def)
  moreover have "followCursors (Suc (length ?log)) (\<lambda>c. listAuditEvents C (q\<lparr>pq_cursor := c\<rparr>) s) None = Some (map sa_event ?log)"
    using audit_listing [OF assms(3,4) _ seq] assms(5) by blast
  ultimately show ?thesis using h(2) by (intro exI [of _ "map sa_event ?log"]) auto
qed

theorem audit_pages_are_the_verified_log_witness:
  "\<exists>events h. followCursors (Suc (length events)) (\<lambda>c. listAuditEvents exCodec (exFactsQuery\<lparr>pq_cursor := c\<rparr>) exFacts6) None = Some events \<and>
    verifyAuditChain (audit_lib exCaseLib) events = Inr (ChainVerifyOk (length events) (Some h))"
proof -
  have lim: "caseResolveLimit (pq_limit exFactsQuery) = Inr 1"
    by (simp add: exFactsQuery_def caseResolveLimit_def resolveLimit_def MAX_LIMIT_def)
  have scope: "requireMatterScope (pq_tenant_id exFactsQuery) (pq_matter_id exFactsQuery) exFacts6 = Inr exMatter1"
    by (simp add: exFactsQuery_def ex_in_scope)
  from audit_pages_are_the_verified_log [OF exCaseLib_ok exFacts56_reachable(2) exCodec_ok lim scope] show ?thesis by blast
qed

subsection \<open>Views\<close>

text \<open>C30. The summary of a matter accounts for every record: its counts by status add up to the number of facts,
  deadlines, docket entries and evidence items stored under the matter, each of them is the number of
  records with that status, and the other counts are those of the documents, markers,
  classifications and OCR links of the matter.\<close>

theorem summary_accounts_for_every_record:
  assumes "case_lib_ok L" and "case_reachable L s" and "getMatterSummary t m s = Inr (Some sm)"
  shows "getMatter m s = Some (ms_matter sm) \<and>
    counts_rows (stored_rows s E_fact m) ''status'' (ms_facts_by_status sm) \<and>
    counts_rows (stored_rows s E_deadline m) ''status'' (ms_deadlines_by_status sm) \<and>
    counts_rows (stored_rows s E_docket m) ''confirmation_state'' (ms_docket_entries_by_state sm) \<and>
    counts_rows (stored_rows s E_evidence m) ''status'' (ms_evidence_items_by_status sm) \<and>
    ms_documents sm = card (stored_rows s E_document m) \<and> ms_privilege_markers sm = card (stored_rows s E_privilege m) \<and>
    ms_confidentiality_classifications sm = card (stored_rows s E_classification m) \<and>
    ms_ocr_links sm = card (stored_rows s E_ocr_link m)"
proof -
  have inv: "case_inv L s" by (rule case_reachable_inv [OF assms(1,2)])
  have maps: "maps_ok s" by (rule reachable_maps [OF assms(2)])
  from inv have ok: "row_table_ok (cs_fact s)" "row_table_ok (cs_deadline s)" "row_table_ok (cs_docket s)" "row_table_ok (cs_evidence s)"
    "row_table_ok (cs_privilege s)" "row_table_ok (cs_classification s)"
    by (simp_all add: case_inv_def tables_ok_def entity_table_ok_def indexed_table_ok_def)
  then have d: "distinct (rows_of (cs_privilege s) m)" "distinct (rows_of (cs_classification s) m)"
    by (simp_all add: row_table_ok_def distinct_map)
  from assms(3) obtain matter where m: "mget (cs_matters s) m = Some matter" "jget matter ''tenant_id'' = t"
    by (auto simp: getMatterSummary_def split: option.splits if_splits)
  note tallies = status_counts [OF inv m(1) ok(1), where k = E_fact] status_counts [OF inv m(1) ok(2), where k = E_deadline]
    status_counts [OF inv m(1) ok(3), where k = E_docket] status_counts [OF inv m(1) ok(4), where k = E_evidence]
  note cards = documents_card [OF inv m(1) maps] links_card [OF inv m(1) maps]
    tenant_rows_card [OF inv m(1) d(1), of E_privilege] tenant_rows_card [OF inv m(1) d(2), of E_classification]
  note sm = assms(3) [unfolded getMatterSummary_def m option.case, simplified, symmetric]
  show ?thesis
  proof (intro conjI)
    show "getMatter m s = Some (ms_matter sm)" by (simp add: getMatter_def m(1) sm)
    show "counts_rows (stored_rows s E_fact m) ''status'' (ms_facts_by_status sm)"
      by (rule tallies(1)) (auto simp: sm status_names_sets m(2))
    show "counts_rows (stored_rows s E_deadline m) ''status'' (ms_deadlines_by_status sm)"
      by (rule tallies(2)) (auto simp: sm status_names_sets m(2))
    show "counts_rows (stored_rows s E_docket m) ''confirmation_state'' (ms_docket_entries_by_state sm)"
      by (rule tallies(3)) (auto simp: sm status_names_sets m(2))
    show "counts_rows (stored_rows s E_evidence m) ''status'' (ms_evidence_items_by_status sm)"
      by (rule tallies(4)) (auto simp: sm status_names_sets m(2))
  qed (use cards in \<open>simp_all add: sm m(2)\<close>)
qed

theorem summary_accounts_for_every_record_witness:
  "\<exists>sm. getMatterSummary (JStr ''t1'') (JStr ''m1'') exFacts6 = Inr (Some sm) \<and>
    ms_facts_by_status sm = [(''candidate'', 0), (''reviewed'', 0), (''accepted'', 2), (''rejected'', 0)] \<and>
    card (stored_rows exFacts6 E_fact (JStr ''m1'')) = 2"
proof -
  obtain sm where sm: "getMatterSummary (JStr ''t1'') (JStr ''m1'') exFacts6 = Inr (Some sm)"
    using exFacts6_tables(1) exCase1_m(2) by (simp add: getMatterSummary_def Let_def)
  have "ms_facts_by_status sm = [(''candidate'', 0), (''reviewed'', 0), (''accepted'', 2), (''rejected'', 0)]"
    using sm exFacts6_tables(1) exCase1_m(2)
    by (auto simp: getMatterSummary_def Let_def exFacts6_rows exFactA_fields exFactS_fields count_by_def)
  with sm summary_accounts_for_every_record [OF exCaseLib_ok exFacts56_reachable(2) sm] show ?thesis
    by (auto simp: counts_rows_def)
qed

text \<open>C31. The chain of superseded facts is whole: the read starts with the fact asked for, each fact of the chain names
  the next one, the last one names none, and all but the first are accepted facts the same reader can
  read. So neither the bound on the steps nor the guard against cycles ever cuts the chain short.\<close>

theorem supersession_chain_is_whole:
  assumes "case_lib_ok L" and "case_reachable L s" and "getFact t m k s = Inr (Some row)"
  shows "\<exists>rest. getFactSupersessionChain t m k s = Inr (row # rest) \<and> supersession_path (cs_fact s) (row # rest) \<and>
    (\<forall>r \<in> set rest. getFact t m (jget r ''id'') s = Inr (Some r) \<and> jget r ''status'' = JStr ''accepted'')"
proof -
  have inv: "case_inv L s" by (rule case_reachable_inv [OF assms(1,2)])
  then have ok: "entity_table_ok (cs_fact s)" "supersession_ok (cs_fact s)" by (simp_all add: case_inv_def tables_ok_def)
  from assms(3) obtain matter where m: "mget (cs_matters s) m = Some matter" "jget matter ''tenant_id'' = t"
    and row: "mget (rt_byId (cs_fact s)) k = Some row" "jget row ''matter_id'' = m" "jget row ''tenant_id'' = t"
    by (auto simp: getFact_def scopedGet_def split: option.splits if_splits)
  have tenant: "jget r ''tenant_id'' = t" if "mget (rt_byId (cs_fact s)) x = Some r" "jget r ''matter_id'' = m" for x r
  proof -
    from entity_lookup(2) [OF ok(1) that(1)] that(2) have "r \<in> stored_rows s E_fact m" by simp
    from stored_row [OF inv this] m show ?thesis by (metis option.inject)
  qed
  define rest where "rest = chainSteps (length (remdups (rt_ids (cs_fact s))) + 1) (cs_fact s) t m [jget row ''id'']
    (or_default (jget row ''supersedes_fact_id'') JNull)"
  have k: "jget row ''id'' = k" by (rule entity_lookup(1) [OF ok(1) row(1)])
  have known: "k \<in> set (rt_ids (cs_fact s))"
    using row_table_okD(2) [OF entity_rows_ok [OF ok(1)] entity_lookup(2) [OF ok(1) row(1)]] k by simp
  have path: "supersession_path (cs_fact s) (row # rest)"
    unfolding rest_def by (rule chainSteps_whole [OF ok tenant row(1,2)]) (simp_all add: k known)
  have "getFactSupersessionChain t m k s = Inr (row # rest)"
    by (simp add: getFactSupersessionChain_def m row rest_def)
  moreover have "getFact t m (jget r ''id'') s = Inr (Some r) \<and> jget r ''status'' = JStr ''accepted''" if "r \<in> set rest" for r
  proof -
    from path_members [OF ok row(1,2) path that] obtain x where
      "mget (rt_byId (cs_fact s)) x = Some r" "jget r ''matter_id'' = m" "jget r ''status'' = JStr ''accepted''" by blast
    with tenant entity_lookup(1) [OF ok(1)] m show ?thesis by (simp add: getFact_def scopedGet_def)
  qed
  ultimately show ?thesis using path by blast
qed

theorem supersession_chain_is_whole_witness:
  "getFactSupersessionChain (JStr ''t1'') (JStr ''m1'') (JStr ''f2'') exFacts6 = Inr [exFactS, exFactA]"
proof -
  have "getFact (JStr ''t1'') (JStr ''m1'') (JStr ''f2'') exFacts6 = Inr (Some exFactS)"
    using exFacts6_tables exCase1_m(2) by (simp add: getFact_def scopedGet_def exFactS_fields)
  from supersession_chain_is_whole [OF exCaseLib_ok exFacts56_reachable(2) this] obtain rest where
    c: "getFactSupersessionChain (JStr ''t1'') (JStr ''m1'') (JStr ''f2'') exFacts6 = Inr (exFactS # rest)"
    and p: "supersession_path (cs_fact exFacts6) (exFactS # rest)" by blast
  have A: "jget exFactA ''supersedes_fact_id'' = JUndef"
    by (simp add: exFactA_def exFactR_def exFact_steps exFactAt_def exReview_def nextFact_def exFactTo_def Let_def)
  from p obtain r rs where rest: "rest = r # rs" by (cases rest) (auto simp: exFactS_fields event_present_def)
  from p have r: "r = exFactA" by (simp add: rest exFactS_fields exFacts6_tables)
  from p have "supersession_path (cs_fact exFacts6) (exFactA # rs)" by (simp add: rest r)
  with c show ?thesis by (cases rs) (auto simp: rest r A event_present_def)
qed

end
