(* ===== verification/Spec2Isabelle.thy ===== *)
theory Spec2Isabelle
  imports Examples CaseDecisionProperties CaseViewProperties
begin

text \<open>
  \<^bold>\<open>lawbar-tool: the OCR pipeline and the case box.\<close> A document page travels through this program as follows. Ingestion
  builds a contract-valid submission, writes a job into the store and enqueues it. A worker process
  runs a loop; each iteration is one coordinator turn, which claims the head of the queue under a
  lease, appends the transition \<open>queued -> claimed\<close> to the job's timeline, runs the worker, checks its
  outcome against the contract, persists transitions and results, and acknowledges the claim:
  completed, requeued with the next attempt (through an outbox kept in the store), or dead-lettered.
  The review service reads the store into per-job, per-page and per-document views. Beside it stands
  the engine bake-off, which scores candidate engines against reference texts, aggregates the scores,
  and awards slots by a registered rule.
  The case box is the store of the lawyer's own records: matters, documents, claim tracks, evidence items,
  facts, docket entries and the deadlines they become, privilege markers, confidentiality
  classifications, links to the recognition store. Every write builds an audit event over the matter's
  chain (two for a confirmed docket entry), whose hash links it to the event before it, and commits the
  record and the event together.

  \<^bold>\<open>Theories and the code they model\<close> (paths below \<open>src/\<close>):

  \<^item> \<open>Prelude\<close>: results as sums with \<open>bindR\<close>, JavaScript's insertion-ordered \<open>Map\<close> as an association
    list (\<open>jmap\<close>), stable sorting by a comparator, decimal numerals.
  \<^item> \<open>Json\<close>, \<open>JsonParse\<close>: dynamic values (\<open>jval\<close>, with \<open>undefined\<close>), property reads, \<open>String(x)\<close>,
    \<open>JSON.stringify\<close>, \<open>JSON.parse\<close> of what it prints, and \<open>canonicalJSON\<close> / \<open>deepEquals\<close> of
    \<open>services/ocr-persistence/src/replaySafe.ts\<close>.
  \<^item> \<open>OcrContract\<close>: \<open>docs/contracts/src/{transitions,validateStatusTransition,retry-rules,retryPolicy,queue}.ts\<close>.
  \<^item> \<open>OcrQueue\<close>: \<open>services/ocr-worker/src/inMemoryQueue.ts\<close>. The record \<open>InMemoryOcrQueue\<close> has the class's
    fields; every method is a function from a state to a result and a state. Clock readings and the
    receipt are arguments, one for each call the method makes. The locale \<open>ocr_queue_backend\<close> is what a client relies on.
  \<^item> \<open>OcrStore\<close>, \<open>Seek\<close>, \<open>OcrPaging\<close>: \<open>services/ocr-persistence/src/{inMemoryRepo,replaySafe,cursor}.ts\<close>, the
    writes, then cursor paging (a locale for any keyed list, interpreted for both lists of the store) and the documented orders (\<open>job_before\<close>, \<open>review_before\<close>).
  \<^item> \<open>OcrCoordinator\<close>, \<open>OcrTurn\<close>: \<open>services/ocr-worker/src/{coordinator,outcomeValidation}.ts\<close>. The function
    \<open>processOneOcrQueueClaim\<close> is cut at the awaits into \<open>runWorkerTurn\<close>, \<open>decideRetry\<close>, \<open>persistAndFinish\<close>,
    \<open>finishRetry\<close>, \<open>finishDeadLetter\<close>, \<open>finishCompleted\<close>; it takes the queue and the store as records of operations
    (\<open>QueueBackend\<close>, \<open>PersistencePort\<close>), and \<open>OcrTurn\<close> proves its contract for any pair that keeps the laws of
    the locales, then interprets them on the in-memory queue and store.
  \<^item> \<open>OcrWorkerLoop\<close>: \<open>services/ocr-worker/src/workerLoop.ts\<close>. \<open>runLoop\<close> is a \<open>partial_function (option)\<close>:
    without a cap it may run forever, which is \<open>None\<close>; with a cap it is proved to return.
  \<^item> \<open>OcrIngest\<close>: \<open>services/ocr-ingestion/src/{createSubmission,ingest}.ts\<close>, \<open>services/ocr-worker/src/{adapter,registry}.ts\<close>.
  \<^item> \<open>OcrReview\<close>: \<open>services/ocr-review/src/{lifecycle,page,summary,crossJob}.ts\<close>.
  \<^item> \<open>EditDistance\<close>, \<open>OcrBakeoff\<close>, \<open>BakeoffVerdict\<close>: \<open>services/ocr-worker-bakeoff/src/{accuracy,verdict}.ts\<close>.
  \<^item> \<open>OcrSystem\<close>: histories of the store, of the queue, and of the composed system (ingestion, coordinator
    turns and lease renewals interleaved), and a worker process as the loop over coordinator turns.
  \<^item> \<open>CaseBoxTransitions\<close>, \<open>CaseBoxAuditLog\<close>: \<open>docs/contracts/case-box-contract/src/{transitions,audit-log}.ts\<close>,
    the state machines of the entities with their actors; the event vocabulary, the canonical hash input
    (\<open>canonical_v1\<close>, \<open>canonical_v2\<close>), the event builder and the chain verifier.
  \<^item> \<open>CaseBoxAudit\<close>: \<open>services/case-box-persistence/src/{auditChain,auditHeadAnchor,auditChainInvariant,inMemoryAudit,errors}.ts\<close>,
    the log with its head anchor and the reads of the chain.
  \<^item> \<open>CaseBoxMatter\<close>, \<open>CaseBoxDocument\<close>, \<open>CaseBoxEvidence\<close>, \<open>CaseBoxFact\<close>, \<open>CaseBoxDeadline\<close>, \<open>CaseBoxDocket\<close>,
    \<open>CaseBoxPrivilege\<close>, \<open>CaseBoxClassification\<close>, \<open>CaseBoxOcrLink\<close>: \<open>inMemory{Matter,Document,ClaimTrack,Evidence,Fact,Deadline,Docket,Privilege,Classification,OcrLink}.ts\<close>
    beside it, the pure preparation of each write, with the checks of
    \<open>docs/contracts/case-box-contract/src/{fact,docket,privilege,confidentiality}-invariants.ts\<close>.
    \<open>CaseBoxTable\<close> has the storage shape these modules share: \<open>EntityTable\<close> extends \<open>IndexedTable\<close> extends \<open>RowTable\<close>.
  \<^item> \<open>CaseBoxStore\<close>: the writes and scoped reads of \<open>inMemoryRepo.ts\<close>, and \<open>case_step\<close>, one call of any write.
    \<open>appendBody\<close> and \<open>replaceBody\<close> are the bodies its delegates repeat. Generated ids and the clock are \<open>CallInputs\<close>.
  \<^item> \<open>CaseBoxInvariant\<close>, \<open>CaseBoxSlots\<close>: the invariant \<open>case_inv\<close>: what the log says of each record, and what each
    table keeps; the locale \<open>case_slot\<close> is the interface through which a delegate writes one table, with
    the two writes proved once, interpreted for each of the tables. \<open>CaseBoxWrites\<close>, \<open>CaseBoxEntityWrites\<close>,
    \<open>CaseBoxEvidenceWrites\<close>, \<open>CaseBoxFactWrites\<close>, \<open>CaseBoxDocketWrites\<close>, \<open>CaseBoxConfirmWrites\<close>,
    \<open>CaseBoxMarkerWrites\<close>: each write keeps it; \<open>CaseBoxHistory\<close>: so does every history.
  \<^item> \<open>CaseBoxLatest\<close>: the three computations of a document's confidentiality level agree.
  \<^item> \<open>CaseBoxPaging\<close>: the cursor module \<open>cursor.ts\<close> of the case box and its ten paged lists, over the common body
    \<open>casePage\<close>; \<open>CaseBoxPages\<close>: what their pages yield, through the locale \<open>seek_order\<close> of \<open>Seek\<close> interpreted for the
    two orders of the lists. \<open>CaseBoxViews\<close>: \<open>inMemoryAggregations.ts\<close>, the views over several records.
  \<^item> \<open>CaseProperties\<close>, \<open>CaseDecisionProperties\<close>, \<open>CaseViewProperties\<close>: the properties of the records, of the lawyer's
    decisions, and of what a reader is shown.
  \<^item> \<open>Examples\<close>, \<open>CaseExamples\<close>, \<open>CaseFactExamples\<close>, \<open>CaseDocketExamples\<close>, \<open>CaseMarkerExamples\<close>: a concrete schema,
    submission, queue, store and two workers, and concrete cases, for the witnesses.

  \<^bold>\<open>What the lemmas show.\<close> Queue: every operation keeps \<open>queue_inv\<close> (no submission id is held twice, a claim
  is filed under its own receipt) and its effect on \<open>pending\<close>, the abstract map from ids to jobs. Store:
  every operation keeps \<open>store_inv\<close> (timelines legal and gap free, the cached state the last
  transition's, one result per page); the once-variants are idempotent; timelines only grow.
  Coordinator: a turn loses no job, whatever the worker does and whatever fails, and what each
  outcome means. Paging: following cursors lists every row once in order.
  Loop: it returns under a cap and its summary is truthful. Bake-off: the two dynamic programs compute the edit
  distance and the longest common subsequence; the award follows the registered rule, spelled out in
  \<open>ranks_before\<close> apart from the code's comparator.
  Case box: in every reachable state each chain verifies under its anchor and only grows, each record is
  the one its events hash to and its status the end of a legal path announced in the log (the state hashes
  are linked from event to event, except that the acceptance of a replacement fact starts from \<open>null\<close>, as
  the code has it), tables and indexes agree, parties are identified; the supersession graph is acyclic, a confirmed docket entry has
  its deadline, one confirmed marker of a kind stands on a document; the head hash commits to the whole
  history; only the lawyer promotes. A refused write changes nothing. Each list, read page by page, yields its
  matching rows once and in order, the audit log the chain that verifies; the counts of a matter's summary
  account for every record; the chain of superseded facts is shown whole.

  \<^bold>\<open>Bounds and fuel.\<close> \<open>followCursors\<close> gets one more page than there are rows, and is proved to end;
  \<open>show_nat\<close> and the JSON reader recur on the number and on the text's length; \<open>chainSteps\<close> has the bound of the
  code, the number of facts and one more, and is proved never to reach it. Times are naturals
  (milliseconds), counters unbounded as JavaScript's are within \<open>2^53\<close>.

  \<^bold>\<open>Parameters.\<close> The Ajv validators of the schemas (\<open>Validators\<close>), SHA-256, base64url and \<open>JSON.parse\<close> (\<open>CursorCodec\<close>),
  Unicode normalisation (\<open>Unicode\<close>) and \<open>localeCompare\<close> are arguments; what is assumed of them is a named
  hypothesis (\<open>codec_ok\<close>, \<open>result_schema\<close>, \<open>textual\<close> sort keys, a total preorder), each met by a concrete instance in a witness.
  For the case box: \<open>case_lib_ok\<close> (SHA-256 gives 64 lower-case hex digits, the audit schema accepts only events of its
  shape, the matter schema only parties that are objects, the
  evidence schema only items with a status), \<open>ids_ok\<close> (a generated id is not empty), and
  that the texts hashed do not collide where a head is to commit to a history.
  Floating-point means and rates are rationals.

  \<^bold>\<open>Not modelled.\<close> The SQLite stores (SQL text executed by a library), the page fetcher's transport, the
  engines and their harnesses (native code and child processes), the command line and signal shell,
  the desktop application and the native extractor (another language). Structured clones and frozen
  objects have no counterpart: values are immutable trees here, so an aliasing bug in the code is not visible,
  and an object that two fields share is two equal objects.
\<close>

section \<open>The coordinator and the system around it\<close>

text \<open>C1. A coordinator turn (\<open>processOneOcrQueueClaim\<close>), whatever the worker returns or throws and
  whatever write fails, keeps the invariants of the queue and the store, only ever extends a
  job's timeline, and loses no job: one that was in the queue, terminal, or had its next attempt
  in the outbox still is one of these.\<close>

theorem coordinator_turn_loses_no_job:
  assumes "system_ready V (q, p)"
    and "processOneOcrQueueClaim V worker memoryBackend (memoryStore V) w ti q p = (res, q', p')"
  shows "system_ready V (q', p') \<and> (\<forall>k. prefix (ms_timeline p k) (ms_timeline p' k)) \<and>
    (\<forall>k. accounted (mb_pending q) (ms_timeline p) (ms_outbox p) k \<longrightarrow>
         accounted (mb_pending q') (ms_timeline p') (ms_outbox p') k)"
  using turn_safe [OF assms] by (simp add: system_safe_def job_accounted_def)

theorem coordinator_turn_loses_no_job_witness:
  "job_accounted (snd (exTurn exFails exCreated)) ''j1''"
proof -
  have "job_accounted (exBackend, exEnv exCreated) ''j1''" by code_simp
  then show ?thesis
    using coordinator_turn_loses_no_job [OF exCreated_ready run_parts, where worker = exFails and w = "''w1''" and ti = exInputs]
    by (simp add: job_accounted_def)
qed

text \<open>C2. Ingestion, coordinator turns and lease renewals in any interleaving: from a ready system,
  every history keeps the invariants, only extends timelines and loses no job.\<close>

theorem system_loses_no_job:
  assumes "(system_step V)\<^sup>*\<^sup>* s s'" and "system_ready V s"
  shows "system_ready V s' \<and> (\<forall>k. prefix (ms_timeline (snd s) k) (ms_timeline (snd s') k)) \<and>
    (\<forall>k. job_accounted s k \<longrightarrow> job_accounted s' k)"
  using system_history_safe [OF assms] by (simp add: system_safe_def)

theorem system_loses_no_job_witness:
  "system_ready exV (snd (exTurn exSucceeds exCreated)) \<and> job_accounted (snd (exTurn exSucceeds exCreated)) ''j1''"
proof -
  have "job_accounted (exBackend, exEnv exCreated) ''j1''" by code_simp
  moreover have "(system_step exV)\<^sup>*\<^sup>* (exBackend, exEnv exCreated) (snd (exTurn exSucceeds exCreated))"
    using system_turn [OF run_parts, where V = exV and worker = exSucceeds and w = "''w1''" and ti = exInputs
        and q = exBackend and p = "exEnv exCreated"]
    by (simp add: r_into_rtranclp)
  ultimately show ?thesis using system_loses_no_job [OF _ exCreated_ready] by blast
qed

text \<open>C3. A worker process, the loop \<open>runOcrWorkerLoop\<close> over coordinator turns with hooks that leave the
  queue and the store alone: whenever and however it stops, no job is lost.\<close>

theorem worker_process_loses_no_job:
  assumes "hooks_apart opts" and "lo_processOne opts = coordinatorTurn V worker w"
    and "runOcrWorkerLoop opts s = Some (r, s')" and "system_ready V (lw_system s)"
  shows "system_ready V (lw_system s') \<and>
    (\<forall>k. prefix (ms_timeline (snd (lw_system s)) k) (ms_timeline (snd (lw_system s')) k)) \<and>
    (\<forall>k. job_accounted (lw_system s) k \<longrightarrow> job_accounted (lw_system s') k)"
  using worker_loop_safe [OF assms(1-3)] assms(4) by (simp add: world_safe_def system_safe_def)

definition exLoop :: "unit LoopWorld OcrWorkerLoopOptions" where
  "exLoop = \<lparr>lo_processOne = coordinatorTurn exV exFails ''w1'', lo_aborted = (\<lambda>s. False),
     lo_maxIterations = Some 2, lo_idleDelayMs = None, lo_includeEmptyOutcomes = False,
     lo_onOutcome = None, lo_onError = None, lo_sleep = (\<lambda>d s. (Inr (), s))\<rparr>"

definition exWorld :: "unit LoopWorld" where
  "exWorld = \<lparr>lw_system = (exBackend, exEnv exCreated), lw_inputs = (\<lambda>n. exInputs), lw_turns = 0, lw_hooks = ()\<rparr>"

theorem worker_process_loses_no_job_witness:
  "\<exists>r s'. runOcrWorkerLoop exLoop exWorld = Some (r, s') \<and> job_accounted (lw_system s') ''j1''"
proof -
  have "lo_maxIterations exLoop = Some 2" by (simp add: exLoop_def)
  from runLoop_returns [OF this order_refl start_ok, of exWorld]
  obtain r s' where run: "runOcrWorkerLoop exLoop exWorld = Some (r, s')"
    by (auto simp: runOcrWorkerLoop_def exLoop_def)
  have "hooks_apart exLoop" "lo_processOne exLoop = coordinatorTurn exV exFails ''w1''"
    by (simp_all add: exLoop_def hooks_apart_def)
  moreover have "lw_system exWorld = (exBackend, exEnv exCreated)" by (simp add: exWorld_def)
  moreover have "job_accounted (exBackend, exEnv exCreated) ''j1''" by code_simp
  ultimately have "job_accounted (lw_system s') ''j1''"
    using worker_process_loses_no_job [OF _ _ run] exCreated_ready by simp
  with run show ?thesis by blast
qed



text \<open>C5. A job delivered again after its timeline became terminal is only acknowledged: no transition, no
  result, and the same turn whichever worker is plugged in. The turn returns; while the lease of the claim
  still runs at the acknowledgement (and the receipt is not the empty string) it reports
  \<open>completed_already_terminal\<close> and the job, and no other, is gone from the queue; otherwise it reports
  \<open>lease_lost\<close> or \<open>ack_failed\<close> and the queue still holds every job for another delivery.\<close>

theorem terminal_redelivery_skips_worker:
  assumes "system_ready V (q, p)" and "qb_claimNext memoryBackend w q = (Inr (Some claim), q1)"
    and "terminal_timeline (ms_timeline p (clm_job_id claim))"
    and "processOneOcrQueueClaim V worker memoryBackend (memoryStore V) w ti q p = (res, q', p')"
  shows "processOneOcrQueueClaim V worker' memoryBackend (memoryStore V) w ti q p = (res, q', p') \<and>
    ms_timeline p' = ms_timeline p \<and> ms_results p' = ms_results p \<and>
    (\<exists>r. res = Inr r \<and> cr_job_id r = Some (clm_job_id claim) \<and>
      (if clm_receipt claim \<noteq> [] \<and> mb_now q1 (mb_ticks q1) < clm_lease_expires_at claim
       then cr_outcome r = OutCompletedAlreadyTerminal \<and> mb_pending q' = (mb_pending q)(clm_job_id claim := None)
       else cr_outcome r \<in> {OutLeaseLost, OutAckFailed} \<and> mb_pending q' = mb_pending q))"
proof -
  have "ms_timeline p (clm_job_id claim) \<noteq> []" using assms(3) by (auto simp: terminal_timeline_def)
  then have "\<exists>v. fst (pp_getOcrJob (memoryStore V) (clm_job_id claim) p) = Inr (Some v)"
    using assms(1) by (intro timeline_known) (simp_all add: system_ready_def)
  from turn.terminal_redelivery [OF _ assms(2,3) this assms(4)] have turn:
    "processOneOcrQueueClaim V worker' memoryBackend (memoryStore V) w ti q p = (res, q', p')"
    "ms_timeline p' = ms_timeline p" "ms_results p' = ms_results p"
    "tryCompleteAlreadyTerminal memoryBackend claim q1 p' = (res, q', p')"
    using assms(1) by (simp_all add: turn.ready_def system_ready_def)
  obtain a q2 where a: "qb_completeClaim memoryBackend claim q1 = (a, q2)" by fastforce
  have "mb_inv q" using assms(1) by (simp add: system_ready_def)
  from claim_then_complete [OF this assms(2) a] turn show ?thesis
    by (auto simp: a tryCompleteAlreadyTerminal_def mapQueueErrorToAckOutcome_def split: if_splits)
qed

theorem terminal_redelivery_skips_worker_witness:
  "exTurn exFails exSaved = exTurn exSucceeds exSaved \<and>
   (\<exists>r. fst (exTurn exFails exSaved) = Inr r \<and> cr_outcome r = OutCompletedAlreadyTerminal) \<and>
   mb_pending (fst (snd (exTurn exFails exSaved))) ''j1'' = None"
proof -
  let ?claimed = "qb_claimNext memoryBackend ''w1'' exBackend"
  have "(case fst ?claimed of Inr (Some c) \<Rightarrow> clm_job_id c = ''j1'' \<and> clm_receipt c \<noteq> [] \<and>
      mb_now (snd ?claimed) (mb_ticks (snd ?claimed)) < clm_lease_expires_at c | _ \<Rightarrow> False)" by code_simp
  then obtain claim where c: "fst ?claimed = Inr (Some claim)" "clm_job_id claim = ''j1''"
    "clm_receipt claim \<noteq> [] \<and> mb_now (snd ?claimed) (mb_ticks (snd ?claimed)) < clm_lease_expires_at claim"
    by (auto split: sum.splits option.splits)
  have t: "terminal_timeline (ms_timeline (exEnv exSaved) (clm_job_id claim))" unfolding c(2) by code_simp
  have run: "?claimed = (Inr (Some claim), snd ?claimed)" by (metis c(1) prod.collapse)
  from terminal_redelivery_skips_worker [OF exSaved_ready run t run_parts,
      where worker = exSucceeds and ti = exInputs and worker' = exFails] c(2,3)
  show ?thesis by auto
qed



section \<open>The in-memory queue\<close>

text \<open>C7. Mutual exclusion: in every queue reached by any history of \<open>enqueue\<close>, \<open>claimNext\<close> (with fresh
  receipts), \<open>renewClaim\<close>, \<open>completeClaim\<close>, \<open>requeueClaim\<close> and \<open>close\<close>, no two places, waiting or
  claimed, hold jobs of the same submission id, and every claim is filed under its own receipt.\<close>

theorem queue_holds_each_job_once:
  assumes "queue_reachable q"
  shows "distinct (map job_key (q_waiting q @ map ac_job (mvals (q_active q)))) \<and>
    distinct (mkeys (q_active q)) \<and>
    (\<forall>(r, rec)\<in>set (q_active q). ac_receipt rec = r \<and> r \<in> q_issuedReceipts q \<and> ac_job_id rec = job_key (ac_job rec))"
  using queue_reachable_inv [OF assms] by (auto simp: queue_inv_def queue_jobs_def good_claim_def)

theorem queue_holds_each_job_once_witness:
  "distinct (map job_key (q_waiting exQueue @ map ac_job (mvals (q_active exQueue)))) \<and> q_waiting exQueue = [exJob]"
proof -
  have "queue_reachable exQueue"
    unfolding exQueue_def by (rule reach_step [OF reach_new step_enqueue [OF prod.collapse [symmetric]]])
  from queue_holds_each_job_once [OF this] show ?thesis
    by (auto simp: exQueue_def enqueue_def newInMemoryOcrQueue_def findActiveBySubmissionJobId_def jobIdOf_def
        exJob_def exSub_def)
qed

text \<open>\<open>claimNext\<close>: after the expired leases went back to the front, it takes the head of the
  waiting list for exactly one lease, under the receipt it was given; it returns nothing only when
  nothing waits, and changes no job.\<close>

theorem claimNext_takes_the_head:
  assumes "queue_inv q" and "receipt \<notin> q_issuedReceipts q" and "claimNext w t1 t2 receipt q = (r, q')"
  shows "queue_inv q' \<and> pending q' = pending q \<and>
    (\<forall>c. r = Inr (Some c) \<longrightarrow> pending q (clm_job_id c) = Some (clm_job c) \<and> clm_receipt c = receipt \<and>
       q_waiting (sweepExpired t1 q) = clm_job c # q_waiting q' \<and>
       mget (q_active q') receipt \<noteq> None \<and> clm_lease_expires_at c = t2 + q_leaseMs q) \<and>
    (r = Inr None \<longrightarrow> q_waiting (sweepExpired t1 q) = []) \<and> (w \<noteq> [] \<longrightarrow> (\<forall>e. r \<noteq> Inl e))"
  using claimNext_spec [OF assms] .

theorem claimNext_takes_the_head_witness:
  "pending (snd (claimNext ''w1'' 0 1 ''r1'' exQueue)) = pending exQueue"
proof -
  have "''r1'' \<notin> q_issuedReceipts exQueue" by code_simp
  from claimNext_takes_the_head [OF exQueue_inv this prod.collapse [symmetric], of "''w1''" 0 1] show ?thesis by blast
qed




text \<open>\<open>enqueue\<close> deduplicates by submission id: a submission equal to the one the queue holds
  returns the job already there and changes nothing, a different one under the same id is an error
  and changes nothing, and a new id adds exactly that job.\<close>

theorem enqueue_deduplicates:
  assumes "queue_inv q" and "enqueue job q = (r, q')"
  shows "queue_inv q' \<and> (\<forall>e. r = Inl e \<longrightarrow> q' = q) \<and>
    (\<forall>er. r = Inr er \<longrightarrow>
       (if er_deduped er
        then q' = q \<and> pending q (job_key job) = Some (er_job er) \<and>
             deepEquals (job_submission (er_job er)) (job_submission job)
        else pending q (job_key job) = None \<and> er_job er = job \<and>
             pending q' = (pending q)(job_key job \<mapsto> job)))"
  using enqueue_spec [OF assms] .

theorem enqueue_deduplicates_witness:
  "snd (enqueue (exJob\<lparr>job_tid := ''x9''\<rparr>) exQueue) = exQueue"
proof -
  let ?run = "enqueue (exJob\<lparr>job_tid := ''x9''\<rparr>) exQueue"
  have "(case fst ?run of Inr er \<Rightarrow> er_deduped er | Inl e \<Rightarrow> False)"
    by (simp add: exQueue_def enqueue_def newInMemoryOcrQueue_def findActiveBySubmissionJobId_def jobIdOf_def
        exJob_def exSub_def)
  then obtain er where er: "fst ?run = Inr er" "er_deduped er" by (cases "fst ?run") auto
  then have "?run = (Inr er, snd ?run)" by (metis prod.collapse)
  from enqueue_deduplicates [OF exQueue_inv this] er(2) show ?thesis by simp
qed

text \<open>C9. A claim is acknowledged at most once: after its receipt completed or requeued the job, no
  later history makes the receipt work again; every call with it is refused and changes nothing.\<close>

theorem receipt_is_used_once:
  assumes "queue_reachable q" and "completeClaim c t q = (Inr (), q1) \<or> requeueClaim c t q = (Inr (), q1)"
    and "queue_step\<^sup>*\<^sup>* q1 q2" and "clm_receipt c' = clm_receipt c"
  shows "\<exists>code m. code \<in> {UnknownReceipt, StaleReceipt, InvalidClaim} \<and>
    completeClaim c' ta q2 = (Inl (OcrQueueError code m), q2) \<and>
    requeueClaim c' ta q2 = (Inl (OcrQueueError code m), q2) \<and>
    renewClaim c' ta tb q2 = (Inl (OcrQueueError code m), q2)"
proof -
  have inv: "queue_inv q" using queue_reachable_inv [OF assms(1)] .
  have "queue_step q q1" using assms(2) step_complete step_requeue by blast
  then have "queue_inv q1" using inv queue_step_inv by blast
  with history_keeps_dead [OF assms(3)] acknowledged_dead [OF inv assms(2)] assms(4)
  have "receipt_dead q2 (clm_receipt c')" by simp
  from dead_refused [OF this, of ta] obtain code m where "resolveClaim c' ta q2 = Inl (OcrQueueError code m)"
    "code \<in> {UnknownReceipt, StaleReceipt, InvalidClaim}" by blast
  then show ?thesis by (auto simp: completeClaim_def requeueClaim_def renewClaim_def)
qed

definition exClaimRun :: "(exn + OcrQueueClaim option) \<times> InMemoryOcrQueue" where
  "exClaimRun = claimNext ''w1'' 0 1 ''r1'' exQueue"

definition exClaim :: OcrQueueClaim where
  "exClaim = (case fst exClaimRun of Inr (Some c) \<Rightarrow> c | _ \<Rightarrow> undefined)"

theorem receipt_is_used_once_witness:
  "\<exists>e. completeClaim exClaim 6 (snd (completeClaim exClaim 5 (snd exClaimRun))) = (Inl e, snd (completeClaim exClaim 5 (snd exClaimRun)))"
proof -
  have "queue_reachable exQueue"
    unfolding exQueue_def by (rule reach_step [OF reach_new step_enqueue [OF prod.collapse [symmetric]]])
  moreover have "''r1'' \<notin> q_issuedReceipts exQueue" by code_simp
  ultimately have "queue_reachable (snd exClaimRun)"
    unfolding exClaimRun_def by (rule reach_step [OF _ step_claim [OF _ prod.collapse [symmetric]]])
  moreover have "fst (completeClaim exClaim 5 (snd exClaimRun)) = Inr ()" by code_simp
  then have "completeClaim exClaim 5 (snd exClaimRun) = (Inr (), snd (completeClaim exClaim 5 (snd exClaimRun)))"
    by (metis prod.collapse)
  ultimately show ?thesis using receipt_is_used_once [OF _ _ rtranclp.rtrancl_refl refl, where ta = 6 and tb = 6] by blast
qed

section \<open>The in-memory store\<close>

text \<open>C10. Every history of the store's operations, from the empty store, keeps its invariant (legal
  gap-free timelines, the cached state the last transition's, one result per page, each matching the
  job), and no later operation rewrites or drops a status event.\<close>

theorem store_is_append_only:
  assumes "(store_step V)\<^sup>*\<^sup>* newInMemoryOcrPersistence p" and "(store_step V)\<^sup>*\<^sup>* p p'"
  shows "store_inv V p \<and> store_inv V p' \<and> prefix (events_of p k) (events_of p' k)"
  using store_history_inv [OF assms(1) store_inv_new] store_history_inv [OF assms(2)]
    store_history_prefix [OF assms(2)] by blast

theorem store_is_append_only_witness:
  "prefix (events_of exCreated ''j1'') (events_of exClaimed ''j1'')"
proof -
  have "store_step exV newInMemoryOcrPersistence exCreated"
    unfolding exCreated_def by (rule store_create [OF prod.collapse [symmetric]])
  moreover have "store_step exV exCreated exClaimed"
    unfolding exClaimed_def exAppend_def by (rule store_append [OF prod.collapse [symmetric]])
  ultimately show ?thesis using store_is_append_only [OF r_into_rtranclp r_into_rtranclp] by blast
qed

text \<open>C11. The once-writes are idempotent: repeating a transition or a result that went through, at any
  later clock reading, returns what is stored and changes nothing.\<close>

theorem once_writes_are_idempotent:
  assumes "store_inv V p"
  shows "(appendOcrStatusOnce V i t now p = (Inr e, p') \<longrightarrow> appendOcrStatusOnce V i t now' p' = (Inr e, p')) \<and>
    (saveOcrResultOnce V i x now p = (Inr rec, p') \<longrightarrow> saveOcrResultOnce V i x now' p' = (Inr rec, p'))"
  using append_once_replay [OF assms] save_once_replay [OF assms] by blast

theorem once_writes_are_idempotent_witness:
  "snd (appendOcrStatusOnce exV ''j1'' (exEdge Queued Claimed ByQueue) ''n8''
     (snd (appendOcrStatusOnce exV ''j1'' (exEdge Queued Claimed ByQueue) ''n7'' exCreated)))
   = snd (appendOcrStatusOnce exV ''j1'' (exEdge Queued Claimed ByQueue) ''n7'' exCreated) \<and>
   snd (saveOcrResultOnce exV ''j1'' exResult ''n8'' (snd (saveOcrResultOnce exV ''j1'' exResult ''n7'' exClaimed)))
   = snd (saveOcrResultOnce exV ''j1'' exResult ''n7'' exClaimed)"
proof -
  let ?run = "appendOcrStatusOnce exV ''j1'' (exEdge Queued Claimed ByQueue) ''n7'' exCreated"
  let ?save = "saveOcrResultOnce exV ''j1'' exResult ''n7'' exClaimed"
  have "(case fst ?run of Inr e \<Rightarrow> True | Inl m \<Rightarrow> False)" "(case fst ?save of Inr e \<Rightarrow> True | Inl m \<Rightarrow> False)"
    by code_simp+
  then obtain e x where "fst ?run = Inr e" "fst ?save = Inr x" by (auto split: sum.splits)
  then have r: "?run = (Inr e, snd ?run)" and sv: "?save = (Inr x, snd ?save)" by (metis prod.collapse)+
  from once_writes_are_idempotent [OF exCreated_inv, THEN conjunct1, THEN mp, OF r, of "''n8''"]
    once_writes_are_idempotent [OF exClaimed_inv, THEN conjunct2, THEN mp, OF sv, of "''n8''"]
  show ?thesis by simp
qed

section \<open>The contract\<close>

text \<open>C12. \<open>validateTransitionSequence\<close> accepts exactly the non-empty paths of the state machine: every
  edge is in the table for its actor and starts where the one before it ended.\<close>

theorem accepted_sequences_are_paths:
  "validateTransitionSequence ts = Inr () \<longleftrightarrow>
     ts \<noteq> [] \<and> (\<forall>t\<in>set ts. isAllowedTransition (tr_from t) (tr_to t) (tr_by t)) \<and>
     (\<forall>i. Suc i < length ts \<longrightarrow> tr_from (ts ! Suc i) = tr_to (ts ! i))"
  using chained_nth [of None ts] by (auto simp: validateTransitionSequence_iff legal_edge_def less_diff_conv)

theorem accepted_sequences_are_paths_witness:
  "isAllowedTransition Claimed Processing ByWorker \<and>
   validateTransitionSequence [exEdge Queued Claimed ByQueue, exEdge Claimed Processing ByWorker] = Inr ()"
proof -
  have "validateTransitionSequence [exEdge Queued Claimed ByQueue, exEdge Claimed Processing ByWorker] = Inr ()" by code_simp
  with accepted_sequences_are_paths [of "[exEdge Queued Claimed ByQueue, exEdge Claimed Processing ByWorker]"]
  show ?thesis by (simp add: exEdge_def)
qed

text \<open>\<open>classifyOcrFailureForRetry\<close> says retry exactly for a failed result whose failure is not marked
  permanent and whose counters are sane with attempts left; it then reports how many.\<close>

theorem retry_iff_transient_with_attempts_left:
  "classifyOcrFailureForRetry failure retry status = Inr (Retry n r) \<longleftrightarrow>
     status = JStr ''failed'' \<and> truthy failure \<and> jget failure ''is_transient'' \<noteq> JBool False \<and>
     (\<exists>a m. jget retry ''attempt'' = JInt a \<and> jget retry ''max_attempts'' = JInt m \<and>
            1 \<le> a \<and> a < m \<and> n = m - a) \<and>
     r = ''transient failure '' @ quoted (js_String (jget failure ''code'')) @ ''; '' @ show_int n @ '' attempt(s) remaining''"
  by (rule classify_Retry_iff)

text \<open>The classifier and the behaviour validator agree: the edge a decision leads to is one
  \<open>validateRetryBehavior\<close> accepts for the same failure and policy.\<close>

theorem classifier_agrees_with_validator:
  assumes "classifyOcrFailureForRetry pf retry (JStr ''failed'') = Inr d" and "truthy pf"
    and "tr_from t = Failed" and "tr_to t = decision_state d"
  shows "validateRetryBehavior (Some \<lparr>re_status = ''failed'', re_partial_failure = pf\<rparr>) retry [t] = Inr ()"
  using classify_consistent [OF assms] .

theorem classifier_agrees_with_validator_witness:
  "validateRetryBehavior (Some \<lparr>re_status = ''failed'', re_partial_failure = JObj [(''is_transient'', JBool False)]\<rparr>)
     exRetry [exEdge Failed DeadLettered ByQueue] = Inr ()"
proof -
  have "(case classifyOcrFailureForRetry (JObj [(''is_transient'', JBool False)]) exRetry (JStr ''failed'') of
      Inr d \<Rightarrow> decision_state d = DeadLettered | Inl e \<Rightarrow> False)" by code_simp
  then obtain d where d: "classifyOcrFailureForRetry (JObj [(''is_transient'', JBool False)]) exRetry (JStr ''failed'') = Inr d"
    "decision_state d = DeadLettered" by (auto split: sum.splits)
  show ?thesis
    by (rule classifier_agrees_with_validator [OF d(1)]) (simp_all add: exEdge_def d(2))
qed

text \<open>C13. On plain data (\<open>wf_json\<close>: what a JSON text can hold, with \<open>undefined\<close> allowed as the value of a field;
  distinct keys, no \<open>NaN\<close> or infinity, no \<open>undefined\<close> element of an array), \<open>deepEquals\<close>, comparison of canonical
  texts, is equality up to the order of object keys and fields that hold \<open>undefined\<close>, at every depth: on this
  domain the canonical text loses nothing else. Off it the text is coarser: it takes \<open>NaN\<close> and the
  infinities for \<open>null\<close>, and an array of one \<open>undefined\<close> for the empty array.\<close>

theorem deepEquals_is_equality_up_to_key_order:
  "(wf_json a \<and> wf_json b \<longrightarrow> (deepEquals a b \<longleftrightarrow> jnorm a = jnorm b)) \<and>
    deepEquals (JNonFin n) JNull \<and> jnorm (JNonFin n) \<noteq> jnorm JNull \<and>
    deepEquals (JArr [JUndef]) (JArr []) \<and> jnorm (JArr [JUndef]) \<noteq> jnorm (JArr [])"
  using deepEquals_iff_jnorm [of a b] by (simp add: deepEquals_def)

theorem deepEquals_is_equality_up_to_key_order_witness:
  "deepEquals (JObj [(''a'', JInt 1), (''b'', JUndef), (''c'', JNull)]) (JObj [(''c'', JNull), (''a'', JInt 1)]) \<and>
   \<not> deepEquals (JArr [JObj [(''a'', JInt 1)]]) (JArr [JObj [(''a'', JInt 2)]])"
proof -
  have "wf_json (JObj [(''a'', JInt 1), (''b'', JUndef), (''c'', JNull)])" "wf_json (JObj [(''c'', JNull), (''a'', JInt 1)])"
    "wf_json (JArr [JObj [(''a'', JInt 1)]])" "wf_json (JArr [JObj [(''a'', JInt 2)]])"
    by simp_all
  then show ?thesis
    using conjunct1 [OF deepEquals_is_equality_up_to_key_order, of
        "JObj [(''a'', JInt 1), (''b'', JUndef), (''c'', JNull)]" "JObj [(''c'', JNull), (''a'', JInt 1)]"]
      conjunct1 [OF deepEquals_is_equality_up_to_key_order, of "JArr [JObj [(''a'', JInt 1)]]" "JArr [JObj [(''a'', JInt 2)]]"]
    by (simp add: less_char_def)
qed

section \<open>The case-box store\<close>

text \<open>C14. The audit history of a case: in every state reached by any history of the store's writes, and
  after any later one, the chain of each matter passes \<open>verifyAuditChain\<close> under its recorded head, the
  head that \<open>getAuditChainHead\<close> returns is that same hash with the same count, and nothing of the
  earlier log was rewritten or dropped.\<close>

theorem audit_history_verifies:
  assumes "case_lib_ok L" and "(case_step L)\<^sup>*\<^sup>* newCaseBoxPersistence s" and "(case_step L)\<^sup>*\<^sup>* s s'"
    and "getMatter m s = Some matter"
  shows "prefix (log_get (cs_audit s) m) (log_get (cs_audit s') m) \<and> log_get (cs_audit s) m \<noteq> [] \<and>
    (\<exists>h hd. verifyAuditChainForMatter L m s' = Inr (ChainVerifyOk (length (log_get (cs_audit s') m)) (Some h)) \<and>
      getAuditChainHead L m s' = Inr hd \<and> hd_headHash hd = h \<and> hd_count hd = length (log_get (cs_audit s') m))"
proof -
  from case_history_inv [OF assms(2,1) case_inv_new] have inv: "case_inv L s" ..
  from case_history_inv [OF assms(3,1) inv] have inv': "case_inv L s'" and g: "grows s s'" by auto
  from assms(4) have m: "mget (cs_matters s) m = Some matter" by (simp add: getMatter_def)
  from growsD [OF g m] obtain matter' where "mget (cs_matters s') m = Some matter'"
    "prefix (log_get (cs_audit s) m) (log_get (cs_audit s') m)" by metis
  moreover have "log_get (cs_audit s) m \<noteq> []" using inv m by (auto simp: case_inv_def trails_ok_def matters_ok_def chain_inv_def)
  ultimately show ?thesis using audit_reads [OF inv'] by (metis AuditChainHead.select_convs(1,3))
qed

theorem audit_history_verifies_witness:
  "\<exists>n h. verifyAuditChainForMatter exCaseLib (JStr ''m1'') exCase2 = Inr (ChainVerifyOk n (Some h))"
  using audit_history_verifies [OF exCaseLib_ok exCase1_reachable r_into_rtranclp [where r = "case_step exCaseLib"] exCase1_matter]
    exCase2_step by blast

text \<open>C15. The head hash commits to the whole history: two chains that verify to the same head hash are
  the same events, field by field, unless two different canonical texts of theirs collide under
  SHA-256. So changing, dropping, adding or reordering any event, at any place, changes the head.\<close>

theorem head_hash_commits_to_history:
  assumes "audit_schema_ok L" and "inj_on (al_sha256 L) {s. \<exists>e\<in>set (es @ es'). canonicalAuditEventHashInput e = Inr s}"
    and "verifyAuditChain L es = Inr (ChainVerifyOk n h)" and "verifyAuditChain L es' = Inr (ChainVerifyOk n' h)"
  shows "length es = length es' \<and> (\<forall>i<length es. \<forall>k. jget (es ! i) k = jget (es' ! i) k)"
  using head_commits [OF assms] by (simp add: list_all2_conv_all_nth same_event_def)

theorem head_hash_commits_to_history_witness:
  "exGenesis \<noteq> exGenesis' \<and> jget exGenesis ''timestamp'' = jget exGenesis' ''timestamp''"
proof -
  have "canonicalAuditEventHashInput exGenesis' = canonicalAuditEventHashInput exGenesis" by (rule exGenesis_same_input)
  then have "inj_on (al_sha256 (audit_lib exCaseLib))
      {s. \<exists>e\<in>set ([exGenesis] @ [exGenesis']). canonicalAuditEventHashInput e = Inr s}"
    by (auto intro!: inj_onI)
  moreover have "audit_schema_ok (audit_lib exCaseLib)" using exCaseLib_ok by (simp add: case_lib_ok_def)
  moreover have "exGenesis \<noteq> exGenesis'" by (simp add: exGenesis'_def exGenesis_def auditCandidate_def)
  ultimately show ?thesis using exGenesis_verifies head_hash_commits_to_history [of "audit_lib exCaseLib" "[exGenesis]" "[exGenesis']"]
    by force
qed

text \<open>An edit of a matter's details is refused with nothing changed, or applies to an active matter
  and changes nothing but the six editable fields; and the continuity check that guards it never
  fires on a store that only its own operations wrote.\<close>

theorem details_edit_touches_only_details:
  assumes "case_lib_ok L" and "(case_step L)\<^sup>*\<^sup>* newCaseBoxPersistence s" and "updateMatterDetails L ci m opts s = (r, s')"
  shows "case r of
      Inl e \<Rightarrow> s' = s \<and> (\<forall>msg. e \<noteq> CaseBoxPersistenceError Audit_chain_desync msg)
    | Inr nx \<Rightarrow> \<exists>matter. getMatter m s = Some matter \<and> jget matter ''status'' = JStr ''active'' \<and>
        getMatter m s' = Some nx \<and> (\<forall>f. f \<notin> set EDITABLE_MATTER_DETAIL_FIELDS \<longrightarrow> jget nx f = jget matter f)"
  using updateMatterDetails_run [OF assms(1) conjunct1 [OF case_history_inv [OF assms(2,1) case_inv_new]] assms(3)]
  by (simp add: getMatter_def split: sum.splits)

theorem details_edit_touches_only_details_witness:
  "\<exists>matter. getMatter (JStr ''m1'') (snd (updateMatterDetails exCaseLib (exInputsCase ''c'') (JStr ''m1'') exEdit exCase2)) =
     Some matter \<and> jget matter ''name'' = JStr ''New'' \<and> jget matter ''parties'' = jget exMatter1 ''parties''"
proof -
  let ?run = "updateMatterDetails exCaseLib (exInputsCase ''c'') (JStr ''m1'') exEdit exCase2"
  have r: "?run = (Inr (jset exMatter1 ''name'' (JStr ''New'')), snd ?run)" by (metis exEdit_runs prod.collapse)
  have "jget (jset exMatter1 ''name'' (JStr ''New'')) ''name'' = JStr ''New''" by (simp add: exMatter1_def exMatter_def)
  moreover from details_edit_touches_only_details [OF exCaseLib_ok exCase2_reachable r] exCase2_matter
  have "getMatter (JStr ''m1'') (snd ?run) = Some (jset exMatter1 ''name'' (JStr ''New''))"
    "jget (jset exMatter1 ''name'' (JStr ''New'')) ''parties'' = jget exMatter1 ''parties''"
    by (auto simp: EDITABLE_MATTER_DETAIL_FIELDS_def)
  ultimately show ?thesis by blast
qed

text \<open>Every party of a stored matter carries an identity, a non-empty string no other party of the
  matter has, so the repair operation \<open>ensureMatterPartyIds\<close> finds nothing to do.\<close>

theorem parties_are_identified:
  assumes "case_lib_ok L" and "(case_step L)\<^sup>*\<^sup>* newCaseBoxPersistence s" and "getMatter m s = Some matter"
  shows "(\<forall>x\<in>set (party_ids matter). \<exists>p. x = JStr p \<and> p \<noteq> []) \<and> distinct (party_ids matter) \<and>
    snd (ensureMatterPartyIds L ci m actor s) = s"
proof -
  from case_history_inv [OF assms(2,1) case_inv_new] have inv: "case_inv L s" ..
  with assms(3) have "parties_ok matter" by (auto simp: getMatter_def intro: case_inv_matter(2))
  with ensureMatterPartyIds_run [OF inv prod.collapse [symmetric]] show ?thesis
    by (auto simp: parties_ok_def nonempty_string_iff)
qed

theorem parties_are_identified_witness:
  "distinct (party_ids exMatter1) \<and> length (party_ids exMatter1) = 2"
  using parties_are_identified [OF exCaseLib_ok exCase2_reachable exCase2_matter]
  by (simp add: party_ids_def exMatter1_def exMatter_def)

text \<open>Nothing automatic promotes anything: for an actor other than the lawyer, every transition of a
  matter, evidence item, fact, deadline, privilege marker or docket entry is refused, and of a
  document exactly the recognition steps are allowed, submission by ingestion and its outcome by the
  coordinator.\<close>

theorem pipeline_cannot_promote:
  assumes "by \<noteq> Lawyer"
  shows "assertValidMatterTransition f t by \<noteq> Inr () \<and> assertValidEvidenceTransition f t by \<noteq> Inr () \<and>
    assertValidFactTransition f t by \<noteq> Inr () \<and> assertValidDeadlineTransition f t by reason \<noteq> Inr () \<and>
    assertValidPrivilegeMarkerTransition f t by reason \<noteq> Inr () \<and> assertValidDocketEntryTransition f t by reason \<noteq> Inr () \<and>
    (assertValidDocumentTransition f t by = Inr () \<longleftrightarrow>
       by = Ingestion \<and> f = ''registered'' \<and> t = ''ocr_pending'' \<or>
       by = Coordinator \<and> f = ''ocr_pending'' \<and> (t = ''ocr_complete'' \<or> t = ''ocr_failed''))"
proof -
  have "\<not> isAllowed edges f t by" if "edges \<in> {ALLOWED_MATTER_EDGES, ALLOWED_EVIDENCE_EDGES, ALLOWED_DOCKET_ENTRY_EDGES,
      ALLOWED_PRIVILEGE_MARKER_EDGES, ALLOWED_FACT_EDGES, ALLOWED_DEADLINE_EDGES}" for edges
    using only_lawyers [OF that] assms by blast
  moreover have "assertValidDocumentTransition f t by = Inr () \<longleftrightarrow>
       by = Ingestion \<and> f = ''registered'' \<and> t = ''ocr_pending'' \<or>
       by = Coordinator \<and> f = ''ocr_pending'' \<and> (t = ''ocr_complete'' \<or> t = ''ocr_failed'')"
    using assms by (cases "by") (auto simp: assertValidDocumentTransition_def assertTransition_Inr isAllowed_def
        ALLOWED_DOCUMENT_EDGES_def TERMINAL_DOCUMENT_STATES_def)
  ultimately show ?thesis
    by (simp add: assertValidMatterTransition_def assertValidEvidenceTransition_def assertValidFactTransition_def
        assertValidDeadlineTransition_def assertValidPrivilegeMarkerTransition_def assertValidDocketEntryTransition_def
        assertTransition_Inr assertTransitionWithReason_Inr)
qed

theorem pipeline_cannot_promote_witness:
  "assertValidFactTransition ''reviewed'' ''accepted'' Coordinator \<noteq> Inr () \<and>
   assertValidDocumentTransition ''ocr_pending'' ''ocr_complete'' Coordinator = Inr ()"
  using pipeline_cannot_promote [of Coordinator "''reviewed''" "''accepted''"]
    pipeline_cannot_promote [of Coordinator "''ocr_pending''" "''ocr_complete''"] by simp

section \<open>Paging\<close>

text \<open>Following \<open>next_cursor\<close> of \<open>listOcrJobsByDocument\<close> from the first page ends and yields, for
  every legal limit, exactly the matching jobs, each once, in the documented order.\<close>

theorem job_pages_are_complete:
  assumes "codec_ok C" and "store_inv V p" and "resolveLimit (jq_limit q) = Inr l"
  shows "followCursors (Suc (length (sorted_jobs q p))) (\<lambda>c. listOcrJobsByDocument C (q\<lparr>jq_cursor := c\<rparr>) p) None
    = Some (sorted_jobs q p) \<and> distinct (sorted_jobs q p) \<and> sorted_wrt job_before (sorted_jobs q p) \<and>
    set (sorted_jobs q p) = {job \<in> set (mvals (p_jobs p)). job_matches q job}"
proof -
  have "set (sorted_jobs q p) = {job \<in> set (mvals (p_jobs p)). job_matches q job}"
    by (auto simp: sorted_jobs_def)
  then show ?thesis using walk_jobs [OF assms] sorted_jobs_order [OF assms(2)] by blast
qed

definition exJobsQuery :: ListOcrJobsByDocumentQuery where
  "exJobsQuery = \<lparr>jq_tenant_id = JStr ''t1'', jq_document_id = JStr ''d1'', jq_document_revision = JUndef,
     jq_limit = JInt 1, jq_cursor = None\<rparr>"

theorem job_pages_are_complete_witness:
  "\<exists>n. followCursors n (\<lambda>c. listOcrJobsByDocument exCodec (exJobsQuery\<lparr>jq_cursor := c\<rparr>) exSaved) None
    = Some (sorted_jobs exJobsQuery exSaved)"
proof -
  have "resolveLimit (jq_limit exJobsQuery) = Inr 1"
    by (simp add: exJobsQuery_def resolveLimit_def MAX_LIMIT_def)
  from job_pages_are_complete [OF exCodec_ok exSaved_inv this] show ?thesis by blast
qed

text \<open>C32. Following \<open>next_cursor\<close> of \<open>listOcrReviewPageRows\<close> from the first page ends after finitely many pages and
  yields, for every legal limit, exactly the results that recommend a manual review, of the stored jobs that
  match the filters, each once and in the documented order: the latest persisted first, then by job id, page
  number and page id, each ascending. The result schema is one that requires a page number and a page id.\<close>

theorem review_pages_are_complete:
  assumes "codec_ok C" and "store_inv V p" and "result_schema V" and "resolveLimit (rq_limit q) = Inr l"
  shows "\<exists>rows. followCursors (Suc (length rows)) (\<lambda>c. listOcrReviewPageRows C (q\<lparr>rq_cursor := c\<rparr>) p) None = Some rows \<and>
    distinct rows \<and>
    set rows = {(job, r). job \<in> set (mvals (p_jobs p)) \<and> review_job_matches q job \<and>
      r \<in> set (results_of p (jr_job_id job)) \<and> needs_review r} \<and>
    sorted_wrt (\<lambda>a b. rr_persisted_at (snd b) < rr_persisted_at (snd a) \<or>
      rr_persisted_at (snd a) = rr_persisted_at (snd b) \<and>
        (jr_job_id (fst a) < jr_job_id (fst b) \<or>
         jr_job_id (fst a) = jr_job_id (fst b) \<and>
           (int_of (row_page_number a) < int_of (row_page_number b) \<or>
            row_page_number a = row_page_number b \<and> js_key (row_page_id a) < js_key (row_page_id b)))) rows"
proof (intro exI conjI)
  show "followCursors (Suc (length (sorted_review_rows q p)))
      (\<lambda>c. listOcrReviewPageRows C (q\<lparr>rq_cursor := c\<rparr>) p) None = Some (sorted_review_rows q p)"
    by (rule walk_review_rows [OF assms])
  show "set (sorted_review_rows q p) =
      {(job, r). job \<in> set (mvals (p_jobs p)) \<and> review_job_matches q job \<and>
                 r \<in> set (results_of p (jr_job_id job)) \<and> needs_review r}"
    unfolding sorted_review_rows_def set_sort_by by auto
qed (use sorted_review_rows_order [OF assms(2,3)] in \<open>simp_all add: review_before_def [abs_def]\<close>)

definition exReviewQuery :: ListOcrReviewPageRowsQuery where
  "exReviewQuery = \<lparr>rq_tenant_id = JStr ''t1'', rq_document_id = JUndef, rq_document_revision = JUndef,
     rq_case_id = JUndef, rq_limit = JUndef, rq_cursor = None\<rparr>"

lemma exV_schema: "result_schema exV"
  by (auto simp: result_schema_def exV_def split: jval.splits)

theorem review_pages_are_complete_witness:
  "\<exists>n rows. followCursors n (\<lambda>c. listOcrReviewPageRows exCodec (exReviewQuery\<lparr>rq_cursor := c\<rparr>) exSaved) None = Some rows \<and>
    distinct rows"
proof -
  have "resolveLimit (rq_limit exReviewQuery) = Inr DEFAULT_LIMIT"
    by (simp add: exReviewQuery_def resolveLimit_def)
  from review_pages_are_complete [OF exCodec_ok exSaved_inv exV_schema this] show ?thesis by blast
qed

text \<open>C33. A cursor decodes to the sort tuple it was issued with, and only for the kind of list and the
  filters it was issued for.\<close>

theorem cursor_round_trip:
  assumes "codec_ok C" and "\<forall>x\<in>set tuple. sound_json x"
  shows "decodeCursor C (encodeCursor C (cursor_payload k h tuple)) k' h' =
    (if k' \<noteq> k then Inl (''wrong-kind cursor: expected '' @ cursor_kind_str k' @ '', got '' @ cursor_kind_str k)
     else if h' \<noteq> h then Inl ''cursor filters_hash does not match current query filters''
     else Inr tuple)"
  using decode_encode [OF assms] .

theorem cursor_round_trip_witness:
  "decodeCursor exCodec (encodeCursor exCodec (cursor_payload JobsByDocument ''h'' [JStr ''n0'', JStr ''j1'']))
     JobsByDocument ''h'' = Inr [JStr ''n0'', JStr ''j1'']"
  using cursor_round_trip [OF exCodec_ok, of "[JStr ''n0'', JStr ''j1'']" JobsByDocument "''h''" JobsByDocument "''h''"] by simp

text \<open>\<open>resolveLimit\<close> accepts exactly an absent limit, which means 50, and the integers 1 to 200.\<close>

theorem limits_are_bounded:
  "resolveLimit limit = Inr l \<longleftrightarrow> limit = JUndef \<and> l = 50 \<or> limit = JInt l \<and> 1 \<le> l \<and> l \<le> 200"
  by (auto simp: resolveLimit_def DEFAULT_LIMIT_def MAX_LIMIT_def split: jval.splits if_splits)

section \<open>The worker loop\<close>

text \<open>C34. With a cap on the iterations the loop returns, whatever the coordinator, the hooks and the
  sleep do.\<close>

theorem capped_loop_returns:
  assumes "lo_maxIterations opts = Some m"
  shows "\<exists>r s'. runOcrWorkerLoop opts s = Some (r, s')"
  using runLoop_returns [OF assms order_refl start_ok] by (auto simp: runOcrWorkerLoop_def)

theorem capped_loop_returns_witness: "runOcrWorkerLoop exLoop exWorld \<noteq> None"
  using capped_loop_returns [of exLoop 2 exWorld] by (auto simp: exLoop_def)

text \<open>The summary of a loop that returned is truthful: the histogram adds up to the iterations, the
  cap is respected, an error is reported exactly when the loop stopped on one, \<open>stopped\<close> means the
  signal was raised and \<open>max_iterations\<close> that the cap was reached.\<close>

theorem loop_summary_is_truthful:
  assumes "runOcrWorkerLoop opts s = Some (r, s')"
  shows "histogram_total (ls_outcomes r) = ls_iterations r \<and>
    (ls_last_outcome r = None \<longleftrightarrow> ls_iterations r = 0) \<and>
    (ls_stop_reason r = StopError \<longleftrightarrow> ls_last_error r \<noteq> None) \<and>
    (ls_stop_reason r = StopStopped \<longrightarrow> lo_aborted opts s') \<and>
    (\<forall>m. lo_maxIterations opts = Some m \<longrightarrow> int (ls_iterations r) \<le> max 0 m) \<and>
    (ls_stop_reason r = StopMaxIterations \<longrightarrow>
       (\<exists>m. lo_maxIterations opts = Some m \<and> int (ls_iterations r) = max 0 m))"
proof (cases "lo_aborted opts s")
  case True
  with assms show ?thesis
    by (auto simp: runOcrWorkerLoop_def finalizeLoop_def loopStart_def histogram_total_def)
next
  case False
  with assms have "runLoop opts loopStart s = Some (r, s')" by (simp add: runOcrWorkerLoop_def)
  from runLoop_ok [OF this start_ok] show ?thesis by (simp add: summary_ok_def)
qed

theorem loop_summary_is_truthful_witness:
  "\<exists>r s'. runOcrWorkerLoop exLoop exWorld = Some (r, s') \<and> int (ls_iterations r) \<le> 2"
proof -
  have cap: "lo_maxIterations exLoop = Some 2" by (simp add: exLoop_def)
  from runLoop_returns [OF this order_refl start_ok, of exWorld]
  obtain r s' where run: "runOcrWorkerLoop exLoop exWorld = Some (r, s')"
    by (auto simp: runOcrWorkerLoop_def exLoop_def)
  from loop_summary_is_truthful [OF run] cap run show ?thesis by auto
qed

section \<open>The review read models\<close>

text \<open>The per-page breakdown of the ingestion summary and the counts of the cross-job list agree
  and partition the submitted pages, when the submission's page ids are distinct.\<close>

theorem page_counts_agree_and_add_up:
  assumes "store_inv V p" and "getOcrJob i p = Some job"
    and "distinct (map (\<lambda>pg. jget pg ''page_id'') (submitted_pages job))"
  shows "pb_succeeded_pages (derivePageBreakdown job (listOcrResults i p)) = js_succeeded_pages (buildJobSummary job (listOcrResults i p)) \<and>
    pb_failed_pages (derivePageBreakdown job (listOcrResults i p)) = js_failed_pages (buildJobSummary job (listOcrResults i p)) \<and>
    pb_pending_pages (derivePageBreakdown job (listOcrResults i p)) = js_pending_pages (buildJobSummary job (listOcrResults i p)) \<and>
    js_succeeded_pages (buildJobSummary job (listOcrResults i p)) + js_failed_pages (buildJobSummary job (listOcrResults i p))
      + js_pending_pages (buildJobSummary job (listOcrResults i p)) = length (submitted_pages job)"
  using page_counts_agree [OF assms] breakdown_total [of job "listOcrResults i p"]
  by (simp add: derivePageBreakdown_def breakdown_fold)

theorem page_counts_agree_and_add_up_witness:
  "\<exists>job. getOcrJob ''j1'' exSaved = Some job \<and> js_succeeded_pages (buildJobSummary job (listOcrResults ''j1'' exSaved)) \<le> 1"
proof -
  have "(case getOcrJob ''j1'' exSaved of Some job \<Rightarrow> map (\<lambda>pg. jget pg ''page_id'') (submitted_pages job) = [JStr ''p1''] | None \<Rightarrow> False)"
    by code_simp
  then obtain job where job: "getOcrJob ''j1'' exSaved = Some job"
    and pages: "map (\<lambda>pg. jget pg ''page_id'') (submitted_pages job) = [JStr ''p1'']"
    by (auto split: option.splits)
  from pages have "distinct (map (\<lambda>pg. jget pg ''page_id'') (submitted_pages job))" "length (submitted_pages job) = 1" by auto
  with page_counts_agree_and_add_up [OF exSaved_inv job] job show ?thesis by auto
qed

text \<open>The three read models report the same state of a job: the lifecycle, the ingestion summary and
  the cross-job list, which read the timeline, the timeline and the cached column.\<close>

theorem read_models_agree_on_state:
  assumes "store_inv V p" and "getOcrJobLifecycle p i = Some lc" and "summarizeOcrIngestionOutcome p i = Some os"
  shows "lc_current_state lc = os_current_state os \<and>
    js_current_state (buildJobSummary (lc_job lc) (lc_results lc)) = lc_current_state lc \<and>
    lc_is_terminal lc = os_is_terminal os \<and>
    js_is_terminal (buildJobSummary (lc_job lc) (lc_results lc)) = lc_is_terminal lc \<and>
    (lc_is_terminal lc \<longleftrightarrow> terminal_timeline (payloads (lc_statuses lc)))"
proof -
  obtain job where job: "getOcrJob i p = Some job" using assms(2) by (auto simp: getOcrJobLifecycle_def split: option.splits)
  have "is_terminal_opt x \<longleftrightarrow> (\<exists>s. x = Some s \<and> isTerminalState s)" for x
    by (cases x) (auto simp: is_terminal_opt_def)
  with assms(2,3) job cached_state [OF assms(1) job] show ?thesis
    by (auto simp: getOcrJobLifecycle_def summarizeOcrIngestionOutcome_def buildJobSummary_def Let_def
        terminal_timeline_def deriveCurrentState_payloads)
qed

theorem read_models_agree_on_state_witness:
  "\<exists>lc os. getOcrJobLifecycle exSaved ''j1'' = Some lc \<and> summarizeOcrIngestionOutcome exSaved ''j1'' = Some os \<and>
     lc_current_state lc = os_current_state os"
proof -
  have "(case getOcrJob ''j1'' exSaved of Some job \<Rightarrow> True | None \<Rightarrow> False)" by code_simp
  then obtain lc os where run: "getOcrJobLifecycle exSaved ''j1'' = Some lc" "summarizeOcrIngestionOutcome exSaved ''j1'' = Some os"
    by (auto simp: getOcrJobLifecycle_def summarizeOcrIngestionOutcome_def Let_def split: option.splits)
  from read_models_agree_on_state [OF exSaved_inv run] run show ?thesis by blast
qed

text \<open>Tenant isolation of the review list: every page it returns is flagged for review and belongs to
  the tenant, and the document if one was given, of the query.\<close>

theorem review_list_stays_in_tenant:
  assumes "store_inv V p" and "listPagesNeedingManualReview C p q = Inr (rows, c)" and "x \<in> set rows"
  shows "rp_tenant_id x = rq_tenant_id q \<and> rp_manual_review_recommended x \<and>
    (rq_document_id q \<noteq> JUndef \<longrightarrow> rp_document_id x = rq_document_id q)"
  using listed_pages [OF assms] .

theorem review_list_stays_in_tenant_witness:
  "\<exists>rows c. listPagesNeedingManualReview exCodec exSaved exReviewQuery = Inr (rows, c) \<and> length rows = 1 \<and>
     rp_tenant_id (hd rows) = JStr ''t1''"
proof -
  have "(case listPagesNeedingManualReview exCodec exSaved exReviewQuery of Inr (rows, c) \<Rightarrow> length rows = 1 | Inl e \<Rightarrow> False)"
    by code_simp
  then obtain rows c where run: "listPagesNeedingManualReview exCodec exSaved exReviewQuery = Inr (rows, c)" "length rows = 1"
    by (auto split: sum.splits)
  then have "hd rows \<in> set rows" by (cases rows) auto
  from review_list_stays_in_tenant [OF exSaved_inv run(1) this] run show ?thesis by (auto simp: exReviewQuery_def)
qed

section \<open>Ingestion and the job adapter\<close>

text \<open>C35. \<open>ingestDocumentForOcr\<close> over the in-memory queue and store: a rejected request changes nothing,
  a store or queue error leaves the queue's jobs alone, and a success means the new job is in the
  store with an empty timeline and in the queue under the same id.\<close>

theorem ingestion_stores_and_enqueues:
  assumes "mb_inv q" and "ms_inv V p"
    and "ingestDocumentForOcr V (memoryDeps V sc) input env tid enq q p = (r, q', p')"
  shows "mb_inv q' \<and> ms_inv V p' \<and>
    (case r of
       Inl (Inl e) \<Rightarrow> q' = q \<and> p' = p
     | Inl (Inr e) \<Rightarrow> mb_pending q' = mb_pending q
     | Inr out \<Rightarrow>
         jr_job_id (io_job out) = ev_jobId env \<and> jr_submission (io_job out) = buildSubmission input env \<and>
         getOcrJob (ev_jobId env) (st_store p) = None \<and>
         getOcrJob (ev_jobId env) (st_store p') = Some (io_job out) \<and> ms_timeline p' (ev_jobId env) = [] \<and>
         mb_pending q' (ev_jobId env) = Some (er_job (io_enqueueResult out)))"
  using ingest_memory [OF assms] .

definition exInput :: jval where
  "exInput = JObj [(''tenant_id'', JStr ''t1''), (''document_id'', JStr ''d2''), (''submitted_by'', JStr ''u1''),
     (''pages'', JArr [JObj [(''page_id'', JStr ''p1''), (''page_number'', JInt 1), (''source'', JObj [])]])]"

definition exIngest :: "((IngestionError + exn) + IngestionOutcome) \<times> MemoryBackend \<times> StoreEnv" where
  "exIngest = ingestDocumentForOcr exV (memoryDeps exV None) exInput
     \<lparr>ev_jobId = ''j2'', ev_now = ''n1'', ev_contractVersion = None\<rparr> ''x2'' ''n1'' exBackend (exEnv exCreated)"

theorem ingestion_stores_and_enqueues_witness:
  "\<exists>out. fst exIngest = Inr out \<and> getOcrJob ''j2'' (st_store (snd (snd exIngest))) = Some (io_job out)"
proof -
  have "(case fst exIngest of Inr out \<Rightarrow> True | Inl e \<Rightarrow> False)" by code_simp
  then obtain out where out: "fst exIngest = Inr out" by (cases "fst exIngest") auto
  then have run: "exIngest = (Inr out, fst (snd exIngest), snd (snd exIngest))" by (metis run_parts)
  have "ms_inv exV (exEnv exCreated)" using exCreated_inv by (simp add: ms_inv_def exEnv_def)
  from ingestion_stores_and_enqueues [OF exBackend_inv this run [unfolded exIngest_def]] out show ?thesis
    by (simp add: exIngest_def [symmetric])
qed

text \<open>A request of more than one page is refused with the code \<open>multi_page_unsupported\<close>; what
  \<open>createOcrSubmissionFromDocument\<close> does return is contract-valid, has one page, carries the job id it
  was given and keeps the tenant and document of the request.\<close>

theorem submissions_are_single_page:
  assumes "createOcrSubmissionFromDocument V input env = r"
  shows "(\<forall>sub. r = Inr sub \<longrightarrow> v_submission V sub = None \<and> length (jelems (jget sub ''pages'')) = 1 \<and>
      jget sub ''job_id'' = JStr (ev_jobId env) \<and> jget sub ''tenant_id'' = jget input ''tenant_id'' \<and>
      jget sub ''document_id'' = jget input ''document_id'') \<and>
    (is_object input \<and> (\<forall>k\<in>{''tenant_id'', ''document_id'', ''submitted_by''}. \<exists>s. jget input k = JStr s \<and> s \<noteq> []) \<and>
       1 < length (jelems (jget input ''pages'')) \<longrightarrow> (\<exists>e. r = Inl e \<and> ie_code e = Some MULTI_PAGE_UNSUPPORTED))"
proof -
  have "v_submission V sub = None \<and> length (jelems (jget sub ''pages'')) = 1 \<and>
      jget sub ''job_id'' = JStr (ev_jobId env) \<and> jget sub ''tenant_id'' = jget input ''tenant_id'' \<and>
      jget sub ''document_id'' = jget input ''document_id''" if "r = Inr sub" for sub
    using create_Inr [of V input env sub] that assms buildSubmission_fields [of input env] by auto
  moreover have "\<exists>e. r = Inl e \<and> ie_code e = Some MULTI_PAGE_UNSUPPORTED"
    if "is_object input" "\<forall>k\<in>{''tenant_id'', ''document_id'', ''submitted_by''}. \<exists>s. jget input k = JStr s \<and> s \<noteq> []"
      "1 < length (jelems (jget input ''pages''))"
    using that assms
    by (cases "jelems (jget input ''pages'') = []") (auto simp: createOcrSubmissionFromDocument_def requireNonEmptyString_def MAX_V1_PAGES_PER_SUBMISSION_def)
  ultimately show ?thesis by blast
qed

theorem submissions_are_single_page_witness:
  "\<exists>sub. createOcrSubmissionFromDocument exV exInput \<lparr>ev_jobId = ''j2'', ev_now = ''n1'', ev_contractVersion = None\<rparr> = Inr sub \<and>
     jget sub ''job_id'' = JStr ''j2''"
proof -
  let ?env = "\<lparr>ev_jobId = ''j2'', ev_now = ''n1'', ev_contractVersion = None\<rparr>"
  have "(case createOcrSubmissionFromDocument exV exInput ?env of Inr sub \<Rightarrow> True | Inl e \<Rightarrow> False)" by code_simp
  then obtain sub where "createOcrSubmissionFromDocument exV exInput ?env = Inr sub" by (auto split: sum.splits)
  with submissions_are_single_page [OF refl, of exV exInput ?env] show ?thesis by simp
qed

text \<open>The adapter's \<open>processNextOcrJob\<close>: it returns an outcome only for a job it took off the queue
  after the outcome passed the contract; on any error the queue still holds the job.\<close>

theorem adapter_acknowledges_only_valid_outcomes:
  assumes "mb_inv q" and "processNextOcrJob V worker memoryBackend w q = (r, q')"
  shows "mb_inv q' \<and> (case r of Inl _ \<Rightarrow> mb_pending q' = mb_pending q | Inr None \<Rightarrow> mb_pending q' = mb_pending q
    | Inr (Some (job, out)) \<Rightarrow> mb_pending q (job_key job) = Some job \<and>
        mb_pending q' = (mb_pending q)(job_key job := None) \<and> validateWorkerOutcomeContract V out job = Inr (Inr ()))"
  using mem.processNextOcrJob_law [OF assms] .

theorem adapter_acknowledges_only_valid_outcomes_witness:
  "mb_inv (snd (processNextOcrJob exV exFails memoryBackend ''w1'' exBackend))"
  using adapter_acknowledges_only_valid_outcomes [OF exBackend_inv prod.collapse [symmetric], of exV exFails "''w1''"] by blast

section \<open>The engine bake-off\<close>

text \<open>C36. The two-row Levenshtein program computes the least number of single-token insertions,
  deletions and substitutions that turn one text into the other.\<close>

theorem levenshtein_is_edit_distance:
  "(edit1 ^^ levenshtein xs ys) xs ys \<and> (\<forall>n. (edit1 ^^ n) xs ys \<longrightarrow> levenshtein xs ys \<le> n)"
  using ed_edits [of xs ys] edits_ed [of _ xs ys] by (simp add: levenshtein_ed)

theorem levenshtein_is_edit_distance_witness:
  "(edit1 ^^ levenshtein ''kitten'' ''sitting'') ''kitten'' ''sitting'' \<and> levenshtein ''kitten'' ''sitting'' = 3"
proof -
  have "levenshtein ''kitten'' ''sitting'' = 3" by code_simp
  with levenshtein_is_edit_distance [of "''kitten''" "''sitting''"] show ?thesis by blast
qed

text \<open>C37. The character error rate lies between 0 and 1, is symmetric, and is 0 exactly when the two
  texts have the same normal form.\<close>

theorem cer_is_a_bounded_dissimilarity:
  "0 \<le> computeCER U r c \<and> computeCER U r c \<le> 1 \<and> computeCER U r c = computeCER U c r \<and>
    (computeCER U r c = 0 \<longleftrightarrow> normalizeForCer U r = normalizeForCer U c)"
  using computeCER_range [of U r c] computeCER_sym [of U r c] computeCER_0_iff [of U r c] by simp

text \<open>C38. The order score's dynamic program computes the length of the longest common subsequence, and
  that never exceeds what containment counted.\<close>

theorem order_program_is_longest_common_subsequence:
  "(\<exists>s. subseq s xs \<and> subseq s ys \<and> length s = lcsLength xs ys) \<and>
    (\<forall>s. subseq s xs \<and> subseq s ys \<longrightarrow> length s \<le> lcsLength xs ys) \<and>
    lcsLength xs ys \<le> countHits (countChars ys) xs 0"
  using lcs_common [of xs ys] lcs_greatest [of _ xs ys] lcs_le_contained [of xs ys]
  by (auto simp: lcsLength_lcs containment_inter)

theorem order_program_is_longest_common_subsequence_witness:
  "length ''abd'' \<le> lcsLength ''abcd'' ''xabd''"
proof -
  have "subseq ''abd'' ''abcd''" "subseq ''abd'' ''xabd''" by code_simp+
  with order_program_is_longest_common_subsequence [of "''abcd''" "''xabd''"] show ?thesis by blast
qed

text \<open>Aggregation accounts for every scored fixture: in each candidate's subgroup, successes and
  tallied failures add up to the subgroup's fixtures, whose number depends on the manifest alone, and
  every rate and mean error rate lies between 0 and 1.\<close>

theorem aggregation_accounts_for_every_fixture:
  assumes "aggregate U report fixtures expectedText = Inr agg"
    and "mget agg c = Some subs" and "(s, a) \<in> set subs"
  shows "aggregate_ok a \<and>
    sa_fixtures a = length (filter (\<lambda>f. isScored (br_role_filter report) f \<and> fixture_subgroup f = Some s) fixtures)"
proof -
  have "(c, subs) \<in> set agg" using assms(2) by (rule map_of_SomeD)
  with assms(1,3) obtain obs expected sub where
    "(s, a) \<in> set (aggregateSubgroup U expected (filter (isScored (br_role_filter report)) fixtures) obs sub)"
    by (auto simp: aggregate_def Let_def split: option.splits if_splits)
  from aggregateSubgroup_ok [OF this] show ?thesis by (simp add: conj_commute)
qed

definition exReport :: BakeoffRunReport where
  "exReport = \<lparr>br_role_filter = ''holdout'', br_fixtures_scored = 2, br_probes = [''apple''],
     br_observations = [SuccessObs ''f1'' ''apple'' [97, 98] 12 1048576, FailureObs ''f2'' ''apple'' ''Bad code'']\<rparr>"

definition exFixtures :: "BakeoffFixture list" where
  "exFixtures = [ActiveFixture ''f1'' ''holdout'' MediaPng, ActiveFixture ''f2'' ''holdout'' MediaPng,
     ActiveFixture ''f3'' ''smoke'' MediaPdf, PlaceholderFixture ''f4'']"

definition exUnicode :: Unicode where
  "exUnicode = \<lparr>u_nfc = id, u_nfkc = id\<rparr>"

definition exAggregates :: Aggregates where
  "exAggregates = (case aggregate exUnicode exReport exFixtures (\<lambda>f. [97, 99]) of Inr agg \<Rightarrow> agg | Inl e \<Rightarrow> [])"

lemma exAggregates_run: "aggregate exUnicode exReport exFixtures (\<lambda>f. [97, 99]) = Inr exAggregates"
  by (simp add: exAggregates_def aggregate_def exReport_def exFixtures_def isScored_def fixture_subgroup_def subgroupOf_def Let_def)

theorem aggregation_accounts_for_every_fixture_witness:
  "\<exists>a. mget exAggregates ''apple'' = Some [(Png, a)] \<and> sa_fixtures a = 2 \<and> aggregate_ok a"
proof -
  have "(case mget exAggregates ''apple'' of Some [(s, a)] \<Rightarrow> s = Png | _ \<Rightarrow> False)"
    by (simp add: exAggregates_def aggregate_def exReport_def exFixtures_def isScored_def fixture_subgroup_def
        subgroupOf_def firsts_def aggregateSubgroup_def Let_def)
  then obtain a where a: "mget exAggregates ''apple'' = Some [(Png, a)]"
    by (auto split: option.splits list.splits)
  then have "(Png, a) \<in> set [(Png, a)]" by simp
  from aggregation_accounts_for_every_fixture [OF exAggregates_run a this] a show ?thesis
    by (simp add: exFixtures_def isScored_def fixture_subgroup_def subgroupOf_def exReport_def)
qed

text \<open>C39. Evaluation awards a slot exactly when some candidate qualifies (it was measured, and every
  registered requirement was measured and holds, unrounded); the ranking lists exactly the qualifying
  candidates in the registered order, and the award goes to its first, which no other qualifying one
  precedes. The order is the registered one: at the first key on which two candidates were measured
  differently, a value comes before a missing one, the smaller of two values first on an ascending key and the larger
  on a descending one; candidates equal on every key are ordered by name.\<close>

theorem award_goes_to_best_qualifying:
  assumes "total_preorder_on UNIV (\<lambda>a b. localeCompare a b \<le> (0::rat))" and "result = evaluateSlot localeCompare agg sl"
  shows "(sr_awarded_to result = None \<longleftrightarrow> (\<forall>c. \<not> qualifies agg sl c)) \<and>
    set (sr_ranking result) = {c. qualifies agg sl c} \<and>
    sorted_wrt (ranks_before localeCompare agg (sl_rank_by sl)) (sr_ranking result) \<and>
    (\<forall>c. sr_awarded_to result = Some c \<longrightarrow> qualifies agg sl c \<and> hd (sr_ranking result) = c \<and>
       (\<forall>d. qualifies agg sl d \<longrightarrow> d \<noteq> c \<longrightarrow> ranks_before localeCompare agg (sl_rank_by sl) c d))"
proof -
  note rank = slot_ranking [OF assms(1), where agg = agg and sl = sl, folded assms(2), unfolded rank_le_ranks_before [abs_def]]
  show ?thesis
    using no_award [OF assms(1), where agg = agg and sl = sl] award [OF assms(1), where agg = agg and sl = sl] rank
    by (auto simp: assms(2) [symmetric] rank_le_ranks_before split: list.splits)
qed

definition exSlot :: SlotSpec where
  "exSlot = \<lparr>sl_slot = ''png'', sl_candidates = [''blank'', ''other'', ''apple'', ''hasty''],
     sl_requirements = [\<lparr>rq_subgroup = Png, rq_metric = Success_rate, rq_code = None, rq_at_least = True, rq_value = 1 / 2\<rparr>],
     sl_rank_by = [\<lparr>ky_subgroup = Png, ky_metric = Mean_cer_folded, ky_code = None, ky_asc = True\<rparr>]\<rparr>"

definition exCompare :: "string \<Rightarrow> string \<Rightarrow> rat" where
  "exCompare a b = (if a < b then - 1 else if b < a then 1 else 0)"

text \<open>Three candidates meet the requirement: \<open>apple\<close> with the smaller error rate, \<open>other\<close>, and \<open>blank\<close> without
  one; \<open>hasty\<close>, with the smallest of all, does not.\<close>

definition exMeasured :: "rat \<Rightarrow> rat option \<Rightarrow> SubgroupAggregate" where
  "exMeasured success cer = \<lparr>sa_fixtures = 4, sa_successes = 2, sa_failures = [], sa_success_rate = success,
     sa_mean_cer = cer, sa_mean_cer_folded = cer, sa_exact_rate = 0, sa_mean_containment = None, sa_mean_inflation = None,
     sa_mean_order = None, sa_p50_latency_ms = None, sa_p95_latency_ms = None, sa_max_rss_mb = None\<rparr>"

definition exMeasurements :: Aggregates where
  "exMeasurements = [(''apple'', [(Png, exMeasured (3 / 4) (Some (1 / 10)))]), (''other'', [(Png, exMeasured 1 (Some (1 / 5)))]),
     (''blank'', [(Png, exMeasured (1 / 2) None)]), (''hasty'', [(Png, exMeasured (1 / 4) (Some 0))])]"

theorem award_goes_to_best_qualifying_witness:
  "sr_awarded_to (evaluateSlot exCompare exMeasurements exSlot) = Some ''apple'' \<and>
   set (sr_ranking (evaluateSlot exCompare exMeasurements exSlot)) = {''apple'', ''other'', ''blank''}"
proof -
  have "total_preorder_on UNIV (\<lambda>a b. exCompare a b \<le> 0)"
    by (auto simp: total_preorder_on_def exCompare_def)
  note best = award_goes_to_best_qualifying [OF this refl, of exMeasurements exSlot]
  have some: "(\<exists>m. v = Some m \<and> P m) \<longleftrightarrow> (case v of None \<Rightarrow> False | Some m \<Rightarrow> P m)" for v :: "rat option" and P
    by (cases v) auto
  have q: "qualifies exMeasurements exSlot c \<longleftrightarrow> c \<in> {''apple'', ''other'', ''blank''}" for c
    unfolding qualifies_def some by (auto simp: exSlot_def exMeasurements_def exMeasured_def measure_metric_def)
  have "\<not> ranks_before exCompare exMeasurements (sl_rank_by exSlot) c ''apple''" if "c = ''other'' \<or> c = ''blank''" for c
    using that by (auto simp: ranks_before_def key_value_def better_on_def exSlot_def exMeasurements_def exMeasured_def measure_metric_def)
  moreover have apple: "qualifies exMeasurements exSlot ''apple''" by (simp add: q)
  with conjunct1 [OF best] obtain c where c: "sr_awarded_to (evaluateSlot exCompare exMeasurements exSlot) = Some c" by auto
  note award = conjunct2 [OF conjunct2 [OF conjunct2 [OF best]], rule_format, OF c]
  have "c = ''apple'' \<or> ranks_before exCompare exMeasurements (sl_rank_by exSlot) c ''apple''" using award apple by metis
  moreover have "c = ''apple'' \<or> c = ''other'' \<or> c = ''blank''" using conjunct1 [OF award] by (simp only: q insert_iff empty_iff simp_thms)
  ultimately have "c = ''apple''" by blast
  moreover have "set (sr_ranking (evaluateSlot exCompare exMeasurements exSlot)) = {''apple'', ''other'', ''blank''}"
    using conjunct1 [OF conjunct2 [OF best]] by (simp only: q Collect_mem_eq)
  ultimately show ?thesis using c by simp
qed

text \<open>C40. A result that passed \<open>assertCommittable\<close> holds, at any depth, none of the keys a page's text or
  identity could arrive under, and no key and, outside its schema name, no string with a path separator.\<close>

theorem committed_result_carries_no_page:
  assumes "assertCommittable (JObj kvs)"
  shows "(\<forall>key\<in>{''transcript'', ''observations'', ''cer_scores'', ''fixture_id'', ''path'', ''detail'', ''message''}.
      \<not> mentions key (JObj kvs)) \<and>
    (\<forall>(k, x)\<in>set kvs. CHR ''/'' \<notin> set k \<and> CHR 0x5C \<notin> set k \<and>
      (k \<noteq> ''schema'' \<longrightarrow> (\<forall>s\<in>strings_of x. CHR ''/'' \<notin> set s \<and> CHR 0x5C \<notin> set s)))"
proof -
  have "\<forall>key\<in>set forbiddenKeys. \<not> mentions key (JObj kvs)" using committable(1) [OF assms] by blast
  moreover have "\<forall>(k, x)\<in>set kvs. \<not> slashed k \<and> (k \<noteq> ''schema'' \<longrightarrow> (\<forall>s\<in>strings_of x. \<not> slashed s))"
    using committable(2,3) [OF assms] by blast
  ultimately show ?thesis unfolding forbiddenKeys_def slashed_def list.set de_Morgan_disj conj_assoc by blast
qed

theorem committed_result_carries_no_page_witness:
  "\<not> mentions ''transcript'' (JObj [(''schema'', JStr ''bakeoff-verdict/1''), (''control'', JNull)])"
proof -
  have "assertCommittable (JObj [(''schema'', JStr ''bakeoff-verdict/1''), (''control'', JNull)])"
    by (simp add: assertCommittable_def forbiddenKeys_def quote_def esc_char_def slashed_def)
  from committed_result_carries_no_page [OF this] show ?thesis by blast
qed

end
